(* ===== verification/Prelude.thy ===== *)
theory Prelude
  imports
    Complex_Main
    "HOL-Library.Word"
    "HOL-Library.Char_ord"
    "HOL-Library.List_Lexorder"
    "HOL-Library.Sublist"
    "HOL-Library.Multiset"
begin

text \<open>
  Shared vocabulary of the development.

  Rust data: \<open>u8\<close>, \<open>u16\<close>, \<open>u32\<close>, \<open>u64\<close> are words of their width (release builds
  wrap around); \<open>i64\<close> is \<open>int\<close> with saturation and wrap-around written out;
  \<open>usize\<close> is \<open>nat\<close> (lengths of lists in memory). A Rust \<open>String\<close> is its
  UTF-8 byte sequence, a \<open>char list\<close>: \<open>contains\<close>, \<open>starts_with\<close>, \<open>strip_prefix\<close>
  and the ordering of \<open>str\<close> are byte-wise in Rust as they are here, while
  \<open>chars\<close> and \<open>trim\<close> decode.
\<close>

named_theorems str_simps \<open>unfolding of the string operations on closed terms\<close>
named_theorems enum_simps \<open>facts about enumerated lists\<close>

type_synonym u8 = "8 word"
type_synonym u16 = "16 word"
type_synonym u32 = "32 word"
type_synonym u64 = "64 word"
type_synonym i32 = int
type_synonym i64 = int
type_synonym usize = nat

section \<open>Machine integers\<close>

definition i64_min :: int where
  "i64_min = - (2 ^ 63)"

definition i64_max :: int where
  "i64_max = 2 ^ 63 - 1"

definition in_i64 :: "int \<Rightarrow> bool" where
  "in_i64 x \<longleftrightarrow> i64_min \<le> x \<and> x \<le> i64_max"

text \<open>\<open>saturating_sub\<close> and the wrapping \<open>-\<close> of a release build on \<open>i64\<close>.\<close>

definition i64_saturating_sub :: "int \<Rightarrow> int \<Rightarrow> int" where
  "i64_saturating_sub a b = max i64_min (min i64_max (a - b))"

definition i64_wrap :: "int \<Rightarrow> int" where
  "i64_wrap x = (x + 2 ^ 63) mod 2 ^ 64 - 2 ^ 63"

text \<open>The casts \<open>x as i64\<close> of a \<open>u64\<close> and \<open>x as u32\<close> of an \<open>i64\<close>.\<close>

definition u64_as_i64 :: "u64 \<Rightarrow> int" where
  "u64_as_i64 x = sint x"

definition i64_as_u32 :: "int \<Rightarrow> u32" where
  "i64_as_u32 x = word_of_int x"

text \<open>\<open>saturating_add\<close> on an unsigned word.\<close>

definition sat_add :: "'a::len word \<Rightarrow> 'a word \<Rightarrow> 'a word" where
  "sat_add a b = (if a \<le> a + b then a + b else - 1)"

lemma i64_wrap_id: "in_i64 x \<Longrightarrow> i64_wrap x = x"
  by (simp add: in_i64_def i64_min_def i64_max_def i64_wrap_def)

lemma i64_saturating_sub_id: "in_i64 (a - b) \<Longrightarrow> i64_saturating_sub a b = a - b"
  by (simp add: in_i64_def i64_saturating_sub_def)

lemma unat_sat_add_1: "unat (sat_add (w :: 'a::len word) 1) = (if w = - 1 then unat w else Suc (unat w))"
proof (cases "w = - 1")
  case True
  then show ?thesis by (auto simp: sat_add_def)
next
  case False
  then have "unat (w + 1) = Suc (unat w)"
    by (metis add.commute add_eq_0_iff unatSuc)
  moreover from this have "w \<le> w + 1" by (simp add: word_le_nat_alt)
  ultimately show ?thesis using False by (simp add: sat_add_def)
qed

section \<open>Strings\<close>

definition starts_with :: "string \<Rightarrow> string \<Rightarrow> bool" where
  "starts_with s p = prefix p s"

definition strip_prefix :: "string \<Rightarrow> string \<Rightarrow> string option" where
  "strip_prefix s p = (if prefix p s then Some (drop (length p) s) else None)"

fun str_contains :: "string \<Rightarrow> string \<Rightarrow> bool" where
  "str_contains [] k = (k = [])"
| "str_contains (c # s) k = (prefix k (c # s) \<or> str_contains s k)"

lemma str_contains_iff_sublist: "str_contains s k \<longleftrightarrow> sublist k s"
  by (induction s) (auto simp: sublist_Cons_right)

lemma strip_prefix_Some: "strip_prefix s p = Some r \<longleftrightarrow> s = p @ r"
  by (auto simp: strip_prefix_def prefix_def)

lemma strip_prefix_None: "strip_prefix s p = None \<longleftrightarrow> \<not> starts_with s p"
  by (auto simp: strip_prefix_def starts_with_def)

text \<open>UTF-8: the width a leading byte announces, and the scalar value of one encoded character.\<close>

definition utf8_width :: "char \<Rightarrow> nat" where
  "utf8_width b = (let n = of_char b :: nat in
     if n < 128 then 1 else if n < 224 then 2 else if n < 240 then 3 else 4)"

fun utf8_split :: "string \<Rightarrow> string list" where
  "utf8_split [] = []"
| "utf8_split (b # bs) =
     (let k = utf8_width b - 1 in (b # take k bs) # utf8_split (drop k bs))"

definition utf8_decode :: "string \<Rightarrow> nat" where
  "utf8_decode ch = (case ch of [] \<Rightarrow> 0 | b # bs \<Rightarrow>
     (let n = of_char b :: nat;
          lead = (if n < 128 then n else if n < 224 then n mod 32
                  else if n < 240 then n mod 16 else n mod 8)
      in foldl (\<lambda>a c. a * 64 + (of_char c :: nat) mod 64) lead bs))"

text \<open>\<open>str::chars\<close>: the scalar values of a string, and their encoding.\<close>

definition chars :: "string \<Rightarrow> nat list" where
  "chars s = map utf8_decode (utf8_split s)"

definition utf8_encode :: "nat \<Rightarrow> string" where
  "utf8_encode c =
     (if c < 128 then [char_of c]
      else if c < 2048 then [char_of (192 + c div 64), char_of (128 + c mod 64)]
      else if c < 65536 then
        [char_of (224 + c div 4096), char_of (128 + c div 64 mod 64), char_of (128 + c mod 64)]
      else
        [char_of (240 + c div 262144), char_of (128 + c div 4096 mod 64),
         char_of (128 + c div 64 mod 64), char_of (128 + c mod 64)])"

lemma concat_utf8_split [simp]: "concat (utf8_split s) = s"
  by (induction s rule: utf8_split.induct) (auto simp: Let_def)

lemma utf8_split_Nil_iff [simp]: "utf8_split s = [] \<longleftrightarrow> s = []"
  by (cases s) (simp_all add: Let_def)

lemma chars_Nil_iff [simp]: "chars s = [] \<longleftrightarrow> s = []"
  by (simp add: chars_def)

text \<open>Unicode \<open>White_Space\<close>, as \<open>char::is_whitespace\<close> tests it.\<close>

definition is_whitespace :: "nat \<Rightarrow> bool" where
  "is_whitespace c \<longleftrightarrow> (9 \<le> c \<and> c \<le> 13) \<or> c = 32 \<or> c = 133 \<or> c = 160 \<or> c = 5760
     \<or> (8192 \<le> c \<and> c \<le> 8202) \<or> c = 8232 \<or> c = 8233 \<or> c = 8239 \<or> c = 8287 \<or> c = 12288"

definition trim :: "string \<Rightarrow> string" where
  "trim s = (let ws = (\<lambda>ch. is_whitespace (utf8_decode ch))
     in concat (rev (dropWhile ws (rev (dropWhile ws (utf8_split s))))))"

definition is_ascii :: "string \<Rightarrow> bool" where
  "is_ascii s = list_all (\<lambda>c. (of_char c :: nat) < 128) s"

definition ascii_lower :: "char \<Rightarrow> char" where
  "ascii_lower c = (let n = of_char c :: nat in if 65 \<le> n \<and> n \<le> 90 then char_of (n + 32) else c)"

definition to_ascii_lowercase :: "string \<Rightarrow> string" where
  "to_ascii_lowercase s = map ascii_lower s"

text \<open>
  \<open>str::to_lowercase\<close> applies the Unicode case tables. On ASCII it is fixed; the tables
  themselves are the parameter \<open>u\<close>.
\<close>

definition to_lowercase :: "(string \<Rightarrow> string) \<Rightarrow> string \<Rightarrow> string" where
  "to_lowercase u s = (if is_ascii s then to_ascii_lowercase s else u s)"

definition is_ascii_alphanumeric :: "char \<Rightarrow> bool" where
  "is_ascii_alphanumeric c = (let n = of_char c :: nat in
     (48 \<le> n \<and> n \<le> 57) \<or> (65 \<le> n \<and> n \<le> 90) \<or> (97 \<le> n \<and> n \<le> 122))"

fun split_char :: "char \<Rightarrow> string \<Rightarrow> string list" where
  "split_char d [] = [[]]"
| "split_char d (c # s) =
     (if c = d then [] # split_char d s
      else case split_char d s of [] \<Rightarrow> [[c]] | x # xs \<Rightarrow> (c # x) # xs)"

text \<open>\<open>Path::file_name\<close>: the last normal component.\<close>

definition path_file_name :: "string \<Rightarrow> string option" where
  "path_file_name p =
     (let cs = filter (\<lambda>c. c \<noteq> [] \<and> c \<noteq> ''.'') (split_char (CHR ''/'') p)
      in if cs = [] \<or> last cs = ''..'' then None else Some (last cs))"

fun join_str :: "string \<Rightarrow> string list \<Rightarrow> string" where
  "join_str sep [] = []"
| "join_str sep [x] = x"
| "join_str sep (x # y # xs) = x @ sep @ join_str sep (y # xs)"

text \<open>Decimal rendering, as \<open>Display\<close> of the integer types prints it.\<close>

fun show_nat :: "nat \<Rightarrow> string" where
  "show_nat n = (if n < 10 then [char_of (48 + n)] else show_nat (n div 10) @ [char_of (48 + n mod 10)])"

declare show_nat.simps [simp del]

definition show_int :: "int \<Rightarrow> string" where
  "show_int i = (if i < 0 then ''-'' @ show_nat (nat (- i)) else show_nat (nat i))"

lemma split_char_Nil [simp]: "split_char d s \<noteq> []"
  by (induction s) (auto split: list.splits)

lemma split_char_no_delim: "x \<in> set (split_char d s) \<Longrightarrow> d \<notin> set x"
  by (induction s arbitrary: x) (auto split: if_splits list.splits)

section \<open>Lists\<close>

text \<open>\<open>Vec::contains\<close> before \<open>push\<close>: keep the first occurrence, in order.\<close>

definition push_new :: "'a list \<Rightarrow> 'a \<Rightarrow> 'a list" where
  "push_new xs x = (if x \<in> set xs then xs else xs @ [x])"

lemma set_push_new [simp]: "set (push_new xs x) = insert x (set xs)"
  by (auto simp: push_new_def)

lemma distinct_push_new [simp]: "distinct (push_new xs x) \<longleftrightarrow> distinct xs"
  by (simp add: push_new_def)

lemma set_foldl_push_new: "set (foldl push_new xs ys) = set xs \<union> set ys"
  by (induction ys arbitrary: xs) auto

lemma distinct_foldl_push_new: "distinct xs \<Longrightarrow> distinct (foldl push_new xs ys)"
  by (induction ys arbitrary: xs) auto

text \<open>
  \<open>slice::sort_by\<close> is a stable sort. \<open>le a b\<close> is "the comparator does not return
  Greater": where that is a total preorder on the list, the result is the stable sorted
  permutation that insertion from the right builds. Where it is not (the comparators of scores take a NaN
  for a tie), the standard library may return some other permutation or panic; \<open>sort_by\<close> still
  returns a permutation, so the model leaves that panic out.
\<close>

fun insort_by :: "('a \<Rightarrow> 'a \<Rightarrow> bool) \<Rightarrow> 'a \<Rightarrow> 'a list \<Rightarrow> 'a list" where
  "insort_by le x [] = [x]"
| "insort_by le x (y # ys) = (if le x y then x # y # ys else y # insort_by le x ys)"

definition sort_by :: "('a \<Rightarrow> 'a \<Rightarrow> bool) \<Rightarrow> 'a list \<Rightarrow> 'a list" where
  "sort_by le xs = foldr (insort_by le) xs []"

lemma mset_insort_by [simp]: "mset (insort_by le x xs) = add_mset x (mset xs)"
  by (induction xs) auto

lemma mset_sort_by [simp]: "mset (sort_by le xs) = mset xs"
  by (induction xs) (auto simp: sort_by_def)

lemma set_sort_by [simp]: "set (sort_by le xs) = set xs"
  by (metis mset_sort_by set_mset_mset)

lemma length_sort_by [simp]: "length (sort_by le xs) = length xs"
  by (metis mset_sort_by size_mset)

lemma distinct_sort_by [simp]: "distinct (sort_by le xs) = distinct xs"
  by (metis mset_sort_by distinct_count_atmost_1 set_sort_by mset_eq_imp_distinct_iff)

lemma set_insort_by [simp]: "set (insort_by le x xs) = insert x (set xs)"
  by (induction xs) auto

lemma sorted_insort_by:
  assumes "\<And>a b. a \<in> S \<Longrightarrow> b \<in> S \<Longrightarrow> le a b \<or> le b a"
    and "\<And>a b c. a \<in> S \<Longrightarrow> b \<in> S \<Longrightarrow> c \<in> S \<Longrightarrow> le a b \<Longrightarrow> le b c \<Longrightarrow> le a c"
    and "x \<in> S" "set xs \<subseteq> S" "sorted_wrt le xs"
  shows "sorted_wrt le (insort_by le x xs)"
  using assms(4,5)
proof (induction xs)
  case Nil
  then show ?case by simp
next
  case (Cons y ys)
  then have y: "y \<in> S" and ys: "set ys \<subseteq> S" and yz: "\<And>z. z \<in> set ys \<Longrightarrow> le y z" and s: "sorted_wrt le ys" by auto
  show ?case
  proof (cases "le x y")
    case True
    have "le x z" if "z \<in> set ys" for z
      using assms(2) [OF assms(3) y _ True yz [OF that]] that ys by blast
    with True yz s show ?thesis by simp
  next
    case False
    with assms(1) [OF assms(3) y] have "le y x" by simp
    with Cons.IH [OF ys s] yz False show ?thesis by auto
  qed
qed

lemma sorted_sort_by_on:
  assumes "\<And>a b. a \<in> S \<Longrightarrow> b \<in> S \<Longrightarrow> le a b \<or> le b a"
    and "\<And>a b c. a \<in> S \<Longrightarrow> b \<in> S \<Longrightarrow> c \<in> S \<Longrightarrow> le a b \<Longrightarrow> le b c \<Longrightarrow> le a c"
    and "set xs \<subseteq> S"
  shows "sorted_wrt le (sort_by le xs)"
  using assms(3)
proof (induction xs)
  case Nil
  then show ?case by (simp add: sort_by_def)
next
  case (Cons x xs)
  then have "x \<in> S" "set (sort_by le xs) \<subseteq> S" "sorted_wrt le (sort_by le xs)" by auto
  from sorted_insort_by [OF assms(1,2) this] show ?case by (simp add: sort_by_def)
qed

lemma sorted_sort_by:
  assumes "\<And>a b. a \<in> set xs \<Longrightarrow> b \<in> set xs \<Longrightarrow> le a b \<or> le b a"
    and "\<And>a b c. le a b \<Longrightarrow> le b c \<Longrightarrow> le a c"
  shows "sorted_wrt le (sort_by le xs)"
  by (rule sorted_sort_by_on [OF assms(1) _ subset_refl]) (use assms(2) in blast)+

text \<open>Two sorted lists over an antisymmetric order with the same elements are equal.\<close>

lemma sorted_wrt_mset_unique:
  assumes "sorted_wrt le xs" "sorted_wrt le ys" "mset xs = mset ys"
    and "\<And>a b. a \<in> set xs \<Longrightarrow> b \<in> set xs \<Longrightarrow> le a b \<Longrightarrow> le b a \<Longrightarrow> a = b"
  shows "xs = ys"
  using assms
proof (induction xs arbitrary: ys)
  case Nil
  then show ?case by simp
next
  case (Cons x xs)
  then obtain y ys' where ys: "ys = y # ys'" by (cases ys) auto
  have xin: "x \<in> set ys" and yin: "y \<in> set (x # xs)"
    using Cons.prems(3) ys by (metis list.set_intros(1) set_mset_mset)+
  have "x = y"
  proof (rule ccontr)
    assume "x \<noteq> y"
    with xin yin ys have "x \<in> set ys'" "y \<in> set xs" by auto
    with Cons.prems(1,2) ys have "le x y" "le y x" by auto
    with Cons.prems(4) \<open>y \<in> set xs\<close> \<open>x \<noteq> y\<close> show False by auto
  qed
  moreover have "xs = ys'"
    by (rule Cons.IH) (use Cons.prems ys \<open>x = y\<close> in auto)
  ultimately show ?case using ys by simp
qed

lemma sort_by_perm_unique_on:
  assumes "mset xs = mset ys"
    and "\<And>a b. a \<in> set xs \<Longrightarrow> b \<in> set xs \<Longrightarrow> le a b \<or> le b a"
    and "\<And>a b c. a \<in> set xs \<Longrightarrow> b \<in> set xs \<Longrightarrow> c \<in> set xs \<Longrightarrow> le a b \<Longrightarrow> le b c \<Longrightarrow> le a c"
    and "\<And>a b. a \<in> set xs \<Longrightarrow> b \<in> set xs \<Longrightarrow> le a b \<Longrightarrow> le b a \<Longrightarrow> a = b"
  shows "sort_by le xs = sort_by le ys"
proof (rule sorted_wrt_mset_unique)
  have s: "set xs = set ys" using assms(1) by (metis set_mset_mset)
  show "sorted_wrt le (sort_by le xs)" by (rule sorted_sort_by_on [OF assms(2,3) subset_refl])
  show "sorted_wrt le (sort_by le ys)" by (rule sorted_sort_by_on [OF assms(2,3)]) (use s in blast)+
  show "mset (sort_by le xs) = mset (sort_by le ys)" using assms(1) by simp
qed (use assms(4) in auto)

text \<open>\<open>enumerate\<close> pairs each element with its index.\<close>

lemma enumerate_fst [enum_simps]: "map fst (enumerate n xs) = [n..<n + length xs]"
  by (simp add: enumerate_eq_zip)

lemma enumerate_mem [enum_simps]: "(i, x) \<in> set (enumerate n xs) \<longleftrightarrow> n \<le> i \<and> i < n + length xs \<and> xs ! (i - n) = x"
  by (auto simp: in_set_enumerate_eq)

text \<open>Casting a list index to \<open>u32\<close> is injective below \<open>2 ^ 32\<close>.\<close>

lemma of_nat_u32_inj: "i < 2 ^ 32 \<Longrightarrow> j < 2 ^ 32 \<Longrightarrow> (of_nat i :: u32) = of_nat j \<longleftrightarrow> i = j"
  by (auto dest!: arg_cong [where f = unat] simp: unat_of_nat)

section \<open>Loops that thread a state\<close>

text \<open>A \<open>for\<close> loop that updates a state and pushes one result per element.\<close>

fun map_state :: "('s \<Rightarrow> 'a \<Rightarrow> 's \<times> 'b) \<Rightarrow> 's \<Rightarrow> 'a list \<Rightarrow> 's \<times> 'b list" where
  "map_state f s [] = (s, [])"
| "map_state f s (x # xs) =
     (let (s1, y) = f s x; (s2, ys) = map_state f s1 xs in (s2, y # ys))"

lemma map_state_append:
  "map_state f s (xs @ ys) =
     (let (s1, us) = map_state f s xs; (s2, vs) = map_state f s1 ys in (s2, us @ vs))"
  by (induction xs arbitrary: s) (auto simp: Let_def split: prod.splits)

lemma map_state_map: "map_state f s (map g xs) = map_state (\<lambda>s x. f s (g x)) s xs"
  by (induction xs arbitrary: s) (auto simp: Let_def split: prod.splits)

text \<open>Nested loops are one loop over the concatenation.\<close>

lemma map_state_concat:
  "map_state f s (concat xss) =
     (let (s1, yss) = map_state (\<lambda>s xs. map_state f s xs) s xss in (s1, concat yss))"
  by (induction xss arbitrary: s) (auto simp: Let_def map_state_append split: prod.splits)

lemma map_state_Cons_fst: "fst (map_state f s (x # xs)) = fst (map_state f (fst (f s x)) xs)"
  by (simp add: Let_def split_beta)

lemma map_state_Cons_snd:
  "snd (map_state f s (x # xs)) = snd (f s x) # snd (map_state f (fst (f s x)) xs)"
  by (simp add: Let_def split_beta)

lemmas map_state_proj = map_state_Cons_fst map_state_Cons_snd

lemma map_state_fst: "fst (map_state f s xs) = foldl (\<lambda>s x. fst (f s x)) s xs"
  by (induction xs arbitrary: s) (simp_all add: map_state_proj del: map_state.simps(2))

lemma map_state_length [simp]: "length (snd (map_state f s xs)) = length xs"
  by (induction xs arbitrary: s) (simp_all add: map_state_proj del: map_state.simps(2))

text \<open>A part of the result that does not depend on the state is a plain map.\<close>

lemma map_state_map_snd:
  assumes "\<And>s x. x \<in> set xs \<Longrightarrow> g (snd (f s x)) = h x"
  shows "map g (snd (map_state f s xs)) = map h xs"
  using assms
proof (induction xs arbitrary: s)
  case Nil
  then show ?case by simp
next
  case (Cons x xs)
  then show ?case by (simp add: map_state_proj del: map_state.simps(2))
qed

lemma map_state_all:
  assumes "y \<in> set (snd (map_state f s xs))"
  obtains s' x where "x \<in> set xs" "y = snd (f s' x)"
  using assms
proof (induction xs arbitrary: s thesis)
  case Nil
  then show ?case by simp
next
  case (Cons x xs)
  obtain s1 y1 where 1: "f s x = (s1, y1)" by fastforce
  obtain s2 ys where 2: "map_state f s1 xs = (s2, ys)" by fastforce
  from Cons.prems(2) 1 2 consider "y = y1" | "y \<in> set (snd (map_state f s1 xs))" by auto
  then show ?case
  proof cases
    case 1
    with \<open>f s x = (s1, y1)\<close> show ?thesis by (intro Cons.prems(1) [of x s]) auto
  next
    case 2
    then show ?thesis by (rule Cons.IH [rotated]) (use Cons.prems(1) in auto)
  qed
qed

end
