(* ===== verification/Event_Types.thy ===== *)
theory Event_Types
  imports Prelude
begin

text \<open>
  \<open>aios-spec\<close>: raw events as the collectors deliver them (\<open>event.rs\<close>) and sanitized
  events as the privacy air-gap emits them (\<open>sanitized.rs\<close>). One record per struct and
  one datatype per enum, with the source's fields and variants; a prefix keeps field and
  variant names apart.
\<close>

section \<open>Enumerations shared by raw and sanitized events (event.rs)\<close>

datatype app_transition = Foreground | Background

datatype proc_state = ProcRunning | ProcSleeping | ProcZombie | ProcUnknown

datatype fs_access_type = FsOpenRead | FsOpenWrite | FsCreate | FsDelete

datatype notification_action = NotifTapped | NotifDismissed | NotifCancelled | NotifSeen

datatype source_tier = PublicApi | Daemon | PrivilegedDaemon | SystemImage

datatype interaction_type = NotifyPost | ActivityLaunch | ShareIntent | ServiceBind

datatype script_hint = Latin | Hanzi | Cyrillic | Arabic | Mixed | ScriptUnknown

datatype semantic_hint =
    FileMention
  | ImageMention
  | AudioMessage
  | LinkAttachment
  | UserMentioned
  | CalendarInvitation
  | FinancialContext
  | VerificationCode

datatype extension_category =
    ExtDocument
  | ExtImage
  | ExtVideo
  | ExtAudio
  | ExtArchive
  | ExtCode
  | ExtOther
  | ExtUnknown

datatype fs_activity_type = ActRead | ActWrite | ActCreate | ActDelete

datatype screen_state = Interactive | NonInteractive | KeyguardShown | KeyguardHidden

datatype network_type = Wifi | Cellular | Offline | NetUnknown

datatype ringer_mode = RingNormal | RingVibrate | RingSilent

datatype location_type = LocHome | LocWork | LocCommute | LocUnknown

record text_hint =
  th_length_chars :: usize
  th_script :: script_hint
  th_is_emoji_only :: bool

section \<open>Raw events\<close>

record app_transition_raw =
  atr_timestamp_ms :: i64
  atr_package_name :: string
  atr_activity_class :: "string option"
  atr_transition :: app_transition

record binder_tx =
  btx_timestamp_ms :: i64
  btx_source_pid :: u32
  btx_source_uid :: u32
  btx_target_service :: string
  btx_target_method :: string
  btx_is_oneway :: bool
  btx_payload_size :: u32

record proc_state_event =
  pse_timestamp_ms :: i64
  pse_pid :: u32
  pse_uid :: u32
  pse_package_name :: "string option"
  pse_vm_rss_kb :: u64
  pse_vm_swap_kb :: u64
  pse_threads :: u32
  pse_oom_score :: i32
  pse_io_read_mb :: u64
  pse_io_write_mb :: u64
  pse_state :: proc_state

record fs_access =
  fsa_timestamp_ms :: i64
  fsa_pid :: u32
  fsa_uid :: u32
  fsa_file_path :: string
  fsa_access_type :: fs_access_type
  fsa_bytes_transferred :: "u64 option"

record notification_raw =
  nr_timestamp_ms :: i64
  nr_package_name :: string
  nr_category :: "string option"
  nr_channel_id :: "string option"
  nr_raw_title :: string
  nr_raw_text :: string
  nr_title_hint :: "text_hint option"
  nr_text_hint :: "text_hint option"
  nr_semantic_hints :: "semantic_hint list"
  nr_is_ongoing :: bool
  nr_group_key :: "string option"
  nr_has_picture :: bool

record notification_interaction_raw =
  nir_timestamp_ms :: i64
  nir_package_name :: string
  nir_notification_key :: string
  nir_action :: notification_action

record screen_state_event =
  sse_timestamp_ms :: i64
  sse_state :: screen_state

record system_state_event =
  sys_timestamp_ms :: i64
  sys_battery_pct :: "u8 option"
  sys_is_charging :: bool
  sys_network :: network_type
  sys_ringer_mode :: ringer_mode
  sys_location_type :: location_type
  sys_headphone_connected :: bool
  sys_bluetooth_connected :: bool

datatype raw_event =
    RawAppTransition app_transition_raw
  | RawBinderTransaction binder_tx
  | RawProcStateChange proc_state_event
  | RawFileSystemAccess fs_access
  | RawNotificationPosted notification_raw
  | RawNotificationInteraction notification_interaction_raw
  | RawScreenState screen_state_event
  | RawSystemState system_state_event

record collector_envelope =
  env_schema_version :: string
  env_source :: string
  env_source_tier :: source_tier
  env_device_trace_id :: "string option"
  env_captured_at_ms :: i64
  env_received_at_ms :: "i64 option"
  env_raw_event :: raw_event

record ingested_raw_event =
  ing_raw_event :: raw_event
  ing_source_tier :: source_tier

section \<open>Sanitized events (sanitized.rs)\<close>

datatype sanitized_event_type =
    SeAppTransition (sat_package_name: string) (sat_activity_class: "string option")
      (sat_transition: app_transition)
  | SeInterAppInteraction (sia_source_package: "string option") (sia_target_service: string)
      (sia_interaction_type: interaction_type)
  | SeNotification (sn_source_package: string) (sn_category: "string option")
      (sn_channel_id: "string option") (sn_title_hint: text_hint) (sn_text_hint: text_hint)
      (sn_semantic_hints: "semantic_hint list") (sn_is_ongoing: bool) (sn_group_key: "string option")
  | SeProcessResource (spr_pid: u32) (spr_package_name: "string option") (spr_vm_rss_mb: u32)
      (spr_vm_swap_mb: u32) (spr_thread_count: u32) (spr_oom_score: i32)
  | SeFileActivity (sfa_package_name: "string option") (sfa_extension_category: extension_category)
      (sfa_activity_type: fs_activity_type) (sfa_is_hot_file: bool)
  | SeScreen (ssc_state: screen_state)
  | SeSystemStatus (sss_battery_pct: "u8 option") (sss_is_charging: bool) (sss_network: network_type)
      (sss_ringer_mode: ringer_mode) (sss_location_type: location_type) (sss_headphone_connected: bool)

record sanitized_event =
  se_event_id :: string
  se_timestamp_ms :: i64
  se_event_type :: sanitized_event_type
  se_source_tier :: source_tier
  se_app_package :: "string option"
  se_uid :: "u32 option"

section \<open>Debug names\<close>

text \<open>\<open>format!("\{:?}", x)\<close> of the field-less enums prints the variant's name.\<close>

fun debug_semantic_hint :: "semantic_hint \<Rightarrow> string" where
  "debug_semantic_hint FileMention = ''FileMention''"
| "debug_semantic_hint ImageMention = ''ImageMention''"
| "debug_semantic_hint AudioMessage = ''AudioMessage''"
| "debug_semantic_hint LinkAttachment = ''LinkAttachment''"
| "debug_semantic_hint UserMentioned = ''UserMentioned''"
| "debug_semantic_hint CalendarInvitation = ''CalendarInvitation''"
| "debug_semantic_hint FinancialContext = ''FinancialContext''"
| "debug_semantic_hint VerificationCode = ''VerificationCode''"

fun debug_extension_category :: "extension_category \<Rightarrow> string" where
  "debug_extension_category ExtDocument = ''Document''"
| "debug_extension_category ExtImage = ''Image''"
| "debug_extension_category ExtVideo = ''Video''"
| "debug_extension_category ExtAudio = ''Audio''"
| "debug_extension_category ExtArchive = ''Archive''"
| "debug_extension_category ExtCode = ''Code''"
| "debug_extension_category ExtOther = ''Other''"
| "debug_extension_category ExtUnknown = ''Unknown''"

end
