(* ===== verification/Float.thy ===== *)
theory Float
  imports Prelude "HOL-Library.Log_Nat"
begin

text \<open>
  IEEE 754 binary floating point as Rust's \<open>f32\<close> and \<open>f64\<close> use it. A value is a
  NaN, an infinity or a finite rational; an operation computes the exact rational and
  rounds it to the nearest representable value, ties to even. The sign of zero is not
  kept: no operation modelled here distinguishes the two zeros. \<open>2 powi e\<close> is the
  weight of one unit in the last place.

  The lemmas: rounding is monotone and odd, fixes representable values, and a value below
  a representable bound rounds below it.
\<close>

datatype fp = FNaN | FInf bool | FFin rat

type_synonym f32 = fp
type_synonym f64 = fp

record float_format =
  ff_prec :: nat
  ff_emin :: int
  ff_emax :: nat

definition fmt32 :: float_format where
  "fmt32 = \<lparr>ff_prec = 24, ff_emin = -149, ff_emax = 128\<rparr>"

definition fmt64 :: float_format where
  "fmt64 = \<lparr>ff_prec = 53, ff_emin = -1074, ff_emax = 1024\<rparr>"

section \<open>Rounding\<close>

definition round_even :: "rat \<Rightarrow> int" where
  "round_even y = (let f = \<lfloor>y\<rfloor>; d = y - of_int f in
     if d < 1 / 2 then f else if 1 / 2 < d then f + 1 else if even f then f else f + 1)"

definition ilog2 :: "rat \<Rightarrow> int" where
  "ilog2 x = (let (a, b) = quotient_of \<bar>x\<bar>; e = bitlen a - bitlen b in
     if \<bar>x\<bar> < 2 powi e then e - 1 else e)"

definition ulp_exp :: "nat \<Rightarrow> int \<Rightarrow> rat \<Rightarrow> int" where
  "ulp_exp p emin x = max emin (ilog2 x - int p + 1)"

definition fp_round :: "nat \<Rightarrow> int \<Rightarrow> rat \<Rightarrow> rat" where
  "fp_round p emin x = (let s = ulp_exp p emin x in of_int (round_even (x / 2 powi s)) * 2 powi s)"

text \<open>The value a finite exact result rounds to; too large a result overflows to an infinity.\<close>

definition fp_of_rat :: "float_format \<Rightarrow> rat \<Rightarrow> fp" where
  "fp_of_rat f x = (let r = fp_round (ff_prec f) (ff_emin f) x in
     if 2 ^ ff_emax f \<le> \<bar>r\<bar> then FInf (r < 0) else FFin r)"

abbreviation f32_lit :: "rat \<Rightarrow> f32" where
  "f32_lit \<equiv> fp_of_rat fmt32"

abbreviation f64_lit :: "rat \<Rightarrow> f64" where
  "f64_lit \<equiv> fp_of_rat fmt64"

section \<open>Comparisons and arithmetic\<close>

fun fp_lt :: "fp \<Rightarrow> fp \<Rightarrow> bool" where
  "fp_lt (FFin a) (FFin b) = (a < b)"
| "fp_lt (FInf s) (FFin b) = s"
| "fp_lt (FFin a) (FInf s) = (\<not> s)"
| "fp_lt (FInf s) (FInf t) = (s \<and> \<not> t)"
| "fp_lt _ _ = False"

fun fp_eq :: "fp \<Rightarrow> fp \<Rightarrow> bool" where
  "fp_eq FNaN b = False"
| "fp_eq a b = (a = b)"

definition fp_le :: "fp \<Rightarrow> fp \<Rightarrow> bool" where
  "fp_le a b \<longleftrightarrow> fp_lt a b \<or> fp_eq a b"

fun fp_add :: "float_format \<Rightarrow> fp \<Rightarrow> fp \<Rightarrow> fp" where
  "fp_add f (FFin a) (FFin b) = fp_of_rat f (a + b)"
| "fp_add f (FInf s) (FFin b) = FInf s"
| "fp_add f (FFin a) (FInf s) = FInf s"
| "fp_add f (FInf s) (FInf t) = (if s = t then FInf s else FNaN)"
| "fp_add f _ _ = FNaN"

fun fp_neg :: "fp \<Rightarrow> fp" where
  "fp_neg (FFin a) = FFin (- a)"
| "fp_neg (FInf s) = FInf (\<not> s)"
| "fp_neg FNaN = FNaN"

definition fp_sub :: "float_format \<Rightarrow> fp \<Rightarrow> fp \<Rightarrow> fp" where
  "fp_sub f a b = fp_add f a (fp_neg b)"

fun fp_mul :: "float_format \<Rightarrow> fp \<Rightarrow> fp \<Rightarrow> fp" where
  "fp_mul f (FFin a) (FFin b) = fp_of_rat f (a * b)"
| "fp_mul f (FInf s) (FFin b) = (if b = 0 then FNaN else FInf (s \<noteq> (b < 0)))"
| "fp_mul f (FFin a) (FInf s) = (if a = 0 then FNaN else FInf (s \<noteq> (a < 0)))"
| "fp_mul f (FInf s) (FInf t) = FInf (s \<noteq> t)"
| "fp_mul f _ _ = FNaN"

fun fp_div :: "float_format \<Rightarrow> fp \<Rightarrow> fp \<Rightarrow> fp" where
  "fp_div f (FFin a) (FFin b) =
     (if b = 0 then if a = 0 then FNaN else FInf (a < 0) else fp_of_rat f (a / b))"
| "fp_div f (FInf s) (FFin b) = FInf (s \<noteq> (b < 0))"
| "fp_div f (FFin a) (FInf s) = FFin 0"
| "fp_div f _ _ = FNaN"

text \<open>\<open>round\<close>: to the nearest integer, halves away from zero; \<open>as u32\<close>: truncation that saturates.\<close>

fun fp_round_int :: "fp \<Rightarrow> fp" where
  "fp_round_int (FFin a) =
     FFin (of_int (if a < 0 then - \<lfloor>1 / 2 - a\<rfloor> else \<lfloor>a + 1 / 2\<rfloor>))"
| "fp_round_int x = x"

fun fp_as_u32 :: "fp \<Rightarrow> u32" where
  "fp_as_u32 (FFin a) = (if a \<le> 0 then 0 else if 2 ^ 32 \<le> a then - 1 else of_int \<lfloor>a\<rfloor>)"
| "fp_as_u32 (FInf s) = (if s then 0 else - 1)"
| "fp_as_u32 FNaN = 0"

fun fp_abs :: "fp \<Rightarrow> fp" where
  "fp_abs (FFin a) = FFin \<bar>a\<bar>"
| "fp_abs (FInf s) = FInf False"
| "fp_abs FNaN = FNaN"

text \<open>\<open>f32::min\<close> and \<open>f32::max\<close> return the other operand of a NaN; \<open>clamp\<close> keeps a NaN.\<close>

definition fp_min :: "fp \<Rightarrow> fp \<Rightarrow> fp" where
  "fp_min a b = (if a = FNaN then b else if b = FNaN then a else if fp_lt b a then b else a)"

definition fp_max :: "fp \<Rightarrow> fp \<Rightarrow> fp" where
  "fp_max a b = (if a = FNaN then b else if b = FNaN then a else if fp_lt a b then b else a)"

definition fp_clamp :: "fp \<Rightarrow> fp \<Rightarrow> fp \<Rightarrow> fp" where
  "fp_clamp lo hi x = (let y = (if fp_lt x lo then lo else x) in if fp_lt hi y then hi else y)"

text \<open>
  \<open>a.partial_cmp(b).unwrap_or(Equal)\<close> is not \<open>Greater\<close>; \<open>Less\<close>; \<open>Equal\<close>. A NaN
  compares equal to everything.
\<close>

definition fp_cmp_eq :: "fp \<Rightarrow> fp \<Rightarrow> bool" where
  "fp_cmp_eq a b \<longleftrightarrow> \<not> fp_lt a b \<and> \<not> fp_lt b a"

section \<open>Order facts\<close>

lemma fp_lt_irrefl [simp]: "\<not> fp_lt a a"
  by (cases a) auto

lemma fp_lt_trans: "fp_lt a b \<Longrightarrow> fp_lt b c \<Longrightarrow> fp_lt a c"
  by (cases a; cases b; cases c) auto

lemma fp_lt_asym: "fp_lt a b \<Longrightarrow> \<not> fp_lt b a"
  using fp_lt_trans fp_lt_irrefl by blast

lemma fp_lt_NaN [simp]: "\<not> fp_lt FNaN a" "\<not> fp_lt a FNaN"
  by (cases a; simp)+

lemma fp_lt_total: "a \<noteq> FNaN \<Longrightarrow> b \<noteq> FNaN \<Longrightarrow> fp_lt a b \<or> a = b \<or> fp_lt b a"
  by (cases a; cases b) auto

lemma fp_le_FFin [simp]: "fp_le (FFin a) (FFin b) \<longleftrightarrow> a \<le> b"
  by (auto simp: fp_le_def)

lemma fp_le_trans: "fp_le a b \<Longrightarrow> fp_le b c \<Longrightarrow> fp_le a c"
  by (cases a; cases b; cases c) (auto simp: fp_le_def)

lemma fp_not_lt_le: "a \<noteq> FNaN \<Longrightarrow> b \<noteq> FNaN \<Longrightarrow> \<not> fp_lt a b \<longleftrightarrow> fp_le b a"
  by (cases a; cases b) (auto simp: fp_le_def)

lemma fp_clamp_le_hi: "x \<noteq> FNaN \<Longrightarrow> lo \<noteq> FNaN \<Longrightarrow> hi \<noteq> FNaN \<Longrightarrow> fp_le (fp_clamp lo hi x) hi"
  by (cases x; cases lo; cases hi) (auto simp: fp_clamp_def fp_le_def Let_def)

lemma fp_clamp_ge_lo: "x \<noteq> FNaN \<Longrightarrow> fp_le lo hi \<Longrightarrow> fp_le lo (fp_clamp lo hi x)"
  by (cases x; cases lo; cases hi) (auto simp: fp_clamp_def fp_le_def Let_def)

lemma fp_clamp_NaN [simp]: "fp_clamp lo hi FNaN = FNaN"
  by (simp add: fp_clamp_def)

lemma fp_clamp_not_NaN: "x \<noteq> FNaN \<Longrightarrow> lo \<noteq> FNaN \<Longrightarrow> hi \<noteq> FNaN \<Longrightarrow> fp_clamp lo hi x \<noteq> FNaN"
  by (auto simp: fp_clamp_def Let_def)

section \<open>Rounding is monotone\<close>

lemma round_even_mono: "x \<le> y \<Longrightarrow> round_even x \<le> round_even y"
proof -
  assume le: "x \<le> y"
  then have f: "\<lfloor>x\<rfloor> \<le> \<lfloor>y\<rfloor>" by (rule floor_mono)
  show ?thesis
  proof (cases "\<lfloor>x\<rfloor> = \<lfloor>y\<rfloor>")
    case True
    with le show ?thesis by (auto simp: round_even_def Let_def)
  next
    case False
    with f have "\<lfloor>x\<rfloor> + 1 \<le> \<lfloor>y\<rfloor>" by simp
    moreover have "round_even x \<le> \<lfloor>x\<rfloor> + 1" "\<lfloor>y\<rfloor> \<le> round_even y"
      by (auto simp: round_even_def Let_def)
    ultimately show ?thesis by linarith
  qed
qed

lemma round_even_of_int [simp]: "round_even (of_int n) = n"
  by (simp add: round_even_def)

lemma round_even_uminus: "round_even (- y) = - round_even y"
proof (cases "y = of_int \<lfloor>y\<rfloor>")
  case True
  then show ?thesis by (metis of_int_minus round_even_of_int)
next
  case False
  then have y: "of_int \<lfloor>y\<rfloor> < y" using of_int_floor_le [of y] by linarith
  then have f: "\<lfloor>- y\<rfloor> = - \<lfloor>y\<rfloor> - 1"
    by (intro floor_unique) (use floor_correct [of y] in auto)
  show ?thesis
    unfolding round_even_def f Let_def using y by auto
qed

lemma bitlen_bounds_rat:
  assumes "0 < a"
  shows "2 powi (bitlen a - 1) \<le> (of_int a :: rat) \<and> (of_int a :: rat) < 2 powi bitlen a"
proof -
  have "1 \<le> bitlen a" using assms by (simp add: bitlen_ge_iff_power)
  then have "(2 :: rat) powi (bitlen a - 1) = of_int (2 ^ nat (bitlen a - 1))"
    and "(2 :: rat) powi bitlen a = of_int (2 ^ nat (bitlen a))"
    by (simp_all add: power_int_def)
  with bitlen_bounds [OF assms] show ?thesis by (simp only: of_int_le_iff of_int_less_iff)
qed

lemma ilog2_bounds:
  assumes "x \<noteq> 0"
  shows "2 powi ilog2 x \<le> \<bar>x\<bar> \<and> \<bar>x\<bar> < 2 powi (ilog2 x + 1)"
proof -
  obtain a b where q: "quotient_of \<bar>x\<bar> = (a, b)" by fastforce
  then have b: "0 < b" and x: "\<bar>x\<bar> = of_int a / of_int b"
    by (auto dest: quotient_of_denom_pos quotient_of_div)
  have "0 < \<bar>x\<bar>" using assms by simp
  with b have a: "0 < a" unfolding x by (simp add: zero_less_divide_iff)
  let ?e = "bitlen a - bitlen b"
  note A = bitlen_bounds_rat [OF a] and B = bitlen_bounds_rat [OF b]
  have lo: "2 powi (?e - 1) < \<bar>x\<bar>"
  proof -
    have "2 powi (?e - 1) * of_int b < 2 powi (?e - 1) * (2 powi bitlen b :: rat)"
      using B by simp
    also have "\<dots> = 2 powi (bitlen a - 1)" by (simp flip: power_int_add)
    finally have "2 powi (?e - 1) * of_int b < (of_int a :: rat)" using A by linarith
    then show ?thesis using b by (simp add: x pos_less_divide_eq)
  qed
  have hi: "\<bar>x\<bar> < 2 powi (?e + 1)"
  proof -
    have "(2 powi bitlen a :: rat) = 2 powi (?e + 1) * 2 powi (bitlen b - 1)"
      by (simp flip: power_int_add)
    also have "\<dots> \<le> 2 powi (?e + 1) * of_int b" using B by simp
    finally have "(of_int a :: rat) < 2 powi (?e + 1) * of_int b" using A by linarith
    then show ?thesis using b by (simp add: x pos_divide_less_eq)
  qed
  have "quotient_of \<bar>x\<bar> = (a, b)" by (rule q)
  then have "ilog2 x = (if \<bar>x\<bar> < 2 powi ?e then ?e - 1 else ?e)"
    by (simp only: ilog2_def Let_def split_conv)
  then show ?thesis using lo hi by simp
qed

lemma ilog2_mono: "0 < x \<Longrightarrow> x \<le> y \<Longrightarrow> ilog2 x \<le> ilog2 y"
proof -
  assume "0 < x" "x \<le> y"
  then have "2 powi ilog2 x < (2 :: rat) powi (ilog2 y + 1)"
    using ilog2_bounds [of x] ilog2_bounds [of y] by linarith
  then have "\<not> ilog2 y + 1 \<le> ilog2 x"
    using power_int_increasing [of "ilog2 y + 1" "ilog2 x" "2 :: rat"] by auto
  then show ?thesis by simp
qed

lemma ulp_exp_mono: "0 < x \<Longrightarrow> x \<le> y \<Longrightarrow> ulp_exp p m x \<le> ulp_exp p m y"
  using ilog2_mono [of x y] by (simp add: ulp_exp_def)

lemma fp_round_0 [simp]: "fp_round p m 0 = 0"
  using round_even_of_int [of 0] by (simp add: fp_round_def Let_def)

lemma ilog2_uminus [simp]: "ilog2 (- x) = ilog2 x"
  by (simp add: ilog2_def)

lemma fp_round_uminus: "fp_round p m (- x) = - fp_round p m x"
  by (simp add: fp_round_def ulp_exp_def Let_def round_even_uminus)

lemma fp_round_mono_pos:
  assumes "0 < x" "x \<le> y" "0 < p"
  shows "fp_round p m x \<le> fp_round p m y"
proof -
  let ?s = "ulp_exp p m x" and ?t = "ulp_exp p m y"
  show ?thesis
  proof (cases "?s = ?t")
    case True
    have "round_even (x / 2 powi ?t) \<le> round_even (y / 2 powi ?t)"
      by (rule round_even_mono) (use assms(2) in \<open>simp add: divide_right_mono\<close>)
    with True show ?thesis by (simp add: fp_round_def Let_def mult_right_mono)
  next
    case False
    then have st: "?s + 1 \<le> ?t" using ulp_exp_mono [OF assms(1,2), of p m] by linarith
    then have t: "?t = ilog2 y - int p + 1" by (auto simp: ulp_exp_def split: if_splits)
    have lx: "ilog2 x + 1 \<le> ?s + int p" by (simp add: ulp_exp_def)
    have "x < 2 powi (?s + int p)"
      using ilog2_bounds [of x] assms(1) power_int_increasing [OF lx, of "2 :: rat"] by simp
    then have "x / 2 powi ?s \<le> of_int (2 ^ p)"
      by (simp add: power_int_add pos_divide_le_eq mult.commute)
    from round_even_mono [OF this] have rx: "round_even (x / 2 powi ?s) \<le> 2 ^ p"
      by (simp only: round_even_of_int)
    have "2 powi (int p - 1 + ?t) \<le> y"
      using ilog2_bounds [of y] assms t by simp
    then have "of_int (2 ^ (p - 1)) \<le> y / 2 powi ?t"
      using assms(3) by (simp add: power_int_add pos_le_divide_eq flip: power_int_of_nat)
    from round_even_mono [OF this] have ry: "2 ^ (p - 1) \<le> round_even (y / 2 powi ?t)"
      by (simp only: round_even_of_int)
    have "rat_of_int (round_even (x / 2 powi ?s)) \<le> of_int (2 ^ p)"
      "rat_of_int (2 ^ (p - 1)) \<le> of_int (round_even (y / 2 powi ?t))"
      using rx ry by (simp_all only: of_int_le_iff)
    then have lo: "rat_of_int (round_even (x / 2 powi ?s)) \<le> 2 ^ p"
      and hi: "2 ^ (p - 1) \<le> rat_of_int (round_even (y / 2 powi ?t))" by simp_all
    have "fp_round p m x \<le> 2 ^ p * 2 powi ?s"
      unfolding fp_round_def Let_def by (rule mult_right_mono [OF lo]) simp
    also have "\<dots> = 2 ^ (p - 1) * 2 powi (?s + 1)"
      using assms(3) by (cases p) (auto simp: power_int_add)
    also have "\<dots> \<le> 2 ^ (p - 1) * 2 powi ?t"
      using st by (simp add: power_int_increasing)
    also have "\<dots> \<le> fp_round p m y"
      unfolding fp_round_def Let_def by (rule mult_right_mono [OF hi]) simp
    finally show ?thesis .
  qed
qed

lemma fp_round_nonneg: "0 \<le> x \<Longrightarrow> 0 \<le> fp_round p m x"
  using round_even_mono [of 0 "x / 2 powi ulp_exp p m x"] round_even_of_int [of 0]
  by (simp add: fp_round_def Let_def)

theorem fp_round_mono:
  assumes "x \<le> y" "0 < p"
  shows "fp_round p m x \<le> fp_round p m y"
proof (cases "0 < x")
  case True
  with assms show ?thesis by (intro fp_round_mono_pos)
next
  case x: False
  show ?thesis
  proof (cases "0 \<le> y")
    case True
    with x show ?thesis
      using fp_round_nonneg [of y p m] fp_round_nonneg [of "- x" p m] by (simp add: fp_round_uminus)
  next
    case False
    with assms fp_round_mono_pos [of "- y" "- x" p m] show ?thesis by (simp add: fp_round_uminus)
  qed
qed

text \<open>A representable value is a fixed point of rounding; a sum below it stays below it.\<close>

definition fp_rep :: "float_format \<Rightarrow> fp \<Rightarrow> bool" where
  "fp_rep f v \<longleftrightarrow> (case v of FFin x \<Rightarrow> fp_round (ff_prec f) (ff_emin f) x = x \<and> \<bar>x\<bar> < 2 ^ ff_emax f | _ \<Rightarrow> True)"

lemma fp_add_le_rep:
  assumes "fp_rep f (FFin b)" "x + d \<le> b" "0 < ff_prec f"
  shows "fp_le (fp_add f (FFin x) (FFin d)) (FFin b)"
proof -
  have "fp_round (ff_prec f) (ff_emin f) (x + d) \<le> b"
    using fp_round_mono [OF assms(2,3), of "ff_emin f"] assms(1) by (simp add: fp_rep_def)
  then show ?thesis using assms(1) by (auto simp: fp_of_rat_def Let_def fp_le_def fp_rep_def)
qed

lemma fp_of_rat_not_NaN [simp]: "fp_of_rat f x \<noteq> FNaN"
  by (simp add: fp_of_rat_def Let_def)

end
