(* ===== verification/Protocol_Types.thy ===== *)
theory Protocol_Types
  imports Event_Types Float
begin

text \<open>
  \<open>aios-spec\<close>: intents and capabilities (\<open>intent.rs\<close>), context windows and model input
  (\<open>context.rs\<close>), action governance (\<open>governance.rs\<close>) and golden traces (\<open>trace.rs\<close>).
  The lemmas are the laws of the capability table and of the terminal states, and the
  order the audit map relies on: \<open>DenialReason\<close> derives \<open>Ord\<close> from its variant order.
\<close>

section \<open>Intents (intent.rs)\<close>

datatype decision_route = RuleBased | LocalEvaluator | CloudLlm | FallbackNoOp | Mock

datatype intent_type =
    OpenApp string
  | SwitchToApp string
  | CheckNotification string
  | HandleFile extension_category
  | EnterContext string
  | Idle

datatype risk_level = RiskLow | RiskMedium | RiskHigh

datatype action_type = PreWarmProcess | PrefetchFile | KeepAlive | ReleaseMemory | NoOp

datatype action_urgency = Immediate | IdleTime | Deferred

record suggested_action =
  sa_action_type :: action_type
  sa_target :: "string option"
  sa_urgency :: action_urgency

record intent =
  in_intent_id :: string
  in_intent_type :: intent_type
  in_confidence :: f32
  in_risk_level :: risk_level
  in_suggested_actions :: "suggested_action list"
  in_rationale_tags :: "string list"

record intent_batch =
  ib_window_id :: string
  ib_intents :: "intent list"
  ib_generated_at_ms :: i64
  ib_model :: string

record decision_backend_result =
  dr_route :: decision_route
  dr_intent_batch :: intent_batch
  dr_rationale_tags :: "string list"
  dr_latency_us :: u64
  dr_error :: "string option"

datatype denial_reason =
    RiskExceedsConfig
  | RiskExceedsCapability
  | ConfidenceTooLow
  | ActionTypeBlocked
  | ActionUrgencyDeferred
  | ActionCapabilityDenied
  | TargetNotInContext
  | BatchActionCapExceeded

text \<open>\<open>x as u8\<close> of the risk levels and the derived order of the denial reasons.\<close>

fun risk_rank :: "risk_level \<Rightarrow> nat" where
  "risk_rank RiskLow = 0"
| "risk_rank RiskMedium = 1"
| "risk_rank RiskHigh = 2"

fun denial_rank :: "denial_reason \<Rightarrow> nat" where
  "denial_rank RiskExceedsConfig = 0"
| "denial_rank RiskExceedsCapability = 1"
| "denial_rank ConfidenceTooLow = 2"
| "denial_rank ActionTypeBlocked = 3"
| "denial_rank ActionUrgencyDeferred = 4"
| "denial_rank ActionCapabilityDenied = 5"
| "denial_rank TargetNotInContext = 6"
| "denial_rank BatchActionCapExceeded = 7"

lemma denial_rank_inj: "denial_rank a = denial_rank b \<Longrightarrow> a = b"
  by (cases a; cases b) simp_all

instantiation denial_reason :: linorder
begin

definition less_eq_denial_reason :: "denial_reason \<Rightarrow> denial_reason \<Rightarrow> bool" where
  "less_eq_denial_reason a b \<longleftrightarrow> denial_rank a \<le> denial_rank b"

definition less_denial_reason :: "denial_reason \<Rightarrow> denial_reason \<Rightarrow> bool" where
  "less_denial_reason a b \<longleftrightarrow> denial_rank a < denial_rank b"

instance
  by standard (auto simp: less_eq_denial_reason_def less_denial_reason_def intro: denial_rank_inj)

end

record capability_level =
  cap_max_risk :: risk_level
  cap_allowed_actions :: "action_type list"

fun for_route :: "decision_route \<Rightarrow> capability_level" where
  "for_route RuleBased =
     \<lparr>cap_max_risk = RiskLow, cap_allowed_actions = [NoOp, ReleaseMemory, KeepAlive]\<rparr>"
| "for_route LocalEvaluator =
     \<lparr>cap_max_risk = RiskLow,
      cap_allowed_actions = [NoOp, PreWarmProcess, PrefetchFile, ReleaseMemory, KeepAlive]\<rparr>"
| "for_route CloudLlm =
     \<lparr>cap_max_risk = RiskMedium,
      cap_allowed_actions = [NoOp, PreWarmProcess, PrefetchFile, KeepAlive, ReleaseMemory]\<rparr>"
| "for_route FallbackNoOp = \<lparr>cap_max_risk = RiskLow, cap_allowed_actions = [NoOp]\<rparr>"
| "for_route Mock =
     \<lparr>cap_max_risk = RiskMedium,
      cap_allowed_actions = [NoOp, PreWarmProcess, PrefetchFile, KeepAlive, ReleaseMemory]\<rparr>"

definition allows_risk :: "capability_level \<Rightarrow> risk_level \<Rightarrow> bool" where
  "allows_risk c r \<longleftrightarrow> risk_rank r \<le> risk_rank (cap_max_risk c)"

definition allows_action :: "capability_level \<Rightarrow> action_type \<Rightarrow> bool" where
  "allows_action c a \<longleftrightarrow> a \<in> set (cap_allowed_actions c)"

lemma allows_risk_Low [simp]: "allows_risk c RiskLow"
  by (simp add: allows_risk_def)

lemma for_route_NoOp [simp]: "allows_action (for_route r) NoOp"
  by (cases r) (simp_all add: allows_action_def)

lemma for_route_High [simp]: "\<not> allows_risk (for_route r) RiskHigh"
  by (cases r) (simp_all add: allows_risk_def)

text \<open>\<open>format!("\{:?}", action_type)\<close>.\<close>

fun debug_action_type :: "action_type \<Rightarrow> string" where
  "debug_action_type PreWarmProcess = ''PreWarmProcess''"
| "debug_action_type PrefetchFile = ''PrefetchFile''"
| "debug_action_type KeepAlive = ''KeepAlive''"
| "debug_action_type ReleaseMemory = ''ReleaseMemory''"
| "debug_action_type NoOp = ''NoOp''"

lemma debug_action_type_inj: "debug_action_type a = debug_action_type b \<Longrightarrow> a = b"
  by (cases a; cases b) simp_all

fun debug_route :: "decision_route \<Rightarrow> string" where
  "debug_route RuleBased = ''RuleBased''"
| "debug_route LocalEvaluator = ''LocalEvaluator''"
| "debug_route CloudLlm = ''CloudLlm''"
| "debug_route FallbackNoOp = ''FallbackNoOp''"
| "debug_route Mock = ''Mock''"

fun debug_denial_reason :: "denial_reason \<Rightarrow> string" where
  "debug_denial_reason RiskExceedsConfig = ''RiskExceedsConfig''"
| "debug_denial_reason RiskExceedsCapability = ''RiskExceedsCapability''"
| "debug_denial_reason ConfidenceTooLow = ''ConfidenceTooLow''"
| "debug_denial_reason ActionTypeBlocked = ''ActionTypeBlocked''"
| "debug_denial_reason ActionUrgencyDeferred = ''ActionUrgencyDeferred''"
| "debug_denial_reason ActionCapabilityDenied = ''ActionCapabilityDenied''"
| "debug_denial_reason TargetNotInContext = ''TargetNotInContext''"
| "debug_denial_reason BatchActionCapExceeded = ''BatchActionCapExceeded''"

section \<open>Context windows and model input (context.rs)\<close>

record system_status_snapshot =
  snap_battery_pct :: "u8 option"
  snap_is_charging :: bool
  snap_network :: network_type
  snap_ringer_mode :: ringer_mode
  snap_location_type :: location_type
  snap_headphone_connected :: bool

record context_summary =
  cs_foreground_apps :: "string list"
  cs_notified_apps :: "string list"
  cs_all_semantic_hints :: "semantic_hint list"
  cs_file_activity :: "(extension_category \<times> u32) list"
  cs_latest_system_status :: "system_status_snapshot option"
  cs_source_tier :: source_tier

record structured_context =
  ctx_window_id :: string
  ctx_window_start_ms :: i64
  ctx_window_end_ms :: i64
  ctx_duration_secs :: u32
  ctx_events :: "sanitized_event list"
  ctx_summary :: context_summary

record user_behavior_profile =
  ubp_user_id :: "string option"
  ubp_summary :: string
  ubp_observation_windows :: u32
  ubp_frequent_foreground_apps :: "(string \<times> u32) list"
  ubp_frequent_notifying_apps :: "(string \<times> u32) list"
  ubp_frequent_semantic_hints :: "(semantic_hint \<times> u32) list"
  ubp_action_successes :: "(string \<times> u32) list"
  ubp_action_denials :: "(string \<times> u32) list"
  ubp_action_failures :: "(string \<times> u32) list"
  ubp_last_updated_window_id :: "string option"

definition default_profile :: user_behavior_profile where
  "default_profile = \<lparr>ubp_user_id = None, ubp_summary = [], ubp_observation_windows = 0,
     ubp_frequent_foreground_apps = [], ubp_frequent_notifying_apps = [],
     ubp_frequent_semantic_hints = [], ubp_action_successes = [], ubp_action_denials = [],
     ubp_action_failures = [], ubp_last_updated_window_id = None\<rparr>"

datatype feedback_correctness =
    LikelyCorrect
  | PredictionHit
  | PredictionMiss
  | PolicyRejected
  | ExecutionFailed
  | NeutralNoOp
  | CorrectnessUnknown

record action_feedback_record =
  af_action_type :: string
  af_target :: "string option"
  af_terminal :: string
  af_correctness :: feedback_correctness
  af_correctness_evidence :: string
  af_denial_reason :: "string option"
  af_error :: "string option"
  af_outcome_summary :: "string option"

record recent_decision_record =
  rd_window_id :: string
  rd_window_start_ms :: i64
  rd_window_end_ms :: i64
  rd_foreground_apps :: "string list"
  rd_notified_apps :: "string list"
  rd_semantic_hints :: "semantic_hint list"
  rd_route :: string
  rd_model :: string
  rd_intent_count :: u32
  rd_rationale_tags :: "string list"
  rd_backend_error :: "string option"
  rd_action_outcomes :: "action_feedback_record list"

record model_input =
  mi_current_context :: structured_context
  mi_behavior_profile :: user_behavior_profile
  mi_recent_feedback :: "recent_decision_record list"

definition current_only :: "structured_context \<Rightarrow> model_input" where
  "current_only c = \<lparr>mi_current_context = c, mi_behavior_profile = default_profile, mi_recent_feedback = []\<rparr>"

section \<open>Governance (governance.rs)\<close>

record action_coord =
  co_window_ordinal :: u32
  co_intent_ordinal :: u32
  co_action_ordinal :: u32

datatype effect_class = PureRead | LocalCacheWrite | LocalStateChange

fun effect_from_action_type :: "action_type \<Rightarrow> effect_class" where
  "effect_from_action_type NoOp = PureRead"
| "effect_from_action_type PrefetchFile = LocalCacheWrite"
| "effect_from_action_type PreWarmProcess = LocalStateChange"
| "effect_from_action_type KeepAlive = LocalStateChange"
| "effect_from_action_type ReleaseMemory = LocalStateChange"

record action_proposal =
  ap_intent_id :: string
  ap_coord :: action_coord
  ap_action :: suggested_action
  ap_effect :: effect_class
  ap_proposed_at_ms :: i64

datatype action_state =
    Proposed
  | SchemaValidated
  | PolicyChecked
  | Dispatched
  | Succeeded
  | RejectedInvalidSchema
  | DeniedByCapability
  | DeniedByPolicy
  | Failed

fun is_terminal :: "action_state \<Rightarrow> bool" where
  "is_terminal Succeeded = True"
| "is_terminal RejectedInvalidSchema = True"
| "is_terminal DeniedByCapability = True"
| "is_terminal DeniedByPolicy = True"
| "is_terminal Failed = True"
| "is_terminal _ = False"

fun debug_action_state :: "action_state \<Rightarrow> string" where
  "debug_action_state Proposed = ''Proposed''"
| "debug_action_state SchemaValidated = ''SchemaValidated''"
| "debug_action_state PolicyChecked = ''PolicyChecked''"
| "debug_action_state Dispatched = ''Dispatched''"
| "debug_action_state Succeeded = ''Succeeded''"
| "debug_action_state RejectedInvalidSchema = ''RejectedInvalidSchema''"
| "debug_action_state DeniedByCapability = ''DeniedByCapability''"
| "debug_action_state DeniedByPolicy = ''DeniedByPolicy''"
| "debug_action_state Failed = ''Failed''"

record action_outcome =
  ao_action_type :: string
  ao_target :: "string option"
  ao_summary :: string
  ao_latency_us :: u64

record action_outcome_summary =
  os_action_type :: string
  os_target :: "string option"
  os_summary :: string

definition from_outcome :: "action_outcome \<Rightarrow> action_outcome_summary" where
  "from_outcome o1 = \<lparr>os_action_type = ao_action_type o1, os_target = ao_target o1, os_summary = ao_summary o1\<rparr>"

datatype adapter_error =
    SimulatedResourceUnavailable string
  | AndroidBridgeError string
  | ExecutionError string

fun show_adapter_error :: "adapter_error \<Rightarrow> string" where
  "show_adapter_error (SimulatedResourceUnavailable s) = ''simulated resource unavailable: '' @ s"
| "show_adapter_error (AndroidBridgeError s) = ''android bridge error: '' @ s"
| "show_adapter_error (ExecutionError s) = ''execution error: '' @ s"

datatype policy_verdict = Approved | Denied denial_reason

record policy_action_decision =
  pd_intent_ordinal :: u32
  pd_action_ordinal :: u32
  pd_verdict :: policy_verdict

record audit_record =
  ar_coord :: action_coord
  ar_intent_id :: string
  ar_action_type :: action_type
  ar_target :: "string option"
  ar_effect :: effect_class
  ar_route :: decision_route
  ar_backend_error :: "string option"
  ar_transitions :: "action_state list"
  ar_terminal :: action_state
  ar_outcome :: "action_outcome_summary option"
  ar_denial_reason :: "denial_reason option"
  ar_error :: "string option"
  ar_source_tier :: source_tier

definition audit_new :: "action_proposal \<Rightarrow> decision_route \<Rightarrow> source_tier \<Rightarrow> audit_record" where
  "audit_new p route tier =
     \<lparr>ar_coord = ap_coord p, ar_intent_id = ap_intent_id p,
      ar_action_type = sa_action_type (ap_action p), ar_target = sa_target (ap_action p),
      ar_effect = ap_effect p, ar_route = route, ar_backend_error = None,
      ar_transitions = [Proposed], ar_terminal = Proposed, ar_outcome = None,
      ar_denial_reason = None, ar_error = None, ar_source_tier = tier\<rparr>"

definition transition :: "action_state \<Rightarrow> audit_record \<Rightarrow> audit_record" where
  "transition s r = r\<lparr>ar_transitions := ar_transitions r @ [s], ar_terminal := s\<rparr>"

section \<open>Golden traces (trace.rs)\<close>

record executed_action =
  ea_action_type :: string
  ea_target :: "string option"
  ea_executed_at_ms :: i64
  ea_success :: bool
  ea_error_reason :: "string option"

record golden_trace =
  gt_trace_id :: string
  gt_window_start_ms :: i64
  gt_window_end_ms :: i64
  gt_raw_events :: "raw_event list"
  gt_expected_sanitized :: "sanitized_event list"
  gt_expected_intents :: intent_batch
  gt_expected_actions :: "executed_action list"
  gt_source_tiers :: "source_tier list"

record replay_result =
  rr_trace_id :: string
  rr_sanitization_match :: bool
  rr_sanitization_divergences :: "usize list"
  rr_policy_match :: bool
  rr_policy_divergences :: "string list"
  rr_execution_match :: bool
  rr_execution_divergences :: "usize list"

definition all_match :: "replay_result \<Rightarrow> bool" where
  "all_match r \<longleftrightarrow> rr_sanitization_match r \<and> rr_policy_match r \<and> rr_execution_match r"

end
