(* ===== verification/Policy_Engine.thy ===== *)
theory Policy_Engine
  imports Protocol_Types
begin

text \<open>
  \<open>aios-core/src/policy_engine.rs\<close>: the gate every suggested action passes. The engine is
  stateless; \<open>evaluate_actions\<close> is the per-intent loop with its running count of approvals,
  \<open>action_denial\<close> one pass through the loop body (the first guard that fires, in source
  order). Debug logging and the source tier, which is only logged, are left out.

  The lemmas: the reference verdict \<open>spec_verdict\<close> that the loop implements, coverage of
  every action by exactly one decision, soundness of approvals, the approval cap, and what
  the target gate admits.
\<close>

section \<open>Configuration and known targets\<close>

record policy_config =
  pc_max_auto_risk :: risk_level
  pc_blocked_actions :: "string list"
  pc_max_actions_per_batch :: usize
  pc_min_confidence :: f32

definition default_policy_config :: policy_config where
  "default_policy_config = \<lparr>pc_max_auto_risk = RiskLow, pc_blocked_actions = [],
     pc_max_actions_per_batch = 5, pc_min_confidence = f32_lit (3 / 10)\<rparr>"

record known_targets =
  kt_packages :: "string set"
  kt_files :: "string set"

text \<open>The packages one event contributes: its \<open>app_package\<close>, then the one its type names.\<close>

fun event_type_package :: "sanitized_event_type \<Rightarrow> string option" where
  "event_type_package (SeAppTransition p _ _) = Some p"
| "event_type_package (SeNotification p _ _ _ _ _ _ _) = Some p"
| "event_type_package (SeProcessResource _ (Some p) _ _ _ _) = Some p"
| "event_type_package _ = None"

definition event_packages :: "sanitized_event \<Rightarrow> string list" where
  "event_packages e = (case se_app_package e of Some p \<Rightarrow> [p] | None \<Rightarrow> [])
     @ (case event_type_package (se_event_type e) of Some p \<Rightarrow> [p] | None \<Rightarrow> [])"

definition known_from_context :: "structured_context \<Rightarrow> known_targets" where
  "known_from_context ctx =
     \<lparr>kt_packages = fold insert (cs_foreground_apps (ctx_summary ctx)
        @ cs_notified_apps (ctx_summary ctx) @ concat (map event_packages (ctx_events ctx))) {},
      kt_files = {}\<rparr>"

section \<open>The target gate\<close>

definition is_allowed_prewarm_target :: "string \<Rightarrow> known_targets \<Rightarrow> bool" where
  "is_allowed_prewarm_target t k =
     (if starts_with t ''own:'' \<or> starts_with t ''notif:'' then True
      else case strip_prefix t ''pkg:'' of
        Some p \<Rightarrow> p \<in> kt_packages k
      | None \<Rightarrow> t \<noteq> [] \<and> (t \<in> kt_packages k \<or> t \<in> kt_files k))"

definition is_allowed_low_risk_target :: "action_type \<Rightarrow> string \<Rightarrow> known_targets \<Rightarrow> bool" where
  "is_allowed_low_risk_target a t k =
     (if a = KeepAlive \<and> starts_with t ''work:'' then True
      else if a = ReleaseMemory \<and> (t = ''cache:prefetch'' \<or> t = ''cache:all'') then True
      else if a = PrefetchFile \<and> (starts_with t ''url:'' \<or> starts_with t ''uri:'') then True
      else case strip_prefix t ''pkg:'' of
        Some p \<Rightarrow> p \<in> kt_packages k
      | None \<Rightarrow> t \<in> kt_packages k \<or> t \<in> kt_files k)"

fun check_target :: "action_type \<Rightarrow> string option \<Rightarrow> known_targets \<Rightarrow> denial_reason option" where
  "check_target NoOp t k = None"
| "check_target PreWarmProcess (Some t) k =
     (if is_allowed_prewarm_target t k then None else Some TargetNotInContext)"
| "check_target PreWarmProcess None k = Some TargetNotInContext"
| "check_target a None k = None"
| "check_target a (Some t) k =
     (if t = [] then Some TargetNotInContext
      else if is_allowed_low_risk_target a t k then None else Some TargetNotInContext)"

section \<open>Evaluation\<close>

text \<open>The guards of the loop body after the cap, in source order.\<close>

definition single_denial :: "policy_config \<Rightarrow> capability_level \<Rightarrow> known_targets option
    \<Rightarrow> suggested_action \<Rightarrow> denial_reason option" where
  "single_denial cfg cap known a =
     (if \<exists>b \<in> set (pc_blocked_actions cfg). str_contains (debug_action_type (sa_action_type a)) b
        then Some ActionTypeBlocked
      else if sa_urgency a = Deferred then Some ActionUrgencyDeferred
      else if \<not> allows_action cap (sa_action_type a) then Some ActionCapabilityDenied
      else case known of None \<Rightarrow> None | Some k \<Rightarrow> check_target (sa_action_type a) (sa_target a) k)"

definition action_denial :: "policy_config \<Rightarrow> capability_level \<Rightarrow> known_targets option
    \<Rightarrow> usize \<Rightarrow> suggested_action \<Rightarrow> denial_reason option" where
  "action_denial cfg cap known approved_count a =
     (if pc_max_actions_per_batch cfg \<le> approved_count then Some BatchActionCapExceeded
      else single_denial cfg cap known a)"

fun evaluate_actions :: "policy_config \<Rightarrow> capability_level \<Rightarrow> known_targets option \<Rightarrow> u32
    \<Rightarrow> nat \<Rightarrow> usize \<Rightarrow> suggested_action list \<Rightarrow> policy_action_decision list" where
  "evaluate_actions cfg cap known io j n [] = []"
| "evaluate_actions cfg cap known io j n (a # as) =
     (case action_denial cfg cap known n a of
        Some r \<Rightarrow> \<lparr>pd_intent_ordinal = io, pd_action_ordinal = of_nat j, pd_verdict = Denied r\<rparr>
          # evaluate_actions cfg cap known io (Suc j) n as
      | None \<Rightarrow> \<lparr>pd_intent_ordinal = io, pd_action_ordinal = of_nat j, pd_verdict = Approved\<rparr>
          # evaluate_actions cfg cap known io (Suc j) (Suc n) as)"

definition denied_all :: "intent \<Rightarrow> u32 \<Rightarrow> denial_reason \<Rightarrow> policy_action_decision list" where
  "denied_all i io r = map (\<lambda>j. \<lparr>pd_intent_ordinal = io, pd_action_ordinal = of_nat j, pd_verdict = Denied r\<rparr>)
     [0..<length (in_suggested_actions i)]"

text \<open>The three intent-level guards, before any action is looked at.\<close>

definition intent_denial :: "policy_config \<Rightarrow> capability_level \<Rightarrow> intent \<Rightarrow> denial_reason option" where
  "intent_denial cfg cap i =
     (if \<not> allows_risk cap (in_risk_level i) then Some RiskExceedsCapability
      else if risk_rank (pc_max_auto_risk cfg) < risk_rank (in_risk_level i) then Some RiskExceedsConfig
      else if fp_lt (in_confidence i) (pc_min_confidence cfg) then Some ConfidenceTooLow
      else None)"

definition evaluate_intent :: "policy_config \<Rightarrow> intent \<Rightarrow> u32 \<Rightarrow> capability_level
    \<Rightarrow> known_targets option \<Rightarrow> policy_action_decision list" where
  "evaluate_intent cfg i io cap known =
     (case intent_denial cfg cap i of
        Some r \<Rightarrow> denied_all i io r
      | None \<Rightarrow> evaluate_actions cfg cap known io 0 0 (in_suggested_actions i))"

definition evaluate_intents :: "policy_config \<Rightarrow> intent_batch \<Rightarrow> capability_level
    \<Rightarrow> known_targets option \<Rightarrow> policy_action_decision list" where
  "evaluate_intents cfg batch cap known =
     concat (map (\<lambda>(io, i). evaluate_intent cfg i (of_nat io) cap known) (enumerate 0 (ib_intents batch)))"

definition evaluate_batch :: "policy_config \<Rightarrow> intent_batch \<Rightarrow> policy_action_decision list" where
  "evaluate_batch cfg batch = evaluate_intents cfg batch (for_route Mock) None"

definition evaluate_batch_with_capability ::
    "policy_config \<Rightarrow> intent_batch \<Rightarrow> capability_level \<Rightarrow> policy_action_decision list" where
  "evaluate_batch_with_capability cfg batch cap = evaluate_intents cfg batch cap None"

definition evaluate_batch_with_context :: "policy_config \<Rightarrow> intent_batch \<Rightarrow> capability_level
    \<Rightarrow> structured_context \<Rightarrow> policy_action_decision list" where
  "evaluate_batch_with_context cfg batch cap ctx =
     evaluate_intents cfg batch cap (Some (known_from_context ctx))"

section \<open>The reference verdict\<close>

text \<open>
  What the loop decides for action \<open>j\<close> of an intent, without a running count: the cap is
  reached when enough earlier actions pass their own guards.
\<close>

definition spec_verdict :: "policy_config \<Rightarrow> capability_level \<Rightarrow> known_targets option
    \<Rightarrow> intent \<Rightarrow> nat \<Rightarrow> policy_verdict" where
  "spec_verdict cfg cap known i j =
     (case intent_denial cfg cap i of Some r \<Rightarrow> Denied r
      | None \<Rightarrow>
        (if pc_max_actions_per_batch cfg
              \<le> length (filter (\<lambda>a. single_denial cfg cap known a = None) (take j (in_suggested_actions i)))
         then Denied BatchActionCapExceeded
         else case single_denial cfg cap known (in_suggested_actions i ! j) of
                Some r \<Rightarrow> Denied r | None \<Rightarrow> Approved))"

lemma length_evaluate_actions [simp]: "length (evaluate_actions cfg cap known io j n as) = length as"
  by (induction as arbitrary: j n) (auto split: option.splits)

lemma evaluate_actions_nth:
  assumes "i < length as"
  shows "evaluate_actions cfg cap known io j n as ! i =
     \<lparr>pd_intent_ordinal = io, pd_action_ordinal = of_nat (j + i),
      pd_verdict =
        (if pc_max_actions_per_batch cfg
              \<le> n + length (filter (\<lambda>a. single_denial cfg cap known a = None) (take i as))
         then Denied BatchActionCapExceeded
         else case single_denial cfg cap known (as ! i) of Some r \<Rightarrow> Denied r | None \<Rightarrow> Approved)\<rparr>"
  using assms
proof (induction as arbitrary: j n i)
  case Nil
  then show ?case by simp
next
  case (Cons a as)
  show ?case
  proof (cases i)
    case 0
    then show ?thesis by (auto simp: action_denial_def split: option.splits)
  next
    case (Suc i')
    with Cons show ?thesis
      by (auto simp: action_denial_def split: option.splits)
  qed
qed

lemma length_evaluate_intent [simp]:
  "length (evaluate_intent cfg i io cap known) = length (in_suggested_actions i)"
  by (auto simp: evaluate_intent_def denied_all_def split: option.splits)

lemma evaluate_intent_nth:
  assumes "j < length (in_suggested_actions i)"
  shows "evaluate_intent cfg i io cap known ! j =
     \<lparr>pd_intent_ordinal = io, pd_action_ordinal = of_nat j, pd_verdict = spec_verdict cfg cap known i j\<rparr>"
  using assms
  by (auto simp: evaluate_intent_def spec_verdict_def denied_all_def evaluate_actions_nth
      split: option.splits)

text \<open>The whole batch as one comprehension over (intent, action) positions.\<close>

definition spec_decisions :: "policy_config \<Rightarrow> intent_batch \<Rightarrow> capability_level
    \<Rightarrow> known_targets option \<Rightarrow> policy_action_decision list" where
  "spec_decisions cfg batch cap known =
     [\<lparr>pd_intent_ordinal = of_nat io, pd_action_ordinal = of_nat j,
       pd_verdict = spec_verdict cfg cap known i j\<rparr>.
      (io, i) \<leftarrow> enumerate 0 (ib_intents batch), j \<leftarrow> [0..<length (in_suggested_actions i)]]"

lemma evaluate_intent_eq:
  "evaluate_intent cfg i io cap known =
     map (\<lambda>j. \<lparr>pd_intent_ordinal = io, pd_action_ordinal = of_nat j,
                pd_verdict = spec_verdict cfg cap known i j\<rparr>) [0..<length (in_suggested_actions i)]"
  by (rule nth_equalityI) (simp_all add: evaluate_intent_nth)

lemma evaluate_intents_eq_spec: "evaluate_intents cfg batch cap known = spec_decisions cfg batch cap known"
  unfolding evaluate_intents_def spec_decisions_def
  by (rule arg_cong [where f = concat], rule map_cong) (auto simp: evaluate_intent_eq)

section \<open>Facts about approvals\<close>

lemma spec_verdict_Approved:
  "spec_verdict cfg cap known i j = Approved \<longleftrightarrow>
     intent_denial cfg cap i = None
     \<and> length (filter (\<lambda>a. single_denial cfg cap known a = None) (take j (in_suggested_actions i)))
         < pc_max_actions_per_batch cfg
     \<and> single_denial cfg cap known (in_suggested_actions i ! j) = None"
  by (auto simp: spec_verdict_def split: option.splits)

lemma single_denial_None:
  "single_denial cfg cap known a = None \<longleftrightarrow>
     (\<forall>b \<in> set (pc_blocked_actions cfg). \<not> str_contains (debug_action_type (sa_action_type a)) b)
     \<and> sa_urgency a \<noteq> Deferred \<and> allows_action cap (sa_action_type a)
     \<and> (\<forall>k. known = Some k \<longrightarrow> check_target (sa_action_type a) (sa_target a) k = None)"
  by (auto simp: single_denial_def split: option.splits)

lemma intent_denial_None:
  "intent_denial cfg cap i = None \<longleftrightarrow>
     allows_risk cap (in_risk_level i)
     \<and> risk_rank (in_risk_level i) \<le> risk_rank (pc_max_auto_risk cfg)
     \<and> \<not> fp_lt (in_confidence i) (pc_min_confidence cfg)"
  by (auto simp: intent_denial_def)

lemma evaluate_actions_approved_cap:
  "length (filter (\<lambda>d. pd_verdict d = Approved) (evaluate_actions cfg cap known io j n as))
     \<le> pc_max_actions_per_batch cfg - n"
proof (induction as arbitrary: j n)
  case Nil
  then show ?case by simp
next
  case (Cons a as)
  show ?case
  proof (cases "action_denial cfg cap known n a")
    case None
    then have "n < pc_max_actions_per_batch cfg" by (auto simp: action_denial_def split: if_splits)
    with None Cons [of "Suc j" "Suc n"] show ?thesis by simp
  next
    case (Some r)
    with Cons [of "Suc j" n] show ?thesis by simp
  qed
qed

lemma denied_all_none_approved [simp]:
  "filter (\<lambda>d. pd_verdict d = Approved) (denied_all i io r) = []"
  by (simp add: denied_all_def)

section \<open>What the context admits\<close>

text \<open>A package is observed when the window's summary or one of its events names it.\<close>

definition observed :: "structured_context \<Rightarrow> string \<Rightarrow> bool" where
  "observed ctx p \<longleftrightarrow> p \<in> set (cs_foreground_apps (ctx_summary ctx))
     \<or> p \<in> set (cs_notified_apps (ctx_summary ctx))
     \<or> (\<exists>e \<in> set (ctx_events ctx). se_app_package e = Some p \<or> event_type_package (se_event_type e) = Some p)"

lemma set_event_packages:
  "p \<in> set (event_packages e) \<longleftrightarrow>
     se_app_package e = Some p \<or> event_type_package (se_event_type e) = Some p"
  by (auto simp: event_packages_def split: option.splits)

lemma kt_packages_known [simp]: "p \<in> kt_packages (known_from_context ctx) \<longleftrightarrow> observed ctx p"
  by (auto simp: known_from_context_def observed_def set_event_packages union_set_fold [symmetric])

lemma kt_files_known [simp]: "kt_files (known_from_context ctx) = {}"
  by (simp add: known_from_context_def)

lemma starts_with_append [simp]: "starts_with (p @ t) p"
  by (simp add: starts_with_def)

text \<open>
  A target names a package when it is that package, or \<open>pkg:\<close> and the package; the other
  targets the gate admits carry a reserved scheme.
\<close>

fun reserved_target :: "action_type \<Rightarrow> string \<Rightarrow> bool" where
  "reserved_target PreWarmProcess t = (starts_with t ''own:'' \<or> starts_with t ''notif:'')"
| "reserved_target KeepAlive t = starts_with t ''work:''"
| "reserved_target ReleaseMemory t = (t = ''cache:prefetch'' \<or> t = ''cache:all'')"
| "reserved_target PrefetchFile t = (starts_with t ''url:'' \<or> starts_with t ''uri:'')"
| "reserved_target NoOp t = True"

lemma check_target_None_observed:
  assumes "check_target a (Some t) (known_from_context ctx) = None" "\<not> reserved_target a t"
  shows "\<exists>p. (t = ''pkg:'' @ p \<or> t = p) \<and> observed ctx p"
  using assms
  by (cases a)
    (auto simp: is_allowed_prewarm_target_def is_allowed_low_risk_target_def strip_prefix_Some
      split: if_splits option.splits)

section \<open>Properties\<close>

text \<open>C3: the batch evaluation with its running approval count computes, position by position,
  the reference verdict of \<open>spec_verdict\<close>: the decision list is the comprehension over every
  (intent, action) position in order, so every suggested action gets exactly one decision,
  and a verdict depends only on the guards of the action, of its intent and of the earlier
  actions of the same intent.\<close>

theorem policy_loop_refines_spec:
  "evaluate_batch_with_context cfg batch cap ctx =
     spec_decisions cfg batch cap (Some (known_from_context ctx))"
  by (simp add: evaluate_batch_with_context_def evaluate_intents_eq_spec)

text \<open>A decision of the batch names a position of the batch.\<close>

lemma spec_decisions_mem:
  assumes "d \<in> set (spec_decisions cfg batch cap known)"
  obtains io j where "io < length (ib_intents batch)"
    "j < length (in_suggested_actions (ib_intents batch ! io))"
    "d = \<lparr>pd_intent_ordinal = of_nat io, pd_action_ordinal = of_nat j,
          pd_verdict = spec_verdict cfg cap known (ib_intents batch ! io) j\<rparr>"
  using assms by (auto simp: spec_decisions_def enum_simps)

text \<open>C2: an approval is sound. An approved decision belongs to an action of the batch whose
  intent is within the capability's and the configuration's risk, has a confidence that is
  not below the floor, which is not deferred, whose type the route's capability allows and
  whose type's name contains no entry of \<open>blocked_actions\<close> anywhere inside it (entries block by
  substring, not by the exact name); and a target it carries is a reserved one or names a package that the
  context window observed.\<close>

theorem policy_approval_sound:
  assumes "d \<in> set (evaluate_batch_with_context cfg batch cap ctx)" "pd_verdict d = Approved"
  shows "\<exists>io < length (ib_intents batch). \<exists>j < length (in_suggested_actions (ib_intents batch ! io)).
     let i = ib_intents batch ! io; a = in_suggested_actions i ! j in
       pd_intent_ordinal d = of_nat io \<and> pd_action_ordinal d = of_nat j
       \<and> risk_rank (in_risk_level i) \<le> risk_rank (cap_max_risk cap)
       \<and> risk_rank (in_risk_level i) \<le> risk_rank (pc_max_auto_risk cfg)
       \<and> \<not> fp_lt (in_confidence i) (pc_min_confidence cfg)
       \<and> (\<forall>b \<in> set (pc_blocked_actions cfg). \<not> sublist b (debug_action_type (sa_action_type a)))
       \<and> debug_action_type (sa_action_type a) \<notin> set (pc_blocked_actions cfg)
       \<and> sa_urgency a \<noteq> Deferred
       \<and> sa_action_type a \<in> set (cap_allowed_actions cap)
       \<and> (\<forall>t. sa_target a = Some t \<and> \<not> reserved_target (sa_action_type a) t
              \<longrightarrow> (\<exists>p. (t = ''pkg:'' @ p \<or> t = p) \<and> observed ctx p))"
proof -
  from assms(1) obtain io j where pos: "io < length (ib_intents batch)"
      "j < length (in_suggested_actions (ib_intents batch ! io))"
    and d: "d = \<lparr>pd_intent_ordinal = of_nat io, pd_action_ordinal = of_nat j,
      pd_verdict = spec_verdict cfg cap (Some (known_from_context ctx)) (ib_intents batch ! io) j\<rparr>"
    by (auto simp: evaluate_batch_with_context_def evaluate_intents_eq_spec elim: spec_decisions_mem)
  let ?a = "in_suggested_actions (ib_intents batch ! io) ! j"
  from assms(2) d have
    i: "intent_denial cfg cap (ib_intents batch ! io) = None" and
    a: "single_denial cfg cap (Some (known_from_context ctx)) ?a = None"
    by (simp_all add: spec_verdict_Approved)
  from a have "\<forall>b \<in> set (pc_blocked_actions cfg). \<not> sublist b (debug_action_type (sa_action_type ?a))"
      "debug_action_type (sa_action_type ?a) \<notin> set (pc_blocked_actions cfg)"
    by (auto simp: single_denial_None str_contains_iff_sublist)
  with pos d i a check_target_None_observed show ?thesis
    by (intro exI [of _ io] exI [of _ j] conjI)
      (auto simp: Let_def single_denial_None intent_denial_None allows_risk_def allows_action_def)
qed

lemma evaluate_actions_approved_count:
  "length (filter (\<lambda>d. pd_verdict d = Approved) (evaluate_actions cfg cap known io j n as))
     = min (pc_max_actions_per_batch cfg - n)
           (length (filter (\<lambda>a. single_denial cfg cap known a = None) as))"
  by (induction as arbitrary: j n) (auto simp: action_denial_def split: option.splits)

text \<open>The approvals of one intent number exactly the actions that pass their own guards, cut at
  \<open>max_actions_per_batch\<close>, and none when an intent-level guard fires: the cap is never
  exceeded and never denies an action while it is not reached.\<close>

theorem policy_approval_count:
  "length (filter (\<lambda>d. pd_verdict d = Approved) (evaluate_intent cfg i io cap known)) =
     (case intent_denial cfg cap i of Some r \<Rightarrow> 0
      | None \<Rightarrow> min (pc_max_actions_per_batch cfg)
          (length (filter (\<lambda>a. single_denial cfg cap known a = None) (in_suggested_actions i))))"
  by (simp add: evaluate_intent_def evaluate_actions_approved_count split: option.splits)

section \<open>Concrete inputs\<close>

definition demo_summary :: context_summary where
  "demo_summary = \<lparr>cs_foreground_apps = [''com.mail''], cs_notified_apps = [], cs_all_semantic_hints = [],
     cs_file_activity = [], cs_latest_system_status = None, cs_source_tier = Daemon\<rparr>"

definition demo_context :: structured_context where
  "demo_context = \<lparr>ctx_window_id = ''w0'', ctx_window_start_ms = 0, ctx_window_end_ms = 10000,
     ctx_duration_secs = 10, ctx_events = [], ctx_summary = demo_summary\<rparr>"

definition demo_intent :: "suggested_action list \<Rightarrow> intent" where
  "demo_intent as = \<lparr>in_intent_id = ''i0'', in_intent_type = Idle, in_confidence = FFin (7 / 8),
     in_risk_level = RiskLow, in_suggested_actions = as, in_rationale_tags = []\<rparr>"

definition demo_batch :: "suggested_action list \<Rightarrow> intent_batch" where
  "demo_batch as = \<lparr>ib_window_id = ''w0'', ib_intents = [demo_intent as], ib_generated_at_ms = 0,
     ib_model = ''demo''\<rparr>"

abbreviation demo_action :: "action_type \<Rightarrow> string option \<Rightarrow> suggested_action" where
  "demo_action a t \<equiv> \<lparr>sa_action_type = a, sa_target = t, sa_urgency = Immediate\<rparr>"

definition demo_approval :: policy_action_decision where
  "demo_approval = \<lparr>pd_intent_ordinal = 0, pd_action_ordinal = 1, pd_verdict = Approved\<rparr>"

lemma demo_approval_in:
  "demo_approval \<in> set (evaluate_batch_with_context default_policy_config
     (demo_batch [demo_action PreWarmProcess (Some ''pkg:com.bank''),
                  demo_action PreWarmProcess (Some ''pkg:com.mail'')])
     (for_route LocalEvaluator) demo_context)"
  by code_simp

theorem policy_approval_sound_witness:
  "\<exists>p. (''pkg:com.mail'' = ''pkg:'' @ p \<or> ''pkg:com.mail'' = p) \<and> observed demo_context p"
  using policy_approval_sound [OF demo_approval_in]
  by (auto simp: demo_approval_def demo_batch_def demo_intent_def Let_def starts_with_def less_Suc_eq)

end
