(* ===== verification/Action_Lifecycle.thy ===== *)
theory Action_Lifecycle
  imports Policy_Engine
begin

text \<open>
  \<open>aios-core/src/action_lifecycle.rs\<close> and \<open>governance/mod.rs\<close>: the state machine that turns every
  (intent, action) of a batch into one audit record, and the sealed credential an adapter
  receives.

  The adapter is the locale \<open>action_adapter\<close>: a state-threading \<open>execute\<close>. Whatever it does,
  the lifecycle lemmas hold; its law (a success echoes the action it was handed) is what a
  \<open>Succeeded\<close> record's outcome rests on. \<open>action_step\<close> is the abstract life cycle; the
  transitions each record lists are a run of it from \<open>Proposed\<close> to a terminal state.
\<close>

section \<open>The credential (governance/mod.rs)\<close>

record authorized_action =
  aa_intent_id :: string
  aa_coord :: action_coord
  aa_action :: suggested_action
  aa_effect :: effect_class
  aa_authorized_at_ms :: i64

definition seal :: "action_proposal \<Rightarrow> i64 \<Rightarrow> authorized_action" where
  "seal p t = \<lparr>aa_intent_id = ap_intent_id p, aa_coord = ap_coord p, aa_action = ap_action p,
     aa_effect = ap_effect p, aa_authorized_at_ms = t\<rparr>"

type_synonym 's adapter = "'s \<Rightarrow> authorized_action \<Rightarrow> 's \<times> (adapter_error + action_outcome)"

section \<open>The lifecycle (action_lifecycle.rs)\<close>

datatype lifecycle_error = MissingPolicyDecision action_coord | SchemaViolation string

definition debug_action_coord :: "action_coord \<Rightarrow> string" where
  "debug_action_coord c = ''ActionCoord { window_ordinal: '' @ show_nat (unat (co_window_ordinal c))
     @ '', intent_ordinal: '' @ show_nat (unat (co_intent_ordinal c))
     @ '', action_ordinal: '' @ show_nat (unat (co_action_ordinal c)) @ '' }''"

fun show_lifecycle_error :: "lifecycle_error \<Rightarrow> string" where
  "show_lifecycle_error (MissingPolicyDecision c) =
     ''internal: missing policy decision for coord '' @ debug_action_coord c"
| "show_lifecycle_error (SchemaViolation m) = ''schema violation: '' @ m"

definition validate_schema :: "action_proposal \<Rightarrow> risk_level \<Rightarrow> lifecycle_error option" where
  "validate_schema p risk =
     (if sa_action_type (ap_action p) = PreWarmProcess
         \<and> (case sa_target (ap_action p) of Some t \<Rightarrow> t = [] | None \<Rightarrow> True)
      then Some (SchemaViolation ''PreWarmProcess requires a non-empty target'')
      else if ap_effect p = PureRead \<and> risk = RiskHigh
      then Some (SchemaViolation ''PureRead action cannot carry High risk intent'')
      else None)"

fun denial_to_terminal :: "denial_reason \<Rightarrow> action_state" where
  "denial_to_terminal RiskExceedsCapability = DeniedByCapability"
| "denial_to_terminal ActionCapabilityDenied = DeniedByCapability"
| "denial_to_terminal _ = DeniedByPolicy"

text \<open>Collecting into the \<open>HashMap\<close>: a later decision of the same key replaces an earlier one.\<close>

definition decisions_by_coord :: "policy_action_decision list \<Rightarrow> (u32 \<times> u32 \<rightharpoonup> policy_action_decision)" where
  "decisions_by_coord ds =
     foldl (\<lambda>m d. m((pd_intent_ordinal d, pd_action_ordinal d) \<mapsto> d)) Map.empty ds"

definition proposal_of :: "u32 \<Rightarrow> i64 \<Rightarrow> u32 \<Rightarrow> intent \<Rightarrow> u32 \<Rightarrow> suggested_action \<Rightarrow> action_proposal" where
  "proposal_of w t io i jo a =
     \<lparr>ap_intent_id = in_intent_id i,
      ap_coord = \<lparr>co_window_ordinal = w, co_intent_ordinal = io, co_action_ordinal = jo\<rparr>,
      ap_action = a, ap_effect = effect_from_action_type (sa_action_type a), ap_proposed_at_ms = t\<rparr>"

text \<open>One pass through the loop body of \<open>run\<close>.\<close>

definition process_action :: "'s adapter \<Rightarrow> (u32 \<times> u32 \<rightharpoonup> policy_action_decision) \<Rightarrow> decision_route
    \<Rightarrow> string option \<Rightarrow> source_tier \<Rightarrow> risk_level \<Rightarrow> i64 \<Rightarrow> 's \<Rightarrow> action_proposal \<Rightarrow> 's \<times> audit_record" where
  "process_action execute decisions route be tier risk t s p =
     (let r = audit_new p route tier in
      case validate_schema p risk of
        Some err \<Rightarrow>
          (s, (transition RejectedInvalidSchema r)
                \<lparr>ar_error := Some (show_lifecycle_error err), ar_backend_error := be\<rparr>)
      | None \<Rightarrow>
        (let r = transition SchemaValidated r in
         case decisions (co_intent_ordinal (ap_coord p), co_action_ordinal (ap_coord p)) of
           Some d \<Rightarrow>
             (case pd_verdict d of
                Approved \<Rightarrow>
                  (let r = transition Dispatched (transition PolicyChecked r) in
                   case execute s (seal p t) of
                     (s', Inr oc) \<Rightarrow> (s', (transition Succeeded r)
                        \<lparr>ar_outcome := Some (from_outcome oc), ar_backend_error := be\<rparr>)
                   | (s', Inl err) \<Rightarrow> (s', (transition Failed r)
                        \<lparr>ar_error := Some (show_adapter_error err), ar_backend_error := be\<rparr>))
              | Denied reason \<Rightarrow>
                  (s, (transition (denial_to_terminal reason) (transition PolicyChecked r))
                        \<lparr>ar_denial_reason := Some reason, ar_backend_error := be\<rparr>))
         | None \<Rightarrow>
             (s, (transition Failed r)
                   \<lparr>ar_error := Some (show_lifecycle_error (MissingPolicyDecision (ap_coord p))),
                    ar_backend_error := be\<rparr>)))"

definition run_lifecycle :: "'s adapter \<Rightarrow> policy_config \<Rightarrow> u32 \<Rightarrow> intent_batch \<Rightarrow> decision_route
    \<Rightarrow> string option \<Rightarrow> capability_level \<Rightarrow> structured_context \<Rightarrow> 's \<Rightarrow> 's \<times> audit_record list" where
  "run_lifecycle execute cfg w batch route be cap ctx s =
     (let decisions = decisions_by_coord (evaluate_batch_with_context cfg batch cap ctx);
          t = ib_generated_at_ms batch;
          tier = cs_source_tier (ctx_summary ctx);
          (s', rss) = map_state (\<lambda>s (io, i).
             map_state (\<lambda>s (jo, a).
                 process_action execute decisions route be tier (in_risk_level i) t s
                   (proposal_of w t (of_nat io) i (of_nat jo) a))
               s (enumerate 0 (in_suggested_actions i)))
             s (enumerate 0 (ib_intents batch))
      in (s', concat rss))"

section \<open>One loop over the positions of the batch\<close>

definition positions :: "intent_batch \<Rightarrow> (nat \<times> intent \<times> nat \<times> suggested_action) list" where
  "positions b = [(io, i, jo, a). (io, i) \<leftarrow> enumerate 0 (ib_intents b),
                                   (jo, a) \<leftarrow> enumerate 0 (in_suggested_actions i)]"

lemma set_enumerate_image: "set (enumerate 0 xs) = (\<lambda>i. (i, xs ! i)) ` {..<length xs}"
  by (auto simp: enum_simps image_iff)

lemma positions_mem:
  "(io, i, jo, a) \<in> set (positions b) \<longleftrightarrow>
     io < length (ib_intents b) \<and> i = ib_intents b ! io
     \<and> jo < length (in_suggested_actions i) \<and> a = in_suggested_actions i ! jo"
proof -
  have "set (positions b) = (\<Union>(io, i) \<in> set (enumerate 0 (ib_intents b)).
      (\<lambda>(jo, a). (io, i, jo, a)) ` set (enumerate 0 (in_suggested_actions i)))"
    by (simp add: positions_def case_prod_unfold)
  then show ?thesis by (auto simp: set_enumerate_image image_iff)
qed

lemma positions_cases:
  assumes "x \<in> set (positions b)"
  obtains io i jo a where "x = (io, i, jo, a)" "(io, i, jo, a) \<in> set (positions b)"
  using assms by (metis prod_cases4)

definition position_proposal :: "u32 \<Rightarrow> i64 \<Rightarrow> nat \<times> intent \<times> nat \<times> suggested_action \<Rightarrow> action_proposal" where
  "position_proposal w t = (\<lambda>(io, i, jo, a). proposal_of w t (of_nat io) i (of_nat jo) a)"

abbreviation batch_decisions where
  "batch_decisions cfg batch cap ctx \<equiv> decisions_by_coord (evaluate_batch_with_context cfg batch cap ctx)"

lemma run_lifecycle_flat:
  "run_lifecycle execute cfg w batch route be cap ctx s =
     map_state (\<lambda>s x. process_action execute (batch_decisions cfg batch cap ctx) route be
         (cs_source_tier (ctx_summary ctx)) (in_risk_level (fst (snd x))) (ib_generated_at_ms batch) s
         (position_proposal w (ib_generated_at_ms batch) x)) s (positions batch)"
  (is "_ = map_state ?f s _")
proof -
  let ?row = "\<lambda>(io, i). map (\<lambda>(jo, a). (io, i, jo, a)) (enumerate 0 (in_suggested_actions i))"
  have p: "positions batch = concat (map ?row (enumerate 0 (ib_intents batch)))"
    by (simp add: positions_def)
  show ?thesis
    unfolding p map_state_concat
    by (simp add: run_lifecycle_def map_state_map case_prod_unfold Let_def position_proposal_def)
qed

section \<open>The decision map\<close>

lemma decisions_by_coord_map_of:
  "decisions_by_coord ds = map_of (rev (map (\<lambda>d. ((pd_intent_ordinal d, pd_action_ordinal d), d)) ds))"
proof -
  have "foldl (\<lambda>m d. m((pd_intent_ordinal d, pd_action_ordinal d) \<mapsto> d)) m ds =
      m ++ map_of (rev (map (\<lambda>d. ((pd_intent_ordinal d, pd_action_ordinal d), d)) ds))" for m
    by (induction ds arbitrary: m) auto
  then show ?thesis by (simp add: decisions_by_coord_def)
qed

text \<open>A decision of the batch is the reference verdict of one position.\<close>

lemma batch_decisions_mem:
  "d \<in> set (evaluate_batch_with_context cfg batch cap ctx) \<longleftrightarrow>
     (\<exists>(io, i, jo, a) \<in> set (positions batch).
        d = \<lparr>pd_intent_ordinal = of_nat io, pd_action_ordinal = of_nat jo,
             pd_verdict = spec_verdict cfg cap (Some (known_from_context ctx)) i jo\<rparr>)"
  (is "?L \<longleftrightarrow> ?R")
proof -
  have eq: "evaluate_batch_with_context cfg batch cap ctx =
      spec_decisions cfg batch cap (Some (known_from_context ctx))"
    by (simp add: evaluate_batch_with_context_def evaluate_intents_eq_spec)
  show ?thesis
  proof
    assume ?L
    then show ?R
      unfolding eq by (elim spec_decisions_mem) (intro bexI [of _ "(_, _, _, _)"], auto simp: positions_mem)
  next
    assume ?R
    then obtain io jo where "io < length (ib_intents batch)"
        "jo < length (in_suggested_actions (ib_intents batch ! io))"
      and "d = \<lparr>pd_intent_ordinal = of_nat io, pd_action_ordinal = of_nat jo,
             pd_verdict = spec_verdict cfg cap (Some (known_from_context ctx)) (ib_intents batch ! io) jo\<rparr>"
      by (auto simp: positions_mem)
    then show ?L
      unfolding eq spec_decisions_def set_concat set_map set_enumerate_image
      by simp (rule bexI [of _ io], auto)
  qed
qed

lemma decisions_by_coord_SomeD:
  "decisions_by_coord ds k = Some d \<Longrightarrow> d \<in> set ds \<and> k = (pd_intent_ordinal d, pd_action_ordinal d)"
  unfolding decisions_by_coord_map_of by (drule map_of_SomeD) auto

lemma decisions_by_coord_total:
  assumes "d \<in> set ds"
  shows "\<exists>d'. decisions_by_coord ds (pd_intent_ordinal d, pd_action_ordinal d) = Some d'"
proof -
  have "(pd_intent_ordinal d, pd_action_ordinal d)
      \<in> fst ` set (rev (map (\<lambda>d. ((pd_intent_ordinal d, pd_action_ordinal d), d)) ds))"
    unfolding set_rev set_map image_image fst_conv using assms by (rule rev_image_eqI) simp
  then have "(pd_intent_ordinal d, pd_action_ordinal d) \<in> dom (decisions_by_coord ds)"
    unfolding decisions_by_coord_map_of dom_map_of_conv_image_fst .
  then show ?thesis by (rule domD)
qed

lemma batch_decisions_total:
  assumes "(io, i, jo, a) \<in> set (positions batch)"
  shows "\<exists>d. batch_decisions cfg batch cap ctx (of_nat io, of_nat jo) = Some d"
proof -
  let ?d = "\<lparr>pd_intent_ordinal = of_nat io, pd_action_ordinal = of_nat jo,
             pd_verdict = spec_verdict cfg cap (Some (known_from_context ctx)) i jo\<rparr>"
  have "?d \<in> set (evaluate_batch_with_context cfg batch cap ctx)"
    using assms unfolding batch_decisions_mem by blast
  from decisions_by_coord_total [OF this] show ?thesis by simp
qed

definition small_batch :: "intent_batch \<Rightarrow> bool" where
  "small_batch b \<longleftrightarrow> length (ib_intents b) \<le> 2 ^ 32
     \<and> (\<forall>i \<in> set (ib_intents b). length (in_suggested_actions i) \<le> 2 ^ 32)"

lemma batch_decisions_exact:
  assumes "(io, i, jo, a) \<in> set (positions batch)" "small_batch batch"
  shows "map_option pd_verdict (batch_decisions cfg batch cap ctx (of_nat io, of_nat jo)) =
     Some (spec_verdict cfg cap (Some (known_from_context ctx)) i jo)"
proof -
  obtain d where d: "batch_decisions cfg batch cap ctx (of_nat io, of_nat jo) = Some d"
    using batch_decisions_total [OF assms(1)] by blast
  from decisions_by_coord_SomeD [OF this]
  obtain io' i' jo' a' where m: "(io', i', jo', a') \<in> set (positions batch)"
    and k: "(of_nat io' :: u32) = of_nat io" "(of_nat jo' :: u32) = of_nat jo"
    and v: "pd_verdict d = spec_verdict cfg cap (Some (known_from_context ctx)) i' jo'"
    unfolding batch_decisions_mem by auto
  have io: "io' = io"
    by (rule of_nat_u32_inj [THEN iffD1, OF _ _ k(1)])
       (use m assms in \<open>auto simp: positions_mem small_batch_def\<close>)
  have n: "length (in_suggested_actions (ib_intents batch ! io)) \<le> 2 ^ 32"
    using assms by (auto simp: positions_mem small_batch_def)
  have "jo' = jo"
    by (rule of_nat_u32_inj [THEN iffD1, OF _ _ k(2)])
       (use m assms(1) n io in \<open>auto simp: positions_mem\<close>)
  with io m assms(1) v d show ?thesis by (simp add: positions_mem)
qed

section \<open>The life cycle as a step relation\<close>

inductive action_step :: "action_state \<Rightarrow> action_state \<Rightarrow> bool" where
  reject: "action_step Proposed RejectedInvalidSchema"
| validate: "action_step Proposed SchemaValidated"
| check: "action_step SchemaValidated PolicyChecked"
| deny_capability: "action_step PolicyChecked DeniedByCapability"
| deny_policy: "action_step PolicyChecked DeniedByPolicy"
| dispatch: "action_step PolicyChecked Dispatched"
| succeed: "action_step Dispatched Succeeded"
| fail: "action_step Dispatched Failed"

code_pred action_step .

inductive_simps action_step_from [simp]: "action_step x y"

inductive_cases action_step_PolicyCheckedE: "action_step PolicyChecked y"

text \<open>A finished run: from \<open>Proposed\<close>, step by step, to the terminal state the record names.\<close>

definition finished_run :: "action_state list \<Rightarrow> action_state \<Rightarrow> bool" where
  "finished_run ts t \<longleftrightarrow> ts \<noteq> [] \<and> hd ts = Proposed \<and> successively action_step ts
     \<and> last ts = t \<and> is_terminal t"

lemma terminal_no_step: "is_terminal x \<Longrightarrow> \<not> action_step x y"
  by (cases x) auto

text \<open>What a record carries besides its transitions, by terminal state.\<close>

definition record_shape :: "audit_record \<Rightarrow> bool" where
  "record_shape r \<longleftrightarrow>
     (ar_outcome r \<noteq> None \<longleftrightarrow> ar_terminal r = Succeeded)
     \<and> (ar_error r \<noteq> None \<longleftrightarrow> ar_terminal r = Failed \<or> ar_terminal r = RejectedInvalidSchema)
     \<and> (ar_denial_reason r \<noteq> None \<longleftrightarrow> ar_terminal r = DeniedByPolicy \<or> ar_terminal r = DeniedByCapability)
     \<and> (\<forall>d. ar_denial_reason r = Some d \<longrightarrow> ar_terminal r = denial_to_terminal d)"

section \<open>One action\<close>

lemma denial_to_terminal_cases:
  "denial_to_terminal d = DeniedByCapability \<or> denial_to_terminal d = DeniedByPolicy"
  by (cases d) auto

lemma denial_to_terminal_not [simp]:
  "denial_to_terminal d \<noteq> Succeeded" "denial_to_terminal d \<noteq> Failed"
  "denial_to_terminal d \<noteq> RejectedInvalidSchema"
  by (cases d; simp)+

lemma process_action_invalid:
  "validate_schema p risk = Some err \<Longrightarrow>
     process_action ex ds route be tier risk t s p =
       (s, (transition RejectedInvalidSchema (audit_new p route tier))
         \<lparr>ar_error := Some (show_lifecycle_error err), ar_backend_error := be\<rparr>)"
  by (simp add: process_action_def)

lemma process_action_denied:
  "validate_schema p risk = None \<Longrightarrow>
   ds (co_intent_ordinal (ap_coord p), co_action_ordinal (ap_coord p)) = Some d \<Longrightarrow>
   pd_verdict d = Denied r \<Longrightarrow>
     process_action ex ds route be tier risk t s p =
       (s, (transition (denial_to_terminal r) (transition PolicyChecked
             (transition SchemaValidated (audit_new p route tier))))
         \<lparr>ar_denial_reason := Some r, ar_backend_error := be\<rparr>)"
  by (simp add: process_action_def)

lemma process_action_approved:
  "validate_schema p risk = None \<Longrightarrow>
   ds (co_intent_ordinal (ap_coord p), co_action_ordinal (ap_coord p)) = Some d \<Longrightarrow>
   pd_verdict d = Approved \<Longrightarrow>
     process_action ex ds route be tier risk t s p =
       (fst (ex s (seal p t)),
        (let r = transition Dispatched (transition PolicyChecked
                   (transition SchemaValidated (audit_new p route tier)))
         in case snd (ex s (seal p t)) of
              Inr oc \<Rightarrow> (transition Succeeded r)
                 \<lparr>ar_outcome := Some (from_outcome oc), ar_backend_error := be\<rparr>
            | Inl err \<Rightarrow> (transition Failed r)
                 \<lparr>ar_error := Some (show_adapter_error err), ar_backend_error := be\<rparr>))"
  by (simp add: process_action_def Let_def split: prod.splits sum.splits)

lemmas process_action_simps = process_action_invalid process_action_denied process_action_approved

lemmas record_build_defs = audit_new_def transition_def Let_def

text \<open>The three branches of an action whose decision is in the map.\<close>

lemma process_action_split:
  assumes "ds (co_intent_ordinal (ap_coord p), co_action_ordinal (ap_coord p)) = Some d"
  obtains (invalid) err where "validate_schema p risk = Some err"
  | (denied) r where "validate_schema p risk = None" "pd_verdict d = Denied r"
  | (approved) "validate_schema p risk = None" "pd_verdict d = Approved"
  by (cases "validate_schema p risk"; cases "pd_verdict d") auto

lemma process_action_finished:
  assumes "ds (co_intent_ordinal (ap_coord p), co_action_ordinal (ap_coord p)) = Some d"
  shows "finished_run (ar_transitions (snd (process_action ex ds route be tier risk t s p)))
           (ar_terminal (snd (process_action ex ds route be tier risk t s p)))"
  using assms
proof (cases rule: process_action_split [where risk = risk])
  case (denied r)
  with assms denial_to_terminal_cases [of r] show ?thesis
    by (auto simp: process_action_simps record_build_defs finished_run_def)
qed (use assms in \<open>auto simp: process_action_simps record_build_defs finished_run_def split: sum.splits\<close>)

lemma process_action_shape:
  assumes "ds (co_intent_ordinal (ap_coord p), co_action_ordinal (ap_coord p)) = Some d"
  shows "record_shape (snd (process_action ex ds route be tier risk t s p))"
  using assms
proof (cases rule: process_action_split [where risk = risk])
  case (denied r)
  with assms denial_to_terminal_cases [of r] show ?thesis
    by (auto simp: process_action_simps record_build_defs record_shape_def)
qed (use assms in \<open>auto simp: process_action_simps record_build_defs record_shape_def split: sum.splits\<close>)

text \<open>The identity of the record: what it copies from the proposal and the call.\<close>

definition record_identity where
  "record_identity r = (ar_coord r, ar_intent_id r, ar_action_type r, ar_target r, ar_effect r,
     ar_route r, ar_backend_error r, ar_source_tier r)"

lemma process_action_identity:
  "record_identity (snd (process_action ex ds route be tier risk t s p)) =
     (ap_coord p, ap_intent_id p, sa_action_type (ap_action p), sa_target (ap_action p), ap_effect p,
      route, be, tier)"
  by (auto simp: process_action_def record_build_defs record_identity_def
      split: option.splits policy_verdict.splits prod.splits sum.splits)

section \<open>Adapters as an interface\<close>

locale action_adapter =
  fixes execute :: "'s adapter"
  assumes echo: "snd (execute s a) = Inr oc \<Longrightarrow>
      ao_action_type oc = debug_action_type (sa_action_type (aa_action a))
      \<and> ao_target oc = sa_target (aa_action a)"
begin

lemma process_outcome:
  assumes "ar_outcome (snd (process_action execute ds route be tier risk t s p)) = Some oc"
  shows "os_action_type oc = debug_action_type (sa_action_type (ap_action p))
     \<and> os_target oc = sa_target (ap_action p)"
proof -
  obtain s' res where ex: "execute s (seal p t) = (s', res)" by fastforce
  with assms obtain o1 where "res = Inr o1" "oc = from_outcome o1"
    by (auto simp: process_action_def record_build_defs
        split: option.splits policy_verdict.splits prod.splits sum.splits)
  with ex echo [of s "seal p t" o1] show ?thesis by (simp add: from_outcome_def seal_def)
qed

lemma run_outcome:
  assumes "r \<in> set (snd (run_lifecycle execute cfg w batch route be cap ctx s))" "ar_outcome r = Some oc"
  shows "os_action_type oc = debug_action_type (ar_action_type r) \<and> os_target oc = ar_target r"
proof -
  from assms(1) obtain s' x where r: "r = snd (process_action execute (batch_decisions cfg batch cap ctx) route be
      (cs_source_tier (ctx_summary ctx)) (in_risk_level (fst (snd x))) (ib_generated_at_ms batch) s'
      (position_proposal w (ib_generated_at_ms batch) x))" (is "_ = snd ?pr")
    by (auto simp: run_lifecycle_flat elim: map_state_all)
  from assms(2) show ?thesis
    using process_action_identity [of execute "batch_decisions cfg batch cap ctx" route be
        "cs_source_tier (ctx_summary ctx)" "in_risk_level (fst (snd x))" "ib_generated_at_ms batch" s'
        "position_proposal w (ib_generated_at_ms batch) x"]
    unfolding r by (auto simp: record_identity_def dest: process_outcome)
qed

end

section \<open>Properties\<close>

text \<open>A window's run returns exactly one audit record per suggested action, in batch order.
  Record for record it carries the coordinates of its position, its intent's id, the action's
  type, target and effect, and the route, backend error and source tier of the call, whatever
  the adapter answers and whatever the policy decides.\<close>

theorem lifecycle_one_record_per_action:
  "map record_identity (snd (run_lifecycle execute cfg w batch route be cap ctx s)) =
     map (\<lambda>(io, i, jo, a).
       (\<lparr>co_window_ordinal = w, co_intent_ordinal = of_nat io, co_action_ordinal = of_nat jo\<rparr>,
        in_intent_id i, sa_action_type a, sa_target a, effect_from_action_type (sa_action_type a),
        route, be, cs_source_tier (ctx_summary ctx))) (positions batch)"
  unfolding run_lifecycle_flat
  by (rule map_state_map_snd) (auto simp: process_action_identity position_proposal_def proposal_of_def)

text \<open>Every record of a run comes from a position whose decision is in the map.\<close>

lemma run_record_cases:
  assumes "r \<in> set (snd (run_lifecycle execute cfg w batch route be cap ctx s))"
  obtains s' x d where "x \<in> set (positions batch)"
    "r = snd (process_action execute (batch_decisions cfg batch cap ctx) route be
       (cs_source_tier (ctx_summary ctx)) (in_risk_level (fst (snd x))) (ib_generated_at_ms batch) s'
       (position_proposal w (ib_generated_at_ms batch) x))"
    "batch_decisions cfg batch cap ctx
       (co_intent_ordinal (ap_coord (position_proposal w (ib_generated_at_ms batch) x)),
        co_action_ordinal (ap_coord (position_proposal w (ib_generated_at_ms batch) x))) = Some d"
proof -
  from assms obtain s' x where x: "x \<in> set (positions batch)" and
    r: "r = snd (process_action execute (batch_decisions cfg batch cap ctx) route be
       (cs_source_tier (ctx_summary ctx)) (in_risk_level (fst (snd x))) (ib_generated_at_ms batch) s'
       (position_proposal w (ib_generated_at_ms batch) x))"
    by (auto simp: run_lifecycle_flat elim: map_state_all)
  obtain io i jo a where e: "x = (io, i, jo, a)" by (cases x) auto
  with x batch_decisions_total [of io i jo a batch cfg cap ctx] obtain d
    where "batch_decisions cfg batch cap ctx (of_nat io, of_nat jo) = Some d" by blast
  with x r show thesis by (intro that [of x s' d]) (auto simp: e position_proposal_def proposal_of_def)
qed

text \<open>Every record is finished and consistent. Its transitions are a run of the life cycle
  \<open>action_step\<close> from \<open>Proposed\<close> to the terminal state it names (the internal
  missing-decision failure, which is no step of that relation, never occurs); it has an outcome
  exactly when it succeeded, an error exactly when it failed or its schema was rejected, and a
  denial reason exactly when it was denied, with the terminal state that reason maps to.\<close>

theorem lifecycle_records_finished:
  assumes "r \<in> set (snd (run_lifecycle execute cfg w batch route be cap ctx s))"
  shows "finished_run (ar_transitions r) (ar_terminal r) \<and> record_shape r"
  using assms by (elim run_record_cases) (auto intro: process_action_finished process_action_shape)

text \<open>The credentials a run hands out, read off the reference verdicts.\<close>

definition authorized_spec :: "policy_config \<Rightarrow> u32 \<Rightarrow> intent_batch \<Rightarrow> capability_level
    \<Rightarrow> structured_context \<Rightarrow> authorized_action list" where
  "authorized_spec cfg w batch cap ctx =
     map (\<lambda>x. seal (position_proposal w (ib_generated_at_ms batch) x) (ib_generated_at_ms batch))
       (filter (\<lambda>(io, i, jo, a).
            validate_schema (position_proposal w (ib_generated_at_ms batch) (io, i, jo, a)) (in_risk_level i) = None
            \<and> spec_verdict cfg cap (Some (known_from_context ctx)) i jo = Approved) (positions batch))"

lemma foldl_filter_map:
  assumes "\<And>s x. x \<in> set xs \<Longrightarrow> f s x = (if P x then g s (h x) else s)"
  shows "foldl f s xs = foldl g s (map h (filter P xs))"
  using assms by (induction xs arbitrary: s) auto

lemma process_action_state:
  assumes "map_option pd_verdict (ds (co_intent_ordinal (ap_coord p), co_action_ordinal (ap_coord p))) = Some v"
  shows "fst (process_action ex ds route be tier risk t s p) =
     (if validate_schema p risk = None \<and> v = Approved then fst (ex s (seal p t)) else s)"
  using assms
  by (cases v) (auto simp: process_action_def Let_def split: option.splits prod.splits sum.splits)

lemma run_lifecycle_authorized:
  assumes "small_batch batch"
  shows "fst (run_lifecycle execute cfg w batch route be cap ctx s) =
     foldl (\<lambda>s a. fst (execute s a)) s (authorized_spec cfg w batch cap ctx)"
  unfolding run_lifecycle_flat map_state_fst authorized_spec_def
proof (rule foldl_filter_map)
  fix s x assume "x \<in> set (positions batch)"
  then obtain io i jo a where x: "x = (io, i, jo, a)" and m: "(io, i, jo, a) \<in> set (positions batch)"
    by (rule positions_cases)
  show "fst (process_action execute (batch_decisions cfg batch cap ctx) route be
      (cs_source_tier (ctx_summary ctx)) (in_risk_level (fst (snd x))) (ib_generated_at_ms batch) s
      (position_proposal w (ib_generated_at_ms batch) x)) =
    (if case x of (io, i, jo, a) \<Rightarrow>
          validate_schema (position_proposal w (ib_generated_at_ms batch) (io, i, jo, a)) (in_risk_level i) = None
          \<and> spec_verdict cfg cap (Some (known_from_context ctx)) i jo = Approved
     then fst (execute s (seal (position_proposal w (ib_generated_at_ms batch) x) (ib_generated_at_ms batch)))
     else s)"
    using batch_decisions_exact [OF m assms, of cfg cap ctx]
    by (subst process_action_state)
       (auto simp: x position_proposal_def proposal_of_def)
qed

text \<open>C1: the adapter is invoked exactly on the authorised actions, once each and in batch order: the
  adapter's state after a run is the fold of its \<open>execute\<close> over the credentials of the positions
  whose schema is valid and whose reference verdict is an approval. Nothing denied or rejected
  reaches it (the ordinals are \<open>u32\<close>: batches up to \<open>2 ^ 32\<close> intents and actions).\<close>

theorem lifecycle_executes_exactly_authorized:
  assumes "small_batch batch"
  shows "fst (run_lifecycle execute cfg w batch route be cap ctx s) =
     foldl (\<lambda>s a. fst (execute s a)) s (authorized_spec cfg w batch cap ctx)"
  using assms by (rule run_lifecycle_authorized)

text \<open>What the record says of the governance decision at its position.\<close>

definition record_verdict :: "audit_record \<Rightarrow> bool \<times> denial_reason option \<times> bool" where
  "record_verdict r = (ar_terminal r = RejectedInvalidSchema, ar_denial_reason r,
     ar_terminal r = Succeeded \<or> ar_terminal r = Failed)"

lemma process_action_verdict:
  assumes "map_option pd_verdict (ds (co_intent_ordinal (ap_coord p), co_action_ordinal (ap_coord p))) = Some v"
  shows "record_verdict (snd (process_action ex ds route be tier risk t s p)) =
     (if validate_schema p risk \<noteq> None then (True, None, False)
      else case v of Denied d \<Rightarrow> (False, Some d, False) | Approved \<Rightarrow> (False, None, True))"
proof -
  from assms obtain d where
    d: "ds (co_intent_ordinal (ap_coord p), co_action_ordinal (ap_coord p)) = Some d" "pd_verdict d = v"
    by auto
  from d(1) show ?thesis
  proof (cases rule: process_action_split [where risk = risk])
    case (denied r)
    with d denial_to_terminal_cases [of r] show ?thesis
      by (auto simp: process_action_simps record_build_defs record_verdict_def)
  qed (use d in \<open>auto simp: process_action_simps record_build_defs record_verdict_def split: sum.splits\<close>)
qed

text \<open>C30: the audit trail is faithful to the policy. Position by position a record is a schema
  rejection exactly when the action's schema is invalid; otherwise it carries the denial reason
  of the reference verdict, or, when that is an approval, no reason and the terminal state
  \<open>Succeeded\<close> or \<open>Failed\<close>.\<close>

theorem lifecycle_records_verdicts:
  assumes "small_batch batch"
  shows "map record_verdict (snd (run_lifecycle execute cfg w batch route be cap ctx s)) =
     map (\<lambda>(io, i, jo, a).
       if validate_schema (position_proposal w (ib_generated_at_ms batch) (io, i, jo, a)) (in_risk_level i) \<noteq> None
       then (True, None, False)
       else case spec_verdict cfg cap (Some (known_from_context ctx)) i jo of
              Denied d \<Rightarrow> (False, Some d, False) | Approved \<Rightarrow> (False, None, True)) (positions batch)"
  unfolding run_lifecycle_flat
proof (rule map_state_map_snd)
  fix s x assume "x \<in> set (positions batch)"
  then obtain io i jo a where x: "x = (io, i, jo, a)" and m: "(io, i, jo, a) \<in> set (positions batch)"
    by (rule positions_cases)
  show "record_verdict (snd (process_action execute (batch_decisions cfg batch cap ctx) route be
      (cs_source_tier (ctx_summary ctx)) (in_risk_level (fst (snd x))) (ib_generated_at_ms batch) s
      (position_proposal w (ib_generated_at_ms batch) x))) =
    (case x of (io, i, jo, a) \<Rightarrow>
       if validate_schema (position_proposal w (ib_generated_at_ms batch) (io, i, jo, a)) (in_risk_level i) \<noteq> None
       then (True, None, False)
       else case spec_verdict cfg cap (Some (known_from_context ctx)) i jo of
              Denied d \<Rightarrow> (False, Some d, False) | Approved \<Rightarrow> (False, None, True))"
    using batch_decisions_exact [OF m assms, of cfg cap ctx]
    by (subst process_action_verdict)
       (auto simp: x position_proposal_def proposal_of_def)
qed

section \<open>The audit records as entries\<close>

text \<open>What identifies an action, in a credential and in a record, and a record with its verdict.\<close>

definition action_key :: "authorized_action \<Rightarrow> action_coord \<times> string \<times> action_type \<times> string option \<times> effect_class" where
  "action_key a = (aa_coord a, aa_intent_id a, sa_action_type (aa_action a), sa_target (aa_action a), aa_effect a)"

definition audit_key :: "audit_record \<Rightarrow> action_coord \<times> string \<times> action_type \<times> string option \<times> effect_class" where
  "audit_key r = (ar_coord r, ar_intent_id r, ar_action_type r, ar_target r, ar_effect r)"

definition was_executed :: "audit_record \<Rightarrow> bool" where
  "was_executed r \<longleftrightarrow> ar_terminal r = Succeeded \<or> ar_terminal r = Failed"

definition record_entry where
  "record_entry r = (audit_key r, record_verdict r)"

text \<open>The same, read off the batch, the capability and the context by the reference verdicts.\<close>

definition reference_entries where
  "reference_entries cfg w batch cap ctx = map (\<lambda>(io, i, jo, a).
     ((\<lparr>co_window_ordinal = w, co_intent_ordinal = of_nat io, co_action_ordinal = of_nat jo\<rparr>,
       in_intent_id i, sa_action_type a, sa_target a, effect_from_action_type (sa_action_type a)),
      if validate_schema (position_proposal w (ib_generated_at_ms batch) (io, i, jo, a)) (in_risk_level i) \<noteq> None
      then (True, None, False)
      else case spec_verdict cfg cap (Some (known_from_context ctx)) i jo of
             Denied d \<Rightarrow> (False, Some d, False) | Approved \<Rightarrow> (False, None, True))) (positions batch)"

lemma process_action_key:
  "audit_key (snd (process_action ex ds route be tier risk t s p)) =
     (ap_coord p, ap_intent_id p, sa_action_type (ap_action p), sa_target (ap_action p), ap_effect p)"
  using process_action_identity [of ex ds route be tier risk t s p]
  by (simp add: record_identity_def audit_key_def)

lemma run_lifecycle_entries:
  assumes "small_batch batch"
  shows "map record_entry (snd (run_lifecycle execute cfg w batch route be cap ctx s)) =
     reference_entries cfg w batch cap ctx"
  unfolding run_lifecycle_flat reference_entries_def
proof (rule map_state_map_snd)
  fix s x assume "x \<in> set (positions batch)"
  then obtain io i jo a where x: "x = (io, i, jo, a)" and m: "(io, i, jo, a) \<in> set (positions batch)"
    by (rule positions_cases)
  let ?p = "position_proposal w (ib_generated_at_ms batch) (io, i, jo, a)"
  have "map_option pd_verdict (batch_decisions cfg batch cap ctx
      (co_intent_ordinal (ap_coord ?p), co_action_ordinal (ap_coord ?p))) =
      Some (spec_verdict cfg cap (Some (known_from_context ctx)) i jo)"
    using batch_decisions_exact [OF m assms, of cfg cap ctx] by (simp add: position_proposal_def proposal_of_def)
  then have "record_verdict (snd (process_action ex (batch_decisions cfg batch cap ctx) route be tier risk t s ?p)) =
      (if validate_schema ?p risk \<noteq> None then (True, None, False)
       else case spec_verdict cfg cap (Some (known_from_context ctx)) i jo of
              Denied d \<Rightarrow> (False, Some d, False) | Approved \<Rightarrow> (False, None, True))" for ex tier risk t and s :: 'a
    by (rule process_action_verdict)
  then show "record_entry (snd (process_action execute (batch_decisions cfg batch cap ctx) route be
      (cs_source_tier (ctx_summary ctx)) (in_risk_level (fst (snd x))) (ib_generated_at_ms batch) s
      (position_proposal w (ib_generated_at_ms batch) x))) =
    (case x of (io, i, jo, a) \<Rightarrow>
       ((\<lparr>co_window_ordinal = w, co_intent_ordinal = of_nat io, co_action_ordinal = of_nat jo\<rparr>,
         in_intent_id i, sa_action_type a, sa_target a, effect_from_action_type (sa_action_type a)),
        if validate_schema (position_proposal w (ib_generated_at_ms batch) (io, i, jo, a)) (in_risk_level i) \<noteq> None
        then (True, None, False)
        else case spec_verdict cfg cap (Some (known_from_context ctx)) i jo of
               Denied d \<Rightarrow> (False, Some d, False) | Approved \<Rightarrow> (False, None, True)))"
    unfolding x record_entry_def process_action_key
    by (simp add: position_proposal_def proposal_of_def)
qed

lemma executed_entries:
  "map audit_key (filter was_executed rs) = map fst (filter (snd \<circ> snd \<circ> snd) (map record_entry rs))"
  by (induction rs) (auto simp: record_entry_def record_verdict_def was_executed_def)

lemma map_filter_agree:
  assumes "\<And>x. x \<in> set xs \<Longrightarrow> P x \<longleftrightarrow> Q (h x)" "\<And>x. x \<in> set xs \<Longrightarrow> P x \<Longrightarrow> f (g x) = k (h x)"
  shows "map f (map g (filter P xs)) = map k (filter Q (map h xs))"
  using assms by (induction xs) auto

lemma authorized_entries:
  "map action_key (authorized_spec cfg w batch cap ctx) =
     map fst (filter (snd \<circ> snd \<circ> snd) (reference_entries cfg w batch cap ctx))"
  unfolding authorized_spec_def reference_entries_def
  by (rule map_filter_agree)
    (auto simp: action_key_def seal_def position_proposal_def proposal_of_def split: policy_verdict.splits if_splits)

text \<open>The records that ended in execution are the authorised actions, in the same order.\<close>

lemma run_lifecycle_executed:
  assumes "small_batch batch"
  shows "map audit_key (filter was_executed (snd (run_lifecycle execute cfg w batch route be cap ctx s))) =
     map action_key (authorized_spec cfg w batch cap ctx)"
  by (simp only: executed_entries authorized_entries run_lifecycle_entries [OF assms])

section \<open>Concrete inputs\<close>

text \<open>An adapter that keeps the credentials it was given.\<close>

definition log_adapter :: "authorized_action list adapter" where
  "log_adapter s a = (s @ [a], Inr \<lparr>ao_action_type = debug_action_type (sa_action_type (aa_action a)),
     ao_target = sa_target (aa_action a), ao_summary = ''logged'', ao_latency_us = 0\<rparr>)"

definition demo_lifecycle_batch :: intent_batch where
  "demo_lifecycle_batch = demo_batch [demo_action PreWarmProcess (Some ''pkg:com.bank''),
     demo_action PreWarmProcess None, demo_action NoOp None]"

lemma small_demo: "small_batch demo_lifecycle_batch"
  by (simp add: small_batch_def demo_lifecycle_batch_def demo_batch_def demo_intent_def)

abbreviation demo_run where
  "demo_run \<equiv> run_lifecycle log_adapter default_policy_config 0 demo_lifecycle_batch LocalEvaluator None
     (for_route LocalEvaluator) demo_context []"

lemma demo_terminals:
  "map ar_terminal (snd demo_run) = [DeniedByPolicy, RejectedInvalidSchema, Succeeded]"
  by code_simp

theorem lifecycle_records_finished_witness:
  "finished_run (ar_transitions (snd demo_run ! 2)) Succeeded"
proof -
  have n: "length (snd demo_run) = 3" using arg_cong [OF demo_terminals, of length] by simp
  then have m: "snd demo_run ! 2 \<in> set (snd demo_run)" by (intro nth_mem) simp
  have "ar_terminal (snd demo_run ! 2) = Succeeded"
    using arg_cong [OF demo_terminals, of "\<lambda>xs. xs ! 2"] n by (simp add: nth_map)
  with lifecycle_records_finished [OF m] show ?thesis by simp
qed

theorem lifecycle_executes_exactly_authorized_witness:
  "fst demo_run = foldl (\<lambda>s a. fst (log_adapter s a)) []
     (authorized_spec default_policy_config 0 demo_lifecycle_batch (for_route LocalEvaluator) demo_context)
   \<and> length (fst demo_run) = 1"
proof -
  have "length (fst demo_run) = 1" by code_simp
  with lifecycle_executes_exactly_authorized [OF small_demo, of log_adapter default_policy_config 0
      LocalEvaluator None "for_route LocalEvaluator" demo_context "[]"]
  show ?thesis by simp
qed

theorem lifecycle_records_verdicts_witness:
  "map record_verdict (snd demo_run) =
     [(False, Some TargetNotInContext, False), (True, None, False), (False, None, True)]"
proof -
  have "map (\<lambda>(io, i, jo, a).
       if validate_schema (position_proposal 0 (ib_generated_at_ms demo_lifecycle_batch) (io, i, jo, a))
            (in_risk_level i) \<noteq> None
       then (True, None, False)
       else case spec_verdict default_policy_config (for_route LocalEvaluator)
                   (Some (known_from_context demo_context)) i jo of
              Denied d \<Rightarrow> (False, Some d, False) | Approved \<Rightarrow> (False, None, True))
         (positions demo_lifecycle_batch) =
     [(False, Some TargetNotInContext, False), (True, None, False), (False, None, True)]"
    by code_simp
  with lifecycle_records_verdicts [OF small_demo, of log_adapter default_policy_config 0
      LocalEvaluator None "for_route LocalEvaluator" demo_context "[]"]
  show ?thesis by simp
qed

end
