(* ===== verification/Action_Exec.thy ===== *)
theory Action_Exec
  imports Action_Lifecycle
begin

text \<open>
  \<open>aios-action\<close>: the three adapters the lifecycle is run with, \<open>OfflineAdapter\<close>,
  \<open>DefaultActionExecutor\<close> (\<open>lib.rs\<close>) and \<open>AndroidAdapter\<close> (\<open>android_adapter.rs\<close>), with the
  bridge message types of \<open>aios-spec/src/bridge.rs\<close>. The \<open>name\<close> methods and logging are left out.

  The Android adapter talks to the world: the clock, \<open>serde_json\<close>, the HMAC and the socket
  are the fields of \<open>android_env\<close>. A connection is the list of what its \<open>read\<close> calls return;
  the read loop, the routing, the signed envelope and the mapping of the reply are modelled.
  Each adapter interprets \<open>action_adapter\<close>.
\<close>

section \<open>Offline adapter (offline_adapter.rs)\<close>

definition unwrap_or :: "'a option \<Rightarrow> 'a \<Rightarrow> 'a" where
  "unwrap_or x d = (case x of Some y \<Rightarrow> y | None \<Rightarrow> d)"

fun offline_summary :: "action_type \<Rightarrow> string option \<Rightarrow> string" where
  "offline_summary NoOp t = ''noop''"
| "offline_summary PreWarmProcess t = ''simulate_prewarm:'' @ unwrap_or t ''unknown''"
| "offline_summary PrefetchFile t = ''simulate_cache:'' @ unwrap_or t ''unknown''"
| "offline_summary KeepAlive t = ''simulate_keepalive:'' @ unwrap_or t ''system''"
| "offline_summary ReleaseMemory t = ''simulate_release:'' @ unwrap_or t ''system''"

definition offline_execute :: "'s adapter" where
  "offline_execute s a =
     (s, Inr \<lparr>ao_action_type = debug_action_type (sa_action_type (aa_action a)),
         ao_target = sa_target (aa_action a),
         ao_summary = offline_summary (sa_action_type (aa_action a)) (sa_target (aa_action a)),
         ao_latency_us = 0\<rparr>)"

interpretation offline: action_adapter offline_execute
  by unfold_locales (auto simp: offline_execute_def)

section \<open>Default executor (lib.rs)\<close>

fun default_summary :: "action_type \<Rightarrow> string option \<Rightarrow> adapter_error + string" where
  "default_summary PreWarmProcess (Some t) = Inr ''stub_prewarm''"
| "default_summary PreWarmProcess None = Inl (ExecutionError ''PreWarmProcess requires a target app'')"
| "default_summary PrefetchFile t = Inr ''stub_prefetch''"
| "default_summary KeepAlive (Some t) = Inr (''stub_keepalive:'' @ t)"
| "default_summary KeepAlive None = Inr ''stub_keepalive:system''"
| "default_summary ReleaseMemory t = Inr ''stub_release_memory''"
| "default_summary NoOp t = Inr ''noop''"

definition default_execute :: "'s adapter" where
  "default_execute s a =
     (s, case default_summary (sa_action_type (aa_action a)) (sa_target (aa_action a)) of
           Inl e \<Rightarrow> Inl e
         | Inr m \<Rightarrow> Inr \<lparr>ao_action_type = debug_action_type (sa_action_type (aa_action a)),
             ao_target = sa_target (aa_action a), ao_summary = m, ao_latency_us = 0\<rparr>)"

interpretation default_executor: action_adapter default_execute
  by unfold_locales (auto simp: default_execute_def split: sum.splits)

section \<open>Bridge protocol (aios-spec/src/bridge.rs)\<close>

record bridge_request =
  br_message_type :: string
  br_issued_at_ms :: i64
  br_expires_at_ms :: i64
  br_hmac_sha256 :: string
  br_action :: string

datatype bridge_status = BridgeOk | BridgeRejected | BridgeError

record bridge_response =
  bs_status :: bridge_status
  bs_summary :: "string option"
  bs_latency_us :: "u64 option"
  bs_error :: "string option"

section \<open>Android adapter (android_adapter.rs)\<close>

record android_bridge_config =
  abc_host :: string
  abc_port :: u16
  abc_auth_key :: "string option"

text \<open>What one \<open>read\<close> on the socket returns; the strings are the errors' rendering.\<close>

datatype read_result = ReadOk string | ReadTimeout string | ReadErr string

record 'w android_env =
  ae_serialize :: "authorized_action \<Rightarrow> string + string"
  ae_clock :: "'w \<Rightarrow> string + i64"
  ae_hmac :: "string \<Rightarrow> string \<Rightarrow> string + string"
  ae_serialize_request :: "bridge_request \<Rightarrow> string + string"
  ae_open :: "'w \<Rightarrow> string \<Rightarrow> u16 \<Rightarrow> string \<Rightarrow> 'w \<times> (string + read_result list)"
  ae_is_json :: "string \<Rightarrow> bool"
  ae_parse_response :: "string \<Rightarrow> string + bridge_response"

definition MAX_RESPONSE_BYTES :: nat where
  "MAX_RESPONSE_BYTES = 4096"

definition ANDROID_ACTION_PAYLOAD_TTL_MS :: int where
  "ANDROID_ACTION_PAYLOAD_TTL_MS = 60000"

definition show_endpoint :: "string \<Rightarrow> u16 \<Rightarrow> string" where
  "show_endpoint host port = host @ '':'' @ show_nat (unat port)"

text \<open>The read loop of \<open>send_request\<close>; a connection with nothing left to read is at EOF.\<close>

fun read_response :: "(string \<Rightarrow> bool) \<Rightarrow> string \<Rightarrow> read_result list \<Rightarrow> string \<Rightarrow> string + string" where
  "read_response is_json ep [] buf =
     (if buf = [] then Inl (''bridge '' @ ep @ '' closed without response'') else Inr buf)"
| "read_response is_json ep (ReadOk bs # rs) buf =
     (if bs = [] then read_response is_json ep [] buf
      else if MAX_RESPONSE_BYTES < length buf + length bs
      then Inl (''bridge response exceeded '' @ show_nat MAX_RESPONSE_BYTES @ '' bytes'')
      else if is_json (buf @ bs) then read_response is_json ep [] (buf @ bs)
      else read_response is_json ep rs (buf @ bs))"
| "read_response is_json ep (ReadTimeout e # rs) buf =
     (if buf = [] then Inl (''read bridge response from '' @ ep @ '': '' @ e)
      else read_response is_json ep [] buf)"
| "read_response is_json ep (ReadErr e # rs) buf =
     Inl (''read bridge response from '' @ ep @ '': '' @ e)"

definition send_request :: "'w android_env \<Rightarrow> string \<Rightarrow> u16 \<Rightarrow> string \<Rightarrow> 'w \<Rightarrow> 'w \<times> (string + string)" where
  "send_request env host port payload w =
     (case ae_open env w host port payload of
        (w', Inl e) \<Rightarrow> (w', Inl e)
      | (w', Inr reads) \<Rightarrow> (w', read_response (ae_is_json env) (show_endpoint host port) reads []))"

definition newline :: char where
  "newline = CHR 0x0A"

text \<open>The bytes the tag covers: the freshness window and the length-prefixed action.\<close>

definition canonical_execute_envelope_input :: "i64 \<Rightarrow> i64 \<Rightarrow> string \<Rightarrow> string" where
  "canonical_execute_envelope_input issued expires action_json =
     ''dipecs.android.bridge.execute.v1'' @ newline # ''issued_at_ms:'' @ show_int issued
     @ newline # ''expires_at_ms:'' @ show_int expires
     @ newline # ''action:'' @ show_nat (length action_json) @ '':'' @ action_json"

datatype exec_route = Forward string | Local

fun classify :: "suggested_action \<Rightarrow> exec_route" where
  "classify a =
     (case sa_action_type a of
        PrefetchFile \<Rightarrow>
          (case sa_target a of
             Some t \<Rightarrow> if starts_with t ''url:'' \<or> starts_with t ''uri:'' then Forward t else Local
           | None \<Rightarrow> Local)
      | PreWarmProcess \<Rightarrow> Forward (unwrap_or (sa_target a) [])
      | KeepAlive \<Rightarrow> Forward (unwrap_or (sa_target a) [])
      | ReleaseMemory \<Rightarrow> Forward (unwrap_or (sa_target a) [])
      | NoOp \<Rightarrow> Local)"

definition execute_request :: "i64 \<Rightarrow> i64 \<Rightarrow> string \<Rightarrow> string \<Rightarrow> bridge_request" where
  "execute_request issued expires tag action_json =
     \<lparr>br_message_type = ''execute'', br_issued_at_ms = issued, br_expires_at_ms = expires,
      br_hmac_sha256 = tag, br_action = action_json\<rparr>"

text \<open>The mapping of the device's reply.\<close>

definition map_response :: "authorized_action \<Rightarrow> bridge_response \<Rightarrow> adapter_error + action_outcome" where
  "map_response a r =
     (case bs_status r of
        BridgeOk \<Rightarrow> Inr \<lparr>ao_action_type = debug_action_type (sa_action_type (aa_action a)),
            ao_target = sa_target (aa_action a),
            ao_summary = unwrap_or (bs_summary r) ''android_executed'',
            ao_latency_us = unwrap_or (bs_latency_us r) 0\<rparr>
      | BridgeRejected \<Rightarrow> Inl (AndroidBridgeError
            (''android bridge rejected action: '' @ unwrap_or (bs_error r) ''no reason given''))
      | BridgeError \<Rightarrow> Inl (AndroidBridgeError
            (''android bridge execution error: '' @ unwrap_or (bs_error r) ''no detail given'')))"

text \<open>Everything \<open>forward\<close> does before it opens the connection: the request's payload.\<close>

definition build_payload :: "'w android_env \<Rightarrow> string option \<Rightarrow> authorized_action \<Rightarrow> 'w \<Rightarrow> adapter_error + string" where
  "build_payload env auth_key a w =
     (case auth_key of None \<Rightarrow> Inl (AndroidBridgeError
          ''DIPECS_ANDROID_ACTION_BRIDGE_TOKEN is required when forwarding to Android bridge'')
      | Some key \<Rightarrow>
     (case ae_serialize env a of
        Inl e \<Rightarrow> Inl (AndroidBridgeError (''serialize AuthorizedAction: '' @ e))
      | Inr action_json \<Rightarrow>
     (case ae_clock env w of
        Inl e \<Rightarrow> Inl (AndroidBridgeError (''calculate Android bridge payload issue time: '' @ e))
      | Inr issued \<Rightarrow>
        (let expires = i64_wrap (issued + ANDROID_ACTION_PAYLOAD_TTL_MS) in
     (case ae_hmac env key (canonical_execute_envelope_input issued expires action_json) of
        Inl e \<Rightarrow> Inl (AndroidBridgeError (''init HMAC key: '' @ e))
      | Inr tag \<Rightarrow>
     (case ae_serialize_request env (execute_request issued expires tag action_json) of
        Inl e \<Rightarrow> Inl (AndroidBridgeError (''serialize bridge request: '' @ e))
      | Inr payload \<Rightarrow> Inr payload))))))"

definition android_forward :: "'w android_env \<Rightarrow> android_bridge_config \<Rightarrow> 'w adapter" where
  "android_forward env cfg w a =
     (case build_payload env (abc_auth_key cfg) a w of
        Inl e \<Rightarrow> (w, Inl e)
      | Inr payload \<Rightarrow>
     (case send_request env (abc_host cfg) (abc_port cfg) payload w of
        (w', Inl e) \<Rightarrow> (w', Inl (AndroidBridgeError e))
      | (w', Inr raw) \<Rightarrow>
     (case ae_parse_response env raw of
        Inl e \<Rightarrow> (w', Inl (AndroidBridgeError (''parse bridge response: '' @ e)))
      | Inr r \<Rightarrow> (w', map_response a r))))"

definition android_execute :: "'w android_env \<Rightarrow> android_bridge_config \<Rightarrow> 'w adapter" where
  "android_execute env cfg w a =
     (case classify (aa_action a) of
        Forward t \<Rightarrow> android_forward env cfg w a
      | Local \<Rightarrow> default_execute w a)"

lemma map_response_Inr:
  "map_response a r = Inr oc \<Longrightarrow> bs_status r = BridgeOk
     \<and> ao_action_type oc = debug_action_type (sa_action_type (aa_action a)) \<and> ao_target oc = sa_target (aa_action a)"
  by (cases "bs_status r") (auto simp: map_response_def)

lemma android_forward_Inr:
  assumes "snd (android_forward env cfg w a) = Inr oc"
  obtains key payload raw r where
    "abc_auth_key cfg = Some key" "build_payload env (Some key) a w = Inr payload"
    "snd (send_request env (abc_host cfg) (abc_port cfg) payload w) = Inr raw"
    "ae_parse_response env raw = Inr r" "map_response a r = Inr oc"
proof (cases "abc_auth_key cfg")
  case None
  with assms show thesis by (simp add: android_forward_def build_payload_def)
next
  case (Some key)
  with assms that show thesis
    by (auto simp: android_forward_def split: sum.splits prod.splits)
qed

interpretation android: action_adapter "android_execute env cfg" for env cfg
proof unfold_locales
  fix s a oc
  assume h: "snd (android_execute env cfg s a) = Inr oc"
  show "ao_action_type oc = debug_action_type (sa_action_type (aa_action a)) \<and> ao_target oc = sa_target (aa_action a)"
  proof (cases "classify (aa_action a)")
    case (Forward t)
    with h show ?thesis by (auto simp: android_execute_def elim!: android_forward_Inr dest: map_response_Inr)
  next
    case Local
    with h default_executor.echo [of s a oc] show ?thesis by (simp add: android_execute_def)
  qed
qed

section \<open>Decimal rendering is injective\<close>

definition digits_value :: "string \<Rightarrow> nat" where
  "digits_value s = foldl (\<lambda>a c. 10 * a + (of_char c - 48)) 0 s"

lemma digits_value_show_nat: "digits_value (show_nat n) = n"
proof (induction n rule: show_nat.induct)
  case (1 n)
  show ?case
  proof (cases "n < 10")
    case True
    then show ?thesis by (subst show_nat.simps) (simp add: digits_value_def)
  next
    case False
    with 1 have ih: "digits_value (show_nat (n div 10)) = n div 10" by simp
    have "digits_value (show_nat n) =
        10 * digits_value (show_nat (n div 10)) + (of_char (char_of (48 + n mod 10) :: char) - 48)"
      using False by (subst show_nat.simps) (simp add: digits_value_def)
    also have "\<dots> = n" by (simp add: ih)
    finally show ?thesis .
  qed
qed

lemma show_nat_inj [simp]: "show_nat m = show_nat n \<longleftrightarrow> m = n"
  by (metis digits_value_show_nat)

lemma show_nat_digits: "c \<in> set (show_nat n) \<Longrightarrow> 48 \<le> (of_char c :: nat) \<and> (of_char c :: nat) \<le> 57"
proof (induction n rule: show_nat.induct)
  case (1 n)
  then show ?case
    by (subst (asm) (2) show_nat.simps) (auto split: if_splits)
qed

lemma show_nat_no_minus: "CHR ''-'' \<notin> set (show_nat n)"
  using show_nat_digits [of "CHR ''-''" n] by auto

lemma show_int_inj [simp]: "show_int a = show_int b \<longleftrightarrow> a = b"
proof
  assume e: "show_int a = show_int b"
  have neg: "hd (show_int x) = CHR ''-'' \<longleftrightarrow> x < 0" for x
  proof -
    have "show_nat (nat x) \<noteq> []" by (subst show_nat.simps) simp
    then have "hd (show_nat (nat x)) \<noteq> CHR ''-''"
      using show_nat_no_minus [of "nat x"] hd_in_set [of "show_nat (nat x)"] by metis
    then show ?thesis by (simp add: show_int_def)
  qed
  have "a < 0 \<longleftrightarrow> b < 0" using e neg [of a] neg [of b] by simp
  with e show "a = b" by (auto simp: show_int_def split: if_splits)
qed simp

lemma show_int_no_newline: "newline \<notin> set (show_int a)"
  using show_nat_digits [of newline] by (auto simp: show_int_def newline_def)

lemma show_nat_no_colon: "CHR '':'' \<notin> set (show_nat n)"
  using show_nat_digits [of "CHR '':''" n] by auto

lemma split_at_delim:
  "d \<notin> set x \<Longrightarrow> d \<notin> set y \<Longrightarrow> x @ d # r = y @ d # r' \<Longrightarrow> x = y \<and> r = r'"
proof (induction x arbitrary: y)
  case Nil
  then show ?case by (cases y) auto
next
  case (Cons c x)
  then show ?case by (cases y) auto
qed

section \<open>Properties\<close>

text \<open>C33: the bytes the Android bridge's HMAC covers determine what is authorised: two envelopes with
  the same canonical input have the same issue time, the same expiry and the same serialized
  action, so a tag cannot be moved to another action or another freshness window by an
  ambiguous encoding.\<close>

theorem envelope_input_injective:
  assumes "canonical_execute_envelope_input i e a = canonical_execute_envelope_input i' e' a'"
  shows "i = i' \<and> e = e' \<and> a = a'"
proof -
  from assms have 1: "show_int i @ newline # ''expires_at_ms:'' @ show_int e
        @ newline # ''action:'' @ show_nat (length a) @ '':'' @ a =
      show_int i' @ newline # ''expires_at_ms:'' @ show_int e'
        @ newline # ''action:'' @ show_nat (length a') @ '':'' @ a'"
    by (simp add: canonical_execute_envelope_input_def)
  note i = split_at_delim [OF show_int_no_newline show_int_no_newline 1]
  then have 2: "show_int e @ newline # ''action:'' @ show_nat (length a) @ '':'' @ a =
      show_int e' @ newline # ''action:'' @ show_nat (length a') @ '':'' @ a'"
    by simp
  note e = split_at_delim [OF show_int_no_newline show_int_no_newline 2]
  then have 3: "show_nat (length a) @ CHR '':'' # a = show_nat (length a') @ CHR '':'' # a'" by simp
  from i e split_at_delim [OF show_nat_no_colon show_nat_no_colon 3] show ?thesis by simp
qed

theorem envelope_input_injective_witness:
  "(1000::int) = 1000 \<and> (61000::int) = 61000 \<and> ''{}'' = ''{}''"
  by (rule envelope_input_injective) (rule refl)

text \<open>What the reads deliver before the loop stops.\<close>

fun delivered_bytes :: "read_result list \<Rightarrow> string" where
  "delivered_bytes (ReadOk bs # rs) = (if bs = [] then [] else bs @ delivered_bytes rs)"
| "delivered_bytes _ = []"

lemma read_response_Inr:
  "read_response is_json ep rs buf = Inr raw \<Longrightarrow> length buf \<le> MAX_RESPONSE_BYTES \<Longrightarrow>
     raw \<noteq> [] \<and> length raw \<le> MAX_RESPONSE_BYTES \<and> prefix raw (buf @ delivered_bytes rs)
     \<and> (is_json raw \<or> raw = buf @ delivered_bytes rs)"
proof (induction is_json ep rs buf rule: read_response.induct)
  case (2 is_json ep bs rs buf)
  consider "bs = []" | "bs \<noteq> []" "is_json (buf @ bs)" | "bs \<noteq> []" "\<not> is_json (buf @ bs)" by blast
  then show ?case
  proof cases
    case 3
    with 2 show ?thesis by (simp split: if_splits)
  qed (use 2 in \<open>simp split: if_splits\<close>; use 2 in force)+
qed (simp_all split: if_splits)

text \<open>The read loop of the bridge client returns a response only when the device sent one: it is
  non-empty, at most 4096 bytes, a prefix of the bytes the socket delivered, and it stops
  before the end of them only at a complete JSON value. An empty answer, a timeout before any
  byte and a reset are errors.\<close>

theorem bridge_response_bounded:
  assumes "snd (send_request env host port payload w) = Inr raw"
  shows "\<exists>reads. snd (ae_open env w host port payload) = Inr reads
     \<and> raw \<noteq> [] \<and> length raw \<le> MAX_RESPONSE_BYTES \<and> prefix raw (delivered_bytes reads)
     \<and> (ae_is_json env raw \<or> raw = delivered_bytes reads)"
  using assms
  by (auto simp: send_request_def split: prod.splits sum.splits dest!: read_response_Inr)

text \<open>C32: the Android adapter is honest. When it reports success for an action that is forwarded, a
  key is configured, the request was built and sent, and the device's own reply parsed to
  status \<open>Ok\<close>; the outcome carries the reply's summary and latency. No failure of the
  transport or of the device is reported as success.\<close>

theorem android_success_confirmed:
  assumes "snd (android_execute env cfg w a) = Inr oc" "classify (aa_action a) = Forward t"
  shows "\<exists>key payload raw r. abc_auth_key cfg = Some key
     \<and> build_payload env (Some key) a w = Inr payload
     \<and> snd (send_request env (abc_host cfg) (abc_port cfg) payload w) = Inr raw
     \<and> ae_parse_response env raw = Inr r \<and> bs_status r = BridgeOk
     \<and> ao_summary oc = unwrap_or (bs_summary r) ''android_executed''
     \<and> ao_latency_us oc = unwrap_or (bs_latency_us r) 0"
proof -
  from assms have "snd (android_forward env cfg w a) = Inr oc" by (simp add: android_execute_def)
  then show ?thesis
    by (elim android_forward_Inr) (use map_response_Inr in \<open>force simp: map_response_def\<close>)
qed

text \<open>A run over the offline adapter never fails: every record of the window is a success, a schema
  rejection or a denial, and a success's outcome names the record's own action and target.\<close>

theorem offline_run_never_fails:
  assumes "r \<in> set (snd (run_lifecycle offline_execute cfg w batch route be cap ctx (s :: 's)))"
  shows "ar_terminal r \<noteq> Failed
     \<and> (\<forall>oc. ar_outcome r = Some oc \<longrightarrow>
          os_action_type oc = debug_action_type (ar_action_type r) \<and> os_target oc = ar_target r)"
proof
  from assms obtain x d and s' :: 's where
    r: "r = snd (process_action offline_execute (batch_decisions cfg batch cap ctx) route be
       (cs_source_tier (ctx_summary ctx)) (in_risk_level (fst (snd x))) (ib_generated_at_ms batch) s'
       (position_proposal w (ib_generated_at_ms batch) x))" and
    d: "batch_decisions cfg batch cap ctx
       (co_intent_ordinal (ap_coord (position_proposal w (ib_generated_at_ms batch) x)),
        co_action_ordinal (ap_coord (position_proposal w (ib_generated_at_ms batch) x))) = Some d"
    by (rule run_record_cases)
  from d show "ar_terminal r \<noteq> Failed"
    by (cases rule: process_action_split [where risk = "in_risk_level (fst (snd x))"])
       (simp_all add: r d process_action_simps record_build_defs offline_execute_def)
  show "\<forall>oc. ar_outcome r = Some oc \<longrightarrow>
      os_action_type oc = debug_action_type (ar_action_type r) \<and> os_target oc = ar_target r"
    using offline.run_outcome [OF assms] by blast
qed

section \<open>Concrete inputs\<close>

text \<open>A device that answers every request with \<open>\{\}\<close>, parsed as a success without a summary.\<close>

definition demo_android_env :: "unit android_env" where
  "demo_android_env = \<lparr>ae_serialize = (\<lambda>a. Inr (aa_intent_id a)), ae_clock = (\<lambda>w. Inr 1000),
     ae_hmac = (\<lambda>k m. Inr ''00''), ae_serialize_request = (\<lambda>r. Inr (br_action r)),
     ae_open = (\<lambda>w h p m. (w, Inr [ReadOk ''{'', ReadOk ''}'', ReadOk ''x''])),
     ae_is_json = (\<lambda>s. s = ''{}''),
     ae_parse_response = (\<lambda>s. Inr \<lparr>bs_status = BridgeOk, bs_summary = None, bs_latency_us = Some 7,
        bs_error = None\<rparr>)\<rparr>"

definition demo_config :: android_bridge_config where
  "demo_config = \<lparr>abc_host = ''127.0.0.1'', abc_port = 46321, abc_auth_key = Some ''k''\<rparr>"

definition demo_authorized :: authorized_action where
  "demo_authorized = \<lparr>aa_intent_id = ''i0'',
     aa_coord = \<lparr>co_window_ordinal = 0, co_intent_ordinal = 0, co_action_ordinal = 0\<rparr>,
     aa_action = demo_action KeepAlive (Some ''work:sync''), aa_effect = LocalStateChange,
     aa_authorized_at_ms = 0\<rparr>"

theorem bridge_response_bounded_witness:
  "\<exists>reads. snd (ae_open demo_android_env () ''127.0.0.1'' 46321 ''p'') = Inr reads \<and> prefix ''{}'' (delivered_bytes reads)"
proof -
  have "snd (send_request demo_android_env ''127.0.0.1'' 46321 ''p'' ()) = Inr ''{}''"
    by (simp add: send_request_def demo_android_env_def MAX_RESPONSE_BYTES_def)
  from bridge_response_bounded [OF this] show ?thesis by blast
qed

theorem android_success_confirmed_witness:
  "\<exists>key. abc_auth_key demo_config = Some key"
proof -
  have 1: "snd (android_execute demo_android_env demo_config () demo_authorized) =
      Inr \<lparr>ao_action_type = ''KeepAlive'', ao_target = Some ''work:sync'',
           ao_summary = ''android_executed'', ao_latency_us = 7\<rparr>"
    by (simp add: android_execute_def android_forward_def build_payload_def send_request_def
        execute_request_def map_response_def demo_android_env_def demo_config_def demo_authorized_def
        MAX_RESPONSE_BYTES_def unwrap_or_def Let_def)
  have 2: "classify (aa_action demo_authorized) = Forward ''work:sync''" by code_simp
  from android_success_confirmed [OF 1 2] show ?thesis by blast
qed

abbreviation demo_offline_run where
  "demo_offline_run \<equiv> run_lifecycle offline_execute default_policy_config 0 demo_lifecycle_batch LocalEvaluator None
     (for_route LocalEvaluator) demo_context ()"

theorem offline_run_never_fails_witness:
  "ar_terminal (snd demo_offline_run ! 2) \<noteq> Failed"
proof -
  have "length (snd demo_offline_run) = 3" by code_simp
  then have "snd demo_offline_run ! 2 \<in> set (snd demo_offline_run)" by (intro nth_mem) simp
  from offline_run_never_fails [OF this] show ?thesis by blast
qed

end
