(* ===== verification/BTree_Map.thy ===== *)
theory BTree_Map
  imports Prelude
begin

text \<open>
  The part of \<open>std::collections::BTreeMap\<close> the code uses: \<open>get\<close>, \<open>entry(k).or_insert(d)\<close>
  followed by an update, \<open>values_mut\<close>, \<open>retain\<close>, \<open>clear\<close> and iteration in key order. A map is
  its entry list in strictly ascending key order.

  \<open>ordered_map\<close> is the interface; what counting with it yields is proved once inside it, and
  the list representation interprets it.
\<close>

section \<open>Interface\<close>

locale ordered_map =
  fixes emp :: 'm
    and lookup :: "'m \<Rightarrow> 'k::linorder \<Rightarrow> 'v option"
    and upsert :: "'k \<Rightarrow> 'v \<Rightarrow> ('v \<Rightarrow> 'v) \<Rightarrow> 'm \<Rightarrow> 'm"
    and entries :: "'m \<Rightarrow> ('k \<times> 'v) list"
    and invar :: "'m \<Rightarrow> bool"
  assumes emp_invar: "invar emp"
    and emp_lookup: "lookup emp k = None"
    and upsert_invar: "invar m \<Longrightarrow> invar (upsert k d f m)"
    and upsert_lookup: "invar m \<Longrightarrow> lookup (upsert k d f m) k' =
          (if k' = k then Some (f (case lookup m k of Some v \<Rightarrow> v | None \<Rightarrow> d)) else lookup m k')"
    and entries_sorted: "invar m \<Longrightarrow> sorted_wrt (<) (map fst (entries m))"
    and entries_lookup: "invar m \<Longrightarrow> (k, v) \<in> set (entries m) \<longleftrightarrow> lookup m k = Some v"
begin

lemma fold_invar: "invar m \<Longrightarrow> invar (foldl (\<lambda>m k. upsert k d f m) m ks)"
  by (induction ks arbitrary: m) (simp_all add: upsert_invar)

lemma fold_lookup:
  "invar m \<Longrightarrow> lookup (foldl (\<lambda>m k. upsert k d f m) m ks) k =
     (if k \<in> set ks
      then Some ((f ^^ count_list ks k) (case lookup m k of Some v \<Rightarrow> v | None \<Rightarrow> d)) else lookup m k)"
proof (induction ks arbitrary: m)
  case Nil
  then show ?case by simp
next
  case (Cons x ks)
  have "count_list ks k = 0" if "k \<notin> set ks" using that by (simp add: count_list_0_iff)
  with Cons show ?case
    by (auto simp: upsert_invar upsert_lookup funpow_swap1)
qed

text \<open>Counting from an empty map: every key once, in order, with its number of occurrences.\<close>

lemma count_entries:
  "(k, v) \<in> set (entries (foldl (\<lambda>m k. upsert k d f m) emp ks)) \<longleftrightarrow>
     k \<in> set ks \<and> v = (f ^^ count_list ks k) d"
  using fold_lookup [OF emp_invar, of d f ks k] fold_invar [OF emp_invar, of d f ks]
  by (auto simp: entries_lookup emp_lookup)

end

section \<open>Sorted entry lists\<close>

type_synonym ('k, 'v) btree_map = "('k \<times> 'v) list"

definition btree_get :: "('k, 'v) btree_map \<Rightarrow> 'k \<Rightarrow> 'v option" where
  "btree_get m k = map_of m k"

fun btree_upsert :: "'k::linorder \<Rightarrow> 'v \<Rightarrow> ('v \<Rightarrow> 'v) \<Rightarrow> ('k, 'v) btree_map \<Rightarrow> ('k, 'v) btree_map" where
  "btree_upsert k d f [] = [(k, f d)]"
| "btree_upsert k d f ((k', v) # m) =
     (if k < k' then (k, f d) # (k', v) # m
      else if k = k' then (k', f v) # m
      else (k', v) # btree_upsert k d f m)"

definition btree_map_values :: "('v \<Rightarrow> 'v) \<Rightarrow> ('k, 'v) btree_map \<Rightarrow> ('k, 'v) btree_map" where
  "btree_map_values f m = map (\<lambda>(k, v). (k, f v)) m"

definition btree_retain :: "('v \<Rightarrow> bool) \<Rightarrow> ('k, 'v) btree_map \<Rightarrow> ('k, 'v) btree_map" where
  "btree_retain P m = filter (\<lambda>(k, v). P v) m"

definition btree_invar :: "('k::linorder, 'v) btree_map \<Rightarrow> bool" where
  "btree_invar m \<longleftrightarrow> sorted_wrt (<) (map fst m)"

lemma btree_upsert_keys: "fst ` set (btree_upsert k d f m) = insert k (fst ` set m)"
  by (induction k d f m rule: btree_upsert.induct) auto

lemma btree_upsert_invar: "btree_invar m \<Longrightarrow> btree_invar (btree_upsert k d f m)"
proof (induction k d f m rule: btree_upsert.induct)
  case (2 k d f k' v m)
  have "\<forall>x \<in> fst ` set (btree_upsert k d f m). k' < x" if "k' < k"
    using 2(2) that by (auto simp: btree_upsert_keys btree_invar_def)
  with 2 show ?case by (auto simp: btree_invar_def)
qed (simp add: btree_invar_def)

lemma btree_invar_distinct: "btree_invar m \<Longrightarrow> distinct (map fst m)"
  by (simp add: btree_invar_def strict_sorted_iff)

lemma btree_upsert_get:
  "btree_invar m \<Longrightarrow> btree_get (btree_upsert k d f m) k' =
     (if k' = k then Some (f (case btree_get m k of Some v \<Rightarrow> v | None \<Rightarrow> d)) else btree_get m k')"
proof (induction k d f m rule: btree_upsert.induct)
  case (2 k d f k'' v m)
  have "map_of m k = None" if "k < k''"
    using 2(2) that by (fastforce simp: btree_invar_def map_of_eq_None_iff)
  with 2 show ?case by (auto simp: btree_invar_def btree_get_def)
qed (simp add: btree_get_def)

lemma btree_map_values_invar: "btree_invar m \<Longrightarrow> btree_invar (btree_map_values f m)"
  by (simp add: btree_invar_def btree_map_values_def comp_def case_prod_unfold)

lemma btree_retain_invar: "btree_invar m \<Longrightarrow> btree_invar (btree_retain P m)"
  by (induction m) (auto simp: btree_invar_def btree_retain_def)

lemma btree_empty: "btree_invar []" "btree_get [] k = None"
  by (simp_all add: btree_invar_def btree_get_def)

interpretation bt: ordered_map "[]" btree_get btree_upsert "\<lambda>m. m" btree_invar
proof unfold_locales
  fix m :: "('a::linorder \<times> 'b) list" and k v
  assume "btree_invar m"
  then show "(k, v) \<in> set m \<longleftrightarrow> btree_get m k = Some v"
    by (simp add: btree_get_def btree_invar_distinct)
next
  fix m :: "('a::linorder \<times> 'b) list"
  assume "btree_invar m"
  then show "sorted_wrt (<) (map fst m)" by (simp add: btree_invar_def)
qed (simp_all add: btree_upsert_invar btree_upsert_get btree_empty)

end
