(* ===== verification/Text_Analysis.thy ===== *)
theory Text_Analysis
  imports Protocol_Types
begin

text \<open>
  \<open>aios-core/src/text_analysis.rs\<close>: what the air-gap keeps of a text (its length in
  characters, its script, whether it is all emoji, and keyword hints) and of a file path (the
  category of its extension). Keywords outside ASCII are their UTF-8 bytes, in the source's
  order. \<open>u\<close> is the Unicode case table of \<open>to_lowercase\<close> for texts outside ASCII.

  The lemmas: a hint is reported exactly when one of its keywords occurs, each at most once
  and in a fixed order.
\<close>

section \<open>Text\<close>

definition is_emoji :: "nat \<Rightarrow> bool" where
  "is_emoji c \<longleftrightarrow> (0x1F600 \<le> c \<and> c \<le> 0x1F64F) \<or> (0x1F300 \<le> c \<and> c \<le> 0x1F5FF)
     \<or> (0x1F680 \<le> c \<and> c \<le> 0x1F6FF) \<or> (0x1F900 \<le> c \<and> c \<le> 0x1F9FF)
     \<or> (0x2600 \<le> c \<and> c \<le> 0x26FF) \<or> (0x2700 \<le> c \<and> c \<le> 0x27BF)
     \<or> (0xFE00 \<le> c \<and> c \<le> 0xFE0F) \<or> c = 0x200D \<or> (0x1F1E0 \<le> c \<and> c \<le> 0x1F1FF)"

definition is_latin :: "nat \<Rightarrow> bool" where
  "is_latin c \<longleftrightarrow> (0x41 \<le> c \<and> c \<le> 0x7A) \<or> (0xC0 \<le> c \<and> c \<le> 0x24F)"

definition is_hanzi :: "nat \<Rightarrow> bool" where
  "is_hanzi c \<longleftrightarrow> (0x4E00 \<le> c \<and> c \<le> 0x9FFF) \<or> (0x3400 \<le> c \<and> c \<le> 0x4DBF)
     \<or> (0x3000 \<le> c \<and> c \<le> 0x303F) \<or> (0xFF00 \<le> c \<and> c \<le> 0xFFEF)"

definition is_cyrillic :: "nat \<Rightarrow> bool" where
  "is_cyrillic c \<longleftrightarrow> (0x400 \<le> c \<and> c \<le> 0x4FF) \<or> (0x500 \<le> c \<and> c \<le> 0x52F)"

definition is_arabic :: "nat \<Rightarrow> bool" where
  "is_arabic c \<longleftrightarrow> (0x600 \<le> c \<and> c \<le> 0x6FF) \<or> (0x750 \<le> c \<and> c \<le> 0x77F)
     \<or> (0xFB50 \<le> c \<and> c \<le> 0xFDFF) \<or> (0xFE70 \<le> c \<and> c \<le> 0xFEFF)"

text \<open>The arms of the source's match are disjoint, so each flag is an \<open>any\<close>.\<close>

definition script_of :: "nat list \<Rightarrow> script_hint" where
  "script_of cs =
     (let la = list_ex is_latin cs; ha = list_ex is_hanzi cs;
          cy = list_ex is_cyrillic cs; ar = list_ex is_arabic cs;
          count = length (filter (\<lambda>x. x) [la, ha, cy, ar])
      in if count = 0 then ScriptUnknown
         else if count = 1 \<and> la then Latin
         else if count = 1 \<and> ha then Hanzi
         else if count = 1 \<and> cy then Cyrillic
         else if count = 1 \<and> ar then Arabic
         else Mixed)"

definition analyze_text :: "string \<Rightarrow> text_hint" where
  "analyze_text t =
     \<lparr>th_length_chars = length (chars t),
      th_script = (if t = [] then ScriptUnknown else script_of (chars t)),
      th_is_emoji_only = (t \<noteq> [] \<and> list_all is_emoji (chars t))\<rparr>"

section \<open>Semantic hints\<close>

definition contains_any :: "string \<Rightarrow> string list \<Rightarrow> bool" where
  "contains_any t ks = list_ex (str_contains t) ks"

definition file_keywords :: "string list" where
  "file_keywords = [
     [CHR 0xE6, CHR 0x96, CHR 0x87, CHR 0xE4, CHR 0xBB, CHR 0xB6], ''file'', ''pdf'', ''doc'',
     ''docx'', ''xls'', ''xlsx'', ''ppt'', ''pptx'', ''zip'', ''rar'', ''attachment'', [CHR
     0xE9, CHR 0x99, CHR 0x84, CHR 0xE4, CHR 0xBB, CHR 0xB6]]"

definition image_keywords :: "string list" where
  "image_keywords = [
     [CHR 0xE5, CHR 0x9B, CHR 0xBE, CHR 0xE7, CHR 0x89, CHR 0x87], [CHR 0xE7, CHR 0x85, CHR
     0xA7, CHR 0xE7, CHR 0x89, CHR 0x87], [CHR 0xE6, CHR 0x88, CHR 0xAA, CHR 0xE5, CHR 0x9B,
     CHR 0xBE], ''image'', ''photo'', ''screenshot'', ''jpg'', ''jpeg'', ''png'', ''gif'',
     ''webp'', [CHR 0xE7, CHR 0x9B, CHR 0xB8, CHR 0xE5, CHR 0x86, CHR 0x8C]]"

definition audio_keywords :: "string list" where
  "audio_keywords = [
     [CHR 0xE8, CHR 0xAF, CHR 0xAD, CHR 0xE9, CHR 0x9F, CHR 0xB3], ''voice'', ''audio'',
     ''mp3'', ''wav'', ''aac'', [CHR 0xE5, CHR 0xBD, CHR 0x95, CHR 0xE9, CHR 0x9F, CHR 0xB3],
     [CHR 0xE9, CHR 0x80, CHR 0x9A, CHR 0xE8, CHR 0xAF, CHR 0x9D]]"

definition link_keywords :: "string list" where
  "link_keywords = [
     ''http'', ''https'', ''www.'', [CHR 0xE9, CHR 0x93, CHR 0xBE, CHR 0xE6, CHR 0x8E, CHR
     0xA5], ''link'', ''url'']"

definition mention_keywords :: "string list" where
  "mention_keywords = [
     [CHR 0x40, CHR 0xE4, CHR 0xBD, CHR 0xA0], [CHR 0x40, CHR 0xE6, CHR 0x89, CHR 0x80, CHR
     0xE6, CHR 0x9C, CHR 0x89, CHR 0xE4, CHR 0xBA, CHR 0xBA], [CHR 0xE6, CHR 0x8F, CHR 0x90,
     CHR 0xE5, CHR 0x88, CHR 0xB0, CHR 0xE4, CHR 0xBA, CHR 0x86, CHR 0xE4, CHR 0xBD, CHR 0xA0],
     ''mentioned you'', ''@'']"

definition calendar_keywords :: "string list" where
  "calendar_keywords = [
     [CHR 0xE4, CHR 0xBC, CHR 0x9A, CHR 0xE8, CHR 0xAE, CHR 0xAE], ''meeting'', ''calendar'',
     [CHR 0xE6, CHR 0x97, CHR 0xA5, CHR 0xE5, CHR 0x8E, CHR 0x86], ''invitation'', [CHR 0xE9,
     CHR 0x82, CHR 0x80, CHR 0xE8, CHR 0xAF, CHR 0xB7], ''schedule'', [CHR 0xE6, CHR 0x97, CHR
     0xA5, CHR 0xE7, CHR 0xA8, CHR 0x8B]]"

definition financial_keywords :: "string list" where
  "financial_keywords = [
     [CHR 0xE6, CHR 0x94, CHR 0xAF, CHR 0xE4, CHR 0xBB, CHR 0x98], [CHR 0xE4, CHR 0xBB, CHR
     0x98, CHR 0xE6, CHR 0xAC, CHR 0xBE], [CHR 0xE8, CHR 0xBD, CHR 0xAC, CHR 0xE8, CHR 0xB4,
     CHR 0xA6], ''payment'', ''transaction'', [CHR 0xE7, CHR 0xBA, CHR 0xA2, CHR 0xE5, CHR
     0x8C, CHR 0x85], ''balance'', [CHR 0xE4, CHR 0xBD, CHR 0x99, CHR 0xE9, CHR 0xA2, CHR 0x9D]]"

definition verification_keywords :: "string list" where
  "verification_keywords = [
     [CHR 0xE9, CHR 0xAA, CHR 0x8C, CHR 0xE8, CHR 0xAF, CHR 0x81, CHR 0xE7, CHR 0xA0, CHR
     0x81], ''code'', ''otp'', [CHR 0xE9, CHR 0xAA, CHR 0x8C, CHR 0xE8, CHR 0xAF, CHR 0x81],
     ''verification'', ''captcha'']"

definition extract_semantic_hints :: "(string \<Rightarrow> string) \<Rightarrow> string \<Rightarrow> string \<Rightarrow> semantic_hint list" where
  "extract_semantic_hints u title txt =
     (let combined = to_lowercase u (title @ '' '' @ txt) in
       (if contains_any combined file_keywords then [FileMention] else [])
       @ (if contains_any combined image_keywords then [ImageMention] else [])
       @ (if contains_any combined audio_keywords then [AudioMessage] else [])
       @ (if contains_any combined link_keywords then [LinkAttachment] else [])
       @ (if contains_any combined mention_keywords then [UserMentioned] else [])
       @ (if contains_any combined calendar_keywords then [CalendarInvitation] else [])
       @ (if contains_any combined financial_keywords then [FinancialContext] else [])
       @ (if contains_any combined verification_keywords then [VerificationCode] else []))"

section \<open>File paths\<close>

text \<open>\<open>Path::extension\<close> on a Unix path.\<close>

definition path_extension :: "string \<Rightarrow> string option" where
  "path_extension p =
     (case path_file_name p of None \<Rightarrow> None
      | Some n \<Rightarrow>
        (let parts = split_char (CHR ''.'') n
         in if length parts = 1 \<or> butlast parts = [[]] then None else Some (last parts)))"

definition classify_extension :: "(string \<Rightarrow> string) \<Rightarrow> string \<Rightarrow> extension_category" where
  "classify_extension u path =
     (let e = (case path_extension (to_lowercase u path) of Some x \<Rightarrow> x | None \<Rightarrow> []) in
      if e \<in> set [''pdf'', ''doc'', ''docx'', ''xls'', ''xlsx'', ''ppt'', ''pptx'', ''txt'', ''md'', ''csv'', ''odt'', ''ods'', ''odp'']
      then ExtDocument
      else if e \<in> set [''jpg'', ''jpeg'', ''png'', ''gif'', ''webp'', ''heic'', ''heif'', ''bmp'', ''svg'', ''tiff'']
      then ExtImage
      else if e \<in> set [''mp4'', ''mov'', ''avi'', ''mkv'', ''webm'', ''flv'', ''wmv'', ''3gp'']
      then ExtVideo
      else if e \<in> set [''mp3'', ''wav'', ''aac'', ''flac'', ''ogg'', ''wma'', ''m4a'', ''opus'']
      then ExtAudio
      else if e \<in> set [''zip'', ''rar'', ''7z'', ''tar'', ''gz'', ''bz2'', ''xz'', ''apk'', ''aab'']
      then ExtArchive
      else if e \<in> set [''py'', ''js'', ''ts'', ''rs'', ''cpp'', ''c'', ''h'', ''java'', ''kt'', ''swift'', ''go'', ''so'', ''dylib'', ''dll'']
      then ExtCode
      else if e = [] then ExtUnknown
      else ExtOther)"

section \<open>Facts\<close>

lemmas analyze_text_eval = analyze_text_def script_of_def is_latin_def is_hanzi_def is_cyrillic_def
  is_arabic_def is_emoji_def chars_def utf8_decode_def utf8_width_def Let_def

fun hint_keywords :: "semantic_hint \<Rightarrow> string list" where
  "hint_keywords FileMention = file_keywords"
| "hint_keywords ImageMention = image_keywords"
| "hint_keywords AudioMessage = audio_keywords"
| "hint_keywords LinkAttachment = link_keywords"
| "hint_keywords UserMentioned = mention_keywords"
| "hint_keywords CalendarInvitation = calendar_keywords"
| "hint_keywords FinancialContext = financial_keywords"
| "hint_keywords VerificationCode = verification_keywords"

lemma extract_semantic_hints_set:
  "h \<in> set (extract_semantic_hints u title txt) \<longleftrightarrow>
     (\<exists>k \<in> set (hint_keywords h). sublist k (to_lowercase u (title @ '' '' @ txt)))"
  by (cases h)
    (auto simp: extract_semantic_hints_def Let_def contains_any_def list_ex_iff str_contains_iff_sublist
      split: if_splits)

lemma distinct_extract_semantic_hints: "distinct (extract_semantic_hints u title txt)"
  by (simp add: extract_semantic_hints_def Let_def)

end
