(* ===== verification/Privacy_Airgap.thy ===== *)
theory Privacy_Airgap
  imports Text_Analysis
begin

text \<open>
  \<open>aios-core/src/privacy_airgap.rs\<close>, \<open>collector_ingress.rs\<close> and the provided methods of the
  \<open>PrivacySanitizer\<close> trait (\<open>aios-spec/src/traits/privacy.rs\<close>). \<open>u\<close> is the Unicode case table,
  \<open>eid\<close> the fresh event eid that \<open>Uuid::new_v4\<close> draws.

  The properties are about information flow: which strings of a raw event can appear in the
  sanitized one, and which raw fields cannot influence it at all.
\<close>

section \<open>Sanitization\<close>

definition empty_text_hint :: text_hint where
  "empty_text_hint = \<lparr>th_length_chars = 0, th_script = ScriptUnknown, th_is_emoji_only = False\<rparr>"

definition sanitize_app_transition :: "string \<Rightarrow> app_transition_raw \<Rightarrow> sanitized_event" where
  "sanitize_app_transition eid e =
     \<lparr>se_event_id = eid, se_timestamp_ms = atr_timestamp_ms e,
      se_event_type = SeAppTransition (atr_package_name e) (atr_activity_class e) (atr_transition e),
      se_source_tier = PublicApi, se_app_package = Some (atr_package_name e), se_uid = None\<rparr>"

definition binder_interaction :: "string \<Rightarrow> interaction_type" where
  "binder_interaction m =
     (if str_contains m ''enqueueNotification'' then NotifyPost
      else if str_contains m ''startActivity'' \<or> str_contains m ''startActivityAsUser'' then ActivityLaunch
      else if str_contains m ''share'' \<or> str_contains m ''sendIntent'' then ShareIntent
      else if str_contains m ''bindService'' \<or> str_contains m ''bindIsolatedService'' then ServiceBind
      else ServiceBind)"

definition sanitize_binder :: "string \<Rightarrow> binder_tx \<Rightarrow> sanitized_event" where
  "sanitize_binder eid e =
     \<lparr>se_event_id = eid, se_timestamp_ms = btx_timestamp_ms e,
      se_event_type = SeInterAppInteraction None (btx_target_service e)
        (binder_interaction (btx_target_method e)),
      se_source_tier = Daemon, se_app_package = None, se_uid = Some (btx_source_uid e)\<rparr>"

definition sanitize_proc :: "string \<Rightarrow> proc_state_event \<Rightarrow> sanitized_event" where
  "sanitize_proc eid e =
     \<lparr>se_event_id = eid, se_timestamp_ms = pse_timestamp_ms e,
      se_event_type = SeProcessResource (pse_pid e) (pse_package_name e)
        (ucast (pse_vm_rss_kb e div 1024)) (ucast (pse_vm_swap_kb e div 1024))
        (pse_threads e) (pse_oom_score e),
      se_source_tier = Daemon, se_app_package = pse_package_name e, se_uid = Some (pse_uid e)\<rparr>"

fun activity_of_access :: "fs_access_type \<Rightarrow> fs_activity_type" where
  "activity_of_access FsOpenRead = ActRead"
| "activity_of_access FsOpenWrite = ActWrite"
| "activity_of_access FsCreate = ActCreate"
| "activity_of_access FsDelete = ActDelete"

definition sanitize_fs :: "(string \<Rightarrow> string) \<Rightarrow> string \<Rightarrow> fs_access \<Rightarrow> sanitized_event" where
  "sanitize_fs u eid e =
     \<lparr>se_event_id = eid, se_timestamp_ms = fsa_timestamp_ms e,
      se_event_type = SeFileActivity None (classify_extension u (fsa_file_path e))
        (activity_of_access (fsa_access_type e)) False,
      se_source_tier = Daemon, se_app_package = None, se_uid = Some (fsa_uid e)\<rparr>"

definition sanitize_notification :: "(string \<Rightarrow> string) \<Rightarrow> string \<Rightarrow> notification_raw \<Rightarrow> sanitized_event" where
  "sanitize_notification u eid e =
     \<lparr>se_event_id = eid, se_timestamp_ms = nr_timestamp_ms e,
      se_event_type = SeNotification (nr_package_name e) (nr_category e) (nr_channel_id e)
        (case nr_title_hint e of Some h \<Rightarrow> h | None \<Rightarrow> analyze_text (nr_raw_title e))
        (case nr_text_hint e of Some h \<Rightarrow> h | None \<Rightarrow> analyze_text (nr_raw_text e))
        (if nr_semantic_hints e = [] then extract_semantic_hints u (nr_raw_title e) (nr_raw_text e)
         else nr_semantic_hints e)
        (nr_is_ongoing e) None,
      se_source_tier = PublicApi, se_app_package = Some (nr_package_name e), se_uid = None\<rparr>"

definition sanitize_interaction :: "string \<Rightarrow> notification_interaction_raw \<Rightarrow> sanitized_event" where
  "sanitize_interaction eid e =
     \<lparr>se_event_id = eid, se_timestamp_ms = nir_timestamp_ms e,
      se_event_type = SeNotification (nir_package_name e) None None empty_text_hint empty_text_hint
        [] False None,
      se_source_tier = PublicApi, se_app_package = Some (nir_package_name e), se_uid = None\<rparr>"

fun sanitize :: "(string \<Rightarrow> string) \<Rightarrow> string \<Rightarrow> raw_event \<Rightarrow> sanitized_event" where
  "sanitize u eid (RawAppTransition e) = sanitize_app_transition eid e"
| "sanitize u eid (RawBinderTransaction e) = sanitize_binder eid e"
| "sanitize u eid (RawProcStateChange e) = sanitize_proc eid e"
| "sanitize u eid (RawFileSystemAccess e) = sanitize_fs u eid e"
| "sanitize u eid (RawNotificationPosted e) = sanitize_notification u eid e"
| "sanitize u eid (RawNotificationInteraction e) = sanitize_interaction eid e"
| "sanitize u eid (RawScreenState e) =
     \<lparr>se_event_id = eid, se_timestamp_ms = sse_timestamp_ms e, se_event_type = SeScreen (sse_state e),
      se_source_tier = PublicApi, se_app_package = None, se_uid = None\<rparr>"
| "sanitize u eid (RawSystemState e) =
     \<lparr>se_event_id = eid, se_timestamp_ms = sys_timestamp_ms e,
      se_event_type = SeSystemStatus (sys_battery_pct e) (sys_is_charging e) (sys_network e)
        (sys_ringer_mode e) (sys_location_type e) (sys_headphone_connected e),
      se_source_tier = PublicApi, se_app_package = None, se_uid = None\<rparr>"

definition sanitize_with_tier :: "(string \<Rightarrow> string) \<Rightarrow> string \<Rightarrow> raw_event \<Rightarrow> source_tier \<Rightarrow> sanitized_event" where
  "sanitize_with_tier u eid r tier = (sanitize u eid r)\<lparr>se_source_tier := tier\<rparr>"

text \<open>Batches draw their ids in order: event \<open>i\<close> gets \<open>ids i\<close>.\<close>

definition sanitize_batch :: "(string \<Rightarrow> string) \<Rightarrow> (nat \<Rightarrow> string) \<Rightarrow> raw_event list \<Rightarrow> sanitized_event list" where
  "sanitize_batch u ids rs = map (\<lambda>(i, r). sanitize u (ids i) r) (enumerate 0 rs)"

section \<open>Ingress (collector_ingress.rs)\<close>

datatype collector_ingress_error = UnsupportedSchemaVersion string

definition SUPPORTED_COLLECTOR_SCHEMA :: string where
  "SUPPORTED_COLLECTOR_SCHEMA = ''dipecs.collector.v1''"

definition ingress_accept :: "collector_envelope \<Rightarrow> collector_ingress_error + ingested_raw_event" where
  "ingress_accept e =
     (if env_schema_version e \<noteq> SUPPORTED_COLLECTOR_SCHEMA
      then Inl (UnsupportedSchemaVersion (env_schema_version e))
      else Inr \<lparr>ing_raw_event = env_raw_event e, ing_source_tier = env_source_tier e\<rparr>)"

definition ingress_accept_internal :: "raw_event \<Rightarrow> string \<Rightarrow> i64 \<Rightarrow> ingested_raw_event" where
  "ingress_accept_internal r src captured = \<lparr>ing_raw_event = r, ing_source_tier = Daemon\<rparr>"

section \<open>What crosses the boundary\<close>

text \<open>Every string a sanitized event carries besides its fresh eid.\<close>

fun event_type_strings :: "sanitized_event_type \<Rightarrow> string set" where
  "event_type_strings (SeAppTransition p a t) = insert p (set_option a)"
| "event_type_strings (SeInterAppInteraction p s i) = insert s (set_option p)"
| "event_type_strings (SeNotification p c ch th xh hs og g) =
     insert p (set_option c \<union> set_option ch \<union> set_option g)"
| "event_type_strings (SeProcessResource pid p r s t oom) = set_option p"
| "event_type_strings (SeFileActivity p c a h) = set_option p"
| "event_type_strings (SeScreen s) = {}"
| "event_type_strings (SeSystemStatus b c n r l h) = {}"

definition event_strings :: "sanitized_event \<Rightarrow> string set" where
  "event_strings e = event_type_strings (se_event_type e) \<union> set_option (se_app_package e)"

text \<open>The identifiers of a raw event that are declared safe: packages, component names, notification
  category and channel, Binder service. Titles, texts, group and notification keys, file
  paths and Binder methods are not among them.\<close>

fun declared_identifiers :: "raw_event \<Rightarrow> string set" where
  "declared_identifiers (RawAppTransition e) = insert (atr_package_name e) (set_option (atr_activity_class e))"
| "declared_identifiers (RawBinderTransaction e) = {btx_target_service e}"
| "declared_identifiers (RawProcStateChange e) = set_option (pse_package_name e)"
| "declared_identifiers (RawFileSystemAccess e) = {}"
| "declared_identifiers (RawNotificationPosted e) =
     insert (nr_package_name e) (set_option (nr_category e) \<union> set_option (nr_channel_id e))"
| "declared_identifiers (RawNotificationInteraction e) = {nir_package_name e}"
| "declared_identifiers (RawScreenState e) = {}"
| "declared_identifiers (RawSystemState e) = {}"

text \<open>Raw events that differ only in what the boundary must hide.\<close>

inductive secret_variant :: "(string \<Rightarrow> string) \<Rightarrow> raw_event \<Rightarrow> raw_event \<Rightarrow> bool" for u where
  notification_keys: "secret_variant u (RawNotificationPosted n)
     (RawNotificationPosted (n\<lparr>nr_group_key := g, nr_has_picture := b\<rparr>))"
| redacted_text: "nr_title_hint n \<noteq> None \<Longrightarrow> nr_text_hint n \<noteq> None \<Longrightarrow> nr_semantic_hints n \<noteq> [] \<Longrightarrow>
     secret_variant u (RawNotificationPosted n)
       (RawNotificationPosted (n\<lparr>nr_raw_title := t, nr_raw_text := x\<rparr>))"
| similar_text: "analyze_text t = analyze_text (nr_raw_title n) \<Longrightarrow>
     analyze_text x = analyze_text (nr_raw_text n) \<Longrightarrow>
     extract_semantic_hints u t x = extract_semantic_hints u (nr_raw_title n) (nr_raw_text n) \<Longrightarrow>
     secret_variant u (RawNotificationPosted n)
       (RawNotificationPosted (n\<lparr>nr_raw_title := t, nr_raw_text := x\<rparr>))"
| interaction_key: "secret_variant u (RawNotificationInteraction i)
     (RawNotificationInteraction (i\<lparr>nir_notification_key := k, nir_action := a\<rparr>))"
| file_path: "classify_extension u p = classify_extension u (fsa_file_path f) \<Longrightarrow>
     secret_variant u (RawFileSystemAccess f)
       (RawFileSystemAccess (f\<lparr>fsa_file_path := p, fsa_pid := pid, fsa_bytes_transferred := bs\<rparr>))"
| binder_method: "binder_interaction m = binder_interaction (btx_target_method b) \<Longrightarrow>
     secret_variant u (RawBinderTransaction b)
       (RawBinderTransaction (b\<lparr>btx_target_method := m, btx_source_pid := pid, btx_is_oneway := ow,
          btx_payload_size := sz\<rparr>))"
| trans: "secret_variant u a b \<Longrightarrow> secret_variant u b c \<Longrightarrow> secret_variant u a c"

lemmas sanitize_defs = sanitize_app_transition_def sanitize_binder_def sanitize_proc_def sanitize_fs_def
  sanitize_notification_def sanitize_interaction_def

lemma sanitize_secret:
  assumes "secret_variant u r r'"
  shows "sanitize_with_tier u eid r tier = sanitize_with_tier u eid r' tier"
proof -
  from assms have "sanitize u eid r = sanitize u eid r'"
    by induction (auto simp: sanitize_defs split: option.splits)
  then show ?thesis by (simp add: sanitize_with_tier_def)
qed

text \<open>C8: no free text crosses the air-gap. Every string in a sanitized event, its fresh eid apart, is
  one of the raw event's declared identifiers (package, component, category, channel, Binder
  service): never a title, a body, a group or notification key, a file path or a Binder method.\<close>

theorem airgap_strings_declared: "event_strings (sanitize u eid r) \<subseteq> declared_identifiers r"
  by (cases r) (auto simp: event_strings_def sanitize_defs)

text \<open>C7: the air-gap does not leak what it hides. Two raw events that differ in group or notification
  keys, in texts whose hints the collector supplied or whose declared analysis agrees, in file
  paths of the same category, or in Binder methods of the same class sanitize to the same event
  (for the same fresh eid), whatever tier the ingress assigns.\<close>

theorem airgap_noninterference:
  assumes "secret_variant u r r'"
  shows "sanitize_with_tier u eid r tier = sanitize_with_tier u eid r' tier"
  using assms by (rule sanitize_secret)

text \<open>The ingress is authoritative for the source tier and for nothing else: an envelope of a
  supported schema is sanitized under exactly the tier it declares, with the sanitizer's own
  event in all other fields; any other schema version is refused with that version.\<close>

theorem ingress_tier_authoritative:
  "(case ingress_accept e of
      Inl err \<Rightarrow> env_schema_version e \<noteq> ''dipecs.collector.v1'' \<and> err = UnsupportedSchemaVersion (env_schema_version e)
    | Inr i \<Rightarrow> env_schema_version e = ''dipecs.collector.v1''
        \<and> (\<exists>s. sanitize_with_tier u eid (ing_raw_event i) (ing_source_tier i) = s
             \<and> se_source_tier s = env_source_tier e
             \<and> s\<lparr>se_source_tier := t\<rparr> = (sanitize u eid (env_raw_event e))\<lparr>se_source_tier := t\<rparr>))"
  by (simp add: ingress_accept_def SUPPORTED_COLLECTOR_SCHEMA_def sanitize_with_tier_def)

section \<open>Concrete inputs\<close>

definition demo_notification :: notification_raw where
  "demo_notification = \<lparr>nr_timestamp_ms = 1000, nr_package_name = ''com.chat'', nr_category = Some ''msg'',
     nr_channel_id = None, nr_raw_title = ''Alice'', nr_raw_text = ''see photo'', nr_title_hint = None,
     nr_text_hint = None, nr_semantic_hints = [], nr_is_ongoing = False, nr_group_key = Some ''chat-alice'',
     nr_has_picture = False\<rparr>"

theorem airgap_noninterference_witness:
  "sanitize_with_tier id ''e0'' (RawNotificationPosted demo_notification) Daemon =
     sanitize_with_tier id ''e0''
       (RawNotificationPosted (demo_notification\<lparr>nr_raw_title := ''Clara'', nr_raw_text := ''new photo''\<rparr>)) Daemon"
proof (rule airgap_noninterference, rule similar_text)
  show "analyze_text ''Clara'' = analyze_text (nr_raw_title demo_notification)"
    by (simp add: demo_notification_def analyze_text_eval)
  show "analyze_text ''new photo'' = analyze_text (nr_raw_text demo_notification)"
    by (simp add: demo_notification_def analyze_text_eval)
  show "extract_semantic_hints id ''Clara'' ''new photo'' =
      extract_semantic_hints id (nr_raw_title demo_notification) (nr_raw_text demo_notification)" by code_simp
qed

lemma classify_examples:
  "classify_extension id ''/sdcard/Doc/Report.PDF'' = ExtDocument"
  "classify_extension id ''/home/u/.bashrc'' = ExtUnknown"
  "classify_extension id ''a.tar.gz'' = ExtArchive"
  "classify_extension id ''a.b/..'' = ExtUnknown"
  by code_simp+

end
