(* ===== verification/Context_Builder.thy ===== *)
theory Context_Builder
  imports Privacy_Airgap
begin

text \<open>
  \<open>aios-core/src/context_builder.rs\<close>: the window aggregator and the summary of a closed window.
  The file counts live in a \<open>HashMap\<close> whose iteration order is random: \<open>order\<close> is that
  order, a permutation of the entries. \<open>wid\<close> is the fresh window id.

  The lemmas: the one-pass summary equals a field-by-field specification, and any
  sequence of pushes and closes neither loses, duplicates nor reorders events.
\<close>

section \<open>Summary\<close>

text \<open>\<open>*map.entry(k).or_insert(0) += 1\<close> on the entries in insertion order; the counter wraps.\<close>

fun bump :: "'k \<Rightarrow> ('k \<times> u32) list \<Rightarrow> ('k \<times> u32) list" where
  "bump k [] = [(k, 0 + 1)]"
| "bump k ((k', n) # xs) = (if k' = k then (k', n + 1) # xs else (k', n) # bump k xs)"

record summary_acc =
  acc_foreground_apps :: "string list"
  acc_notified_apps :: "string list"
  acc_semantic_hints :: "semantic_hint list"
  acc_file_counts :: "(extension_category \<times> u32) list"
  acc_system_status :: "system_status_snapshot option"
  acc_source_tier :: source_tier

definition empty_acc :: summary_acc where
  "empty_acc = \<lparr>acc_foreground_apps = [], acc_notified_apps = [], acc_semantic_hints = [],
     acc_file_counts = [], acc_system_status = None, acc_source_tier = PublicApi\<rparr>"

lemma empty_acc_simps [simp]:
  "acc_foreground_apps empty_acc = []" "acc_notified_apps empty_acc = []"
  "acc_semantic_hints empty_acc = []" "acc_file_counts empty_acc = []"
  "acc_system_status empty_acc = None" "acc_source_tier empty_acc = PublicApi"
  by (simp_all add: empty_acc_def)

text \<open>The match of the loop body, arm by arm, with its guards.\<close>

fun add_event_type :: "sanitized_event_type \<Rightarrow> summary_acc \<Rightarrow> summary_acc" where
  "add_event_type (SeAppTransition p a Foreground) s =
     (if p \<notin> set (acc_foreground_apps s)
      then s\<lparr>acc_foreground_apps := acc_foreground_apps s @ [p]\<rparr> else s)"
| "add_event_type (SeProcessResource pid (Some p) r sw t oom) s =
     (if p \<notin> set (acc_foreground_apps s)
      then s\<lparr>acc_foreground_apps := acc_foreground_apps s @ [p]\<rparr> else s)"
| "add_event_type (SeNotification p c ch th xh hs og g) s =
     (let s = (if p \<notin> set (acc_notified_apps s)
               then s\<lparr>acc_notified_apps := acc_notified_apps s @ [p]\<rparr> else s)
      in foldl (\<lambda>s h. if h \<notin> set (acc_semantic_hints s)
                      then s\<lparr>acc_semantic_hints := acc_semantic_hints s @ [h]\<rparr> else s) s hs)"
| "add_event_type (SeFileActivity p c a h) s =
     s\<lparr>acc_file_counts := bump c (acc_file_counts s)\<rparr>"
| "add_event_type (SeSystemStatus b c n r l h) s =
     s\<lparr>acc_system_status := Some \<lparr>snap_battery_pct = b, snap_is_charging = c, snap_network = n,
        snap_ringer_mode = r, snap_location_type = l, snap_headphone_connected = h\<rparr>\<rparr>"
| "add_event_type (SeInterAppInteraction (Some p) sv i) s =
     (if p \<notin> set (acc_foreground_apps s)
      then s\<lparr>acc_foreground_apps := acc_foreground_apps s @ [p]\<rparr> else s)"
| "add_event_type _ s = s"

definition add_event :: "summary_acc \<Rightarrow> sanitized_event \<Rightarrow> summary_acc" where
  "add_event s e =
     (let s = (if se_source_tier e = Daemon then s\<lparr>acc_source_tier := Daemon\<rparr> else s)
      in add_event_type (se_event_type e) s)"

type_synonym file_order = "(extension_category \<times> u32) list \<Rightarrow> (extension_category \<times> u32) list"

definition build_summary :: "file_order \<Rightarrow> sanitized_event list \<Rightarrow> context_summary" where
  "build_summary order es =
     (let s = foldl add_event empty_acc es in
      \<lparr>cs_foreground_apps = acc_foreground_apps s, cs_notified_apps = acc_notified_apps s,
       cs_all_semantic_hints = acc_semantic_hints s, cs_file_activity = order (acc_file_counts s),
       cs_latest_system_status = acc_system_status s, cs_source_tier = acc_source_tier s\<rparr>)"

section \<open>Window aggregator\<close>

record window_aggregator =
  wa_buffer :: "sanitized_event list"
  wa_window_secs :: u64
  wa_window_start_ms :: i64

definition new_window_aggregator :: "u64 \<Rightarrow> i64 \<Rightarrow> window_aggregator" where
  "new_window_aggregator secs now = \<lparr>wa_buffer = [], wa_window_secs = secs, wa_window_start_ms = now\<rparr>"

definition wa_push :: "sanitized_event \<Rightarrow> window_aggregator \<Rightarrow> window_aggregator" where
  "wa_push e w = w\<lparr>wa_buffer := wa_buffer w @ [e]\<rparr>"

definition wa_len :: "window_aggregator \<Rightarrow> usize" where
  "wa_len w = length (wa_buffer w)"

definition wa_is_empty :: "window_aggregator \<Rightarrow> bool" where
  "wa_is_empty w \<longleftrightarrow> wa_buffer w = []"

definition is_expired :: "i64 \<Rightarrow> window_aggregator \<Rightarrow> bool" where
  "is_expired now w \<longleftrightarrow>
     u64_as_i64 (wa_window_secs w * 1000) \<le> i64_saturating_sub now (wa_window_start_ms w)"

definition wa_close :: "file_order \<Rightarrow> string \<Rightarrow> i64 \<Rightarrow> window_aggregator
    \<Rightarrow> window_aggregator \<times> structured_context option" where
  "wa_close order wid now w =
     (if wa_buffer w = [] then (w\<lparr>wa_window_start_ms := now\<rparr>, None)
      else (w\<lparr>wa_buffer := [], wa_window_start_ms := now\<rparr>,
        Some \<lparr>ctx_window_id = wid, ctx_window_start_ms = wa_window_start_ms w, ctx_window_end_ms = now,
          ctx_duration_secs = i64_as_u32 (max (i64_wrap (now - wa_window_start_ms w)) 0 div 1000),
          ctx_events = wa_buffer w, ctx_summary = build_summary order (wa_buffer w)\<rparr>))"

section \<open>The summary, field by field\<close>

text \<open>What one event contributes to each field.\<close>

fun foreground_of :: "sanitized_event_type \<Rightarrow> string list" where
  "foreground_of (SeAppTransition p a Foreground) = [p]"
| "foreground_of (SeProcessResource pid (Some p) r sw t oom) = [p]"
| "foreground_of (SeInterAppInteraction (Some p) sv i) = [p]"
| "foreground_of _ = []"

fun notified_of :: "sanitized_event_type \<Rightarrow> string list" where
  "notified_of (SeNotification p c ch th xh hs og g) = [p]"
| "notified_of _ = []"

fun hints_of :: "sanitized_event_type \<Rightarrow> semantic_hint list" where
  "hints_of (SeNotification p c ch th xh hs og g) = hs"
| "hints_of _ = []"

fun file_of :: "sanitized_event_type \<Rightarrow> extension_category list" where
  "file_of (SeFileActivity p c a h) = [c]"
| "file_of _ = []"

fun status_of :: "sanitized_event_type \<Rightarrow> system_status_snapshot list" where
  "status_of (SeSystemStatus b c n r l h) =
     [\<lparr>snap_battery_pct = b, snap_is_charging = c, snap_network = n,
       snap_ringer_mode = r, snap_location_type = l, snap_headphone_connected = h\<rparr>]"
| "status_of _ = []"

lemma add_hints:
  "foldl (\<lambda>s h. if h \<notin> set (acc_semantic_hints s)
      then s\<lparr>acc_semantic_hints := acc_semantic_hints s @ [h]\<rparr> else s) s hs
   = s\<lparr>acc_semantic_hints := foldl push_new (acc_semantic_hints s) hs\<rparr>"
proof (induction hs arbitrary: s)
  case Nil
  then show ?case by simp
next
  case (Cons h hs)
  show ?case by (simp add: Cons.IH push_new_def)
qed

lemma add_event_fields:
  "acc_foreground_apps (add_event s e) = foldl push_new (acc_foreground_apps s) (foreground_of (se_event_type e))"
  "acc_notified_apps (add_event s e) = foldl push_new (acc_notified_apps s) (notified_of (se_event_type e))"
  "acc_semantic_hints (add_event s e) = foldl push_new (acc_semantic_hints s) (hints_of (se_event_type e))"
  "acc_file_counts (add_event s e) = foldl (\<lambda>m k. bump k m) (acc_file_counts s) (file_of (se_event_type e))"
  "acc_system_status (add_event s e) =
     (if status_of (se_event_type e) = [] then acc_system_status s else Some (last (status_of (se_event_type e))))"
  "acc_source_tier (add_event s e) = (if se_source_tier e = Daemon then Daemon else acc_source_tier s)"
  by (cases "(se_event_type e, s)" rule: add_event_type.cases;
      simp add: add_event_def Let_def add_hints push_new_def)+

lemma fold_field:
  assumes "\<And>s e. f (add_event s e) = foldl g (f s) (h e)"
  shows "f (foldl add_event s es) = foldl g (f s) (concat (map h es))"
  by (induction es arbitrary: s) (simp_all add: assms)

lemma fold_status:
  "acc_system_status (foldl add_event s es) =
     (let xs = concat (map (\<lambda>e. status_of (se_event_type e)) es)
      in if xs = [] then acc_system_status s else Some (last xs))"
  by (induction es arbitrary: s) (auto simp: add_event_fields Let_def)

lemma fold_tier:
  "acc_source_tier (foldl add_event s es) =
     (if \<exists>e \<in> set es. se_source_tier e = Daemon then Daemon else acc_source_tier s)"
  by (induction es arbitrary: s) (auto simp: add_event_fields)

text \<open>Counting by key: every key once, its count the number of occurrences (modulo \<open>2 ^ 32\<close>).\<close>

lemma bump_keys: "fst ` set (bump k xs) = insert k (fst ` set xs)"
  by (induction k xs rule: bump.induct) auto

lemma bump_distinct: "distinct (map fst xs) \<Longrightarrow> distinct (map fst (bump k xs))"
  by (induction k xs rule: bump.induct) (auto simp: bump_keys)

lemma bump_lookup:
  "map_of (bump k xs) = (map_of xs)(k \<mapsto> (case map_of xs k of None \<Rightarrow> 0 | Some n \<Rightarrow> n) + 1)"
  by (induction k xs rule: bump.induct) (auto simp: fun_eq_iff)

lemma bump_fold_distinct:
  "distinct (map fst xs) \<Longrightarrow> distinct (map fst (foldl (\<lambda>m k. bump k m) xs ks))"
  by (induction ks arbitrary: xs) (simp_all add: bump_distinct)

lemma bump_fold_lookup:
  "map_of (foldl (\<lambda>m k. bump k m) xs ks) k =
     (if k \<in> set ks \<or> k \<in> fst ` set xs
      then Some ((case map_of xs k of None \<Rightarrow> 0 | Some n \<Rightarrow> n) + of_nat (count_list ks k)) else None)"
proof (induction ks arbitrary: xs)
  case Nil
  then show ?case by (auto split: option.splits simp: map_of_eq_None_iff)
next
  case (Cons k' ks)
  show ?case
    by (simp only: foldl.simps Cons.IH bump_keys) (auto simp: bump_lookup)
qed

lemma foldl_push_new: "foldl push_new [] xs = rev (remdups (rev xs))"
proof (induction xs rule: rev_induct)
  case Nil
  then show ?case by simp
next
  case (snoc x xs)
  then show ?case by (simp add: push_new_def)
qed

lemma bump_fold_entries:
  "(k, n) \<in> set (foldl (\<lambda>m k. bump k m) [] ks) \<longleftrightarrow> k \<in> set ks \<and> n = of_nat (count_list ks k)"
proof -
  have "(k, n) \<in> set (foldl (\<lambda>m k. bump k m) [] ks) \<longleftrightarrow> map_of (foldl (\<lambda>m k. bump k m) [] ks) k = Some n"
    by (simp add: bump_fold_distinct)
  then show ?thesis by (auto simp: bump_fold_lookup)
qed

section \<open>Sequences of operations\<close>

text \<open>What a driver does to an aggregator: push an event, or close the window at a time.\<close>

datatype window_op = Push sanitized_event | Close string i64

fun run_window :: "file_order \<Rightarrow> window_op list \<Rightarrow> window_aggregator
    \<Rightarrow> window_aggregator \<times> structured_context list" where
  "run_window order [] w = (w, [])"
| "run_window order (Push e # ops) w = run_window order ops (wa_push e w)"
| "run_window order (Close wid now # ops) w =
     (let (w1, c) = wa_close order wid now w; (w2, cs) = run_window order ops w1
      in (w2, (case c of None \<Rightarrow> [] | Some x \<Rightarrow> [x]) @ cs))"

fun pushed :: "window_op list \<Rightarrow> sanitized_event list" where
  "pushed [] = []"
| "pushed (Push e # ops) = e # pushed ops"
| "pushed (Close wid now # ops) = pushed ops"

fun close_times :: "window_op list \<Rightarrow> i64 list" where
  "close_times [] = []"
| "close_times (Push e # ops) = close_times ops"
| "close_times (Close wid now # ops) = now # close_times ops"

text \<open>A window starts at an instant at which the previous one was closed and ends at the next close.\<close>

lemma run_window_events:
  "concat (map ctx_events (snd (run_window order ops w))) @ wa_buffer (fst (run_window order ops w))
     = wa_buffer w @ pushed ops"
  by (induction order ops w rule: run_window.induct)
     (auto simp: wa_push_def wa_close_def Let_def split: prod.splits)

lemma run_window_bounds:
  assumes "c \<in> set (snd (run_window order ops w))"
  shows "ctx_events c \<noteq> [] \<and> ctx_summary c = build_summary order (ctx_events c)
    \<and> (\<exists>i. i < length (close_times ops) \<and> ctx_window_end_ms c = close_times ops ! i
         \<and> ctx_window_start_ms c = (wa_window_start_ms w # close_times ops) ! i)"
  using assms
proof (induction order ops w rule: run_window.induct)
  case (3 order wid now ops w)
  obtain w1 c1 where 1: "wa_close order wid now w = (w1, c1)" by fastforce
  obtain w2 cs where 2: "run_window order ops w1 = (w2, cs)" by fastforce
  have st: "wa_window_start_ms w1 = now" using 1 by (auto simp: wa_close_def split: if_splits)
  from "3.prems" 1 2 consider "c1 = Some c" | "c \<in> set cs" by (auto split: option.splits)
  then show ?case
  proof cases
    case 1
    with \<open>wa_close order wid now w = (w1, c1)\<close> show ?thesis
      by (intro conjI exI [of _ 0]) (auto simp: wa_close_def split: if_splits)
  next
    case b: 2
    from "3.IH" [OF 1 [symmetric] refl] b 2 obtain i where
      "ctx_events c \<noteq> []" "ctx_summary c = build_summary order (ctx_events c)"
      "i < length (close_times ops)" "ctx_window_end_ms c = close_times ops ! i"
      "ctx_window_start_ms c = (now # close_times ops) ! i"
      by (auto simp: st)
    then show ?thesis by (intro conjI exI [of _ "Suc i"]) auto
  qed
qed (auto simp: wa_push_def)

text \<open>The window aggregator loses, duplicates and reorders nothing. Over any sequence of pushes and
  closes the events of the emitted windows, in order, followed by what is still buffered, are
  exactly the events buffered before followed by the events pushed.\<close>

theorem windows_partition_events:
  "concat (map ctx_events (snd (run_window order ops w))) @ wa_buffer (fst (run_window order ops w))
     = wa_buffer w @ pushed ops"
  by (rule run_window_events)

text \<open>The summary of a window is exact, field by field. The foreground and the notified apps are
  the apps its events name, each once, in order of first mention; so are the semantic hints;
  every file category appears once with the number of its events (modulo \<open>2 ^ 32\<close>), in whatever
  order the hash map yields; the status is the last one reported; and the tier is \<open>Daemon\<close>
  exactly when some event has that tier.\<close>

theorem summary_exact:
  assumes "\<And>xs. mset (order xs) = mset xs"
  shows "cs_foreground_apps (build_summary order es) =
       rev (remdups (rev (concat (map (\<lambda>e. foreground_of (se_event_type e)) es))))
   \<and> cs_notified_apps (build_summary order es) =
       rev (remdups (rev (concat (map (\<lambda>e. notified_of (se_event_type e)) es))))
   \<and> cs_all_semantic_hints (build_summary order es) =
       rev (remdups (rev (concat (map (\<lambda>e. hints_of (se_event_type e)) es))))
   \<and> distinct (map fst (cs_file_activity (build_summary order es)))
   \<and> (\<forall>k n. (k, n) \<in> set (cs_file_activity (build_summary order es)) \<longleftrightarrow>
        (let ks = concat (map (\<lambda>e. file_of (se_event_type e)) es) in k \<in> set ks \<and> n = of_nat (count_list ks k)))
   \<and> cs_latest_system_status (build_summary order es) =
       (let xs = concat (map (\<lambda>e. status_of (se_event_type e)) es) in if xs = [] then None else Some (last xs))
   \<and> cs_source_tier (build_summary order es) =
       (if \<exists>e \<in> set es. se_source_tier e = Daemon then Daemon else PublicApi)"
proof -
  let ?s = "foldl add_event empty_acc es" and ?ks = "concat (map (\<lambda>e. file_of (se_event_type e)) es)"
  have files: "acc_file_counts ?s = foldl (\<lambda>m k. bump k m) [] ?ks"
    by (subst fold_field [where f = acc_file_counts]) (simp_all add: add_event_fields)
  have "set (order xs) = set xs" for xs using assms [of xs] by (metis set_mset_mset)
  moreover have "distinct (map fst (order xs)) = distinct (map fst xs)" for xs
    using assms [of xs] by (metis mset_eq_imp_distinct_iff mset_map)
  moreover have "acc_foreground_apps ?s = foldl push_new [] (concat (map (\<lambda>e. foreground_of (se_event_type e)) es))"
    by (subst fold_field [where f = acc_foreground_apps]) (simp_all add: add_event_fields)
  moreover have "acc_notified_apps ?s = foldl push_new [] (concat (map (\<lambda>e. notified_of (se_event_type e)) es))"
    by (subst fold_field [where f = acc_notified_apps]) (simp_all add: add_event_fields)
  moreover have "acc_semantic_hints ?s = foldl push_new [] (concat (map (\<lambda>e. hints_of (se_event_type e)) es))"
    by (subst fold_field [where f = acc_semantic_hints]) (simp_all add: add_event_fields)
  ultimately show ?thesis
    by (simp add: build_summary_def Let_def foldl_push_new files bump_fold_entries bump_fold_distinct
        fold_status fold_tier)
qed

lemma expiry_threshold:
  assumes "unat s * 1000 < 2 ^ 63"
  shows "u64_as_i64 (s * 1000) = int (unat s) * 1000"
proof -
  have u: "unat (s * 1000) = unat s * 1000"
    by (subst unat_mult_lem [THEN iffD1]) (use assms in auto)
  have "uint (s * 1000) = int (unat s) * 1000"
    using arg_cong [OF u, of int] by (simp only: uint_nat [symmetric] of_nat_mult of_nat_numeral)
  moreover have "int (unat s) * 1000 < 2 ^ 63"
    using assms by (metis of_nat_less_iff of_nat_mult of_nat_numeral of_nat_power)
  moreover have "- (2 ^ 63) \<le> int (unat s) * 1000" by (rule order_trans [of _ 0]) simp_all
  ultimately show ?thesis
    unfolding u64_as_i64_def sint_uint
    by (subst signed_take_bit_int_eq_self) simp_all
qed

text \<open>A window expires exactly when its length has elapsed. For every window of less than \<open>2 ^ 63\<close>
  milliseconds and any two clock readings, \<open>is_expired\<close> is the comparison over the integers: the
  saturating subtraction and the cast never make it fire early or late.\<close>

theorem window_expiry_exact:
  assumes "unat (wa_window_secs w) * 1000 < 2 ^ 63" "in_i64 now" "in_i64 (wa_window_start_ms w)"
  shows "is_expired now w \<longleftrightarrow> int (unat (wa_window_secs w)) * 1000 \<le> now - wa_window_start_ms w"
proof -
  have "int (unat (wa_window_secs w)) * 1000 < 2 ^ 63"
    using assms(1) by (metis of_nat_less_iff of_nat_mult of_nat_numeral of_nat_power)
  then have "int (unat (wa_window_secs w)) * 1000 \<le> i64_max" by (simp add: i64_max_def)
  moreover have "0 \<le> int (unat (wa_window_secs w)) * 1000" by simp
  moreover have "i64_min < 0" by (simp add: i64_min_def)
  ultimately show ?thesis
    unfolding is_expired_def expiry_threshold [OF assms(1)] i64_saturating_sub_def by linarith
qed

section \<open>Concrete inputs\<close>

definition demo_file_event :: "extension_category \<Rightarrow> sanitized_event" where
  "demo_file_event c = \<lparr>se_event_id = ''e'', se_timestamp_ms = 5, se_event_type = SeFileActivity None c ActRead False,
     se_source_tier = Daemon, se_app_package = None, se_uid = None\<rparr>"

definition demo_foreground_event :: "string \<Rightarrow> sanitized_event" where
  "demo_foreground_event p = \<lparr>se_event_id = ''e'', se_timestamp_ms = 5,
     se_event_type = SeAppTransition p None Foreground,
     se_source_tier = PublicApi, se_app_package = Some p, se_uid = None\<rparr>"

theorem summary_exact_witness:
  "cs_foreground_apps (build_summary rev [demo_foreground_event ''b'', demo_file_event ExtImage,
       demo_foreground_event ''a'', demo_file_event ExtAudio, demo_file_event ExtImage,
       demo_foreground_event ''b'']) = [''b'', ''a'']"
  using summary_exact [of rev, OF mset_rev, of "[demo_foreground_event ''b'', demo_file_event ExtImage,
       demo_foreground_event ''a'', demo_file_event ExtAudio, demo_file_event ExtImage,
       demo_foreground_event ''b'']"]
  by (simp add: demo_foreground_event_def demo_file_event_def)

theorem window_expiry_exact_witness:
  "is_expired 10000 (new_window_aggregator 10 0) \<and> \<not> is_expired 9999 (new_window_aggregator 10 0)"
  using window_expiry_exact [of "new_window_aggregator 10 0" 10000]
    window_expiry_exact [of "new_window_aggregator 10 0" 9999]
  by (simp add: new_window_aggregator_def in_i64_def i64_min_def i64_max_def)

end
