(* ===== verification/Context_Memory.thy ===== *)
theory Context_Memory
  imports BTree_Map Context_Builder Action_Lifecycle
begin

text \<open>
  \<open>aios-core/src/context_memory.rs\<close>: the model memory built from closed windows and audit
  records. Counters are \<open>BTreeMap\<close>s (\<open>BTree_Map\<close>), momenta \<open>f64\<close>; the file and \<open>serde_json\<close> are
  not modelled, \<open>load_or_default\<close> takes the outcome of reading the file. What the environment
  variables make of the configuration is in \<open>Daemon_Startup\<close>.

  The lemmas: the invariant of every operation (limits, sorted maps, momenta that are never
  NaN or negative), what the counters count, the ranking the profile reports, and the life of a
  pending prewarm.
\<close>

section \<open>Configuration and state\<close>

record memory_config =
  mc_recent_limit :: usize
  mc_top_limit :: usize
  mc_momentum_decay_milli :: u16
  mc_prewarm_effect_windows :: u8
  mc_persist_path :: "string option"

definition default_memory_config :: memory_config where
  "default_memory_config = \<lparr>mc_recent_limit = 5, mc_top_limit = 8, mc_momentum_decay_milli = 900,
     mc_prewarm_effect_windows = 3, mc_persist_path = None\<rparr>"

definition clamp :: "'a::linorder \<Rightarrow> 'a \<Rightarrow> 'a \<Rightarrow> 'a" where
  "clamp lo hi x = (if x < lo then lo else if hi < x then hi else x)"

record pending_prewarm =
  pp_window_id :: string
  pp_target :: string
  pp_package :: string
  pp_windows_observed :: u8

type_synonym counts = "(string, u32) btree_map"
type_synonym momenta = "(string, f64) btree_map"

record model_memory =
  mm_recent_limit :: usize
  mm_top_limit :: usize
  mm_momentum_decay_milli :: u16
  mm_prewarm_effect_windows :: u8
  mm_llm_summary :: "string option"
  mm_observation_windows :: u32
  mm_foreground_counts :: counts
  mm_notifying_counts :: counts
  mm_semantic_hint_counts :: counts
  mm_action_success_counts :: counts
  mm_action_denial_counts :: counts
  mm_action_failure_counts :: counts
  mm_foreground_momentum :: momenta
  mm_notifying_momentum :: momenta
  mm_semantic_hint_momentum :: momenta
  mm_action_success_momentum :: momenta
  mm_action_denial_momentum :: momenta
  mm_action_failure_momentum :: momenta
  mm_prewarm_hit_counts :: counts
  mm_prewarm_miss_counts :: counts
  mm_prewarm_hit_momentum :: momenta
  mm_prewarm_miss_momentum :: momenta
  mm_pending_prewarms :: "pending_prewarm list"
  mm_last_updated_window_id :: "string option"
  mm_recent :: "recent_decision_record list"

definition memory_with_config :: "memory_config \<Rightarrow> model_memory" where
  "memory_with_config c =
     \<lparr>mm_recent_limit = clamp 1 50 (mc_recent_limit c), mm_top_limit = clamp 1 32 (mc_top_limit c),
      mm_momentum_decay_milli = clamp 0 999 (mc_momentum_decay_milli c),
      mm_prewarm_effect_windows = clamp 1 20 (mc_prewarm_effect_windows c),
      mm_llm_summary = None, mm_observation_windows = 0,
      mm_foreground_counts = [], mm_notifying_counts = [], mm_semantic_hint_counts = [],
      mm_action_success_counts = [], mm_action_denial_counts = [], mm_action_failure_counts = [],
      mm_foreground_momentum = [], mm_notifying_momentum = [], mm_semantic_hint_momentum = [],
      mm_action_success_momentum = [], mm_action_denial_momentum = [], mm_action_failure_momentum = [],
      mm_prewarm_hit_counts = [], mm_prewarm_miss_counts = [],
      mm_prewarm_hit_momentum = [], mm_prewarm_miss_momentum = [],
      mm_pending_prewarms = [], mm_last_updated_window_id = None, mm_recent = []\<rparr>"

text \<open>\<open>while recent.len() > limit \{ pop_front \}\<close>.\<close>

definition keep_last :: "nat \<Rightarrow> 'a list \<Rightarrow> 'a list" where
  "keep_last n xs = drop (length xs - n) xs"

definition apply_config :: "memory_config \<Rightarrow> model_memory \<Rightarrow> model_memory" where
  "apply_config c m =
     m\<lparr>mm_recent_limit := clamp 1 50 (mc_recent_limit c), mm_top_limit := clamp 1 32 (mc_top_limit c),
       mm_momentum_decay_milli := clamp 0 999 (mc_momentum_decay_milli c),
       mm_prewarm_effect_windows := clamp 1 20 (mc_prewarm_effect_windows c),
       mm_recent := keep_last (clamp 1 50 (mc_recent_limit c)) (mm_recent m)\<rparr>"

definition load_or_default :: "(string \<Rightarrow> string + model_memory) \<Rightarrow> memory_config \<Rightarrow> model_memory" where
  "load_or_default load c =
     (case mc_persist_path c of None \<Rightarrow> memory_with_config c
      | Some path \<Rightarrow> (case load path of Inr m \<Rightarrow> apply_config c m | Inl e \<Rightarrow> memory_with_config c))"

definition set_llm_summary :: "string \<Rightarrow> model_memory \<Rightarrow> model_memory" where
  "set_llm_summary s m = (if trim s = [] then m else m\<lparr>mm_llm_summary := Some s\<rparr>)"

section \<open>Counters and momenta\<close>

definition increment :: "string \<Rightarrow> counts \<Rightarrow> counts" where
  "increment k m = btree_upsert k 0 (\<lambda>n. n + 1) m"

definition add_momentum :: "string \<Rightarrow> momenta \<Rightarrow> momenta" where
  "add_momentum k m = btree_upsert k (FFin 0) (\<lambda>v. fp_add fmt64 v (FFin 1)) m"

definition decay_map :: "f64 \<Rightarrow> momenta \<Rightarrow> momenta" where
  "decay_map d m =
     (if fp_le d (FFin 0) then []
      else btree_retain (\<lambda>v. fp_le (f64_lit (1 / 100)) v) (btree_map_values (\<lambda>v. fp_mul fmt64 v d) m))"

definition decay_factor :: "u16 \<Rightarrow> f64" where
  "decay_factor milli = fp_div fmt64 (FFin (of_nat (unat milli))) (FFin 1000)"

definition decay_momentum :: "model_memory \<Rightarrow> model_memory" where
  "decay_momentum m =
     (let d = decay_factor (mm_momentum_decay_milli m) in
      m\<lparr>mm_foreground_momentum := decay_map d (mm_foreground_momentum m),
        mm_notifying_momentum := decay_map d (mm_notifying_momentum m),
        mm_semantic_hint_momentum := decay_map d (mm_semantic_hint_momentum m),
        mm_action_success_momentum := decay_map d (mm_action_success_momentum m),
        mm_action_denial_momentum := decay_map d (mm_action_denial_momentum m),
        mm_action_failure_momentum := decay_map d (mm_action_failure_momentum m),
        mm_prewarm_hit_momentum := decay_map d (mm_prewarm_hit_momentum m),
        mm_prewarm_miss_momentum := decay_map d (mm_prewarm_miss_momentum m)\<rparr>)"

section \<open>Prewarm attribution\<close>

definition normalize_prewarm_package :: "string \<Rightarrow> string option" where
  "normalize_prewarm_package t =
     (case strip_prefix t ''pkg:'' of
        Some p \<Rightarrow> if trim p = [] then None else Some (trim p)
      | None \<Rightarrow> None)"

definition attribute_outcome :: "pending_prewarm \<Rightarrow> feedback_correctness \<Rightarrow> string \<Rightarrow> bool
    \<Rightarrow> action_feedback_record \<Rightarrow> action_feedback_record" where
  "attribute_outcome p c evidence hit a =
     (if af_action_type a = ''PreWarmProcess'' \<and> af_target a = Some (pp_target p)
      then a\<lparr>af_correctness := c, af_correctness_evidence := evidence,
             af_outcome_summary := Some ((if hit then ''prewarm_effect_hit:'' else ''prewarm_effect_miss:'') @ pp_package p)\<rparr>
      else a)"

definition record_prewarm_attribution :: "pending_prewarm \<Rightarrow> feedback_correctness \<Rightarrow> string \<Rightarrow> bool
    \<Rightarrow> model_memory \<Rightarrow> model_memory" where
  "record_prewarm_attribution p c evidence hit m =
     (let m = (if hit
               then m\<lparr>mm_prewarm_hit_counts := increment (pp_package p) (mm_prewarm_hit_counts m),
                      mm_prewarm_hit_momentum := add_momentum (pp_package p) (mm_prewarm_hit_momentum m)\<rparr>
               else m\<lparr>mm_prewarm_miss_counts := increment (pp_package p) (mm_prewarm_miss_counts m),
                      mm_prewarm_miss_momentum := add_momentum (pp_package p) (mm_prewarm_miss_momentum m)\<rparr>)
      in m\<lparr>mm_recent := map (\<lambda>r. if rd_window_id r \<noteq> pp_window_id p then r
              else r\<lparr>rd_action_outcomes := map (attribute_outcome p c evidence hit) (rd_action_outcomes r)\<rparr>)
            (mm_recent m)\<rparr>)"

definition hit_evidence :: "pending_prewarm \<Rightarrow> string" where
  "hit_evidence p = ''prewarm target '' @ pp_package p @ '' opened within ''
     @ show_nat (unat (pp_windows_observed p)) @ '' observed window(s)''"

definition miss_evidence :: "pending_prewarm \<Rightarrow> u8 \<Rightarrow> string" where
  "miss_evidence p limit = ''prewarm target '' @ pp_package p @ '' was not opened within ''
     @ show_nat (unat limit) @ '' window(s)''"

text \<open>One pending prewarm against the foreground of a new window.\<close>

definition resolve_one :: "string list \<Rightarrow> model_memory \<times> pending_prewarm list \<Rightarrow> pending_prewarm
    \<Rightarrow> model_memory \<times> pending_prewarm list" where
  "resolve_one fg st p0 =
     (let (m, still) = st;
          p = p0\<lparr>pp_windows_observed := sat_add (pp_windows_observed p0) 1\<rparr>
      in if pp_package p \<in> set fg
         then (record_prewarm_attribution p PredictionHit (hit_evidence p) True m, still)
         else if mm_prewarm_effect_windows m \<le> pp_windows_observed p
         then (record_prewarm_attribution p PredictionMiss (miss_evidence p (mm_prewarm_effect_windows m)) False m, still)
         else (m, still @ [p]))"

definition resolve_pending_prewarms :: "string list \<Rightarrow> model_memory \<Rightarrow> model_memory" where
  "resolve_pending_prewarms fg m =
     (let (m', still) = foldl (resolve_one fg) (m\<lparr>mm_pending_prewarms := []\<rparr>, []) (mm_pending_prewarms m)
      in m'\<lparr>mm_pending_prewarms := still\<rparr>)"

definition register_pending_prewarm :: "structured_context \<Rightarrow> audit_record \<Rightarrow> model_memory \<Rightarrow> model_memory" where
  "register_pending_prewarm ctx r m =
     (if ar_action_type r \<noteq> PreWarmProcess \<or> ar_terminal r \<noteq> Succeeded then m
      else case ar_target r of None \<Rightarrow> m
      | Some t \<Rightarrow> (case normalize_prewarm_package t of None \<Rightarrow> m
        | Some p \<Rightarrow> m\<lparr>mm_pending_prewarms := mm_pending_prewarms m @
             [\<lparr>pp_window_id = ctx_window_id ctx, pp_target = t, pp_package = p, pp_windows_observed = 0\<rparr>]\<rparr>))"

section \<open>Feedback\<close>

definition infer_correctness :: "audit_record \<Rightarrow> feedback_correctness \<times> string" where
  "infer_correctness r =
     (if ar_action_type r = NoOp \<and> ar_terminal r = Succeeded
      then (NeutralNoOp, ''NoOp succeeded; no behavioral preference inferred'')
      else case ar_terminal r of
        Succeeded \<Rightarrow> (LikelyCorrect, ''policy approved and adapter reported success'')
      | DeniedByCapability \<Rightarrow> (PolicyRejected, ''local policy or schema rejected the model suggestion'')
      | DeniedByPolicy \<Rightarrow> (PolicyRejected, ''local policy or schema rejected the model suggestion'')
      | RejectedInvalidSchema \<Rightarrow> (PolicyRejected, ''local policy or schema rejected the model suggestion'')
      | Failed \<Rightarrow> (ExecutionFailed, ''adapter attempted execution but returned failure'')
      | _ \<Rightarrow> (CorrectnessUnknown, ''action did not reach a terminal feedback state''))"

definition action_feedback :: "audit_record \<Rightarrow> action_feedback_record" where
  "action_feedback r =
     (let (c, evidence) = infer_correctness r in
      \<lparr>af_action_type = debug_action_type (ar_action_type r), af_target = ar_target r,
       af_terminal = debug_action_state (ar_terminal r), af_correctness = c,
       af_correctness_evidence = evidence,
       af_denial_reason = map_option debug_denial_reason (ar_denial_reason r),
       af_error = ar_error r, af_outcome_summary = map_option os_summary (ar_outcome r)\<rparr>)"

definition count_record :: "model_memory \<Rightarrow> audit_record \<Rightarrow> model_memory" where
  "count_record m r =
     (let a = debug_action_type (ar_action_type r) in
      case ar_terminal r of
        Succeeded \<Rightarrow>
          m\<lparr>mm_action_success_counts := increment a (mm_action_success_counts m),
            mm_action_success_momentum := add_momentum a (mm_action_success_momentum m)\<rparr>
      | DeniedByCapability \<Rightarrow>
          m\<lparr>mm_action_denial_counts := increment a (mm_action_denial_counts m),
            mm_action_denial_momentum := add_momentum a (mm_action_denial_momentum m)\<rparr>
      | DeniedByPolicy \<Rightarrow>
          m\<lparr>mm_action_denial_counts := increment a (mm_action_denial_counts m),
            mm_action_denial_momentum := add_momentum a (mm_action_denial_momentum m)\<rparr>
      | RejectedInvalidSchema \<Rightarrow>
          m\<lparr>mm_action_denial_counts := increment a (mm_action_denial_counts m),
            mm_action_denial_momentum := add_momentum a (mm_action_denial_momentum m)\<rparr>
      | Failed \<Rightarrow>
          m\<lparr>mm_action_failure_counts := increment a (mm_action_failure_counts m),
            mm_action_failure_momentum := add_momentum a (mm_action_failure_momentum m)\<rparr>
      | _ \<Rightarrow> m)"

definition observe_foreground :: "model_memory \<Rightarrow> string \<Rightarrow> model_memory" where
  "observe_foreground m p =
     m\<lparr>mm_foreground_counts := increment p (mm_foreground_counts m),
       mm_foreground_momentum := add_momentum p (mm_foreground_momentum m)\<rparr>"

definition observe_notified :: "model_memory \<Rightarrow> string \<Rightarrow> model_memory" where
  "observe_notified m p =
     m\<lparr>mm_notifying_counts := increment p (mm_notifying_counts m),
       mm_notifying_momentum := add_momentum p (mm_notifying_momentum m)\<rparr>"

definition observe_hint :: "model_memory \<Rightarrow> semantic_hint \<Rightarrow> model_memory" where
  "observe_hint m h =
     m\<lparr>mm_semantic_hint_counts := increment (debug_semantic_hint h) (mm_semantic_hint_counts m),
       mm_semantic_hint_momentum := add_momentum (debug_semantic_hint h) (mm_semantic_hint_momentum m)\<rparr>"

definition decision_feedback :: "structured_context \<Rightarrow> decision_backend_result \<Rightarrow> audit_record list
    \<Rightarrow> recent_decision_record" where
  "decision_feedback ctx d rs =
     \<lparr>rd_window_id = ctx_window_id ctx, rd_window_start_ms = ctx_window_start_ms ctx,
      rd_window_end_ms = ctx_window_end_ms ctx,
      rd_foreground_apps = cs_foreground_apps (ctx_summary ctx),
      rd_notified_apps = cs_notified_apps (ctx_summary ctx),
      rd_semantic_hints = cs_all_semantic_hints (ctx_summary ctx),
      rd_route = debug_route (dr_route d), rd_model = ib_model (dr_intent_batch d),
      rd_intent_count = of_nat (length (ib_intents (dr_intent_batch d))),
      rd_rationale_tags = dr_rationale_tags d, rd_backend_error = dr_error d,
      rd_action_outcomes = map action_feedback rs\<rparr>"

definition observe_window :: "structured_context \<Rightarrow> decision_backend_result \<Rightarrow> audit_record list
    \<Rightarrow> model_memory \<Rightarrow> model_memory" where
  "observe_window ctx d rs m =
     (let m = resolve_pending_prewarms (cs_foreground_apps (ctx_summary ctx)) m;
          m = decay_momentum m;
          m = m\<lparr>mm_observation_windows := sat_add (mm_observation_windows m) 1,
                mm_last_updated_window_id := Some (ctx_window_id ctx)\<rparr>;
          m = foldl observe_foreground m (cs_foreground_apps (ctx_summary ctx));
          m = foldl observe_notified m (cs_notified_apps (ctx_summary ctx));
          m = foldl observe_hint m (cs_all_semantic_hints (ctx_summary ctx));
          m = foldl count_record m rs;
          m = m\<lparr>mm_recent := keep_last (mm_recent_limit m) (mm_recent m @ [decision_feedback ctx d rs])\<rparr>
      in foldl (\<lambda>m r. register_pending_prewarm ctx r m) m rs)"

section \<open>Profile\<close>

text \<open>The comparators of \<open>top_counts\<close> and \<open>top_scores\<close>: "does not return \<open>Greater\<close>".\<close>

definition count_le :: "string \<times> u32 \<Rightarrow> string \<times> u32 \<Rightarrow> bool" where
  "count_le a b \<longleftrightarrow> snd b < snd a \<or> (snd a = snd b \<and> fst a \<le> fst b)"

definition score_le :: "string \<times> f64 \<Rightarrow> string \<times> f64 \<Rightarrow> bool" where
  "score_le a b \<longleftrightarrow> fp_lt (snd b) (snd a) \<or> (fp_cmp_eq (snd a) (snd b) \<and> fst a \<le> fst b)"

definition top_counts :: "counts \<Rightarrow> usize \<Rightarrow> (string \<times> u32) list" where
  "top_counts m limit = take limit (sort_by count_le m)"

definition score_as_count :: "f64 \<Rightarrow> u32" where
  "score_as_count v = fp_as_u32 (fp_max (fp_round_int v) (FFin 1))"

definition top_scores :: "momenta \<Rightarrow> usize \<Rightarrow> (string \<times> u32) list option" where
  "top_scores m limit =
     (if m = [] then None
      else Some (map (\<lambda>(k, v). (k, score_as_count v)) (take limit (sort_by score_le m))))"

fun semantic_hint_from_debug :: "string \<Rightarrow> semantic_hint option" where
  "semantic_hint_from_debug n =
     (if n = ''FileMention'' then Some FileMention
      else if n = ''ImageMention'' then Some ImageMention
      else if n = ''AudioMessage'' then Some AudioMessage
      else if n = ''LinkAttachment'' then Some LinkAttachment
      else if n = ''UserMentioned'' then Some UserMentioned
      else if n = ''CalendarInvitation'' then Some CalendarInvitation
      else if n = ''FinancialContext'' then Some FinancialContext
      else if n = ''VerificationCode'' then Some VerificationCode
      else None)"

definition named_hints :: "(string \<times> u32) list \<Rightarrow> (semantic_hint \<times> u32) list" where
  "named_hints xs = List.map_filter (\<lambda>(n, c). map_option (\<lambda>h. (h, c)) (semantic_hint_from_debug n)) xs"

definition top_semantic_hints :: "counts \<Rightarrow> usize \<Rightarrow> (semantic_hint \<times> u32) list" where
  "top_semantic_hints m limit = named_hints (top_counts m limit)"

definition top_semantic_hint_scores :: "momenta \<Rightarrow> usize \<Rightarrow> (semantic_hint \<times> u32) list option" where
  "top_semantic_hint_scores m limit = map_option named_hints (top_scores m limit)"

definition scores_or_counts :: "momenta \<Rightarrow> counts \<Rightarrow> usize \<Rightarrow> (string \<times> u32) list" where
  "scores_or_counts s c limit = (case top_scores s limit of Some xs \<Rightarrow> xs | None \<Rightarrow> top_counts c limit)"

definition render_pairs :: "(string \<times> u32) list \<Rightarrow> string" where
  "render_pairs xs = (if xs = [] then ''none''
     else join_str '','' (map (\<lambda>(k, n). k @ '':'' @ show_nat (unat n)) xs))"

definition render_hint_pairs :: "(semantic_hint \<times> u32) list \<Rightarrow> string" where
  "render_hint_pairs xs = (if xs = [] then ''none''
     else join_str '','' (map (\<lambda>(h, n). debug_semantic_hint h @ '':'' @ show_nat (unat n)) xs))"

record summary_render_input =
  sr_windows :: u32
  sr_momentum_decay_milli :: u16
  sr_prewarm_effect_windows :: u8
  sr_foreground :: "(string \<times> u32) list"
  sr_notifying :: "(string \<times> u32) list"
  sr_hints :: "(semantic_hint \<times> u32) list"
  sr_successes :: "(string \<times> u32) list"
  sr_denials :: "(string \<times> u32) list"
  sr_failures :: "(string \<times> u32) list"
  sr_prewarm_hits :: "(string \<times> u32) list"
  sr_prewarm_misses :: "(string \<times> u32) list"

definition render_summary :: "summary_render_input \<Rightarrow> string" where
  "render_summary i =
     ''observed_windows='' @ show_nat (unat (sr_windows i))
     @ ''; momentum_decay_milli='' @ show_nat (unat (sr_momentum_decay_milli i))
     @ ''; prewarm_effect_window='' @ show_nat (unat (sr_prewarm_effect_windows i))
     @ ''; foreground_apps='' @ render_pairs (sr_foreground i)
     @ ''; notifying_apps='' @ render_pairs (sr_notifying i)
     @ ''; semantic_hints='' @ render_hint_pairs (sr_hints i)
     @ ''; successful_actions='' @ render_pairs (sr_successes i)
     @ ''; denied_actions='' @ render_pairs (sr_denials i)
     @ ''; failed_actions='' @ render_pairs (sr_failures i)
     @ ''; prewarm_effect_hits='' @ render_pairs (sr_prewarm_hits i)
     @ ''; prewarm_effect_misses='' @ render_pairs (sr_prewarm_misses i)"

definition behavior_profile :: "model_memory \<Rightarrow> user_behavior_profile" where
  "behavior_profile m =
     (let k = mm_top_limit m;
          foreground = scores_or_counts (mm_foreground_momentum m) (mm_foreground_counts m) k;
          notifying = scores_or_counts (mm_notifying_momentum m) (mm_notifying_counts m) k;
          hints = (case top_semantic_hint_scores (mm_semantic_hint_momentum m) k of
                     Some xs \<Rightarrow> xs | None \<Rightarrow> top_semantic_hints (mm_semantic_hint_counts m) k);
          successes = scores_or_counts (mm_action_success_momentum m) (mm_action_success_counts m) k;
          denials = scores_or_counts (mm_action_denial_momentum m) (mm_action_denial_counts m) k;
          failures = scores_or_counts (mm_action_failure_momentum m) (mm_action_failure_counts m) k;
          hits = scores_or_counts (mm_prewarm_hit_momentum m) (mm_prewarm_hit_counts m) k;
          misses = scores_or_counts (mm_prewarm_miss_momentum m) (mm_prewarm_miss_counts m) k;
          local_summary = render_summary
            \<lparr>sr_windows = mm_observation_windows m, sr_momentum_decay_milli = mm_momentum_decay_milli m,
             sr_prewarm_effect_windows = mm_prewarm_effect_windows m, sr_foreground = foreground,
             sr_notifying = notifying, sr_hints = hints, sr_successes = successes, sr_denials = denials,
             sr_failures = failures, sr_prewarm_hits = hits, sr_prewarm_misses = misses\<rparr>
      in \<lparr>ubp_user_id = None,
          ubp_summary = (case mm_llm_summary m of
             Some llm \<Rightarrow> ''llm_summary='' @ llm @ ''; local_counters='' @ local_summary
           | None \<Rightarrow> local_summary),
          ubp_observation_windows = mm_observation_windows m,
          ubp_frequent_foreground_apps = foreground, ubp_frequent_notifying_apps = notifying,
          ubp_frequent_semantic_hints = hints, ubp_action_successes = successes,
          ubp_action_denials = denials, ubp_action_failures = failures,
          ubp_last_updated_window_id = mm_last_updated_window_id m\<rparr>)"

definition memory_model_input :: "structured_context \<Rightarrow> model_memory \<Rightarrow> model_input" where
  "memory_model_input ctx m =
     \<lparr>mi_current_context = ctx, mi_behavior_profile = behavior_profile m, mi_recent_feedback = mm_recent m\<rparr>"

section \<open>The invariant\<close>

definition good_score :: "f64 \<Rightarrow> bool" where
  "good_score v \<longleftrightarrow> (case v of FFin q \<Rightarrow> 0 \<le> q | FInf s \<Rightarrow> \<not> s | FNaN \<Rightarrow> False)"

definition momenta_ok :: "momenta \<Rightarrow> bool" where
  "momenta_ok m \<longleftrightarrow> btree_invar m \<and> (\<forall>x \<in> set m. good_score (snd x))"

definition limits_ok :: "model_memory \<Rightarrow> bool" where
  "limits_ok m \<longleftrightarrow> 1 \<le> mm_recent_limit m \<and> mm_recent_limit m \<le> 50
     \<and> 1 \<le> mm_top_limit m \<and> mm_top_limit m \<le> 32
     \<and> mm_momentum_decay_milli m \<le> 999
     \<and> 1 \<le> mm_prewarm_effect_windows m \<and> mm_prewarm_effect_windows m \<le> 20
     \<and> length (mm_recent m) \<le> mm_recent_limit m"

definition counts_ok :: "model_memory \<Rightarrow> bool" where
  "counts_ok m \<longleftrightarrow> btree_invar (mm_foreground_counts m) \<and> btree_invar (mm_notifying_counts m)
     \<and> btree_invar (mm_semantic_hint_counts m) \<and> btree_invar (mm_action_success_counts m)
     \<and> btree_invar (mm_action_denial_counts m) \<and> btree_invar (mm_action_failure_counts m)
     \<and> btree_invar (mm_prewarm_hit_counts m) \<and> btree_invar (mm_prewarm_miss_counts m)"

definition all_momenta_ok :: "model_memory \<Rightarrow> bool" where
  "all_momenta_ok m \<longleftrightarrow> momenta_ok (mm_foreground_momentum m) \<and> momenta_ok (mm_notifying_momentum m)
     \<and> momenta_ok (mm_semantic_hint_momentum m) \<and> momenta_ok (mm_action_success_momentum m)
     \<and> momenta_ok (mm_action_denial_momentum m) \<and> momenta_ok (mm_action_failure_momentum m)
     \<and> momenta_ok (mm_prewarm_hit_momentum m) \<and> momenta_ok (mm_prewarm_miss_momentum m)"

definition memory_ok :: "model_memory \<Rightarrow> bool" where
  "memory_ok m \<longleftrightarrow> limits_ok m \<and> counts_ok m \<and> all_momenta_ok m"

lemmas memory_ok_defs = memory_ok_def limits_ok_def counts_ok_def all_momenta_ok_def

lemma good_score_simps [simp]:
  "good_score (FFin q) \<longleftrightarrow> 0 \<le> q" "good_score (FInf s) \<longleftrightarrow> \<not> s" "\<not> good_score FNaN"
  by (simp_all add: good_score_def)

lemma good_score_of_rat: "0 \<le> x \<Longrightarrow> good_score (fp_of_rat f x)"
  using fp_round_nonneg [of x "ff_prec f" "ff_emin f"]
  by (auto simp: fp_of_rat_def Let_def)

lemma increment_ok [simp]: "btree_invar m \<Longrightarrow> btree_invar (increment k m)"
  by (simp add: increment_def btree_upsert_invar)

lemma btree_upsert_values:
  "x \<in> set (btree_upsert k d f m) \<Longrightarrow> x \<in> set m \<or> snd x = f d \<or> (\<exists>y \<in> set m. snd x = f (snd y))"
  by (induction k d f m rule: btree_upsert.induct) (auto split: if_splits)

lemma good_score_add: "good_score v \<Longrightarrow> good_score (fp_add fmt64 v (FFin 1))"
  by (cases v) (simp_all add: good_score_of_rat)

lemma add_momentum_ok [simp]: "momenta_ok m \<Longrightarrow> momenta_ok (add_momentum k m)"
  unfolding momenta_ok_def add_momentum_def
  using good_score_add good_score_add [of "FFin 0"]
  by (auto simp: btree_upsert_invar dest!: btree_upsert_values)

lemma decay_factor_finite:
  assumes "milli \<le> 999"
  obtains d where "decay_factor milli = FFin d" "0 \<le> d"
proof -
  let ?x = "of_nat (unat milli) / 1000 :: rat"
  have "unat milli \<le> 1000" using assms by (simp add: word_le_nat_alt)
  then have "of_nat (unat milli) \<le> (of_nat 1000 :: rat)" by (subst of_nat_le_iff)
  then have le: "?x \<le> 1" by simp
  have "fp_round 53 (- 1074) ?x \<le> fp_round 53 (- 1074) 1" by (rule fp_round_mono [OF le]) simp
  also have "fp_round 53 (- 1074) 1 = 1" by code_simp
  finally have r: "fp_round 53 (- 1074) ?x \<le> 1" .
  have "0 \<le> ?x" by (rule divide_nonneg_nonneg [OF of_nat_0_le_iff]) simp
  then have n: "0 \<le> fp_round 53 (- 1074) ?x" by (rule fp_round_nonneg)
  have "(1 :: rat) < 2 ^ 1024" by simp
  with r n have "fp_of_rat fmt64 ?x = FFin (fp_round 53 (- 1074) ?x)"
    by (simp add: fp_of_rat_def fmt64_def Let_def)
  then have "decay_factor milli = FFin (fp_round 53 (- 1074) ?x)"
    by (simp add: decay_factor_def)
  from this n show thesis by (rule that)
qed

lemma good_score_mul: "good_score v \<Longrightarrow> 0 < d \<Longrightarrow> good_score (fp_mul fmt64 v (FFin d))"
  by (cases v) (simp_all add: good_score_of_rat)

lemma decay_map_ok:
  assumes "momenta_ok m" "0 \<le> d"
  shows "momenta_ok (decay_map (FFin d) m)"
proof (cases "d = 0")
  case True
  then show ?thesis by (simp add: decay_map_def momenta_ok_def btree_empty)
next
  case False
  with assms(2) have "0 < d" by simp
  let ?r = "btree_retain (\<lambda>v. fp_le (f64_lit (1 / 100)) v) (btree_map_values (\<lambda>v. fp_mul fmt64 v (FFin d)) m)"
  have "btree_invar ?r"
    using assms(1) by (intro btree_retain_invar btree_map_values_invar) (simp add: momenta_ok_def)
  moreover have "\<forall>x \<in> set ?r. good_score (snd x)"
    using assms(1) \<open>0 < d\<close>
    by (auto simp: momenta_ok_def btree_retain_def btree_map_values_def intro!: good_score_mul)
  ultimately show ?thesis using \<open>0 < d\<close> by (simp add: decay_map_def momenta_ok_def)
qed

lemma decay_momentum_ok: "memory_ok m \<Longrightarrow> memory_ok (decay_momentum m)"
proof -
  assume m: "memory_ok m"
  then have "mm_momentum_decay_milli m \<le> 999" by (simp add: memory_ok_defs)
  then obtain d where "decay_factor (mm_momentum_decay_milli m) = FFin d" "0 \<le> d" by (rule decay_factor_finite)
  with m show ?thesis by (simp add: memory_ok_defs decay_momentum_def decay_map_ok Let_def)
qed

lemma attribution_ok: "memory_ok m \<Longrightarrow> memory_ok (record_prewarm_attribution p c e h m)"
  by (simp add: memory_ok_defs record_prewarm_attribution_def Let_def)

lemma resolve_one_ok: "memory_ok (fst st) \<Longrightarrow> memory_ok (fst (resolve_one fg st p))"
  by (simp add: resolve_one_def split_beta Let_def attribution_ok)

lemma pending_update_ok [simp]: "memory_ok (m\<lparr>mm_pending_prewarms := x\<rparr>) \<longleftrightarrow> memory_ok m"
  by (simp add: memory_ok_defs)

lemma foldl_keeps:
  assumes "\<And>s x. P s \<Longrightarrow> P (f s x)" "P s"
  shows "P (foldl f s xs)"
  using assms(2) by (induction xs arbitrary: s) (simp_all add: assms(1))

lemma resolve_ok: "memory_ok m \<Longrightarrow> memory_ok (resolve_pending_prewarms fg m)"
  unfolding resolve_pending_prewarms_def split_beta Let_def pending_update_ok
  by (rule foldl_keeps [where P = "\<lambda>st. memory_ok (fst st)"]) (simp_all add: resolve_one_ok)

lemma observe_steps_ok:
  "memory_ok m \<Longrightarrow> memory_ok (observe_foreground m x)"
  "memory_ok m \<Longrightarrow> memory_ok (observe_notified m x)"
  "memory_ok m \<Longrightarrow> memory_ok (observe_hint m h)"
  by (simp_all add: memory_ok_defs observe_foreground_def observe_notified_def observe_hint_def)

lemma count_record_ok: "memory_ok m \<Longrightarrow> memory_ok (count_record m r)"
  by (cases "ar_terminal r") (simp_all add: memory_ok_defs count_record_def Let_def)

lemma register_ok: "memory_ok m \<Longrightarrow> memory_ok (register_pending_prewarm ctx r m)"
  by (simp add: register_pending_prewarm_def split: option.splits)

lemma length_keep_last: "length (keep_last n xs) \<le> n"
  by (simp add: keep_last_def)

lemma recent_update_ok: "memory_ok m \<Longrightarrow> memory_ok (m\<lparr>mm_recent := keep_last (mm_recent_limit m) xs\<rparr>)"
  using length_keep_last by (simp add: memory_ok_defs)

lemma observe_window_ok:
  assumes "memory_ok m"
  shows "memory_ok (observe_window ctx d rs m)"
  unfolding observe_window_def Let_def
proof (rule foldl_keeps [where P = memory_ok], erule register_ok, rule recent_update_ok,
    rule foldl_keeps [where P = memory_ok], erule count_record_ok,
    rule foldl_keeps [where P = memory_ok], erule observe_steps_ok,
    rule foldl_keeps [where P = memory_ok], erule observe_steps_ok,
    rule foldl_keeps [where P = memory_ok], erule observe_steps_ok)
  show "memory_ok ((decay_momentum (resolve_pending_prewarms (cs_foreground_apps (ctx_summary ctx)) m))
      \<lparr>mm_observation_windows := sat_add (mm_observation_windows
           (decay_momentum (resolve_pending_prewarms (cs_foreground_apps (ctx_summary ctx)) m))) 1,
       mm_last_updated_window_id := Some (ctx_window_id ctx)\<rparr>)"
    using decay_momentum_ok [OF resolve_ok [OF assms]] by (simp add: memory_ok_defs)
qed

lemma clamp_bounds: "lo \<le> hi \<Longrightarrow> lo \<le> clamp lo hi x \<and> clamp lo hi x \<le> hi"
  by (auto simp: clamp_def)

lemma memory_start_ok: "memory_ok (memory_with_config c)"
  using clamp_bounds [of 1 50 "mc_recent_limit c"] clamp_bounds [of 1 32 "mc_top_limit c"]
    clamp_bounds [of 0 999 "mc_momentum_decay_milli c"] clamp_bounds [of 1 20 "mc_prewarm_effect_windows c"]
  by (simp add: memory_ok_defs memory_with_config_def btree_empty momenta_ok_def)

lemma set_llm_summary_ok: "memory_ok m \<Longrightarrow> memory_ok (set_llm_summary t m)"
  by (simp add: memory_ok_defs set_llm_summary_def)

lemma apply_config_ok: "counts_ok m \<Longrightarrow> all_momenta_ok m \<Longrightarrow> memory_ok (apply_config c m)"
  using clamp_bounds [of 1 50 "mc_recent_limit c"] clamp_bounds [of 1 32 "mc_top_limit c"]
    clamp_bounds [of 0 999 "mc_momentum_decay_milli c"] clamp_bounds [of 1 20 "mc_prewarm_effect_windows c"]
  by (simp add: memory_ok_defs apply_config_def keep_last_def)

text \<open>The model memory stays within its bounds. A memory made from any configuration satisfies the
  invariant, and observing a window, re-applying a configuration and setting a summary keep it:
  the limits are in their documented ranges, at most \<open>recent_limit\<close> windows are remembered,
  every counter map is sorted without duplicates, and every momentum is a number that is never
  NaN and never negative.\<close>

theorem memory_invariant:
  assumes "memory_ok m"
  shows "memory_ok (memory_with_config c) \<and> memory_ok (observe_window ctx d rs m)
     \<and> memory_ok (apply_config c m) \<and> memory_ok (set_llm_summary s m)"
  using assms by (auto intro: memory_start_ok observe_window_ok apply_config_ok set_llm_summary_ok simp: memory_ok_def [of m])

section \<open>The life of a pending prewarm\<close>

lemma attribution_pending [simp]:
  "mm_pending_prewarms (record_prewarm_attribution p c e h m) = mm_pending_prewarms m"
  "mm_prewarm_effect_windows (record_prewarm_attribution p c e h m) = mm_prewarm_effect_windows m"
  by (simp_all add: record_prewarm_attribution_def Let_def)

text \<open>A pending prewarm survives a window that neither opens its package nor exhausts its horizon.\<close>

definition aged :: "pending_prewarm \<Rightarrow> pending_prewarm" where
  "aged p = p\<lparr>pp_windows_observed := sat_add (pp_windows_observed p) 1\<rparr>"

definition survives :: "string list \<Rightarrow> u8 \<Rightarrow> pending_prewarm \<Rightarrow> bool" where
  "survives fg limit p \<longleftrightarrow> pp_package p \<notin> set fg \<and> \<not> limit \<le> pp_windows_observed (aged p)"

lemma resolve_fold:
  "snd (foldl (resolve_one fg) st ps) = snd st @ map aged (filter (survives fg (mm_prewarm_effect_windows (fst st))) ps)
   \<and> mm_prewarm_effect_windows (fst (foldl (resolve_one fg) st ps)) = mm_prewarm_effect_windows (fst st)
   \<and> mm_pending_prewarms (fst (foldl (resolve_one fg) st ps)) = mm_pending_prewarms (fst st)"
  by (induction ps arbitrary: st)
     (auto simp: resolve_one_def split_beta Let_def survives_def aged_def)

lemma resolve_pending:
  "mm_pending_prewarms (resolve_pending_prewarms fg m) =
     map aged (filter (survives fg (mm_prewarm_effect_windows m)) (mm_pending_prewarms m))"
  "mm_prewarm_effect_windows (resolve_pending_prewarms fg m) = mm_prewarm_effect_windows m"
  using resolve_fold [of fg "(m\<lparr>mm_pending_prewarms := []\<rparr>, [])" "mm_pending_prewarms m"]
  by (simp_all add: resolve_pending_prewarms_def split_beta)

definition same_pending :: "model_memory \<Rightarrow> model_memory \<Rightarrow> bool" where
  "same_pending m m' \<longleftrightarrow> mm_pending_prewarms m' = mm_pending_prewarms m
     \<and> mm_prewarm_effect_windows m' = mm_prewarm_effect_windows m"

lemma same_pending_fold:
  assumes "\<And>s x. same_pending s (f s x)"
  shows "same_pending s (foldl f s xs)"
  by (rule foldl_keeps [where P = "same_pending s"]) (use assms in \<open>auto simp: same_pending_def\<close>)

lemma same_pending_steps:
  "same_pending m (observe_foreground m x)" "same_pending m (observe_notified m x)"
  "same_pending m (observe_hint m h)" "same_pending m (count_record m r)"
  by (simp_all add: same_pending_def observe_foreground_def observe_notified_def observe_hint_def
      count_record_def Let_def split: action_state.splits)

lemma register_fold:
  "mm_prewarm_effect_windows (foldl (\<lambda>m r. register_pending_prewarm ctx r m) m rs) = mm_prewarm_effect_windows m
   \<and> (\<exists>new. mm_pending_prewarms (foldl (\<lambda>m r. register_pending_prewarm ctx r m) m rs) = mm_pending_prewarms m @ new
        \<and> (\<forall>p \<in> set new. pp_window_id p = ctx_window_id ctx \<and> pp_windows_observed p = 0))"
proof (induction rs arbitrary: m)
  case (Cons r rs)
  have "\<exists>n. mm_pending_prewarms (register_pending_prewarm ctx r m) = mm_pending_prewarms m @ n
      \<and> (\<forall>p \<in> set n. pp_window_id p = ctx_window_id ctx \<and> pp_windows_observed p = 0)
      \<and> mm_prewarm_effect_windows (register_pending_prewarm ctx r m) = mm_prewarm_effect_windows m"
    by (auto simp: register_pending_prewarm_def split: option.splits)
  with Cons.IH [of "register_pending_prewarm ctx r m"] show ?case by force
qed simp

text \<open>The pending list after one window: the survivors, aged, and the new registrations.\<close>

lemma observe_window_pending:
  "mm_prewarm_effect_windows (observe_window ctx d rs m) = mm_prewarm_effect_windows m
   \<and> (\<exists>new. mm_pending_prewarms (observe_window ctx d rs m) =
        map aged (filter (survives (cs_foreground_apps (ctx_summary ctx)) (mm_prewarm_effect_windows m))
          (mm_pending_prewarms m)) @ new
      \<and> (\<forall>p \<in> set new. pp_window_id p = ctx_window_id ctx \<and> pp_windows_observed p = 0))"
proof -
  let ?m0 = "resolve_pending_prewarms (cs_foreground_apps (ctx_summary ctx)) m"
  let ?m1 = "(decay_momentum ?m0)\<lparr>mm_observation_windows := sat_add (mm_observation_windows (decay_momentum ?m0)) 1,
                mm_last_updated_window_id := Some (ctx_window_id ctx)\<rparr>"
  let ?m2 = "foldl count_record (foldl observe_hint (foldl observe_notified (foldl observe_foreground ?m1
      (cs_foreground_apps (ctx_summary ctx))) (cs_notified_apps (ctx_summary ctx)))
      (cs_all_semantic_hints (ctx_summary ctx))) rs"
  let ?m3 = "?m2\<lparr>mm_recent := keep_last (mm_recent_limit ?m2) (mm_recent ?m2 @ [decision_feedback ctx d rs])\<rparr>"
  have "same_pending ?m1 ?m2"
    using same_pending_fold [of observe_foreground, OF same_pending_steps(1)]
      same_pending_fold [of observe_notified, OF same_pending_steps(2)]
      same_pending_fold [of observe_hint, OF same_pending_steps(3)]
      same_pending_fold [of count_record, OF same_pending_steps(4)]
    by (simp add: same_pending_def)
  then have "mm_pending_prewarms ?m3 = mm_pending_prewarms ?m0"
    "mm_prewarm_effect_windows ?m3 = mm_prewarm_effect_windows m"
    by (simp_all add: same_pending_def decay_momentum_def Let_def resolve_pending)
  moreover have "observe_window ctx d rs m = foldl (\<lambda>m r. register_pending_prewarm ctx r m) ?m3 rs"
    by (simp add: observe_window_def Let_def)
  ultimately show ?thesis using register_fold [of ctx ?m3 rs] by (simp add: resolve_pending)
qed

section \<open>Sequences of windows\<close>

type_synonym observation = "structured_context \<times> decision_backend_result \<times> audit_record list"

definition observe_all :: "observation list \<Rightarrow> model_memory \<Rightarrow> model_memory" where
  "observe_all os m = foldl (\<lambda>m (ctx, d, rs). observe_window ctx d rs m) m os"

abbreviation obs_context :: "observation \<Rightarrow> structured_context" where
  "obs_context o1 \<equiv> fst o1"

lemma observe_all_snoc: "observe_all (os @ [o1]) m = observe_window (fst o1) (fst (snd o1)) (snd (snd o1)) (observe_all os m)"
  by (simp add: observe_all_def split_beta)

lemma observe_all_windows [simp]: "mm_prewarm_effect_windows (observe_all os m) = mm_prewarm_effect_windows m"
proof (induction os rule: rev_induct)
  case (snoc o1 os)
  then show ?case using observe_window_pending by (simp add: observe_all_snoc)
qed (simp add: observe_all_def)

text \<open>A prewarm pending after the windows \<open>os\<close> was registered in window \<open>i\<close> and has aged since.\<close>

definition pending_since :: "observation list \<Rightarrow> u8 \<Rightarrow> pending_prewarm \<Rightarrow> bool" where
  "pending_since os limit p \<longleftrightarrow> (\<exists>i < length os. pp_window_id p = ctx_window_id (obs_context (os ! i))
     \<and> unat (pp_windows_observed p) + i + 1 = length os
     \<and> (i + 1 = length os \<or> pp_windows_observed p < limit)
     \<and> (\<forall>j. i < j \<and> j < length os \<longrightarrow>
          pp_package p \<notin> set (cs_foreground_apps (ctx_summary (obs_context (os ! j))))))"

lemma pending_since_snoc:
  assumes "pending_since os limit p" "survives (cs_foreground_apps (ctx_summary (obs_context o1))) limit p"
  shows "pending_since (os @ [o1]) limit (aged p)"
proof -
  from assms(2) have lt: "sat_add (pp_windows_observed p) 1 < limit"
    by (auto simp: survives_def aged_def)
  have "pp_windows_observed p \<noteq> - 1"
  proof
    assume "pp_windows_observed p = - 1"
    then have "sat_add (pp_windows_observed p) 1 = - 1" by (simp add: sat_add_def)
    moreover have "limit \<le> - 1" by (rule word_order.extremum)
    ultimately show False using lt by simp
  qed
  then have u: "unat (sat_add (pp_windows_observed p) 1) = Suc (unat (pp_windows_observed p))"
    by (simp add: unat_sat_add_1)
  from assms(1) obtain i where i: "i < length os" "pp_window_id p = ctx_window_id (obs_context (os ! i))"
    "unat (pp_windows_observed p) + i + 1 = length os"
    "\<forall>j. i < j \<and> j < length os \<longrightarrow> pp_package p \<notin> set (cs_foreground_apps (ctx_summary (obs_context (os ! j))))"
    by (auto simp: pending_since_def)
  then show ?thesis
    unfolding pending_since_def using lt u assms(2)
    by (intro exI [of _ i]) (auto simp: aged_def survives_def nth_append less_Suc_eq)
qed

lemma pending_all:
  assumes "mm_pending_prewarms m = []"
  shows "\<forall>p \<in> set (mm_pending_prewarms (observe_all os m)). pending_since os (mm_prewarm_effect_windows m) p"
proof (induction os rule: rev_induct)
  case Nil
  then show ?case using assms by (simp add: observe_all_def)
next
  case (snoc o1 os)
  obtain new where p: "mm_pending_prewarms (observe_all (os @ [o1]) m) =
      map aged (filter (survives (cs_foreground_apps (ctx_summary (fst o1))) (mm_prewarm_effect_windows m))
        (mm_pending_prewarms (observe_all os m))) @ new"
    and n: "\<forall>p \<in> set new. pp_window_id p = ctx_window_id (fst o1) \<and> pp_windows_observed p = 0"
    using observe_window_pending [of "fst o1" "fst (snd o1)" "snd (snd o1)" "observe_all os m"]
    by (auto simp: observe_all_snoc)
  have "pending_since (os @ [o1]) (mm_prewarm_effect_windows m) q" if "q \<in> set new" for q
    unfolding pending_since_def using n that by (intro exI [of _ "length os"]) auto
  with snoc p show ?case by (auto intro: pending_since_snoc)
qed

text \<open>What may still be pending. After any sequence of windows observed by a
  memory that started with nothing pending, a prewarm is still pending only if it was
  registered in one of those windows, its age is exactly the number of windows since, that age
  is below the effect horizon (unless it was registered in the last window), and its package has not come to the foreground since. Every older prewarm has been resolved.\<close>

theorem pending_prewarm_bounded:
  assumes "mm_pending_prewarms m = []" "p \<in> set (mm_pending_prewarms (observe_all os m))"
  shows "pending_since os (mm_prewarm_effect_windows m) p"
  using pending_all [OF assms(1)] assms(2) by blast

section \<open>Every prewarm is judged once\<close>

text \<open>What a window registers, and where: the window's index, the target and the package.\<close>

definition prewarm_of :: "audit_record \<Rightarrow> (string \<times> string) option" where
  "prewarm_of r =
     (if ar_action_type r = PreWarmProcess \<and> ar_terminal r = Succeeded
      then Option.bind (ar_target r) (\<lambda>t. map_option (Pair t) (normalize_prewarm_package t)) else None)"

definition window_prewarms :: "observation \<Rightarrow> (string \<times> string) list" where
  "window_prewarms o1 = List.map_filter prewarm_of (snd (snd o1))"

definition registrations :: "observation list \<Rightarrow> (nat \<times> string \<times> string) list" where
  "registrations os = concat (map (\<lambda>(i, o1). map (Pair i) (window_prewarms o1)) (enumerate 0 os))"

text \<open>What becomes of a prewarm of window \<open>i\<close>: the first later window that opens its package or exhausts
  the horizon decides.\<close>

datatype prewarm_fate = PrewarmHit | PrewarmMiss | PrewarmPending

definition opens :: "observation list \<Rightarrow> string \<Rightarrow> nat \<Rightarrow> bool" where
  "opens os p j \<longleftrightarrow> p \<in> set (cs_foreground_apps (ctx_summary (obs_context (os ! j))))"

definition prewarm_fate :: "u8 \<Rightarrow> observation list \<Rightarrow> nat \<times> string \<times> string \<Rightarrow> prewarm_fate" where
  "prewarm_fate limit os = (\<lambda>(i, t, p).
     case find (\<lambda>j. opens os p j \<or> unat limit \<le> j - i) [Suc i ..< length os] of
       None \<Rightarrow> PrewarmPending
     | Some j \<Rightarrow> if opens os p j then PrewarmHit else PrewarmMiss)"

definition pending_entry :: "observation list \<Rightarrow> nat \<times> string \<times> string \<Rightarrow> pending_prewarm" where
  "pending_entry os = (\<lambda>(i, t, p). \<lparr>pp_window_id = ctx_window_id (obs_context (os ! i)), pp_target = t, pp_package = p,
     pp_windows_observed = of_nat (length os - 1 - i)\<rparr>)"

abbreviation fated :: "u8 \<Rightarrow> observation list \<Rightarrow> prewarm_fate \<Rightarrow> (nat \<times> string \<times> string) list" where
  "fated limit os f \<equiv> filter (\<lambda>x. prewarm_fate limit os x = f) (registrations os)"

abbreviation increments :: "string list \<Rightarrow> counts \<Rightarrow> counts" where
  "increments ks m \<equiv> foldl (\<lambda>m k. increment k m) m ks"

lemma increments_get:
  assumes "btree_invar m"
  shows "btree_invar (increments ks m) \<and> btree_get (increments ks m) k =
     (if k \<notin> set ks then btree_get m k
      else Some ((case btree_get m k of Some v \<Rightarrow> v | None \<Rightarrow> 0) + of_nat (count_list ks k)))"
  using assms
proof (induction ks arbitrary: m)
  case (Cons a ks)
  have "btree_invar (increment a m)" using Cons.prems by (simp add: increment_def btree_upsert_invar)
  from Cons.IH [OF this] show ?case using Cons.prems
    by (auto simp: increment_def btree_upsert_get count_list_0_iff split: option.splits)
qed simp

lemma registrations_snoc:
  "registrations (os @ [o1]) = registrations os @ map (Pair (length os)) (window_prewarms o1)"
  by (simp add: registrations_def enumerate_append_eq)

lemma registrations_index: "(i, t, p) \<in> set (registrations os) \<Longrightarrow> i < length os"
  by (auto simp: registrations_def in_set_enumerate_eq)

lemma find_append: "find P (xs @ ys) = (case find P xs of None \<Rightarrow> find P ys | Some x \<Rightarrow> Some x)"
  by (induction xs) auto

lemma find_cong_on: "(\<And>x. x \<in> set xs \<Longrightarrow> P x = Q x) \<Longrightarrow> find P xs = find Q xs"
  by (induction xs) auto

lemma fate_snoc:
  assumes "i < length os"
  shows "prewarm_fate limit (os @ [o1]) (i, t, p) =
     (if prewarm_fate limit os (i, t, p) \<noteq> PrewarmPending then prewarm_fate limit os (i, t, p)
      else if p \<in> set (cs_foreground_apps (ctx_summary (obs_context o1))) then PrewarmHit
      else if unat limit \<le> length os - i then PrewarmMiss else PrewarmPending)"
proof -
  have o: "opens (os @ [o1]) p j = opens os p j" if "j < length os" for j
    using that by (simp add: opens_def nth_append)
  have f: "find (\<lambda>j. opens (os @ [o1]) p j \<or> unat limit \<le> j - i) [Suc i ..< length os] =
      find (\<lambda>j. opens os p j \<or> unat limit \<le> j - i) [Suc i ..< length os]" (is "_ = ?f")
    by (rule find_cong_on) (simp add: o)
  have u: "[Suc i ..< length (os @ [o1])] = [Suc i ..< length os] @ [length os]" using assms by simp
  show ?thesis
  proof (cases ?f)
    case None
    then show ?thesis unfolding prewarm_fate_def u find_append prod.case f
      by (simp add: opens_def)
  next
    case (Some j)
    then have "j < length os" using find_Some_iff [of _ "[Suc i ..< length os]" j] by auto
    with Some show ?thesis unfolding prewarm_fate_def u find_append prod.case f by (simp add: o)
  qed
qed

lemma fate_new: "prewarm_fate limit (os @ [o1]) (length os, t, p) = PrewarmPending"
  by (simp add: prewarm_fate_def)

lemma fate_pending_age:
  assumes "prewarm_fate limit os (i, t, p) = PrewarmPending" "i < length os"
  shows "length os - 1 - i = 0 \<or> length os - 1 - i < unat limit"
proof (cases "Suc i < length os")
  case True
  have "find (\<lambda>j. opens os p j \<or> unat limit \<le> j - i) [Suc i ..< length os] = None"
    using assms(1) by (auto simp: prewarm_fate_def split: option.splits if_splits)
  then have "\<forall>j \<in> set [Suc i ..< length os]. \<not> unat limit \<le> j - i" unfolding find_None_iff by blast
  moreover have "length os - 1 \<in> set [Suc i ..< length os]" using True by auto
  ultimately have "\<not> unat limit \<le> length os - 1 - i" by blast
  then show ?thesis by simp
qed (use assms(2) in auto)

text \<open>The counters a window changes, and the ones it leaves alone.\<close>

lemma resolve_counts:
  fixes fg :: "string list" and m :: model_memory
  defines "P \<equiv> \<lambda>p. pp_package p \<in> set fg"
    and "Q \<equiv> \<lambda>p. pp_package p \<notin> set fg \<and> mm_prewarm_effect_windows m \<le> pp_windows_observed (aged p)"
  shows "mm_prewarm_hit_counts (resolve_pending_prewarms fg m) =
      increments (map pp_package (filter P (mm_pending_prewarms m))) (mm_prewarm_hit_counts m)"
    and "mm_prewarm_miss_counts (resolve_pending_prewarms fg m) =
      increments (map pp_package (filter Q (mm_pending_prewarms m))) (mm_prewarm_miss_counts m)"
proof -
  have fold: "mm_prewarm_hit_counts (fst (foldl (resolve_one fg) st ps)) =
      increments (map pp_package (filter P ps)) (mm_prewarm_hit_counts (fst st))
    \<and> mm_prewarm_miss_counts (fst (foldl (resolve_one fg) st ps)) =
      increments (map pp_package (filter Q ps)) (mm_prewarm_miss_counts (fst st))"
    if "mm_prewarm_effect_windows (fst st) = mm_prewarm_effect_windows m" for st ps
    using that
  proof (induction ps arbitrary: st)
    case (Cons p ps)
    have "mm_prewarm_effect_windows (fst (resolve_one fg st p)) = mm_prewarm_effect_windows m"
      using resolve_fold [of fg st "[p]"] Cons.prems by simp
    from Cons.IH [OF this] show ?case using Cons.prems
      by (auto simp: resolve_one_def record_prewarm_attribution_def split_beta Let_def P_def Q_def aged_def)
  qed simp
  from fold [of "(m\<lparr>mm_pending_prewarms := []\<rparr>, [])" "mm_pending_prewarms m"]
  show "mm_prewarm_hit_counts (resolve_pending_prewarms fg m) =
      increments (map pp_package (filter P (mm_pending_prewarms m))) (mm_prewarm_hit_counts m)"
    "mm_prewarm_miss_counts (resolve_pending_prewarms fg m) =
      increments (map pp_package (filter Q (mm_pending_prewarms m))) (mm_prewarm_miss_counts m)"
    by (simp_all add: resolve_pending_prewarms_def split_beta)
qed

definition prewarm_counts :: "model_memory \<Rightarrow> counts \<times> counts" where
  "prewarm_counts m = (mm_prewarm_hit_counts m, mm_prewarm_miss_counts m)"

lemma prewarm_counts_steps [simp]:
  "prewarm_counts (observe_foreground m x) = prewarm_counts m" "prewarm_counts (observe_notified m x) = prewarm_counts m"
  "prewarm_counts (observe_hint m h) = prewarm_counts m" "prewarm_counts (count_record m r) = prewarm_counts m"
  "prewarm_counts (register_pending_prewarm ctx r m) = prewarm_counts m"
  "prewarm_counts (decay_momentum m) = prewarm_counts m"
  "prewarm_counts (m\<lparr>mm_recent := rs\<rparr>) = prewarm_counts m"
  "prewarm_counts (m\<lparr>mm_observation_windows := n, mm_last_updated_window_id := w\<rparr>) = prewarm_counts m"
  by (simp_all add: prewarm_counts_def observe_foreground_def observe_notified_def observe_hint_def count_record_def
      register_pending_prewarm_def decay_momentum_def Let_def split: action_state.splits option.splits)

lemma prewarm_counts_fold:
  assumes "\<And>s x. prewarm_counts (f s x) = prewarm_counts s"
  shows "prewarm_counts (foldl f s xs) = prewarm_counts s"
  by (induction xs arbitrary: s) (simp_all add: assms)

lemma observe_window_counts:
  "prewarm_counts (observe_window ctx d rs m) =
     prewarm_counts (resolve_pending_prewarms (cs_foreground_apps (ctx_summary ctx)) m)"
  by (simp add: observe_window_def Let_def prewarm_counts_fold)

lemma register_fold_exact:
  "mm_pending_prewarms (foldl (\<lambda>m r. register_pending_prewarm ctx r m) m rs) = mm_pending_prewarms m @
     map (\<lambda>(t, p). \<lparr>pp_window_id = ctx_window_id ctx, pp_target = t, pp_package = p, pp_windows_observed = 0\<rparr>)
       (List.map_filter prewarm_of rs)"
  by (induction rs arbitrary: m)
    (auto simp: register_pending_prewarm_def prewarm_of_def map_filter_simps split: option.splits)

lemma observe_window_pending_exact:
  "mm_pending_prewarms (observe_window ctx d rs m) =
     map aged (filter (survives (cs_foreground_apps (ctx_summary ctx)) (mm_prewarm_effect_windows m))
       (mm_pending_prewarms m))
     @ map (\<lambda>(t, p). \<lparr>pp_window_id = ctx_window_id ctx, pp_target = t, pp_package = p, pp_windows_observed = 0\<rparr>)
       (List.map_filter prewarm_of rs)"
proof -
  have fold: "mm_pending_prewarms (foldl f s xs) = mm_pending_prewarms s"
    if "\<And>s x. same_pending s (f s x)" for f and s :: model_memory and xs :: "'x list"
    using same_pending_fold [of f s xs, OF that] by (simp add: same_pending_def)
  show ?thesis
    unfolding observe_window_def Let_def register_fold_exact
    by (simp add: fold same_pending_steps resolve_pending decay_momentum_def Let_def)
qed

text \<open>The pending list and the two counters, window by window.\<close>

definition judged :: "observation list \<Rightarrow> model_memory \<Rightarrow> bool" where
  "judged os m \<longleftrightarrow> (let limit = mm_prewarm_effect_windows m in
     mm_pending_prewarms m = map (pending_entry os) (fated limit os PrewarmPending)
     \<and> (\<exists>hs ms. prewarm_counts m = (increments hs [], increments ms [])
          \<and> mset hs = mset (map (snd \<circ> snd) (fated limit os PrewarmHit))
          \<and> mset ms = mset (map (snd \<circ> snd) (fated limit os PrewarmMiss))))"

lemma pending_entry_aged:
  assumes "x \<in> set (fated limit os PrewarmPending)"
  shows "unat (pp_windows_observed (aged (pending_entry os x))) = length os - fst x"
    "pp_windows_observed (aged (pending_entry os x)) = of_nat (length os - fst x)"
proof -
  obtain i t p where x: "x = (i, t, p)" by (metis surj_pair)
  have i: "i < length os" "prewarm_fate limit os (i, t, p) = PrewarmPending"
    using assms by (auto simp: x dest: registrations_index)
  have "unat limit < 2 ^ 8" using unsigned_less [of limit] by simp
  with fate_pending_age [OF i(2,1)] have a: "length os - 1 - i < 255" by auto
  then have "unat (of_nat (length os - 1 - i) :: u8) = length os - 1 - i" by (simp add: unat_of_nat)
  moreover have "(of_nat (length os - 1 - i) :: u8) \<noteq> - 1"
  proof
    assume "(of_nat (length os - 1 - i) :: u8) = - 1"
    then have "unat (of_nat (length os - 1 - i) :: u8) = 255"
      by (simp add: unsigned_minus_1_eq_mask mask_eq_exp_minus_1)
    with \<open>unat (of_nat (length os - 1 - i) :: u8) = length os - 1 - i\<close> a show False by simp
  qed
  ultimately show "unat (pp_windows_observed (aged (pending_entry os x))) = length os - fst x"
    using i(1) by (simp add: x aged_def pending_entry_def unat_sat_add_1)
  moreover have "of_nat (unat w) = w" for w :: u8 by simp
  ultimately show "pp_windows_observed (aged (pending_entry os x)) = of_nat (length os - fst x)" by metis
qed

lemma image_mset_filter_disj:
  assumes "\<And>x. x \<in># M \<Longrightarrow> \<not> (A x \<and> B x)"
  shows "image_mset f {#x \<in># M. A x \<or> B x#} = image_mset f {#x \<in># M. A x#} + image_mset f {#x \<in># M. B x#}"
  using assms by (induction M) auto

lemma judged_step:
  assumes "judged os m"
  shows "judged (os @ [o1]) (observe_window (fst o1) (fst (snd o1)) (snd (snd o1)) m)"
proof -
  let ?fg = "cs_foreground_apps (ctx_summary (fst o1))" and ?limit = "mm_prewarm_effect_windows m"
    and ?m = "observe_window (fst o1) (fst (snd o1)) (snd (snd o1)) m"
  let ?pend = "fated ?limit os PrewarmPending" and ?os = "os @ [o1]"
  have lim: "mm_prewarm_effect_windows ?m = ?limit" using observe_window_pending by blast
  have pend: "mm_pending_prewarms m = map (pending_entry os) ?pend" using assms by (simp add: judged_def Let_def)
  obtain hs ms where c: "mm_prewarm_hit_counts m = increments hs []" "mm_prewarm_miss_counts m = increments ms []"
    "mset hs = mset (map (snd \<circ> snd) (fated ?limit os PrewarmHit))" "mset ms = mset (map (snd \<circ> snd) (fated ?limit os PrewarmMiss))"
    using assms by (auto simp: judged_def Let_def prewarm_counts_def)
  have fate: "prewarm_fate ?limit ?os x =
     (if prewarm_fate ?limit os x \<noteq> PrewarmPending then prewarm_fate ?limit os x
      else if snd (snd x) \<in> set ?fg then PrewarmHit
      else if unat ?limit \<le> length os - fst x then PrewarmMiss else PrewarmPending)" if "x \<in> set (registrations os)" for x
    using that fate_snoc [of "fst x" os ?limit o1 "fst (snd x)" "snd (snd x)"] registrations_index [of "fst x" "fst (snd x)" "snd (snd x)" os]
    by simp
  have regs: "registrations ?os = registrations os @ map (Pair (length os)) (window_prewarms o1)"
    by (rule registrations_snoc)
  have new: "filter (\<lambda>x. prewarm_fate ?limit ?os x = f) (map (Pair (length os)) (window_prewarms o1)) =
      (if f = PrewarmPending then map (Pair (length os)) (window_prewarms o1) else [])" for f
    using fate_new [of ?limit os o1] by (auto simp: filter_empty_conv intro!: filter_True)
  have old: "fated ?limit ?os f = filter (\<lambda>x. prewarm_fate ?limit ?os x = f) (registrations os)
      @ (if f = PrewarmPending then map (Pair (length os)) (window_prewarms o1) else [])" for f
    by (simp only: regs filter_append new)
  have age: "?limit \<le> pp_windows_observed (aged (pending_entry os x)) \<longleftrightarrow> unat ?limit \<le> length os - fst x"
    if "x \<in> set ?pend" for x
    using pending_entry_aged(1) [OF that] by (simp add: word_le_nat_alt)
  have pkg: "pp_package (pending_entry os x) = snd (snd x)" for x by (simp add: pending_entry_def split_beta)
  have hits: "filter (\<lambda>x. prewarm_fate ?limit ?os x = PrewarmHit) (registrations os) =
      filter (\<lambda>x. prewarm_fate ?limit os x = PrewarmHit \<or> (prewarm_fate ?limit os x = PrewarmPending \<and> snd (snd x) \<in> set ?fg))
        (registrations os)"
    by (rule filter_cong) (auto simp: fate)
  have misses: "filter (\<lambda>x. prewarm_fate ?limit ?os x = PrewarmMiss) (registrations os) =
      filter (\<lambda>x. prewarm_fate ?limit os x = PrewarmMiss \<or> (prewarm_fate ?limit os x = PrewarmPending \<and> snd (snd x) \<notin> set ?fg
        \<and> unat ?limit \<le> length os - fst x)) (registrations os)"
    by (rule filter_cong) (auto simp: fate)
  have still: "filter (\<lambda>x. prewarm_fate ?limit ?os x = PrewarmPending) (registrations os) =
      filter (\<lambda>x. snd (snd x) \<notin> set ?fg \<and> \<not> unat ?limit \<le> length os - fst x) ?pend"
    unfolding filter_filter by (rule filter_cong) (auto simp: fate)
  have surv: "survives ?fg ?limit (pending_entry os x) \<longleftrightarrow> snd (snd x) \<notin> set ?fg \<and> \<not> unat ?limit \<le> length os - fst x"
    if "x \<in> set ?pend" for x
    using age [OF that] by (simp add: survives_def pkg)
  have next_entry: "aged (pending_entry os x) = pending_entry ?os x" if "x \<in> set ?pend" for x
  proof -
    have "fst x < length os" using that registrations_index [of "fst x" "fst (snd x)" "snd (snd x)" os] by simp
    then show ?thesis using pending_entry_aged(2) [OF that]
      by (simp add: aged_def pending_entry_def split_beta nth_append)
  qed
  have "map aged (filter (survives ?fg ?limit) (map (pending_entry os) ?pend)) =
      map (pending_entry ?os) (filter (\<lambda>x. snd (snd x) \<notin> set ?fg \<and> \<not> unat ?limit \<le> length os - fst x) ?pend)"
    unfolding filter_map map_map o_def
    by (intro map_cong filter_cong refl) (use surv next_entry in auto)
  moreover have "map (\<lambda>(t, p). \<lparr>pp_window_id = ctx_window_id (fst o1), pp_target = t, pp_package = p, pp_windows_observed = 0\<rparr>)
      (window_prewarms o1) = map (pending_entry ?os) (map (Pair (length os)) (window_prewarms o1))"
    by (simp add: pending_entry_def split_beta)
  ultimately have pending: "mm_pending_prewarms ?m = map (pending_entry ?os) (fated ?limit ?os PrewarmPending)"
    by (simp add: observe_window_pending_exact pend old still window_prewarms_def)
  have gone: "map pp_package (filter P (map (pending_entry os) ?pend)) =
      map (snd \<circ> snd) (filter (P \<circ> pending_entry os) ?pend)" for P
    by (simp add: filter_map o_def pkg)
  let ?nh = "map (snd \<circ> snd) (filter (\<lambda>x. snd (snd x) \<in> set ?fg) ?pend)"
  let ?nm = "map (snd \<circ> snd) (filter (\<lambda>x. snd (snd x) \<notin> set ?fg \<and> unat ?limit \<le> length os - fst x) ?pend)"
  have "filter ((\<lambda>p. pp_package p \<notin> set ?fg \<and> ?limit \<le> pp_windows_observed (aged p)) \<circ> pending_entry os) ?pend =
      filter (\<lambda>x. snd (snd x) \<notin> set ?fg \<and> unat ?limit \<le> length os - fst x) ?pend"
    by (rule filter_cong) (simp_all add: pkg age)
  then have counts: "prewarm_counts ?m = (increments (hs @ ?nh) [], increments (ms @ ?nm) [])"
    unfolding observe_window_counts using resolve_counts [of ?fg m]
    by (simp add: prewarm_counts_def c(1,2) pend gone o_def pkg)
  have "mset (hs @ ?nh) = mset (map (snd \<circ> snd) (fated ?limit ?os PrewarmHit))"
    unfolding old hits by (simp add: c(3) image_mset_filter_disj)
  moreover have "mset (ms @ ?nm) = mset (map (snd \<circ> snd) (fated ?limit ?os PrewarmMiss))"
    unfolding old misses by (simp add: c(4) image_mset_filter_disj)
  ultimately show ?thesis unfolding judged_def Let_def lim using pending counts by blast
qed

lemma judged_all:
  assumes "mm_pending_prewarms m = []" "mm_prewarm_hit_counts m = []" "mm_prewarm_miss_counts m = []"
  shows "judged os (observe_all os m)"
proof (induction os rule: rev_induct)
  case Nil
  then show ?case using assms by (simp add: judged_def prewarm_counts_def observe_all_def registrations_def)
next
  case (snoc o1 os)
  from judged_step [OF this, of o1] show ?case by (simp add: observe_all_snoc)
qed

text \<open>C37: a prewarm prediction is judged once, and within its horizon. Let a fresh memory observe any windows.
  Every successful \<open>PreWarmProcess\<close> record with a \<open>pkg:\<close> target registers one prewarm. The first later window
  that opens its package, or that is as many windows later as the configured horizon, decides it: a hit when the
  package is open there, a miss otherwise. After all windows the hit counter of a package is the number of
  its prewarms so decided as hits, the miss counter the number decided as misses (modulo \<open>2 ^ 32\<close>), and the
  pending list is exactly the undecided ones, in order of registration, each with its window, its target and
  the number of windows since. None is dropped, none counted twice.\<close>

theorem prewarms_judged_once:
  "let m = observe_all os (memory_with_config cfg); limit = clamp 1 20 (mc_prewarm_effect_windows cfg);
       judged_as = \<lambda>f pkg. length (filter (\<lambda>x. snd (snd x) = pkg) (fated limit os f))
   in mm_pending_prewarms m = map (pending_entry os) (fated limit os PrewarmPending)
     \<and> (\<forall>pkg. btree_get (mm_prewarm_hit_counts m) pkg =
          (if judged_as PrewarmHit pkg = 0 then None else Some (of_nat (judged_as PrewarmHit pkg))))
     \<and> (\<forall>pkg. btree_get (mm_prewarm_miss_counts m) pkg =
          (if judged_as PrewarmMiss pkg = 0 then None else Some (of_nat (judged_as PrewarmMiss pkg))))"
proof -
  let ?m = "observe_all os (memory_with_config cfg)" and ?limit = "clamp 1 20 (mc_prewarm_effect_windows cfg)"
  have lim: "mm_prewarm_effect_windows ?m = ?limit" by (simp add: memory_with_config_def)
  have "judged os ?m" by (rule judged_all) (simp_all add: memory_with_config_def)
  then obtain hs ms where p: "mm_pending_prewarms ?m = map (pending_entry os) (fated ?limit os PrewarmPending)"
    and c: "mm_prewarm_hit_counts ?m = increments hs []" "mm_prewarm_miss_counts ?m = increments ms []"
    "mset hs = mset (map (snd \<circ> snd) (fated ?limit os PrewarmHit))" "mset ms = mset (map (snd \<circ> snd) (fated ?limit os PrewarmMiss))"
    unfolding judged_def Let_def lim prewarm_counts_def by blast
  have count: "btree_get (increments ks []) pkg =
      (if length (filter (\<lambda>x. snd (snd x) = pkg) xs) = 0 then None
       else Some (of_nat (length (filter (\<lambda>x. snd (snd x) = pkg) xs))))"
    if "mset ks = mset (map (snd \<circ> snd) xs)" for ks pkg and xs :: "(nat \<times> string \<times> string) list"
  proof -
    have "count_list (map f ys) y = length (filter (\<lambda>x. f x = y) ys)" for f :: "nat \<times> string \<times> string \<Rightarrow> string" and ys y
      by (induction ys) auto
    then have n: "count_list ks pkg = length (filter (\<lambda>x. snd (snd x) = pkg) xs)"
      using arg_cong [OF that, of "\<lambda>M. count M pkg"] by (simp only: count_mset) simp
    then show ?thesis using increments_get [OF btree_empty(1), of ks pkg] count_list_0_iff [of ks pkg]
      by (auto simp: btree_get_def)
  qed
  show ?thesis unfolding Let_def using p c(1,2) count [OF c(3)] count [OF c(4)] by simp
qed

section \<open>The history\<close>

text \<open>What a window does to the history: one more window, its record appended, the oldest dropped.\<close>

definition history :: "model_memory \<Rightarrow> u32 \<times> string list \<times> usize \<times> string option" where
  "history m = (mm_observation_windows m, map rd_window_id (mm_recent m), mm_recent_limit m,
     mm_last_updated_window_id m)"

lemma historyD:
  assumes "history a = history b"
  shows "mm_observation_windows a = mm_observation_windows b"
    "map rd_window_id (mm_recent a) = map rd_window_id (mm_recent b)"
    "mm_recent_limit a = mm_recent_limit b" "mm_last_updated_window_id a = mm_last_updated_window_id b"
  using assms by (simp_all add: history_def)

lemma history_steps [simp]:
  "history (observe_foreground m x) = history m" "history (observe_notified m x) = history m"
  "history (observe_hint m h) = history m" "history (count_record m r) = history m"
  "history (register_pending_prewarm ctx r m) = history m"
  "history (decay_momentum m) = history m" "history (m\<lparr>mm_pending_prewarms := ps\<rparr>) = history m"
  by (simp_all add: history_def observe_foreground_def observe_notified_def observe_hint_def count_record_def
      register_pending_prewarm_def decay_momentum_def Let_def split: action_state.splits option.splits)

lemma history_attribution [simp]: "history (record_prewarm_attribution p c e b m) = history m"
  by (simp add: history_def record_prewarm_attribution_def Let_def comp_def if_distrib cong: if_cong)

lemma history_fold:
  assumes "\<And>s x. history (f s x) = history s"
  shows "history (foldl f s xs) = history s"
  by (induction xs arbitrary: s) (simp_all add: assms)

lemma history_resolve [simp]: "history (resolve_pending_prewarms fg m) = history m"
proof -
  have "history (fst (foldl (resolve_one fg) st ps)) = history (fst st)" for st ps
    by (rule foldl_keeps [where P = "\<lambda>s. history (fst s) = history (fst st)"])
       (auto simp: resolve_one_def split_beta Let_def)
  then show ?thesis by (simp add: resolve_pending_prewarms_def split_beta)
qed

lemma keep_last_map: "map f (keep_last n xs) = keep_last n (map f xs)"
  by (simp add: keep_last_def drop_map)

lemma keep_last_snoc: "keep_last n (keep_last n xs @ [x]) = keep_last n (xs @ [x])"
  by (cases "length xs \<le> n") (auto simp: keep_last_def Suc_diff_le)

lemma observe_window_history:
  "history (observe_window ctx d rs m) =
     (sat_add (mm_observation_windows m) 1,
      keep_last (mm_recent_limit m) (map rd_window_id (mm_recent m) @ [ctx_window_id ctx]),
      mm_recent_limit m, Some (ctx_window_id ctx))"
proof -
  let ?m0 = "decay_momentum (resolve_pending_prewarms (cs_foreground_apps (ctx_summary ctx)) m)"
  let ?m1 = "?m0\<lparr>mm_observation_windows := sat_add (mm_observation_windows ?m0) 1,
                mm_last_updated_window_id := Some (ctx_window_id ctx)\<rparr>"
  let ?m2 = "foldl count_record (foldl observe_hint (foldl observe_notified (foldl observe_foreground ?m1
      (cs_foreground_apps (ctx_summary ctx))) (cs_notified_apps (ctx_summary ctx)))
      (cs_all_semantic_hints (ctx_summary ctx))) rs"
  have 0: "history ?m0 = history m" by simp
  have 2: "history ?m2 = history ?m1" by (simp add: history_fold)
  have "history (observe_window ctx d rs m) =
      history (?m2\<lparr>mm_recent := keep_last (mm_recent_limit ?m2) (mm_recent ?m2 @ [decision_feedback ctx d rs])\<rparr>)"
    by (simp add: observe_window_def Let_def history_fold [of "\<lambda>m r. register_pending_prewarm ctx r m"])
  also have "\<dots> = (mm_observation_windows ?m2,
      keep_last (mm_recent_limit ?m2) (map rd_window_id (mm_recent ?m2) @ [ctx_window_id ctx]),
      mm_recent_limit ?m2, mm_last_updated_window_id ?m2)"
    by (subst history_def) (simp add: keep_last_map decision_feedback_def)
  finally show ?thesis
    by (simp only: historyD [OF 2]) (simp add: historyD [OF 0])
qed

section \<open>What the counters count\<close>

definition same_foreground :: "model_memory \<Rightarrow> model_memory \<Rightarrow> bool" where
  "same_foreground m m' \<longleftrightarrow> mm_foreground_counts m' = mm_foreground_counts m"

lemma same_foreground_fold:
  assumes "\<And>s x. same_foreground s (f s x)"
  shows "same_foreground s (foldl f s xs)"
  by (rule foldl_keeps [where P = "same_foreground s"]) (use assms in \<open>auto simp: same_foreground_def\<close>)

lemma same_foreground_steps:
  "same_foreground m (observe_notified m x)" "same_foreground m (observe_hint m h)"
  "same_foreground m (count_record m r)" "same_foreground m (register_pending_prewarm ctx r m)"
  "same_foreground m (record_prewarm_attribution p c e b m)"
  by (simp_all add: same_foreground_def observe_notified_def observe_hint_def count_record_def Let_def
      register_pending_prewarm_def record_prewarm_attribution_def split: action_state.splits option.splits)

lemma resolve_foreground: "mm_foreground_counts (resolve_pending_prewarms fg m) = mm_foreground_counts m"
proof -
  have "mm_foreground_counts (fst (foldl (resolve_one fg) st ps)) = mm_foreground_counts (fst st)" for st ps
    by (rule foldl_keeps [where P = "\<lambda>s. mm_foreground_counts (fst s) = mm_foreground_counts (fst st)"])
       (use same_foreground_steps(5) in \<open>auto simp: resolve_one_def split_beta Let_def same_foreground_def\<close>)
  then show ?thesis by (simp add: resolve_pending_prewarms_def split_beta)
qed

lemma observe_foreground_fold:
  "mm_foreground_counts (foldl observe_foreground m ps) = foldl (\<lambda>c p. increment p c) (mm_foreground_counts m) ps"
  by (induction ps arbitrary: m) (simp_all add: observe_foreground_def)

lemma observe_window_foreground:
  "mm_foreground_counts (observe_window ctx d rs m) =
     foldl (\<lambda>c p. increment p c) (mm_foreground_counts m) (cs_foreground_apps (ctx_summary ctx))"
  using same_foreground_fold [of "\<lambda>m r. register_pending_prewarm ctx r m", OF same_foreground_steps(4)]
    same_foreground_fold [of observe_notified, OF same_foreground_steps(1)]
    same_foreground_fold [of observe_hint, OF same_foreground_steps(2)]
    same_foreground_fold [of count_record, OF same_foreground_steps(3)]
  by (simp add: observe_window_def Let_def same_foreground_def observe_foreground_fold decay_momentum_def
      resolve_foreground)

lemma observe_all_foreground:
  "mm_foreground_counts (observe_all os m) = foldl (\<lambda>c p. increment p c) (mm_foreground_counts m)
     (concat (map (\<lambda>o1. cs_foreground_apps (ctx_summary (obs_context o1))) os))"
  by (induction os rule: rev_induct) (simp_all add: observe_all_snoc observe_window_foreground, simp add: observe_all_def)

lemma funpow_inc: "((\<lambda>n. n + 1) ^^ k) (0 :: u32) = of_nat k"
  by (induction k) simp_all

text \<open>The foreground counters count windows. After any sequence of windows a fresh memory holds, for
  every package, exactly the number of its foreground mentions in those windows (modulo
  \<open>2 ^ 32\<close>), and nothing for a package never seen in the foreground.\<close>

theorem foreground_counts_exact:
  "btree_get (mm_foreground_counts (observe_all os (memory_with_config c))) p =
     (let ps = concat (map (\<lambda>o1. cs_foreground_apps (ctx_summary (obs_context o1))) os)
      in if p \<in> set ps then Some (of_nat (count_list ps p)) else None)"
  using bt.fold_lookup [OF bt.emp_invar, of 0 "\<lambda>n. n + 1 :: u32"
      "concat (map (\<lambda>o1. cs_foreground_apps (ctx_summary (obs_context o1))) os)" p]
  by (simp add: observe_all_foreground increment_def memory_with_config_def bt.emp_lookup funpow_inc Let_def)

section \<open>Ranking\<close>

lemma count_le_total: "count_le a b \<or> count_le b a"
  by (auto simp: count_le_def)

lemma count_le_trans: "count_le a b \<Longrightarrow> count_le b c \<Longrightarrow> count_le a c"
  by (auto simp: count_le_def)

lemma sorted_split:
  assumes "sorted_wrt le xs" "x \<in> set (take n xs)" "y \<in> set (drop n xs)"
  shows "le x y"
  using assms by (metis append_take_drop_id sorted_wrt_append)

text \<open>C33: \<open>top_counts\<close> ranks. It lists \<open>min limit size\<close> entries of the map, each at most once, in descending
  order of count with ties in ascending key order, and every entry it leaves out ranks after
  every entry it lists.\<close>

theorem top_counts_rank:
  assumes "btree_invar m"
  shows "length (top_counts m limit) = min limit (length m)
     \<and> set (top_counts m limit) \<subseteq> set m \<and> distinct (map fst (top_counts m limit))
     \<and> sorted_wrt count_le (top_counts m limit)
     \<and> (\<forall>x \<in> set (top_counts m limit). \<forall>y \<in> set m - set (top_counts m limit).
          snd y < snd x \<or> (snd y = snd x \<and> fst x < fst y))"
proof (intro conjI)
  have sorted: "sorted_wrt count_le (sort_by count_le m)"
    by (rule sorted_sort_by) (use count_le_total count_le_trans in blast)+
  then show "sorted_wrt count_le (top_counts m limit)"
    unfolding top_counts_def by (metis append_take_drop_id sorted_wrt_append)
  show "length (top_counts m limit) = min limit (length m)" by (simp add: top_counts_def min.commute)
  show "set (top_counts m limit) \<subseteq> set m" unfolding top_counts_def by (metis set_sort_by set_take_subset)
  have "distinct (map fst (sort_by count_le m))"
    using btree_invar_distinct [OF assms] by (metis mset_eq_imp_distinct_iff mset_map mset_sort_by)
  then show "distinct (map fst (top_counts m limit))"
    unfolding top_counts_def by (simp add: take_map [symmetric])
  show "\<forall>x \<in> set (top_counts m limit). \<forall>y \<in> set m - set (top_counts m limit).
      snd y < snd x \<or> (snd y = snd x \<and> fst x < fst y)"
  proof (intro ballI)
    fix x y assume x: "x \<in> set (top_counts m limit)" and y: "y \<in> set m - set (top_counts m limit)"
    then have "y \<in> set (drop limit (sort_by count_le m))"
      unfolding top_counts_def by (metis Diff_iff Un_iff append_take_drop_id set_append set_sort_by)
    with sorted x have "count_le x y" unfolding top_counts_def by (rule sorted_split)
    moreover have "fst x \<noteq> fst y"
    proof
      assume "fst x = fst y"
      moreover have "x \<in> set m" "y \<in> set m" using x y \<open>set (top_counts m limit) \<subseteq> set m\<close> by auto
      moreover have "inj_on fst (set m)" using btree_invar_distinct [OF assms] by (simp add: distinct_map)
      ultimately have "x = y" by (simp add: inj_on_eq_iff)
      with x y show False by simp
    qed
    ultimately show "snd y < snd x \<or> (snd y = snd x \<and> fst x < fst y)" by (auto simp: count_le_def)
  qed
qed

section \<open>Concrete inputs\<close>

definition demo_memory :: model_memory where
  "demo_memory = memory_with_config default_memory_config"

definition demo_decision :: decision_backend_result where
  "demo_decision = \<lparr>dr_route = LocalEvaluator, dr_intent_batch = demo_batch [], dr_rationale_tags = [],
     dr_latency_us = 0, dr_error = None\<rparr>"

definition demo_prewarm_record :: audit_record where
  "demo_prewarm_record = \<lparr>ar_coord = \<lparr>co_window_ordinal = 0, co_intent_ordinal = 0, co_action_ordinal = 0\<rparr>,
     ar_intent_id = ''i'', ar_action_type = PreWarmProcess, ar_target = Some ''pkg:com.bank'',
     ar_effect = LocalStateChange, ar_route = LocalEvaluator, ar_backend_error = None,
     ar_transitions = [Proposed, SchemaValidated, PolicyChecked, Dispatched, Succeeded],
     ar_terminal = Succeeded, ar_outcome = None, ar_denial_reason = None, ar_error = None,
     ar_source_tier = Daemon\<rparr>"

lemma demo_memory_ok: "memory_ok demo_memory"
proof -
  have "memory_ok demo_memory" unfolding demo_memory_def memory_ok_defs memory_with_config_def
    by (simp add: default_memory_config_def clamp_def btree_empty momenta_ok_def)
  then show ?thesis .
qed

theorem memory_invariant_witness:
  "length (mm_recent (observe_window demo_context demo_decision [] demo_memory)) \<le> 50"
  using memory_invariant [OF demo_memory_ok, of default_memory_config demo_context demo_decision "[]" "''s''"]
  by (simp add: memory_ok_defs)

definition demo_pending :: pending_prewarm where
  "demo_pending = \<lparr>pp_window_id = ''w0'', pp_target = ''pkg:com.bank'', pp_package = ''com.bank'', pp_windows_observed = 0\<rparr>"

theorem pending_prewarm_bounded_witness:
  "pending_since [(demo_context, demo_decision, [demo_prewarm_record])] 3 demo_pending"
proof -
  have 1: "mm_pending_prewarms demo_memory = []" by (simp add: demo_memory_def memory_with_config_def)
  have "normalize_prewarm_package ''pkg:com.bank'' = Some ''com.bank''"
    by (simp add: normalize_prewarm_package_def strip_prefix_def trim_def utf8_width_def utf8_decode_def
        is_whitespace_def Let_def)
  then have 2: "demo_pending \<in> set (mm_pending_prewarms (observe_all [(demo_context, demo_decision, [demo_prewarm_record])] demo_memory))"
    by (simp add: observe_all_def observe_window_def Let_def resolve_pending_prewarms_def decay_momentum_def
        demo_memory_def memory_with_config_def default_memory_config_def demo_context_def demo_summary_def
        observe_foreground_def count_record_def demo_prewarm_record_def register_pending_prewarm_def
        demo_pending_def)
  have "mm_prewarm_effect_windows demo_memory = 3"
    by (simp add: demo_memory_def memory_with_config_def default_memory_config_def clamp_def)
  with pending_prewarm_bounded [OF 1 2] show ?thesis by simp
qed

theorem top_counts_rank_witness:
  "length (top_counts [(''a'', 2), (''b'', 5), (''c'', 2)] 2) = 2"
  using top_counts_rank [of "[(''a'', 2), (''b'', 5), (''c'', 2)]" 2]
  by (simp add: btree_invar_def less_list_code less_char_def)

end
