(* ===== verification/Trace_Engine.thy ===== *)
theory Trace_Engine
  imports Privacy_Airgap
begin

text \<open>
  \<open>aios-core/src/trace_engine.rs\<close>: the semantic comparison of a replay with a golden trace. The
  sanitizer is an argument, called once per raw event (\<open>san k\<close> is the \<open>k\<close>-th call). A divergence is
  a datatype with the values its message shows; \<open>render\<close> prints it (\<open>\{:?\}\<close> and float formatting).

  The lemmas: each layer's divergence list is empty exactly when the layer agrees, so
  \<open>all_match\<close> decides semantic equality, and a recorded run always replays.
\<close>

section \<open>Divergences\<close>

datatype intent_difference =
    DiffIntentType intent_type intent_type
  | DiffRiskLevel risk_level risk_level
  | DiffConfidence f32 f32
  | DiffRationaleTags "string list" "string list"
  | DiffActionCount usize usize
  | DiffAction usize suggested_action suggested_action

datatype policy_divergence =
    DivModel string string
  | DivIntentCount usize usize
  | DivIntent usize intent_difference

definition f32_epsilon :: f32 where
  "f32_epsilon = FFin (1 / 2 ^ 23)"

definition sanitized_eq :: "sanitized_event \<Rightarrow> sanitized_event \<Rightarrow> bool" where
  "sanitized_eq a b \<longleftrightarrow> se_event_type a = se_event_type b \<and> se_source_tier a = se_source_tier b
     \<and> se_app_package a = se_app_package b \<and> se_uid a = se_uid b"

definition suggested_eq :: "suggested_action \<Rightarrow> suggested_action \<Rightarrow> bool" where
  "suggested_eq a b \<longleftrightarrow> sa_action_type a = sa_action_type b \<and> sa_target a = sa_target b
     \<and> sa_urgency a = sa_urgency b"

definition executed_eq :: "executed_action \<Rightarrow> executed_action \<Rightarrow> bool" where
  "executed_eq a b \<longleftrightarrow> ea_action_type a = ea_action_type b \<and> ea_target a = ea_target b
     \<and> ea_success a = ea_success b \<and> ea_error_reason a = ea_error_reason b"

text \<open>The loop over the zipped actions returns at the first that differs.\<close>

fun first_action_diff :: "usize \<Rightarrow> suggested_action list \<Rightarrow> suggested_action list \<Rightarrow> intent_difference option" where
  "first_action_diff j (e # es) (a # as) =
     (if \<not> suggested_eq e a then Some (DiffAction j e a) else first_action_diff (Suc j) es as)"
| "first_action_diff j _ _ = None"

definition intent_diff :: "intent \<Rightarrow> intent \<Rightarrow> intent_difference option" where
  "intent_diff e a =
     (if in_intent_type e \<noteq> in_intent_type a then Some (DiffIntentType (in_intent_type e) (in_intent_type a))
      else if in_risk_level e \<noteq> in_risk_level a then Some (DiffRiskLevel (in_risk_level e) (in_risk_level a))
      else if fp_lt f32_epsilon (fp_abs (fp_sub fmt32 (in_confidence e) (in_confidence a)))
      then Some (DiffConfidence (in_confidence e) (in_confidence a))
      else if in_rationale_tags e \<noteq> in_rationale_tags a
      then Some (DiffRationaleTags (in_rationale_tags e) (in_rationale_tags a))
      else if length (in_suggested_actions e) \<noteq> length (in_suggested_actions a)
      then Some (DiffActionCount (length (in_suggested_actions e)) (length (in_suggested_actions a)))
      else first_action_diff 0 (in_suggested_actions e) (in_suggested_actions a))"

fun intents_diff :: "usize \<Rightarrow> intent list \<Rightarrow> intent list \<Rightarrow> policy_divergence list" where
  "intents_diff i (e # es) (a # as) =
     (case intent_diff e a of Some d \<Rightarrow> [DivIntent i d] | None \<Rightarrow> []) @ intents_diff (Suc i) es as"
| "intents_diff i _ _ = []"

definition intent_divergences :: "intent_batch \<Rightarrow> intent_batch \<Rightarrow> policy_divergence list" where
  "intent_divergences e a =
     (if ib_model e \<noteq> ib_model a then [DivModel (ib_model e) (ib_model a)] else [])
     @ (if length (ib_intents e) \<noteq> length (ib_intents a)
        then [DivIntentCount (length (ib_intents e)) (length (ib_intents a))] else [])
     @ intents_diff 0 (ib_intents e) (ib_intents a)"

text \<open>Indices where two lists disagree, then the indices only one of them has.\<close>

definition index_divergences :: "('a \<Rightarrow> 'a \<Rightarrow> bool) \<Rightarrow> 'a list \<Rightarrow> 'a list \<Rightarrow> usize list" where
  "index_divergences eq xs ys =
     map fst (filter (\<lambda>(i, x, y). \<not> eq x y) (enumerate 0 (zip xs ys)))
     @ [min (length xs) (length ys)..<max (length xs) (length ys)]"

definition execution_divergences :: "executed_action list \<Rightarrow> executed_action list \<Rightarrow> usize list" where
  "execution_divergences expected actual = index_divergences executed_eq expected actual"

text \<open>Tiers past the end of the trace's list default to \<open>PublicApi\<close>.\<close>

definition actual_sanitized :: "(nat \<Rightarrow> raw_event \<Rightarrow> source_tier \<Rightarrow> sanitized_event) \<Rightarrow> golden_trace
    \<Rightarrow> sanitized_event list" where
  "actual_sanitized san g =
     map (\<lambda>(k, r, t). san k r t)
       (enumerate 0 (zip (gt_raw_events g)
          (gt_source_tiers g @ replicate (length (gt_raw_events g)) PublicApi)))"

definition sanitization_divergences :: "(nat \<Rightarrow> raw_event \<Rightarrow> source_tier \<Rightarrow> sanitized_event) \<Rightarrow> golden_trace
    \<Rightarrow> usize list" where
  "sanitization_divergences san g = index_divergences sanitized_eq (actual_sanitized san g) (gt_expected_sanitized g)"

definition validate_sanitization :: "(nat \<Rightarrow> raw_event \<Rightarrow> source_tier \<Rightarrow> sanitized_event) \<Rightarrow> golden_trace
    \<Rightarrow> replay_result" where
  "validate_sanitization san g =
     (let ds = sanitization_divergences san g in
      \<lparr>rr_trace_id = gt_trace_id g, rr_sanitization_match = (ds = []), rr_sanitization_divergences = ds,
       rr_policy_match = False, rr_policy_divergences = [],
       rr_execution_match = False, rr_execution_divergences = []\<rparr>)"

definition validate_trace :: "(policy_divergence \<Rightarrow> string) \<Rightarrow> (nat \<Rightarrow> raw_event \<Rightarrow> source_tier \<Rightarrow> sanitized_event)
    \<Rightarrow> golden_trace \<Rightarrow> intent_batch \<Rightarrow> executed_action list \<Rightarrow> replay_result" where
  "validate_trace render san g intents executed =
     (let ss = sanitization_divergences san g;
          ps = map render (intent_divergences (gt_expected_intents g) intents);
          es = execution_divergences (gt_expected_actions g) executed
      in \<lparr>rr_trace_id = gt_trace_id g, rr_sanitization_match = (ss = []), rr_sanitization_divergences = ss,
          rr_policy_match = (ps = []), rr_policy_divergences = ps,
          rr_execution_match = (es = []), rr_execution_divergences = es\<rparr>)"

section \<open>Semantic equality\<close>

text \<open>Intents that agree up to their ids and the rounding of their confidence.\<close>

definition same_intent :: "intent \<Rightarrow> intent \<Rightarrow> bool" where
  "same_intent e a \<longleftrightarrow> in_intent_type e = in_intent_type a \<and> in_risk_level e = in_risk_level a
     \<and> \<not> fp_lt f32_epsilon (fp_abs (fp_sub fmt32 (in_confidence e) (in_confidence a)))
     \<and> in_rationale_tags e = in_rationale_tags a \<and> in_suggested_actions e = in_suggested_actions a"

definition same_batch :: "intent_batch \<Rightarrow> intent_batch \<Rightarrow> bool" where
  "same_batch e a \<longleftrightarrow> ib_model e = ib_model a \<and> list_all2 same_intent (ib_intents e) (ib_intents a)"

lemma suggested_eq_eq: "suggested_eq a b \<longleftrightarrow> a = b"
  by (auto simp: suggested_eq_def)

lemma first_action_diff_None:
  "length es = length as \<Longrightarrow> first_action_diff j es as = None \<longleftrightarrow> es = as"
  by (induction j es as rule: first_action_diff.induct) (auto simp: suggested_eq_eq)

lemma intent_diff_None: "intent_diff e a = None \<longleftrightarrow> same_intent e a"
  by (auto simp: intent_diff_def same_intent_def first_action_diff_None)

lemma intents_diff_Nil:
  "length es = length as \<Longrightarrow> intents_diff i es as = [] \<longleftrightarrow> list_all2 same_intent es as"
  by (induction i es as rule: intents_diff.induct) (auto simp: intent_diff_None [symmetric] split: option.splits)

lemma intent_divergences_Nil: "intent_divergences e a = [] \<longleftrightarrow> same_batch e a"
  by (auto simp: intent_divergences_def same_batch_def intents_diff_Nil dest: list_all2_lengthD)

lemma index_divergences_Nil: "index_divergences eq xs ys = [] \<longleftrightarrow> list_all2 eq xs ys"
proof -
  have "map fst (filter (\<lambda>(i, x, y). \<not> eq x y) (enumerate n zs)) = [] \<longleftrightarrow> (\<forall>(x, y) \<in> set zs. eq x y)" for n zs
    by (induction zs arbitrary: n) auto
  then show ?thesis by (auto simp: index_divergences_def list_all2_iff)
qed

text \<open>The trace validator decides semantic equality. A replay matches on all three layers exactly when
  every raw event sanitizes to the expected event (ids and times apart), the intents agree in
  model, number, order and content (ids, times and confidence rounding apart), and the executed
  actions agree in number, order and content (times apart). No divergence is missed and none
  is reported for equal runs.\<close>

theorem all_match_iff_semantically_equal:
  "all_match (validate_trace render san g intents executed) \<longleftrightarrow>
     list_all2 sanitized_eq (actual_sanitized san g) (gt_expected_sanitized g)
     \<and> same_batch (gt_expected_intents g) intents
     \<and> list_all2 executed_eq (gt_expected_actions g) executed"
  by (simp add: all_match_def validate_trace_def Let_def sanitization_divergences_def execution_divergences_def
      index_divergences_Nil intent_divergences_Nil)

section \<open>Recording and replaying\<close>

text \<open>What a recorder writes down of a run: the sanitized events under its own ids, the batch and the
  executed actions it saw.\<close>

definition record_trace :: "(string \<Rightarrow> string) \<Rightarrow> (nat \<Rightarrow> string) \<Rightarrow> raw_event list \<Rightarrow> source_tier list
    \<Rightarrow> intent_batch \<Rightarrow> executed_action list \<Rightarrow> golden_trace" where
  "record_trace u ids raws tiers intents executed =
     (let g = \<lparr>gt_trace_id = ''golden'', gt_window_start_ms = 0, gt_window_end_ms = 0, gt_raw_events = raws,
               gt_expected_sanitized = [], gt_expected_intents = intents,
               gt_expected_actions = executed, gt_source_tiers = tiers\<rparr>
      in g\<lparr>gt_expected_sanitized := actual_sanitized (\<lambda>k r t. sanitize_with_tier u (ids k) r t) g\<rparr>)"

lemma sanitized_eq_ids: "sanitized_eq (sanitize_with_tier u i r t) (sanitize_with_tier u j r t)"
  by (cases r) (simp_all add: sanitized_eq_def sanitize_with_tier_def sanitize_defs)

lemma same_intent_renumbered:
  assumes "in_confidence i = FFin c"
  shows "same_intent i (i\<lparr>in_intent_id := x\<rparr>)"
proof -
  have "fp_round 24 (- 149) 0 = 0" by simp
  then show ?thesis
    using assms by (simp add: same_intent_def fp_sub_def fp_of_rat_def fmt32_def f32_epsilon_def Let_def)
qed

lemma executed_eq_refl: "executed_eq a (a\<lparr>ea_executed_at_ms := t\<rparr>)"
  by (simp add: executed_eq_def)

text \<open>A recorded run replays. A golden trace recorded from a run matches, on every layer, any later
  run over the same raw events and tiers that yields the same intents and actions, however
  the fresh ids, the intent ids and the clock differ.\<close>

theorem recorded_run_replays:
  assumes "list_all (\<lambda>i. \<exists>c. in_confidence i = FFin c) (ib_intents intents)"
    and "length iids = length (ib_intents intents)" "length stamps = length executed"
  shows "all_match (validate_trace render (\<lambda>k r t. sanitize_with_tier u (ids' k) r t)
     (record_trace u ids raws tiers intents executed)
     (intents\<lparr>ib_intents := map2 (\<lambda>x i. i\<lparr>in_intent_id := x\<rparr>) iids (ib_intents intents),
              ib_window_id := wid, ib_generated_at_ms := t0\<rparr>)
     (map2 (\<lambda>t a. a\<lparr>ea_executed_at_ms := t\<rparr>) stamps executed))"
proof -
  let ?g = "record_trace u ids raws tiers intents executed"
  have "list_all2 sanitized_eq (actual_sanitized (\<lambda>k r t. sanitize_with_tier u (ids' k) r t) ?g)
      (gt_expected_sanitized ?g)"
    by (auto simp: record_trace_def actual_sanitized_def Let_def list_all2_conv_all_nth sanitized_eq_ids
        nth_enumerate_eq split: prod.splits)
  moreover have "list_all2 same_intent (ib_intents intents) (map2 (\<lambda>x i. i\<lparr>in_intent_id := x\<rparr>) iids (ib_intents intents))"
    using assms
    by (auto simp: list_all2_conv_all_nth list_all_length intro: same_intent_renumbered)
  moreover have "list_all2 executed_eq executed (map2 (\<lambda>t a. a\<lparr>ea_executed_at_ms := t\<rparr>) stamps executed)"
    using assms by (simp add: list_all2_conv_all_nth executed_eq_refl)
  ultimately show ?thesis
    unfolding all_match_iff_semantically_equal
    by (simp add: same_batch_def record_trace_def Let_def)
qed

section \<open>Concrete inputs\<close>

definition demo_trace_batch :: intent_batch where
  "demo_trace_batch = \<lparr>ib_window_id = ''w'', ib_intents = [\<lparr>in_intent_id = ''a'', in_intent_type = Idle,
     in_confidence = FFin (1 / 2), in_risk_level = RiskLow, in_suggested_actions = [], in_rationale_tags = []\<rparr>],
     ib_generated_at_ms = 0, ib_model = ''m''\<rparr>"

theorem recorded_run_replays_witness:
  "all_match (validate_trace (\<lambda>d. []) (\<lambda>k r t. sanitize_with_tier id ''y'' r t)
     (record_trace id (\<lambda>k. ''x'') [RawNotificationPosted demo_notification] [Daemon] demo_trace_batch [])
     (demo_trace_batch\<lparr>ib_intents := map2 (\<lambda>x i. i\<lparr>in_intent_id := x\<rparr>) [''b''] (ib_intents demo_trace_batch),
        ib_window_id := ''w2'', ib_generated_at_ms := 9\<rparr>)
     (map2 (\<lambda>t a. a\<lparr>ea_executed_at_ms := t\<rparr>) [] []))"
proof (rule recorded_run_replays)
  have "in_confidence i = FFin (1 / 2)" if "i \<in> set (ib_intents demo_trace_batch)" for i
    using that by (auto simp: demo_trace_batch_def)
  then show "list_all (\<lambda>i. \<exists>c. in_confidence i = FFin c) (ib_intents demo_trace_batch)"
    unfolding list_all_iff by blast
qed (simp_all add: demo_trace_batch_def)

end
