(* ===== verification/Collection_Stats.thy ===== *)
theory Collection_Stats
  imports Privacy_Airgap
begin

text \<open>
  \<open>aios-collector/src/collection_stats.rs\<close>: per-kind counters of the raw events of a window. They
  read nothing but the kind of an event, so they are blind to what the air-gap hides.
\<close>

datatype raw_event_kind =
    KAppTransition
  | KBinderTransaction
  | KProcStateChange
  | KFileSystemAccess
  | KNotificationPosted
  | KNotificationInteraction
  | KScreenState
  | KSystemState

record raw_event_stats =
  rs_app_transition :: u64
  rs_binder_transaction :: u64
  rs_proc_state_change :: u64
  rs_file_system_access :: u64
  rs_notification_posted :: u64
  rs_notification_interaction :: u64
  rs_screen_state :: u64
  rs_system_state :: u64

definition empty_stats :: raw_event_stats where
  "empty_stats = \<lparr>rs_app_transition = 0, rs_binder_transaction = 0, rs_proc_state_change = 0,
     rs_file_system_access = 0, rs_notification_posted = 0, rs_notification_interaction = 0,
     rs_screen_state = 0, rs_system_state = 0\<rparr>"

definition stats_record :: "raw_event \<Rightarrow> raw_event_stats \<Rightarrow> raw_event_stats" where
  "stats_record e s =
     (case e of
        RawAppTransition _ \<Rightarrow> s\<lparr>rs_app_transition := rs_app_transition s + 1\<rparr>
      | RawBinderTransaction _ \<Rightarrow> s\<lparr>rs_binder_transaction := rs_binder_transaction s + 1\<rparr>
      | RawProcStateChange _ \<Rightarrow> s\<lparr>rs_proc_state_change := rs_proc_state_change s + 1\<rparr>
      | RawFileSystemAccess _ \<Rightarrow> s\<lparr>rs_file_system_access := rs_file_system_access s + 1\<rparr>
      | RawNotificationPosted _ \<Rightarrow> s\<lparr>rs_notification_posted := rs_notification_posted s + 1\<rparr>
      | RawNotificationInteraction _ \<Rightarrow> s\<lparr>rs_notification_interaction := rs_notification_interaction s + 1\<rparr>
      | RawScreenState _ \<Rightarrow> s\<lparr>rs_screen_state := rs_screen_state s + 1\<rparr>
      | RawSystemState _ \<Rightarrow> s\<lparr>rs_system_state := rs_system_state s + 1\<rparr>)"

fun stats_count :: "raw_event_kind \<Rightarrow> raw_event_stats \<Rightarrow> u64" where
  "stats_count KAppTransition s = rs_app_transition s"
| "stats_count KBinderTransaction s = rs_binder_transaction s"
| "stats_count KProcStateChange s = rs_proc_state_change s"
| "stats_count KFileSystemAccess s = rs_file_system_access s"
| "stats_count KNotificationPosted s = rs_notification_posted s"
| "stats_count KNotificationInteraction s = rs_notification_interaction s"
| "stats_count KScreenState s = rs_screen_state s"
| "stats_count KSystemState s = rs_system_state s"

definition summary_fields :: "raw_event_stats \<Rightarrow> (string \<times> u64) list" where
  "summary_fields s =
     [(''app_transition'', rs_app_transition s),
      (''binder_transaction'', rs_binder_transaction s),
      (''proc_state_change'', rs_proc_state_change s),
      (''file_system_access'', rs_file_system_access s),
      (''notification_posted'', rs_notification_posted s),
      (''notification_interaction'', rs_notification_interaction s),
      (''screen_state'', rs_screen_state s),
      (''system_state'', rs_system_state s)]"

definition stats_total :: "raw_event_stats \<Rightarrow> u64" where
  "stats_total s = sum_list (map snd (summary_fields s))"

definition summary_line :: "raw_event_stats \<Rightarrow> string" where
  "summary_line s =
     (let parts = map (\<lambda>(k, n). k @ ''='' @ show_nat (unat n)) (filter (\<lambda>(k, n). 0 < n) (summary_fields s))
      in if parts = [] then ''none'' else join_str '' '' parts)"

section \<open>What the counters count\<close>

fun kind_of :: "raw_event \<Rightarrow> raw_event_kind" where
  "kind_of (RawAppTransition _) = KAppTransition"
| "kind_of (RawBinderTransaction _) = KBinderTransaction"
| "kind_of (RawProcStateChange _) = KProcStateChange"
| "kind_of (RawFileSystemAccess _) = KFileSystemAccess"
| "kind_of (RawNotificationPosted _) = KNotificationPosted"
| "kind_of (RawNotificationInteraction _) = KNotificationInteraction"
| "kind_of (RawScreenState _) = KScreenState"
| "kind_of (RawSystemState _) = KSystemState"

lemma stats_count_record:
  "stats_count k (stats_record e s) = stats_count k s + (if kind_of e = k then 1 else 0)"
  by (cases e; cases k) (simp_all add: stats_record_def)

lemma stats_count_empty [simp]: "stats_count k empty_stats = 0"
  by (cases k) (simp_all add: empty_stats_def)

lemma stats_total_empty [simp]: "stats_total empty_stats = 0"
  by (simp add: stats_total_def summary_fields_def empty_stats_def)

lemma stats_total_record: "stats_total (stats_record e s) = stats_total s + 1"
  by (cases e) (simp_all add: stats_record_def stats_total_def summary_fields_def)

lemma stats_record_kind: "kind_of e = kind_of e' \<Longrightarrow> stats_record e s = stats_record e' s"
  by (cases e; cases e') (simp_all add: stats_record_def)

lemma secret_variant_kind: "secret_variant u r r' \<Longrightarrow> kind_of r = kind_of r'"
  by (induction rule: secret_variant.induct) simp_all

text \<open>The counters are exact. After any sequence of raw events each counter is the number of
  events of its kind (modulo \<open>2 ^ 64\<close>), and the total is the number of events.\<close>

theorem stats_exact:
  "stats_count k (fold stats_record es empty_stats) = of_nat (length (filter (\<lambda>e. kind_of e = k) es))
   \<and> stats_total (fold stats_record es empty_stats) = of_nat (length es)"
proof -
  have "stats_count k (fold stats_record es s) = stats_count k s + of_nat (length (filter (\<lambda>e. kind_of e = k) es))
     \<and> stats_total (fold stats_record es s) = stats_total s + of_nat (length es)" for s
    by (induction es arbitrary: s) (simp_all add: stats_count_record stats_total_record)
  then show ?thesis by simp
qed

end
