(* ===== verification/Decision_Backend.thy ===== *)
theory Decision_Backend
  imports Action_Lifecycle
begin

text \<open>
  The \<open>DecisionBackend\<close> trait (\<open>aios-agent/src/lib.rs\<close>) as an interface. A backend threads the
  state \<open>'w\<close> it draws fresh ids, time and remote answers from. \<open>decision_backend\<close> promises that
  the batch is stamped with the window it was asked about; \<open>confined_backend\<close> adds that every
  proposal stays within the capability of the backend's route, and proves once that the
  lifecycle then never denies such a backend for lack of capability.
\<close>

type_synonym 'w backend = "'w \<Rightarrow> model_input \<Rightarrow> 'w \<times> decision_backend_result"

text \<open>Proposals within a capability: risk and action types.\<close>

definition within_capability :: "capability_level \<Rightarrow> intent_batch \<Rightarrow> bool" where
  "within_capability cap b \<longleftrightarrow> (\<forall>i \<in> set (ib_intents b). allows_risk cap (in_risk_level i)
     \<and> (\<forall>a \<in> set (in_suggested_actions i). allows_action cap (sa_action_type a)))"

definition stamped :: "model_input \<Rightarrow> intent_batch \<Rightarrow> bool" where
  "stamped mi b \<longleftrightarrow> ib_window_id b = ctx_window_id (mi_current_context mi)
     \<and> ib_generated_at_ms b = ctx_window_end_ms (mi_current_context mi)"

lemma capability_verdicts:
  assumes "within_capability cap b" "d \<in> set (evaluate_batch_with_context cfg b cap ctx)"
  shows "pd_verdict d \<noteq> Denied RiskExceedsCapability \<and> pd_verdict d \<noteq> Denied ActionCapabilityDenied"
proof -
  from assms(2) obtain io i jo a where p: "(io, i, jo, a) \<in> set (positions b)"
    and v: "pd_verdict d = spec_verdict cfg cap (Some (known_from_context ctx)) i jo"
    by (auto simp: batch_decisions_mem)
  from p assms(1) have "allows_risk cap (in_risk_level i)" "allows_action cap (sa_action_type a)"
    and a: "a = in_suggested_actions i ! jo"
    by (auto simp: positions_mem within_capability_def dest!: bspec [OF _ nth_mem])
  then show ?thesis
    unfolding v spec_verdict_def
    by (cases "sa_action_type a"; cases "sa_target a")
       (auto simp: intent_denial_def single_denial_def split: option.splits)
qed

lemma process_action_not_capability:
  assumes "ds (co_intent_ordinal (ap_coord p), co_action_ordinal (ap_coord p)) = Some d"
    and "pd_verdict d \<noteq> Denied RiskExceedsCapability \<and> pd_verdict d \<noteq> Denied ActionCapabilityDenied"
  shows "ar_terminal (snd (process_action ex ds route be tier risk t s p)) \<noteq> DeniedByCapability"
  using assms(1)
proof (cases rule: process_action_split [where risk = risk])
  case (denied r)
  with assms show ?thesis by (cases r) (auto simp: process_action_simps record_build_defs)
qed (use assms in \<open>auto simp: process_action_simps record_build_defs split: sum.splits\<close>)

locale decision_backend =
  fixes evaluate :: "'w backend"
    and route :: decision_route
  assumes stamp: "stamped mi (dr_intent_batch (snd (evaluate w mi)))"
    and routed: "dr_route (snd (evaluate w mi)) = route"

locale confined_backend = decision_backend +
  assumes confined: "within_capability (for_route route) (dr_intent_batch (snd (evaluate w mi)))"
begin

lemma never_capability_denied:
  assumes "r \<in> set (snd (run_lifecycle ex cfg n (dr_intent_batch (snd (evaluate w mi))) rt be
      (for_route (dr_route (snd (evaluate w mi)))) ctx s))"
  shows "ar_terminal r \<noteq> DeniedByCapability"
  using assms unfolding routed
proof (elim run_record_cases)
  fix s' x d
  assume r: "r = snd (process_action ex (batch_decisions cfg (dr_intent_batch (snd (evaluate w mi))) (for_route route) ctx)
      rt be (cs_source_tier (ctx_summary ctx)) (in_risk_level (fst (snd x)))
      (ib_generated_at_ms (dr_intent_batch (snd (evaluate w mi)))) s'
      (position_proposal n (ib_generated_at_ms (dr_intent_batch (snd (evaluate w mi)))) x))"
    and d: "batch_decisions cfg (dr_intent_batch (snd (evaluate w mi))) (for_route route) ctx
      (co_intent_ordinal (ap_coord (position_proposal n (ib_generated_at_ms (dr_intent_batch (snd (evaluate w mi)))) x)),
       co_action_ordinal (ap_coord (position_proposal n (ib_generated_at_ms (dr_intent_batch (snd (evaluate w mi)))) x)))
      = Some d"
  from decisions_by_coord_SomeD [OF d]
  have "d \<in> set (evaluate_batch_with_context cfg (dr_intent_batch (snd (evaluate w mi))) (for_route route) ctx)" ..
  from capability_verdicts [OF confined this] show ?thesis
    unfolding r by (intro process_action_not_capability [where d = d] d)
qed

end

end
