(* ===== verification/Rule_Based.thy ===== *)
theory Rule_Based
  imports Decision_Backend Context_Builder
begin

text \<open>
  \<open>aios-agent/src/backends/rule_based.rs\<close> and \<open>fallback.rs\<close>: the two backends that need
  neither memory nor network. The scan of the window's events is \<open>scan_event\<close>; the intents are
  numbered by the ids drawn from \<open>Uuid::new_v4\<close> in creation order. The state the backends
  thread is \<open>backend_world\<close>: a supply of fresh ids and of measured latencies.

  Both interpret \<open>confined_backend\<close>. The end-to-end property: over a window whose summary the
  context builder made, the default policy approves everything the rules propose.
\<close>

section \<open>Fresh ids and latencies\<close>

record backend_world =
  bw_ids :: "nat \<Rightarrow> string"
  bw_next_id :: nat
  bw_latency_us :: "nat \<Rightarrow> u64"
  bw_calls :: nat

text \<open>Intents draw their ids in creation order.\<close>

definition number_intents :: "backend_world \<Rightarrow> intent list \<Rightarrow> intent list" where
  "number_intents w is = map (\<lambda>(k, i). i\<lparr>in_intent_id := bw_ids w (bw_next_id w + k)\<rparr>) (enumerate 0 is)"

definition draw :: "nat \<Rightarrow> backend_world \<Rightarrow> backend_world" where
  "draw n w = w\<lparr>bw_next_id := bw_next_id w + n, bw_calls := Suc (bw_calls w)\<rparr>"

section \<open>Rule-based backend (rule_based.rs)\<close>

definition MEMORY_PRESSURE_RSS_MB :: u32 where
  "MEMORY_PRESSURE_RSS_MB = 1024"

definition MEMORY_PRESSURE_SWAP_MB :: u32 where
  "MEMORY_PRESSURE_SWAP_MB = 128"

record rule_scan =
  rs_has_file_mention :: bool
  rs_foreground_apps :: "string list"
  rs_has_screen_on :: bool
  rs_is_low_battery :: bool
  rs_memory_pressure :: "(u32 \<times> string option) option"

definition empty_scan :: rule_scan where
  "empty_scan = \<lparr>rs_has_file_mention = False, rs_foreground_apps = [], rs_has_screen_on = False,
     rs_is_low_battery = False, rs_memory_pressure = None\<rparr>"

fun scan_event :: "sanitized_event_type \<Rightarrow> rule_scan \<Rightarrow> rule_scan" where
  "scan_event (SeNotification p c ch th xh hs og g) s =
     (if FileMention \<in> set hs then s\<lparr>rs_has_file_mention := True\<rparr> else s)"
| "scan_event (SeAppTransition p a Foreground) s =
     (if p \<notin> set (rs_foreground_apps s)
      then s\<lparr>rs_foreground_apps := rs_foreground_apps s @ [p]\<rparr> else s)"
| "scan_event (SeScreen st) s =
     (if st = Interactive then s\<lparr>rs_has_screen_on := True\<rparr> else s)"
| "scan_event (SeSystemStatus (Some pct) c n r l h) s =
     (if pct < 20 then s\<lparr>rs_is_low_battery := True\<rparr> else s)"
| "scan_event (SeProcessResource pid p rss swap th oom) s =
     (if MEMORY_PRESSURE_RSS_MB \<le> rss \<or> MEMORY_PRESSURE_SWAP_MB \<le> swap
      then if (case rs_memory_pressure s of None \<Rightarrow> True | Some (worst, _) \<Rightarrow> worst < rss)
           then s\<lparr>rs_memory_pressure := Some (rss, p)\<rparr> else s
      else s)"
| "scan_event _ s = s"

definition scan_events :: "sanitized_event list \<Rightarrow> rule_scan" where
  "scan_events es = foldl (\<lambda>s e. scan_event (se_event_type e) s) empty_scan es"

definition rule_intent :: "intent_type \<Rightarrow> f32 \<Rightarrow> action_type \<Rightarrow> string option \<Rightarrow> action_urgency \<Rightarrow> string \<Rightarrow> intent" where
  "rule_intent t c a target u tag =
     \<lparr>in_intent_id = [], in_intent_type = t, in_confidence = c, in_risk_level = RiskLow,
      in_suggested_actions = [\<lparr>sa_action_type = a, sa_target = target, sa_urgency = u\<rparr>],
      in_rationale_tags = [tag]\<rparr>"

definition signal_intents :: "string list \<Rightarrow> rule_scan \<Rightarrow> intent list" where
  "signal_intents notified s =
     (let from_app = (case notified of [] \<Rightarrow> [] | p # _ \<Rightarrow> p) in
            (if rs_has_file_mention s
             then [rule_intent (OpenApp from_app) (f32_lit (70 / 100)) KeepAlive (Some from_app) Immediate
                     ''file_received'']
             else [])
          @ (if \<not> rs_has_file_mention s
             then (case notified of [] \<Rightarrow> []
                   | app # _ \<Rightarrow> [rule_intent (OpenApp app) (f32_lit (55 / 100)) KeepAlive (Some app) IdleTime
                                   ''notification_engagement''])
             else [])
          @ (case rs_foreground_apps s of [] \<Rightarrow> []
             | target # _ \<Rightarrow> [rule_intent (SwitchToApp target) (f32_lit (80 / 100)) KeepAlive (Some target)
                                Immediate ''app_foreground_observed''])
          @ (if rs_has_screen_on s
             then [rule_intent Idle (f32_lit (60 / 100)) KeepAlive (Some ''work:collector_heartbeat'') IdleTime
                     ''screen_on'']
             else [])
          @ (if rs_is_low_battery s
             then [rule_intent Idle (f32_lit (80 / 100)) ReleaseMemory (Some ''cache:prefetch'') Immediate
                     ''low_battery'']
             else [])
          @ (case rs_memory_pressure s of None \<Rightarrow> []
             | Some (_, target) \<Rightarrow> [rule_intent Idle (f32_lit (65 / 100)) ReleaseMemory target Immediate
                                      ''memory_pressure'']))"

definition generate_intents :: "structured_context \<Rightarrow> intent list" where
  "generate_intents ctx =
     (let intents = signal_intents (cs_notified_apps (ctx_summary ctx)) (scan_events (ctx_events ctx))
      in if intents = []
         then [rule_intent Idle (f32_lit (50 / 100)) NoOp None IdleTime ''idle_window'']
         else intents)"

definition rule_based_evaluate :: "backend_world backend" where
  "rule_based_evaluate w mi =
     (let ctx = mi_current_context mi; intents = generate_intents ctx in
      (draw (length intents) w,
       \<lparr>dr_route = RuleBased,
        dr_intent_batch =
          \<lparr>ib_window_id = ctx_window_id ctx, ib_intents = number_intents w intents,
           ib_generated_at_ms = ctx_window_end_ms ctx, ib_model = ''rule-based-v0.3''\<rparr>,
        dr_rationale_tags = concat (map in_rationale_tags (number_intents w intents)),
        dr_latency_us = bw_latency_us w (bw_calls w), dr_error = None\<rparr>))"

section \<open>Fallback backend (fallback.rs)\<close>

definition fallback_error :: string where
  "fallback_error = ''circuit breaker engaged '' @ [CHR 0xE2, CHR 0x80, CHR 0x94] @ '' falling back to no-op''"

definition fallback_intent :: intent where
  "fallback_intent = rule_intent Idle (f32_lit 1) NoOp None IdleTime ''fallback_noop''"

definition fallback_evaluate :: "backend_world backend" where
  "fallback_evaluate w mi =
     (let ctx = mi_current_context mi in
      (draw 1 w,
       \<lparr>dr_route = FallbackNoOp,
        dr_intent_batch =
          \<lparr>ib_window_id = ctx_window_id ctx, ib_intents = number_intents w [fallback_intent],
           ib_generated_at_ms = ctx_window_end_ms ctx, ib_model = ''fallback-noop-v0.1''\<rparr>,
        dr_rationale_tags = [''fallback_noop''],
        dr_latency_us = bw_latency_us w (bw_calls w), dr_error = Some fallback_error\<rparr>))"

section \<open>Interface\<close>

lemma number_intents_nth:
  "map (\<lambda>i. i\<lparr>in_intent_id := x\<rparr>) (number_intents w is) = map (\<lambda>i. i\<lparr>in_intent_id := x\<rparr>) is"
  by (rule nth_equalityI) (auto simp: number_intents_def nth_enumerate_eq)

lemma number_intents_mem:
  "i \<in> set (number_intents w is) \<Longrightarrow> \<exists>j \<in> set is. \<exists>x. i = j\<lparr>in_intent_id := x\<rparr>"
  by (auto simp: number_intents_def enum_simps set_enumerate_image intro!: bexI)

lemma length_number_intents [simp]: "length (number_intents w is) = length is"
  by (simp add: number_intents_def)

lemma within_capability_numbered:
  assumes "\<And>j a. j \<in> set js \<Longrightarrow> allows_risk cap (in_risk_level j)
      \<and> (a \<in> set (in_suggested_actions j) \<longrightarrow> allows_action cap (sa_action_type a))"
    and "ib_intents b = number_intents w js"
  shows "within_capability cap b"
  using assms by (fastforce simp: within_capability_def dest: number_intents_mem)

text \<open>Membership in the lists the rules append.\<close>

lemma set_when: "x \<in> set (if b then [y] else []) \<longleftrightarrow> b \<and> x = y"
  by auto

lemma set_when_first: "x \<in> set (case xs of [] \<Rightarrow> [] | a # as \<Rightarrow> [f a]) \<longleftrightarrow> (\<exists>a as. xs = a # as \<and> x = f a)"
  by (cases xs) auto

lemma set_when_some:
  "x \<in> set (case o1 of None \<Rightarrow> [] | Some (a, b) \<Rightarrow> [f b]) \<longleftrightarrow> (\<exists>a b. o1 = Some (a, b) \<and> x = f b)"
  by (cases o1) auto

lemma signal_intents_mem:
  "i \<in> set (signal_intents notified s) \<longleftrightarrow>
     (let from_app = (case notified of [] \<Rightarrow> [] | p # _ \<Rightarrow> p) in
      (rs_has_file_mention s \<and> i = rule_intent (OpenApp from_app) (f32_lit (70 / 100)) KeepAlive (Some from_app)
          Immediate ''file_received'')
      \<or> (\<not> rs_has_file_mention s \<and> (\<exists>app rest. notified = app # rest
          \<and> i = rule_intent (OpenApp app) (f32_lit (55 / 100)) KeepAlive (Some app) IdleTime ''notification_engagement''))
      \<or> (\<exists>target rest. rs_foreground_apps s = target # rest
          \<and> i = rule_intent (SwitchToApp target) (f32_lit (80 / 100)) KeepAlive (Some target) Immediate
                 ''app_foreground_observed'')
      \<or> (rs_has_screen_on s \<and> i = rule_intent Idle (f32_lit (60 / 100)) KeepAlive (Some ''work:collector_heartbeat'')
          IdleTime ''screen_on'')
      \<or> (rs_is_low_battery s \<and> i = rule_intent Idle (f32_lit (80 / 100)) ReleaseMemory (Some ''cache:prefetch'')
          Immediate ''low_battery'')
      \<or> (\<exists>m target. rs_memory_pressure s = Some (m, target)
          \<and> i = rule_intent Idle (f32_lit (65 / 100)) ReleaseMemory target Immediate ''memory_pressure''))"
  unfolding signal_intents_def Let_def set_append Un_iff set_when set_when_first set_when_some
  by (cases "rs_has_file_mention s"; cases notified) (simp_all add: disj_assoc)

lemma rule_intent_simps [simp]:
  "in_intent_type (rule_intent t c a target u tag) = t"
  "in_confidence (rule_intent t c a target u tag) = c"
  "in_risk_level (rule_intent t c a target u tag) = RiskLow"
  "in_suggested_actions (rule_intent t c a target u tag) =
     [\<lparr>sa_action_type = a, sa_target = target, sa_urgency = u\<rparr>]"
  "in_rationale_tags (rule_intent t c a target u tag) = [tag]"
  by (simp_all add: rule_intent_def)

lemma generate_intents_mem:
  "i \<in> set (generate_intents ctx) \<Longrightarrow>
     i \<in> set (signal_intents (cs_notified_apps (ctx_summary ctx)) (scan_events (ctx_events ctx)))
     \<or> i = rule_intent Idle (f32_lit (50 / 100)) NoOp None IdleTime ''idle_window''"
  by (auto simp: generate_intents_def Let_def split: if_splits)

lemma generate_intents_allowed:
  "i \<in> set (generate_intents ctx) \<Longrightarrow> in_risk_level i = RiskLow
     \<and> (\<forall>a \<in> set (in_suggested_actions i). sa_action_type a \<in> {NoOp, ReleaseMemory, KeepAlive})"
  by (drule generate_intents_mem) (auto simp: signal_intents_mem Let_def)

interpretation rule_based: confined_backend rule_based_evaluate RuleBased
proof unfold_locales
  fix w :: backend_world and mi
  show "within_capability (for_route RuleBased) (dr_intent_batch (snd (rule_based_evaluate w mi)))"
    by (rule within_capability_numbered [where js = "generate_intents (mi_current_context mi)"])
       (auto simp: rule_based_evaluate_def Let_def allows_action_def dest!: generate_intents_allowed)
qed (simp_all add: rule_based_evaluate_def stamped_def Let_def)

interpretation fallback: confined_backend fallback_evaluate FallbackNoOp
proof unfold_locales
  fix w :: backend_world and mi
  show "within_capability (for_route FallbackNoOp) (dr_intent_batch (snd (fallback_evaluate w mi)))"
    by (rule within_capability_numbered [where js = "[fallback_intent]"])
       (auto simp: fallback_evaluate_def Let_def fallback_intent_def allows_action_def)
qed (simp_all add: fallback_evaluate_def stamped_def Let_def)

section \<open>What the scan remembers\<close>

lemma summary_notified:
  "set (cs_notified_apps (build_summary order es)) = (\<Union>e \<in> set es. set (notified_of (se_event_type e)))"
proof -
  have "acc_notified_apps (foldl add_event empty_acc es) =
      foldl push_new [] (concat (map (\<lambda>e. notified_of (se_event_type e)) es))"
    by (subst fold_field [where f = acc_notified_apps]) (simp_all add: add_event_fields)
  then show ?thesis by (simp add: build_summary_def Let_def set_foldl_push_new)
qed

text \<open>Everything the scan keeps is named by an event of the window.\<close>

definition scan_sound :: "sanitized_event list \<Rightarrow> rule_scan \<Rightarrow> bool" where
  "scan_sound es s \<longleftrightarrow>
     (rs_has_file_mention s \<longrightarrow> (\<exists>e \<in> set es. notified_of (se_event_type e) \<noteq> []))
     \<and> (\<forall>p \<in> set (rs_foreground_apps s). \<exists>e \<in> set es. event_type_package (se_event_type e) = Some p)
     \<and> (\<forall>m p. rs_memory_pressure s = Some (m, Some p) \<longrightarrow>
          (\<exists>e \<in> set es. event_type_package (se_event_type e) = Some p))"

lemma scan_event_sound:
  assumes "scan_sound es s"
  shows "scan_sound (es @ [e]) (scan_event (se_event_type e) s)"
  using assms
  by (cases "(se_event_type e, s)" rule: scan_event.cases)
     (auto simp: scan_sound_def split: if_splits option.splits)

lemma scan_events_sound: "scan_sound es (scan_events es)"
proof (induction es rule: rev_induct)
  case Nil
  then show ?case by (simp add: scan_events_def scan_sound_def empty_scan_def)
next
  case (snoc e es)
  then show ?case using scan_event_sound [OF snoc.IH, of e] by (simp add: scan_events_def)
qed

text \<open>The confidences of the rules are above the default floor.\<close>

lemma rule_confidences [simp]:
  "\<not> fp_lt (f32_lit (7 / 10)) (f32_lit (3 / 10))" "\<not> fp_lt (f32_lit (11 / 20)) (f32_lit (3 / 10))"
  "\<not> fp_lt (f32_lit (4 / 5)) (f32_lit (3 / 10))" "\<not> fp_lt (f32_lit (3 / 5)) (f32_lit (3 / 10))"
  "\<not> fp_lt (f32_lit (13 / 20)) (f32_lit (3 / 10))" "\<not> fp_lt (f32_lit (1 / 2)) (f32_lit (3 / 10))"
  "\<not> fp_lt (f32_lit 1) (f32_lit (3 / 10))"
  by code_simp+

text \<open>A package name the target gate reads as itself.\<close>

definition plain_package :: "string \<Rightarrow> bool" where
  "plain_package p \<longleftrightarrow> p \<noteq> [] \<and> \<not> starts_with p ''pkg:''"

lemma observed_target_allowed:
  assumes "observed ctx p" "plain_package p" "a = KeepAlive \<or> a = ReleaseMemory"
  shows "check_target a (Some p) (known_from_context ctx) = None"
  using assms
  by (auto simp: is_allowed_low_risk_target_def plain_package_def strip_prefix_None [symmetric])

lemma approvable_intent:
  assumes "in_risk_level i = RiskLow" "\<not> fp_lt (in_confidence i) (f32_lit (3 / 10))"
    and "in_suggested_actions i = [\<lparr>sa_action_type = a, sa_target = t, sa_urgency = u\<rparr>]"
    and "u \<noteq> Deferred" "allows_action (for_route r) a" "check_target a t (known_from_context ctx) = None"
  shows "spec_verdict default_policy_config (for_route r) (Some (known_from_context ctx)) i 0 = Approved"
  using assms
  by (simp add: spec_verdict_Approved intent_denial_None single_denial_None default_policy_config_def)

lemma generated_intent_approved:
  assumes "ctx_summary ctx = build_summary order (ctx_events ctx)"
    and plain: "\<And>e p. e \<in> set (ctx_events ctx) \<Longrightarrow> event_type_package (se_event_type e) = Some p \<Longrightarrow> plain_package p"
    and "i \<in> set (generate_intents ctx)"
  shows "spec_verdict default_policy_config (for_route RuleBased) (Some (known_from_context ctx)) (i\<lparr>in_intent_id := x\<rparr>) 0
    = Approved"
proof -
  let ?s = "scan_events (ctx_events ctx)" and ?n = "cs_notified_apps (ctx_summary ctx)"
  have sound: "scan_sound (ctx_events ctx) ?s" by (rule scan_events_sound)
  have pkg: "check_target a (Some p) (known_from_context ctx) = None"
    if "\<exists>e \<in> set (ctx_events ctx). event_type_package (se_event_type e) = Some p" "a = KeepAlive \<or> a = ReleaseMemory"
    for a p
    using that plain by (intro observed_target_allowed) (auto simp: observed_def)
  have named: "p \<in> set (notified_of t) \<Longrightarrow> event_type_package t = Some p" for t p by (cases t) auto
  then have notified: "p \<in> set ?n \<Longrightarrow> \<exists>e \<in> set (ctx_events ctx). event_type_package (se_event_type e) = Some p" for p
    using assms(1) by (auto simp: summary_notified intro!: bexI named)
  have mention: "rs_has_file_mention ?s \<Longrightarrow> ?n \<noteq> []"
    using sound assms(1) summary_notified [of order "ctx_events ctx"] by (auto simp: scan_sound_def)
  from generate_intents_mem [OF assms(3)] show ?thesis
  proof
    assume "i \<in> set (signal_intents ?n ?s)"
    then show ?thesis
      unfolding signal_intents_mem Let_def
    proof (elim disjE conjE exE)
      assume "rs_has_file_mention ?s"
        and i: "i = rule_intent (OpenApp (case ?n of [] \<Rightarrow> [] | p # _ \<Rightarrow> p)) (f32_lit (70 / 100)) KeepAlive
          (Some (case ?n of [] \<Rightarrow> [] | p # _ \<Rightarrow> p)) Immediate ''file_received''"
      then obtain p ps where n: "?n = p # ps" using mention by (cases ?n) auto
      then have "check_target KeepAlive (Some p) (known_from_context ctx) = None"
        by (intro pkg notified) auto
      with n i show ?thesis by (intro approvable_intent) (auto simp: allows_action_def)
    next
      fix app rest assume n: "?n = app # rest"
        and i: "i = rule_intent (OpenApp app) (f32_lit (55 / 100)) KeepAlive (Some app) IdleTime ''notification_engagement''"
      then have "check_target KeepAlive (Some app) (known_from_context ctx) = None"
        by (intro pkg notified) auto
      with i show ?thesis by (intro approvable_intent) (auto simp: allows_action_def)
    next
      fix target rest assume n: "rs_foreground_apps ?s = target # rest"
        and i: "i = rule_intent (SwitchToApp target) (f32_lit (80 / 100)) KeepAlive (Some target) Immediate
          ''app_foreground_observed''"
      then have "check_target KeepAlive (Some target) (known_from_context ctx) = None"
        using sound by (intro pkg) (auto simp: scan_sound_def)
      with i show ?thesis by (intro approvable_intent) (auto simp: allows_action_def)
    next
      fix m target assume n: "rs_memory_pressure ?s = Some (m, target)"
        and i: "i = rule_intent Idle (f32_lit (65 / 100)) ReleaseMemory target Immediate ''memory_pressure''"
      have "check_target ReleaseMemory target (known_from_context ctx) = None"
      proof (cases target)
        case (Some p)
        with sound n have "\<exists>e \<in> set (ctx_events ctx). event_type_package (se_event_type e) = Some p"
          by (auto simp: scan_sound_def)
        then show ?thesis unfolding Some by (rule pkg) simp
      qed simp
      with i show ?thesis by (intro approvable_intent) (auto simp: allows_action_def)
    next
      assume "i = rule_intent Idle (f32_lit (60 / 100)) KeepAlive (Some ''work:collector_heartbeat'') IdleTime ''screen_on''"
      then show ?thesis
        by (intro approvable_intent) (auto simp: allows_action_def is_allowed_low_risk_target_def starts_with_def)
    next
      assume "i = rule_intent Idle (f32_lit (80 / 100)) ReleaseMemory (Some ''cache:prefetch'') Immediate ''low_battery''"
      then show ?thesis
        by (intro approvable_intent) (auto simp: allows_action_def is_allowed_low_risk_target_def)
    qed
  next
    assume "i = rule_intent Idle (f32_lit (50 / 100)) NoOp None IdleTime ''idle_window''"
    then show ?thesis by (intro approvable_intent) (auto simp: allows_action_def)
  qed
qed

section \<open>Properties\<close>

text \<open>C31: the rules and the policy agree. Over a window whose summary the context builder computed and
  whose package names are non-empty and carry no \<open>pkg:\<close> prefix, the default policy approves
  every action the rule-based backend proposes: every target it names was observed, every
  action is in its route's capability, every confidence is above the floor.\<close>

theorem rule_based_always_approved:
  assumes "ctx_summary (mi_current_context mi) = build_summary order (ctx_events (mi_current_context mi))"
    and "\<And>e p. e \<in> set (ctx_events (mi_current_context mi)) \<Longrightarrow>
           event_type_package (se_event_type e) = Some p \<Longrightarrow> plain_package p"
    and "d \<in> set (evaluate_batch_with_context default_policy_config
            (dr_intent_batch (snd (rule_based_evaluate w mi))) (for_route RuleBased) (mi_current_context mi))"
  shows "pd_verdict d = Approved"
proof -
  let ?ctx = "mi_current_context mi" and ?b = "dr_intent_batch (snd (rule_based_evaluate w mi))"
  from assms(3) obtain io i jo a where p: "(io, i, jo, a) \<in> set (positions ?b)"
    and v: "pd_verdict d = spec_verdict default_policy_config (for_route RuleBased) (Some (known_from_context ?ctx)) i jo"
    by (auto simp: batch_decisions_mem)
  from p have "i \<in> set (number_intents w (generate_intents ?ctx))"
    and jo: "jo < length (in_suggested_actions i)"
    by (auto simp: positions_mem rule_based_evaluate_def Let_def)
  then obtain j x where j: "j \<in> set (generate_intents ?ctx)" "i = j\<lparr>in_intent_id := x\<rparr>"
    by (auto dest: number_intents_mem)
  have "length (in_suggested_actions j) = 1"
    using generate_intents_mem [OF j(1)] by (auto simp: signal_intents_mem Let_def)
  with jo j(2) have "jo = 0" by simp
  with v generated_intent_approved [OF assms(1,2) j(1)] j(2) show ?thesis by simp
qed

text \<open>Neither the rule-based nor the fallback backend is ever denied for lack of capability: whatever
  the policy configuration and the adapter, no record of a run over their batch ends in
  \<open>DeniedByCapability\<close>.\<close>

theorem local_backends_never_capability_denied:
  "DeniedByCapability \<notin> ar_terminal ` set (snd (run_lifecycle ex cfg n
        (dr_intent_batch (snd (rule_based_evaluate w mi))) rt be
        (for_route (dr_route (snd (rule_based_evaluate w mi)))) ctx s))
   \<and> DeniedByCapability \<notin> ar_terminal ` set (snd (run_lifecycle ex cfg n
        (dr_intent_batch (snd (fallback_evaluate w mi))) rt be
        (for_route (dr_route (snd (fallback_evaluate w mi)))) ctx s))"
  by (auto dest: rule_based.never_capability_denied fallback.never_capability_denied)

section \<open>Concrete inputs\<close>

definition demo_world :: backend_world where
  "demo_world = \<lparr>bw_ids = (\<lambda>k. ''id''), bw_next_id = 0, bw_latency_us = (\<lambda>k. 0), bw_calls = 0\<rparr>"

definition demo_rule_context :: structured_context where
  "demo_rule_context =
     (let es = [demo_foreground_event ''com.mail'', sanitize id ''e1'' (RawScreenState \<lparr>sse_timestamp_ms = 7, sse_state = Interactive\<rparr>)]
      in \<lparr>ctx_window_id = ''w0'', ctx_window_start_ms = 0, ctx_window_end_ms = 10000, ctx_duration_secs = 10,
          ctx_events = es, ctx_summary = build_summary rev es\<rparr>)"

theorem rule_based_always_approved_witness:
  "pd_verdict \<lparr>pd_intent_ordinal = 1, pd_action_ordinal = 0, pd_verdict = Approved\<rparr> = Approved"
proof (rule rule_based_always_approved [of "current_only demo_rule_context" rev _ demo_world])
  show "ctx_summary (mi_current_context (current_only demo_rule_context)) =
      build_summary rev (ctx_events (mi_current_context (current_only demo_rule_context)))"
    by (simp add: current_only_def demo_rule_context_def Let_def)
  show "plain_package p"
    if "e \<in> set (ctx_events (mi_current_context (current_only demo_rule_context)))"
      "event_type_package (se_event_type e) = Some p" for e p
    using that
    by (auto simp: current_only_def demo_rule_context_def Let_def demo_foreground_event_def plain_package_def starts_with_def)
  show "\<lparr>pd_intent_ordinal = 1, pd_action_ordinal = 0, pd_verdict = Approved\<rparr> \<in>
      set (evaluate_batch_with_context default_policy_config
        (dr_intent_batch (snd (rule_based_evaluate demo_world (current_only demo_rule_context))))
        (for_route RuleBased) (mi_current_context (current_only demo_rule_context)))"
    by code_simp
qed

end
