(* ===== verification/Router.thy ===== *)
theory Router
  imports Rule_Based
begin

text \<open>
  \<open>aios-agent/src/router/mod.rs\<close>: the decision router with its circuit breaker, privacy gate
  and local-signal gate, and the composite local evaluator. Backends are functions that thread
  a state (\<open>Decision_Backend\<close>), so the cloud client and the predictive model are arguments. An
  \<open>Instant\<close> is its nanosecond reading; the three clock reads of a call are \<open>call_times\<close>. The
  construction from the environment is not modelled: a \<open>router\<close> record is what it yields.
\<close>

section \<open>Configuration and circuit state\<close>

record router_config =
  rc_privacy_score_threshold :: usize
  rc_circuit_breaker_threshold :: u32
  rc_circuit_breaker_window_secs :: u64

definition default_router_config :: router_config where
  "default_router_config = \<lparr>rc_privacy_score_threshold = 3, rc_circuit_breaker_threshold = 5,
     rc_circuit_breaker_window_secs = 60\<rparr>"

type_synonym instant = int

record call_times =
  t_count :: instant
  t_fallback :: instant
  t_record :: instant

text \<open>\<open>Instant::checked_sub\<close>: seconds are an \<open>i64\<close>.\<close>

definition instant_checked_sub :: "instant \<Rightarrow> u64 \<Rightarrow> instant option" where
  "instant_checked_sub t secs =
     (let r = t - int (unat secs) * 10 ^ 9 in if r div 10 ^ 9 < i64_min then None else Some r)"

definition count_recent_errors :: "instant list \<Rightarrow> call_times \<Rightarrow> u64 \<Rightarrow> u32" where
  "count_recent_errors errors ts window =
     (let cutoff = (case instant_checked_sub (t_count ts) window of Some c \<Rightarrow> c | None \<Rightarrow> t_fallback ts)
      in of_nat (length (filter (\<lambda>e. cutoff \<le> e) errors)))"

definition record_error :: "instant \<Rightarrow> instant list \<Rightarrow> instant list" where
  "record_error t errors = errors @ [t]"

definition record_success :: "instant list \<Rightarrow> instant list" where
  "record_success errors = []"

section \<open>Composite local evaluator\<close>

definition is_idle_noop :: "intent \<Rightarrow> bool" where
  "is_idle_noop i \<longleftrightarrow> in_intent_type i = Idle
     \<and> list_all (\<lambda>a. sa_action_type a = NoOp) (in_suggested_actions i)"

text \<open>\<open>position(..).map(remove)\<close>: the first idle no-op and the rest.\<close>

fun take_idle_noop :: "intent list \<Rightarrow> intent option \<times> intent list" where
  "take_idle_noop [] = (None, [])"
| "take_idle_noop (i # is) =
     (if is_idle_noop i then (Some i, is)
      else let (x, rest) = take_idle_noop is in (x, i # rest))"

definition merge_tags :: "string list \<Rightarrow> string list \<Rightarrow> string list" where
  "merge_tags target src = foldl (\<lambda>ts t. if t \<in> set ts then ts else ts @ [t]) target src"

fun merge_errors :: "string option \<Rightarrow> string option \<Rightarrow> string option" where
  "merge_errors (Some l) (Some r) = Some (l @ ''; '' @ r)"
| "merge_errors (Some e) None = Some e"
| "merge_errors None (Some e) = Some e"
| "merge_errors None None = None"

definition merge_intents :: "intent list \<Rightarrow> intent list \<Rightarrow> intent list" where
  "merge_intents heuristic predictive =
     (let (h_idle, hs) = take_idle_noop heuristic; (p_idle, ps) = take_idle_noop predictive;
          intents = hs @ ps
      in if intents = []
         then (case (case h_idle of Some i \<Rightarrow> Some i | None \<Rightarrow> p_idle) of Some i \<Rightarrow> [i] | None \<Rightarrow> [])
         else intents)"

definition merge_results :: "model_input \<Rightarrow> decision_backend_result \<Rightarrow> decision_backend_result
    \<Rightarrow> decision_backend_result" where
  "merge_results mi h p =
     \<lparr>dr_route = LocalEvaluator,
      dr_intent_batch =
        \<lparr>ib_window_id = ctx_window_id (mi_current_context mi),
         ib_intents = merge_intents (ib_intents (dr_intent_batch h)) (ib_intents (dr_intent_batch p)),
         ib_generated_at_ms = ctx_window_end_ms (mi_current_context mi),
         ib_model = ''local-evaluator+predictive-local-v0.1''\<rparr>,
      dr_rationale_tags = merge_tags (dr_rationale_tags h) (dr_rationale_tags p),
      dr_latency_us = dr_latency_us h + dr_latency_us p,
      dr_error = merge_errors (dr_error h) (dr_error p)\<rparr>"

definition composite_evaluate :: "'w backend \<Rightarrow> 'w backend \<Rightarrow> 'w backend" where
  "composite_evaluate heuristic predictive w mi =
     (let (w1, h) = heuristic w mi; (w2, p) = predictive w1 mi in (w2, merge_results mi h p))"

section \<open>Routing\<close>

datatype routing_reason =
    CircuitBreakerTripped u32
  | PrivacySensitive usize
  | LocalActionableSignal
  | LowComplexity
  | LocalPreferred string
  | CloudPreferred string

fun reason_tag :: "routing_reason \<Rightarrow> string" where
  "reason_tag (CircuitBreakerTripped n) =
     ''routing:circuit_breaker_fallback(errors='' @ show_nat (unat n) @ '')''"
| "reason_tag (PrivacySensitive s) = ''routing:privacy_sensitive(score='' @ show_nat s @ '')''"
| "reason_tag LocalActionableSignal = ''routing:local_actionable_signal''"
| "reason_tag LowComplexity = ''routing:low_complexity''"
| "reason_tag (LocalPreferred c) = ''routing:'' @ c @ ''_complexity(local_evaluator)''"
| "reason_tag (CloudPreferred c) = ''routing:'' @ c @ ''_complexity(cloud_llm)''"

record 'w router =
  rt_config :: router_config
  rt_rule_based :: "'w backend"
  rt_local_evaluator :: "'w backend"
  rt_fallback :: "'w backend"
  rt_cloud_llm :: "'w backend option"
  rt_cloud_disabled :: bool
  rt_cloud_misconfigured :: "string option"
  rt_runtime_user_id :: "string option"

fun event_privacy_score :: "sanitized_event_type \<Rightarrow> usize" where
  "event_privacy_score (SeNotification p c ch th xh hs og g) =
     length (filter (\<lambda>h. h = VerificationCode \<or> h = FinancialContext) hs)"
| "event_privacy_score _ = 0"

definition compute_privacy_score :: "structured_context \<Rightarrow> usize" where
  "compute_privacy_score ctx = sum_list (map (\<lambda>e. event_privacy_score (se_event_type e)) (ctx_events ctx))"

fun is_actionable :: "sanitized_event_type \<Rightarrow> bool" where
  "is_actionable (SeFileActivity p c a h) = True"
| "is_actionable (SeNotification p c ch th xh hs og g) =
     list_ex (\<lambda>h. h = FileMention \<or> h = ImageMention \<or> h = LinkAttachment) hs"
| "is_actionable (SeAppTransition p a Foreground) = True"
| "is_actionable _ = False"

definition has_local_actionable_signal :: "structured_context \<Rightarrow> bool" where
  "has_local_actionable_signal ctx = list_ex (\<lambda>e. is_actionable (se_event_type e)) (ctx_events ctx)"

definition count_unique_semantic_hint_types :: "structured_context \<Rightarrow> usize" where
  "count_unique_semantic_hint_types ctx =
     length (remdups (concat (map (\<lambda>e. hints_of (se_event_type e)) (ctx_events ctx))))"

definition cloud_route_or_fallback :: "'w router \<Rightarrow> string \<Rightarrow> decision_route \<times> routing_reason" where
  "cloud_route_or_fallback rt complexity =
     (if rt_cloud_llm rt \<noteq> None then (CloudLlm, CloudPreferred complexity)
      else if rt_cloud_disabled rt \<or> rt_cloud_misconfigured rt \<noteq> None
      then (LocalEvaluator, LocalPreferred complexity)
      else (LocalEvaluator, LocalPreferred complexity))"

definition determine_route :: "'w router \<Rightarrow> instant list \<Rightarrow> call_times \<Rightarrow> structured_context
    \<Rightarrow> decision_route \<times> routing_reason" where
  "determine_route rt errors ts ctx =
     (let error_count = count_recent_errors errors ts (rc_circuit_breaker_window_secs (rt_config rt));
          score = compute_privacy_score ctx;
          unique = count_unique_semantic_hint_types ctx
      in if rc_circuit_breaker_threshold (rt_config rt) \<le> error_count
         then (FallbackNoOp, CircuitBreakerTripped error_count)
         else if rc_privacy_score_threshold (rt_config rt) < score
         then (RuleBased, PrivacySensitive score)
         else if has_local_actionable_signal ctx then (LocalEvaluator, LocalActionableSignal)
         else if unique \<le> 1 then (RuleBased, LowComplexity)
         else if unique \<le> 3 then cloud_route_or_fallback rt ''medium''
         else cloud_route_or_fallback rt ''high'')"

section \<open>Evaluation\<close>

definition attach_user :: "'w router \<Rightarrow> model_input \<Rightarrow> model_input" where
  "attach_user rt mi =
     (if ubp_user_id (mi_behavior_profile mi) = None
      then case rt_runtime_user_id rt of
             Some u \<Rightarrow> mi\<lparr>mi_behavior_profile := (mi_behavior_profile mi)\<lparr>ubp_user_id := Some u\<rparr>\<rparr>
           | None \<Rightarrow> mi
      else mi)"

definition cloud_error_tag :: string where
  "cloud_error_tag = ''backend:cloud_llm_error(rule_based_fallback)''"

text \<open>The dispatch of \<open>evaluate_model_input\<close>: the backend's result and whether it failed.\<close>

definition dispatch_route :: "'w router \<Rightarrow> decision_route \<Rightarrow> 'w \<Rightarrow> model_input
    \<Rightarrow> 'w \<times> decision_backend_result \<times> bool" where
  "dispatch_route rt route w mi =
     (case route of
        LocalEvaluator \<Rightarrow>
          (let (w1, r) = rt_local_evaluator rt w mi in (w1, r, dr_error r \<noteq> None))
      | CloudLlm \<Rightarrow>
          (case rt_cloud_llm rt of
             Some cloud \<Rightarrow>
               (let (w1, c) = cloud w mi in
                case dr_error c of
                  Some err \<Rightarrow>
                    (let (w2, f) = rt_rule_based rt w1 mi in
                     (w2, f\<lparr>dr_error := Some (''cloud llm backend failed: '' @ err),
                            dr_rationale_tags := dr_rationale_tags f @ [cloud_error_tag]\<rparr>, True))
                | None \<Rightarrow> (w1, c, False))
           | None \<Rightarrow> (let (w1, r) = rt_rule_based rt w mi in (w1, r, dr_error r \<noteq> None)))
      | FallbackNoOp \<Rightarrow>
          (let (w1, r) = rt_fallback rt w mi in (w1, r, False))
      | _ \<Rightarrow> (let (w1, r) = rt_rule_based rt w mi in (w1, r, dr_error r \<noteq> None)))"

definition router_evaluate :: "'w router \<Rightarrow> call_times \<Rightarrow> model_input \<Rightarrow> 'w \<times> instant list
    \<Rightarrow> ('w \<times> instant list) \<times> decision_backend_result" where
  "router_evaluate rt ts mi0 st =
     (let (w, errors) = st;
          mi = attach_user rt mi0;
          (route, reason) = determine_route rt errors ts (mi_current_context mi);
          (w1, result, failed) = dispatch_route rt route w mi;
          tag = reason_tag reason;
          result = (if tag \<in> set (dr_rationale_tags result) then result
                    else result\<lparr>dr_rationale_tags := dr_rationale_tags result @ [tag]\<rparr>);
          errors = (if failed then record_error (t_record ts) errors else record_success errors)
      in ((w1, errors), result))"

definition router_evaluate_context :: "'w router \<Rightarrow> call_times \<Rightarrow> structured_context \<Rightarrow> 'w \<times> instant list
    \<Rightarrow> ('w \<times> instant list) \<times> decision_backend_result" where
  "router_evaluate_context rt ts ctx st = router_evaluate rt ts (current_only ctx) st"

definition router_evaluate_with_profile :: "'w router \<Rightarrow> call_times \<Rightarrow> structured_context
    \<Rightarrow> user_behavior_profile \<Rightarrow> 'w \<times> instant list
    \<Rightarrow> ('w \<times> instant list) \<times> decision_backend_result" where
  "router_evaluate_with_profile rt ts ctx profile st =
     router_evaluate rt ts ((current_only ctx)\<lparr>mi_behavior_profile := profile\<rparr>) st"

interpretation composite: decision_backend "composite_evaluate h p" LocalEvaluator for h p
  by unfold_locales (simp_all add: composite_evaluate_def merge_results_def stamped_def split: prod.splits)

section \<open>One call\<close>

definition call_failed :: "'w router \<Rightarrow> call_times \<Rightarrow> model_input \<Rightarrow> 'w \<times> instant list \<Rightarrow> bool" where
  "call_failed rt ts mi st =
     snd (snd (dispatch_route rt
       (fst (determine_route rt (snd st) ts (mi_current_context (attach_user rt mi)))) (fst st) (attach_user rt mi)))"

lemma attach_user_context [simp]: "mi_current_context (attach_user rt mi) = mi_current_context mi"
  by (simp add: attach_user_def split: option.splits)

text \<open>The call in closed form.\<close>

lemma router_evaluate_errors:
  "snd (fst (router_evaluate rt ts mi st)) =
     (if call_failed rt ts mi st then snd st @ [t_record ts] else [])"
  by (simp add: router_evaluate_def call_failed_def Let_def record_error_def record_success_def split_beta)

lemma router_evaluate_world:
  "fst (fst (router_evaluate rt ts mi st)) =
     fst (dispatch_route rt (fst (determine_route rt (snd st) ts (mi_current_context mi))) (fst st) (attach_user rt mi))"
  by (simp add: router_evaluate_def Let_def split_beta)

lemma router_evaluate_result:
  "\<exists>tags. snd (router_evaluate rt ts mi st) =
     (fst (snd (dispatch_route rt (fst (determine_route rt (snd st) ts (mi_current_context mi)))
        (fst st) (attach_user rt mi))))\<lparr>dr_rationale_tags := tags\<rparr>
     \<and> reason_tag (snd (determine_route rt (snd st) ts (mi_current_context mi))) \<in> set tags"
proof -
  let ?r = "fst (snd (dispatch_route rt (fst (determine_route rt (snd st) ts (mi_current_context mi)))
        (fst st) (attach_user rt mi)))"
    and ?t = "reason_tag (snd (determine_route rt (snd st) ts (mi_current_context mi)))"
  show ?thesis
    by (rule exI [of _ "if ?t \<in> set (dr_rationale_tags ?r) then dr_rationale_tags ?r
          else dr_rationale_tags ?r @ [?t]"])
       (simp add: router_evaluate_def Let_def split_beta)
qed

lemma determine_route_CloudLlm:
  assumes "fst (determine_route rt errors ts ctx) = CloudLlm"
  shows "rt_cloud_llm rt \<noteq> None
     \<and> count_recent_errors errors ts (rc_circuit_breaker_window_secs (rt_config rt))
         < rc_circuit_breaker_threshold (rt_config rt)
     \<and> compute_privacy_score ctx \<le> rc_privacy_score_threshold (rt_config rt)
     \<and> \<not> has_local_actionable_signal ctx
     \<and> 2 \<le> count_unique_semantic_hint_types ctx"
  using assms
  by (auto simp: determine_route_def Let_def cloud_route_or_fallback_def split: if_splits)

lemma count_recent_errors_all:
  assumes "\<forall>e \<in> set errors. t_count ts - int (unat window) * 10 ^ 9 \<le> e"
    and "i64_min \<le> (t_count ts - int (unat window) * 10 ^ 9) div 10 ^ 9"
  shows "count_recent_errors errors ts window = of_nat (length errors)"
proof -
  have "instant_checked_sub (t_count ts) window = Some (t_count ts - int (unat window) * 10 ^ 9)"
    using assms(2) by (simp add: instant_checked_sub_def Let_def)
  moreover have "filter (\<lambda>e. t_count ts - int (unat window) * 10 ^ 9 \<le> e) errors = errors"
    using assms(1) by (simp add: filter_id_conv)
  ultimately show ?thesis by (simp add: count_recent_errors_def Let_def)
qed

section \<open>Sequences of calls\<close>

definition router_run :: "'w router \<Rightarrow> (call_times \<times> model_input) list \<Rightarrow> 'w \<times> instant list
    \<Rightarrow> ('w \<times> instant list) \<times> decision_backend_result list" where
  "router_run rt cs st = map_state (\<lambda>st (ts, mi). router_evaluate rt ts mi st) st cs"

fun all_fail :: "'w router \<Rightarrow> (call_times \<times> model_input) list \<Rightarrow> 'w \<times> instant list \<Rightarrow> bool" where
  "all_fail rt [] st = True"
| "all_fail rt ((ts, mi) # cs) st =
     (call_failed rt ts mi st \<and> all_fail rt cs (fst (router_evaluate rt ts mi st)))"

lemma all_fail_errors:
  "all_fail rt cs st \<Longrightarrow> snd (fst (router_run rt cs st)) = snd st @ map (\<lambda>(ts, mi). t_record ts) cs"
proof (induction rt cs st rule: all_fail.induct)
  case (2 rt ts mi cs st)
  then show ?case
    by (simp add: router_run_def map_state_proj router_evaluate_errors del: map_state.simps(2))
qed (simp add: router_run_def)

section \<open>Properties\<close>

text \<open>The gates before the cloud: the breaker has not tripped, the window's privacy score is at most
  the threshold, no local signal is actionable and two kinds of hints occurred.\<close>

definition cloud_gates_open :: "'w router \<Rightarrow> instant list \<Rightarrow> call_times \<Rightarrow> structured_context \<Rightarrow> bool" where
  "cloud_gates_open rt errors ts ctx \<longleftrightarrow>
     count_recent_errors errors ts (rc_circuit_breaker_window_secs (rt_config rt))
         < rc_circuit_breaker_threshold (rt_config rt)
     \<and> compute_privacy_score ctx \<le> rc_privacy_score_threshold (rt_config rt)
     \<and> \<not> has_local_actionable_signal ctx
     \<and> 2 \<le> count_unique_semantic_hint_types ctx"

text \<open>Behind a closed gate the route does not depend on the cloud slot, and it is not the cloud's.\<close>

lemma determine_route_gates_closed:
  assumes "\<not> cloud_gates_open rt errors ts ctx"
  shows "determine_route (rt\<lparr>rt_cloud_llm := c\<rparr>) errors ts ctx = determine_route rt errors ts ctx"
    and "fst (determine_route rt errors ts ctx) \<noteq> CloudLlm"
  using assms by (auto simp: determine_route_def cloud_gates_open_def Let_def)

lemma dispatch_route_cloud_unused:
  "route \<noteq> CloudLlm \<Longrightarrow> dispatch_route (rt\<lparr>rt_cloud_llm := c\<rparr>) route w mi = dispatch_route rt route w mi"
  by (cases route) (simp_all add: dispatch_route_def)

lemma attach_user_cloud [simp]: "attach_user (rt\<lparr>rt_cloud_llm := c\<rparr>) mi = attach_user rt mi"
  by (simp add: attach_user_def split: option.splits)

text \<open>C9: the cloud is consulted, and a result that claims the cloud's wider capability returned, only when
  every gate is open: a cloud backend is configured, the circuit breaker has not tripped, the
  window's privacy score is at most the threshold, no local signal is actionable and at least
  two kinds of semantic hints occurred. While one of the last four gates is closed, the call's
  answer, its error count and every effect on the world are the same whatever backend stands in
  the cloud's place, or none: it is not called at all. A result on the cloud's route needs the
  cloud configured and all gates open. (The local backends answer for their own routes.)\<close>

theorem cloud_only_through_gates:
  assumes "decision_backend (rt_rule_based rt) RuleBased"
    and "decision_backend (rt_local_evaluator rt) LocalEvaluator"
    and "decision_backend (rt_fallback rt) FallbackNoOp"
  shows "(dr_route (snd (router_evaluate rt ts mi st)) = CloudLlm \<longrightarrow>
       rt_cloud_llm rt \<noteq> None \<and> cloud_gates_open rt (snd st) ts (mi_current_context mi))
     \<and> (\<not> cloud_gates_open rt (snd st) ts (mi_current_context mi) \<longrightarrow>
       (\<forall>cloud. router_evaluate (rt\<lparr>rt_cloud_llm := cloud\<rparr>) ts mi st = router_evaluate rt ts mi st))"
proof (intro conjI impI allI)
  fix cloud assume "\<not> cloud_gates_open rt (snd st) ts (mi_current_context mi)"
  then show "router_evaluate (rt\<lparr>rt_cloud_llm := cloud\<rparr>) ts mi st = router_evaluate rt ts mi st"
    using determine_route_gates_closed [of rt "snd st" ts "mi_current_context mi"]
    by (simp add: router_evaluate_def dispatch_route_cloud_unused split_beta Let_def)
next
  let ?route = "fst (determine_route rt (snd st) ts (mi_current_context mi))"
  let ?out = "fst (snd (dispatch_route rt ?route (fst st) (attach_user rt mi)))"
  assume "dr_route (snd (router_evaluate rt ts mi st)) = CloudLlm"
  then have out: "dr_route ?out = CloudLlm"
    using router_evaluate_result [of rt ts mi st] by auto
  have r: "dr_route (snd (rt_rule_based rt w x)) = RuleBased"
    "dr_route (snd (rt_local_evaluator rt w x)) = LocalEvaluator"
    "dr_route (snd (rt_fallback rt w x)) = FallbackNoOp" for w x
    using assms(1-3) by (simp_all add: decision_backend_def)
  have "?route = CloudLlm"
    using out r by (cases ?route) (simp_all add: dispatch_route_def split_beta Let_def)
  from determine_route_CloudLlm [OF this] show "rt_cloud_llm rt \<noteq> None"
    "cloud_gates_open rt (snd st) ts (mi_current_context mi)" by (auto simp: cloud_gates_open_def)
qed

text \<open>A failing cloud never takes the window down and never keeps its capability. When the routed cloud
  backend reports an error, the result is the rule-based backend's answer to the same input (its
  route, batch and latency) with the cloud's error recorded and tagged, and the failure counts
  towards the circuit breaker.\<close>

theorem cloud_failure_falls_back:
  assumes "fst (determine_route rt (snd st) ts (mi_current_context mi)) = CloudLlm"
    and "rt_cloud_llm rt = Some cloud"
    and "dr_error (snd (cloud (fst st) (attach_user rt mi))) = Some err"
  shows "let f = snd (rt_rule_based rt (fst (cloud (fst st) (attach_user rt mi))) (attach_user rt mi));
             r = snd (router_evaluate rt ts mi st)
         in dr_route r = dr_route f \<and> dr_intent_batch r = dr_intent_batch f \<and> dr_latency_us r = dr_latency_us f
            \<and> dr_error r = Some (''cloud llm backend failed: '' @ err)
            \<and> cloud_error_tag \<in> set (dr_rationale_tags r)
            \<and> snd (fst (router_evaluate rt ts mi st)) = snd st @ [t_record ts]"
proof -
  have d: "dispatch_route rt CloudLlm (fst st) (attach_user rt mi) =
      (let (w1, c) = cloud (fst st) (attach_user rt mi); (w2, f) = rt_rule_based rt w1 (attach_user rt mi)
       in (w2, f\<lparr>dr_error := Some (''cloud llm backend failed: '' @ err),
                dr_rationale_tags := dr_rationale_tags f @ [cloud_error_tag]\<rparr>, True))"
    using assms(2,3) by (simp add: dispatch_route_def split_beta Let_def)
  show ?thesis
    using assms(1) by (simp add: router_evaluate_def d split_beta Let_def record_error_def)
qed

lemma count_recent_errors_Nil [simp]: "count_recent_errors [] ts window = 0"
  by (simp add: count_recent_errors_def Let_def split: option.splits)

text \<open>C10: the circuit breaker trips and resets, for a positive threshold (a threshold of zero trips on every
  call). After any sequence of failing calls that is at least as long as the threshold and lies
  within the window, the next call is routed to the fallback no-op whatever the context, and
  once it is answered the error count is back to zero, so the call that follows, at any time and
  on any input, takes the route its own context calls for: the privacy gate, the local signals
  and the hint count decide, no longer the breaker.\<close>

theorem breaker_trips_and_resets:
  assumes "all_fail rt cs (w, [])" and "0 < rc_circuit_breaker_threshold (rt_config rt)"
    and "unat (rc_circuit_breaker_threshold (rt_config rt)) \<le> length cs" "length cs < 2 ^ 32"
    and "\<forall>c \<in> set cs. t_count ts - int (unat (rc_circuit_breaker_window_secs (rt_config rt))) * 10 ^ 9
           \<le> t_record (fst c)"
    and "i64_min \<le> (t_count ts - int (unat (rc_circuit_breaker_window_secs (rt_config rt))) * 10 ^ 9) div 10 ^ 9"
  shows "let st = fst (router_run rt cs (w, [])) in
     determine_route rt (snd st) ts (mi_current_context mi)
       = (FallbackNoOp, CircuitBreakerTripped (of_nat (length cs)))
     \<and> dr_intent_batch (snd (router_evaluate rt ts mi st))
       = dr_intent_batch (snd (rt_fallback rt (fst st) (attach_user rt mi)))
     \<and> snd (fst (router_evaluate rt ts mi st)) = []
     \<and> (\<forall>ts' ctx'. fst (determine_route rt (snd (fst (router_evaluate rt ts mi st))) ts' ctx') =
         (if rc_privacy_score_threshold (rt_config rt) < compute_privacy_score ctx' then RuleBased
          else if has_local_actionable_signal ctx' then LocalEvaluator
          else if count_unique_semantic_hint_types ctx' \<le> 1 then RuleBased
          else if rt_cloud_llm rt \<noteq> None then CloudLlm else LocalEvaluator))"
proof -
  let ?st = "fst (router_run rt cs (w, []))"
  have errs: "snd ?st = map (\<lambda>(ts, mi). t_record ts) cs" using all_fail_errors [OF assms(1)] by simp
  have n: "count_recent_errors (snd ?st) ts (rc_circuit_breaker_window_secs (rt_config rt)) = of_nat (length cs)"
    by (subst count_recent_errors_all) (use assms(5,6) in \<open>auto simp: errs\<close>)
  have "rc_circuit_breaker_threshold (rt_config rt) \<le> of_nat (length cs)"
    using assms(3,4) by (simp add: word_le_nat_alt unat_of_nat)
  then have route: "determine_route rt (snd ?st) ts (mi_current_context mi)
      = (FallbackNoOp, CircuitBreakerTripped (of_nat (length cs)))"
    by (simp add: determine_route_def n Let_def)
  then have "\<not> call_failed rt ts mi ?st"
    by (simp add: call_failed_def dispatch_route_def split_beta Let_def)
  moreover have "dr_intent_batch (snd (router_evaluate rt ts mi ?st))
      = dr_intent_batch (snd (rt_fallback rt (fst ?st) (attach_user rt mi)))"
    using router_evaluate_result [of rt ts mi ?st] route by (auto simp: dispatch_route_def split_beta Let_def)
  moreover have "fst (determine_route rt [] ts' ctx') =
      (if rc_privacy_score_threshold (rt_config rt) < compute_privacy_score ctx' then RuleBased
       else if has_local_actionable_signal ctx' then LocalEvaluator
       else if count_unique_semantic_hint_types ctx' \<le> 1 then RuleBased
       else if rt_cloud_llm rt \<noteq> None then CloudLlm else LocalEvaluator)" for ts' ctx'
    using assms(2) by (auto simp: determine_route_def cloud_route_or_fallback_def Let_def)
  ultimately show ?thesis using route by (simp add: router_evaluate_errors Let_def)
qed

section \<open>Concrete inputs\<close>

definition demo_cloud :: "backend_world backend" where
  "demo_cloud w mi = (let (w1, r) = rule_based_evaluate w mi in
     (w1, r\<lparr>dr_route := CloudLlm, dr_error := (if ctx_window_id (mi_current_context mi) = ''bad''
        then Some ''timeout'' else None)\<rparr>))"

definition demo_local :: "backend_world backend" where
  "demo_local w mi = (let (w1, r) = rule_based_evaluate w mi in (w1, r\<lparr>dr_route := LocalEvaluator\<rparr>))"

definition demo_router :: "backend_world router" where
  "demo_router = \<lparr>rt_config = default_router_config, rt_rule_based = rule_based_evaluate,
     rt_local_evaluator = demo_local, rt_fallback = fallback_evaluate, rt_cloud_llm = Some demo_cloud,
     rt_cloud_disabled = False, rt_cloud_misconfigured = None, rt_runtime_user_id = Some ''u1''\<rparr>"

definition demo_times :: "nat \<Rightarrow> call_times" where
  "demo_times n = \<lparr>t_count = 10 ^ 9 * int n, t_fallback = 10 ^ 9 * int n, t_record = 10 ^ 9 * int n\<rparr>"

text \<open>A window with two kinds of hints and nothing actionable.\<close>

definition demo_complex_input :: "string \<Rightarrow> model_input" where
  "demo_complex_input wid =
     (let es = [\<lparr>se_event_id = ''e'', se_timestamp_ms = 1,
          se_event_type = SeNotification ''com.cal'' None None empty_text_hint empty_text_hint
            [CalendarInvitation, UserMentioned] False None,
          se_source_tier = PublicApi, se_app_package = Some ''com.cal'', se_uid = None\<rparr>]
      in current_only \<lparr>ctx_window_id = wid, ctx_window_start_ms = 0, ctx_window_end_ms = 10000,
           ctx_duration_secs = 10, ctx_events = es, ctx_summary = build_summary rev es\<rparr>)"

lemma demo_local_backend: "decision_backend demo_local LocalEvaluator"
  by unfold_locales (simp_all add: demo_local_def rule_based_evaluate_def stamped_def Let_def)

lemma demo_router_sel [simp]:
  "rt_config demo_router = default_router_config" "rt_rule_based demo_router = rule_based_evaluate"
  "rt_local_evaluator demo_router = demo_local" "rt_fallback demo_router = fallback_evaluate"
  "rt_cloud_llm demo_router = Some demo_cloud"
  by (simp_all add: demo_router_def)

lemma demo_complex_route:
  "determine_route demo_router [] (demo_times n) (mi_current_context (demo_complex_input wid)) =
     (CloudLlm, CloudPreferred ''medium'')"
  by (simp add: determine_route_def demo_complex_input_def current_only_def Let_def compute_privacy_score_def
      has_local_actionable_signal_def count_unique_semantic_hint_types_def cloud_route_or_fallback_def
      count_recent_errors_def default_router_config_def)

theorem cloud_only_through_gates_witness:
  "compute_privacy_score (mi_current_context (demo_complex_input ''w1'')) \<le> 3"
proof -
  have r: "dr_route (snd (router_evaluate demo_router (demo_times 1) (demo_complex_input ''w1'') (demo_world, []))) = CloudLlm"
    by (simp add: router_evaluate_def Let_def split_beta demo_complex_route dispatch_route_def demo_cloud_def
        attach_user_context)
       (simp add: demo_complex_input_def current_only_def Let_def)
  show ?thesis
    using cloud_only_through_gates [of demo_router "demo_times 1" "demo_complex_input ''w1''" "(demo_world, [])"]
      r rule_based.decision_backend_axioms
      fallback.decision_backend_axioms demo_local_backend
    by (simp add: default_router_config_def cloud_gates_open_def)
qed

theorem cloud_failure_falls_back_witness:
  "dr_error (snd (router_evaluate demo_router (demo_times 1) (demo_complex_input ''bad'') (demo_world, []))) =
     Some (''cloud llm backend failed: '' @ ''timeout'')"
proof -
  have e: "dr_error (snd (demo_cloud demo_world (attach_user demo_router (demo_complex_input ''bad'')))) = Some ''timeout''"
    by (simp add: demo_cloud_def split_beta Let_def) (simp add: demo_complex_input_def current_only_def Let_def)
  show ?thesis
    using cloud_failure_falls_back [of demo_router "(demo_world, [])" "demo_times 1" "demo_complex_input ''bad''"
        demo_cloud "''timeout''"] e
    by (simp add: demo_complex_route Let_def)
qed

text \<open>A breaker with threshold one, after one failing cloud call.\<close>

definition demo_touchy_router :: "backend_world router" where
  "demo_touchy_router = demo_router\<lparr>rt_config := default_router_config\<lparr>rc_circuit_breaker_threshold := 1\<rparr>\<rparr>"

lemma demo_touchy_fails:
  "all_fail demo_touchy_router [(demo_times 1, demo_complex_input ''bad'')] (demo_world, [])"
proof -
  have "fst (determine_route demo_touchy_router [] (demo_times 1) (mi_current_context (demo_complex_input ''bad''))) = CloudLlm"
    by (simp add: demo_touchy_router_def determine_route_def demo_complex_input_def current_only_def Let_def
        compute_privacy_score_def has_local_actionable_signal_def count_unique_semantic_hint_types_def
        cloud_route_or_fallback_def count_recent_errors_def default_router_config_def)
  then show ?thesis
    by (simp add: call_failed_def dispatch_route_def demo_touchy_router_def demo_cloud_def split_beta Let_def)
       (simp add: demo_complex_input_def current_only_def Let_def)
qed

theorem breaker_trips_and_resets_witness:
  "fst (determine_route demo_touchy_router
     (snd (fst (router_run demo_touchy_router [(demo_times 1, demo_complex_input ''bad'')] (demo_world, []))))
     (demo_times 2) (mi_current_context (demo_complex_input ''ok''))) = FallbackNoOp"
  using breaker_trips_and_resets [OF demo_touchy_fails, of "demo_times 2" "demo_complex_input ''ok''"]
  by (simp add: demo_touchy_router_def default_router_config_def demo_times_def i64_min_def Let_def)

end
