(* ===== verification/Daemon_Pipeline.thy ===== *)
theory Daemon_Pipeline
  imports Collection_Stats Context_Builder Context_Memory Router
begin

text \<open>
  \<open>aios-daemon/src/pipeline.rs\<close> and the collection loop of \<open>collection.rs\<close>: Task 2 consumes raw events,
  aggregates them into windows and drives each closed window through the router, the lifecycle and
  the memory; Task 1 polls a source and fills the channel Task 2 reads.

  An iteration of the processing loop gets from its environment what \<open>select!\<close> yielded and what the
  clocks, the id generator and the summary thread answered (\<open>iteration\<close>, \<open>window_env\<close>); everything
  else is computed. The log lines are not modelled. The list of the calls to \<open>process_window\<close> is kept in
  the state as an observation; the code reads it nowhere.

  The lemmas: no event is lost or duplicated, what the trace says agrees with the windows, the
  summary worker runs one job at a time, and nothing a hidden text says changes any state.
\<close>

section \<open>Profile summary worker\<close>

text \<open>A running job owns the snapshot it was started with; what its thread has done when it is
  polled comes from the environment.\<close>

record summary_job =
  sj_observed_windows :: u32
  sj_profile :: user_behavior_profile
  sj_recent :: "recent_decision_record list"

datatype job_status = JobRunning | JobPanicked | JobDone "string + string"

record summary_worker =
  sw_has_summarizer :: bool
  sw_interval_windows :: u32
  sw_pending :: "summary_job option"
  sw_last_started_window :: u32

definition new_summary_worker :: "bool \<Rightarrow> u32 \<Rightarrow> summary_worker" where
  "new_summary_worker summarizer interval =
     \<lparr>sw_has_summarizer = summarizer, sw_interval_windows = interval, sw_pending = None,
      sw_last_started_window = 0\<rparr>"

definition worker_poll :: "job_status \<Rightarrow> summary_worker \<Rightarrow> model_memory \<Rightarrow> summary_worker \<times> model_memory" where
  "worker_poll st w m =
     (case sw_pending w of
        None \<Rightarrow> (w, m)
      | Some job \<Rightarrow>
          (case st of
             JobRunning \<Rightarrow> (w, m)
           | JobDone (Inr summary) \<Rightarrow> (w\<lparr>sw_pending := None\<rparr>, set_llm_summary summary m)
           | JobDone (Inl error) \<Rightarrow> (w\<lparr>sw_pending := None\<rparr>, m)
           | JobPanicked \<Rightarrow> (w\<lparr>sw_pending := None\<rparr>, m)))"

definition worker_maybe_start :: "summary_worker \<Rightarrow> model_memory \<Rightarrow> summary_worker" where
  "worker_maybe_start w m =
     (if \<not> sw_has_summarizer w then w
      else if sw_pending w \<noteq> None \<or> sw_interval_windows w = 0 then w
      else let windows = mm_observation_windows m in
        if windows = 0 \<or> windows mod sw_interval_windows w \<noteq> 0 \<or> windows = sw_last_started_window w then w
        else w\<lparr>sw_last_started_window := windows,
               sw_pending := Some \<lparr>sj_observed_windows = windows, sj_profile = behavior_profile m,
                                   sj_recent = mm_recent m\<rparr>\<rparr>)"

section \<open>One closed window\<close>

text \<open>What \<open>save_to_path\<close> did to the file: a failure may leave no readable file behind.\<close>

datatype save_outcome = Saved | SaveNotCreated | SaveTruncated

type_synonym disk = "string \<rightharpoonup> model_memory"

definition persist_if_configured :: "memory_config \<Rightarrow> save_outcome \<Rightarrow> model_memory \<Rightarrow> disk \<Rightarrow> disk" where
  "persist_if_configured c out m d =
     (case mc_persist_path c of
        None \<Rightarrow> d
      | Some path \<Rightarrow> (case out of Saved \<Rightarrow> d(path \<mapsto> m) | SaveNotCreated \<Rightarrow> d | SaveTruncated \<Rightarrow> d(path := None)))"

text \<open>The fields of the \<open>daemon_window\<close> line of the runtime trace, as the \<open>json!\<close> object has them: of the
  context the line holds no event, of the decision no intent.\<close>

record decision_line =
  dl_route :: string
  dl_model :: string
  dl_intent_count :: usize
  dl_rationale_tags :: "string list"
  dl_latency_us :: u64
  dl_error :: "string option"

record window_record =
  wr_stage :: string
  wr_window_ordinal :: u32
  wr_window_id :: string
  wr_window_start_ms :: i64
  wr_window_end_ms :: i64
  wr_duration_secs :: u32
  wr_event_count :: usize
  wr_raw_event_total :: u64
  wr_raw_event_stats :: "(string \<times> u64) list"
  wr_context_summary :: context_summary
  wr_behavior_profile :: user_behavior_profile
  wr_decision :: decision_line
  wr_audit :: "audit_record list"

definition daemon_window_record :: "u32 \<Rightarrow> structured_context \<Rightarrow> raw_event_stats \<Rightarrow> user_behavior_profile
    \<Rightarrow> decision_backend_result \<Rightarrow> audit_record list \<Rightarrow> window_record" where
  "daemon_window_record ordinal ctx stats profile decision audit =
     \<lparr>wr_stage = ''daemon_window'', wr_window_ordinal = ordinal, wr_window_id = ctx_window_id ctx,
      wr_window_start_ms = ctx_window_start_ms ctx, wr_window_end_ms = ctx_window_end_ms ctx,
      wr_duration_secs = ctx_duration_secs ctx, wr_event_count = length (ctx_events ctx),
      wr_raw_event_total = stats_total stats, wr_raw_event_stats = summary_fields stats,
      wr_context_summary = ctx_summary ctx, wr_behavior_profile = profile,
      wr_decision = \<lparr>dl_route = debug_route (dr_route decision), dl_model = ib_model (dr_intent_batch decision),
        dl_intent_count = length (ib_intents (dr_intent_batch decision)),
        dl_rationale_tags = dr_rationale_tags decision, dl_latency_us = dr_latency_us decision,
        dl_error = dr_error decision\<rparr>,
      wr_audit = audit\<rparr>"

record window_env =
  we_times :: call_times
  we_poll_before :: job_status
  we_poll_after :: job_status
  we_save :: save_outcome
  we_trace_written :: bool

text \<open>The dependencies that do not change, and those that do. \<open>ds_decisions\<close> is an observation: the router's
  answers, one per processed window, which the code keeps nowhere and no step reads.\<close>

record ('w, 's) daemon_config =
  dc_router :: "'w router"
  dc_adapter :: "'s adapter"
  dc_policy :: policy_config
  dc_memory_config :: memory_config

record ('w, 's) daemon_state =
  ds_backends :: "'w \<times> instant list"
  ds_adapter_state :: 's
  ds_memory :: model_memory
  ds_worker :: "summary_worker option"
  ds_disk :: disk
  ds_trace :: "window_record list option"
  ds_decisions :: "decision_backend_result list"

definition poll_worker :: "job_status \<Rightarrow> ('w, 's) daemon_state \<Rightarrow> ('w, 's) daemon_state" where
  "poll_worker st d =
     (case ds_worker d of None \<Rightarrow> d
      | Some w \<Rightarrow> (let (w1, m1) = worker_poll st w (ds_memory d) in d\<lparr>ds_worker := Some w1, ds_memory := m1\<rparr>))"

definition start_worker :: "('w, 's) daemon_state \<Rightarrow> ('w, 's) daemon_state" where
  "start_worker d =
     (case ds_worker d of None \<Rightarrow> d
      | Some w \<Rightarrow> d\<lparr>ds_worker := Some (worker_maybe_start w (ds_memory d))\<rparr>)"

definition process_window :: "('w, 's) daemon_config \<Rightarrow> window_env \<Rightarrow> u32 \<Rightarrow> structured_context \<Rightarrow> raw_event_stats
    \<Rightarrow> ('w, 's) daemon_state \<Rightarrow> ('w, 's) daemon_state" where
  "process_window c env ordinal ctx stats d0 =
     (let d1 = poll_worker (we_poll_before env) d0;
          input = memory_model_input ctx (ds_memory d1);
          (backends, decision) = router_evaluate (dc_router c) (we_times env) input (ds_backends d1);
          capability = for_route (dr_route decision);
          (adapter, audit) = run_lifecycle (dc_adapter c) (dc_policy c) ordinal (dr_intent_batch decision)
             (dr_route decision) (dr_error decision) capability ctx (ds_adapter_state d1);
          d2 = d1\<lparr>ds_backends := backends, ds_adapter_state := adapter,
                  ds_memory := observe_window ctx decision audit (ds_memory d1),
                  ds_decisions := ds_decisions d1 @ [decision]\<rparr>;
          d3 = start_worker (poll_worker (we_poll_after env) d2);
          d4 = d3\<lparr>ds_disk := persist_if_configured (dc_memory_config c) (we_save env) (ds_memory d3) (ds_disk d3)\<rparr>
      in case ds_trace d4 of
           None \<Rightarrow> d4
         | Some lines \<Rightarrow>
             (if we_trace_written env
              then d4\<lparr>ds_trace := Some (lines @
                [daemon_window_record ordinal ctx stats (behavior_profile (ds_memory d4)) decision audit])\<rparr>
              else d4))"

section \<open>The processing loop\<close>

datatype processing_event =
    PeRaw ingested_raw_event
  | PeRawChannelClosed
  | PeWindowExpired

definition should_stop_processing :: "processing_event \<Rightarrow> bool" where
  "should_stop_processing e \<longleftrightarrow> e = PeRawChannelClosed"

text \<open>\<open>it_now\<close> is the instant compared with the deadline, \<open>it_restart\<close> the one the next deadline counts
  from, \<open>it_close_ms\<close> the wall clock handed to \<open>close\<close>.\<close>

record iteration =
  it_event :: processing_event
  it_event_id :: string
  it_now :: instant
  it_restart :: instant
  it_close_ms :: i64
  it_window_id :: string
  it_env :: window_env

record ('w, 's) loop_state =
  ls_window :: window_aggregator
  ls_stats :: raw_event_stats
  ls_ordinal :: u32
  ls_events_processed :: u64
  ls_deadline :: instant
  ls_daemon :: "('w, 's) daemon_state"
  ls_processed :: "(u32 \<times> structured_context \<times> raw_event_stats) list"

record loop_summary =
  lsum_windows_closed :: u32
  lsum_events_processed :: u64

definition close_window :: "file_order \<Rightarrow> ('w, 's) daemon_config \<Rightarrow> iteration \<Rightarrow> ('w, 's) loop_state \<Rightarrow> ('w, 's) loop_state" where
  "close_window order c it s =
     (let stats = ls_stats s;
          s1 = s\<lparr>ls_stats := empty_stats\<rparr>;
          (w, closed) = wa_close order (it_window_id it) (it_close_ms it) (ls_window s1);
          s2 = s1\<lparr>ls_window := w\<rparr>
      in case closed of
           None \<Rightarrow> s2
         | Some ctx \<Rightarrow>
             s2\<lparr>ls_daemon := process_window c (it_env it) (ls_ordinal s2) ctx stats (ls_daemon s2),
                ls_processed := ls_processed s2 @ [(ls_ordinal s2, ctx, stats)],
                ls_ordinal := ls_ordinal s2 + 1\<rparr>)"

definition ingest_raw :: "(string \<Rightarrow> string) \<Rightarrow> string \<Rightarrow> ingested_raw_event \<Rightarrow> ('w, 's) loop_state \<Rightarrow> ('w, 's) loop_state" where
  "ingest_raw u eid i s =
     s\<lparr>ls_stats := stats_record (ing_raw_event i) (ls_stats s),
       ls_window := wa_push (sanitize_with_tier u eid (ing_raw_event i) (ing_source_tier i)) (ls_window s),
       ls_events_processed := ls_events_processed s + 1\<rparr>"

definition loop_step :: "(string \<Rightarrow> string) \<Rightarrow> file_order \<Rightarrow> instant \<Rightarrow> ('w, 's) daemon_config \<Rightarrow> iteration
    \<Rightarrow> ('w, 's) loop_state \<Rightarrow> ('w, 's) loop_state" where
  "loop_step u order duration c it s =
     (let expired = (it_event it = PeWindowExpired);
          s1 = (case it_event it of PeRaw i \<Rightarrow> ingest_raw u (it_event_id it) i s | _ \<Rightarrow> s)
      in if expired \<or> ls_deadline s1 \<le> it_now it
         then (close_window order c it s1)\<lparr>ls_deadline := it_restart it + duration\<rparr>
         else s1)"

text \<open>\<open>None\<close>: the iterations ran out and the loop is still waiting for an event.\<close>

fun run_processing_loop :: "(string \<Rightarrow> string) \<Rightarrow> file_order \<Rightarrow> instant \<Rightarrow> ('w, 's) daemon_config \<Rightarrow> iteration list
    \<Rightarrow> ('w, 's) loop_state \<Rightarrow> ('w, 's) loop_state \<times> loop_summary option" where
  "run_processing_loop u order duration c [] s = (s, None)"
| "run_processing_loop u order duration c (it # its) s =
     (if should_stop_processing (it_event it)
      then (let s1 = close_window order c it s
            in (s1, Some \<lparr>lsum_windows_closed = ls_ordinal s1, lsum_events_processed = ls_events_processed s1\<rparr>))
      else run_processing_loop u order duration c its (loop_step u order duration c it s))"

definition initial_loop :: "window_aggregator \<Rightarrow> instant \<Rightarrow> ('w, 's) daemon_state \<Rightarrow> ('w, 's) loop_state" where
  "initial_loop w deadline d = \<lparr>ls_window = w, ls_stats = empty_stats, ls_ordinal = 0, ls_events_processed = 0,
     ls_deadline = deadline, ls_daemon = d, ls_processed = []\<rparr>"

section \<open>Nothing is lost between the channel and the windows\<close>

text \<open>What the loop receives before the channel closes, with the ids the sanitizer draws.\<close>

fun raw_inputs :: "iteration list \<Rightarrow> (string \<times> ingested_raw_event) list" where
  "raw_inputs [] = []"
| "raw_inputs (it # its) =
     (case it_event it of PeRaw i \<Rightarrow> (it_event_id it, i) # raw_inputs its
      | PeRawChannelClosed \<Rightarrow> [] | PeWindowExpired \<Rightarrow> raw_inputs its)"

abbreviation sanitized_input :: "(string \<Rightarrow> string) \<Rightarrow> string \<times> ingested_raw_event \<Rightarrow> sanitized_event" where
  "sanitized_input u \<equiv> \<lambda>(eid, i). sanitize_with_tier u eid (ing_raw_event i) (ing_source_tier i)"

abbreviation processed_context :: "u32 \<times> structured_context \<times> raw_event_stats \<Rightarrow> structured_context" where
  "processed_context p \<equiv> fst (snd p)"

text \<open>The loop invariant, after the inputs \<open>evs\<close>.\<close>

definition loop_inv :: "(string \<Rightarrow> string) \<Rightarrow> (string \<times> ingested_raw_event) list \<Rightarrow> ('w, 's) loop_state \<Rightarrow> bool" where
  "loop_inv u evs s \<longleftrightarrow>
     concat (map (\<lambda>p. ctx_events (processed_context p)) (ls_processed s)) @ wa_buffer (ls_window s)
       = map (sanitized_input u) evs
   \<and> stats_total (ls_stats s) = of_nat (length (wa_buffer (ls_window s)))
   \<and> list_all (\<lambda>(k, ctx, st). ctx_events ctx \<noteq> [] \<and> stats_total st = of_nat (length (ctx_events ctx))) (ls_processed s)
   \<and> ls_ordinal s = of_nat (length (ls_processed s))
   \<and> map fst (ls_processed s) = map of_nat [0..<length (ls_processed s)]
   \<and> ls_events_processed s = of_nat (length evs)"

lemma loop_inv_ingest:
  "loop_inv u evs s \<Longrightarrow> loop_inv u (evs @ [(eid, i)]) (ingest_raw u eid i s)"
  by (simp add: loop_inv_def ingest_raw_def wa_push_def stats_total_record)

lemma loop_inv_close: "loop_inv u evs s \<Longrightarrow> loop_inv u evs (close_window order c it s)"
  by (auto simp: loop_inv_def close_window_def wa_close_def Let_def)

lemma close_window_buffer [simp]: "wa_buffer (ls_window (close_window order c it s)) = []"
  by (simp add: close_window_def wa_close_def Let_def)

lemma loop_inv_deadline [simp]: "loop_inv u evs (s\<lparr>ls_deadline := t\<rparr>) = loop_inv u evs s"
  by (simp add: loop_inv_def)

lemma loop_inv_step:
  assumes "loop_inv u evs s" "it_event it \<noteq> PeRawChannelClosed"
  shows "loop_inv u (evs @ raw_inputs [it]) (loop_step u order dur c it s)"
proof (cases "it_event it")
  case (PeRaw i)
  with assms(1) show ?thesis
    by (simp add: loop_step_def Let_def loop_inv_close loop_inv_ingest)
qed (use assms in \<open>simp_all add: loop_step_def Let_def loop_inv_close\<close>)

lemma raw_inputs_step:
  "it_event it \<noteq> PeRawChannelClosed \<Longrightarrow> raw_inputs (it # its) = raw_inputs [it] @ raw_inputs its"
  by (cases "it_event it") simp_all

lemma run_processing_loop_inv:
  assumes "loop_inv u evs s" "run_processing_loop u order dur c its s = (s', r)"
  shows "loop_inv u (evs @ raw_inputs its) s'
    \<and> (r = None \<longleftrightarrow> PeRawChannelClosed \<notin> it_event ` set its)
    \<and> (\<forall>x. r = Some x \<longrightarrow> wa_buffer (ls_window s') = [] \<and> lsum_windows_closed x = ls_ordinal s'
         \<and> lsum_events_processed x = ls_events_processed s')"
  using assms
proof (induction its arbitrary: s evs)
  case (Cons it its)
  show ?case
  proof (cases "it_event it = PeRawChannelClosed")
    case True
    with Cons.prems loop_inv_close [OF Cons.prems(1)] show ?thesis
      by (auto simp: should_stop_processing_def Let_def)
  next
    case False
    with Cons.prems Cons.IH [OF loop_inv_step [OF Cons.prems(1) False]] raw_inputs_step [OF False, of its]
    show ?thesis by (auto simp: should_stop_processing_def)
  qed
qed simp

lemma loop_inv_initial: "wa_buffer w = [] \<Longrightarrow> loop_inv u [] (initial_loop w dl d)"
  by (simp add: loop_inv_def initial_loop_def)

text \<open>C4: shutting down loses nothing. Once the raw channel closes the loop returns; the events of the
  windows it processed are, in order, exactly the sanitized images of the events received before
  the close, under the tiers their ingress gave them; no buffered event is left; the windows have
  the ordinals \<open>0, 1, ...\<close> and none is empty; and the summary counts windows and events
  (modulo \<open>2 ^ 32\<close> and \<open>2 ^ 64\<close>).\<close>

theorem shutdown_loses_no_event:
  assumes "PeRawChannelClosed \<in> it_event ` set its"
  shows "\<exists>s x. run_processing_loop u order dur c its (initial_loop (new_window_aggregator secs t0) dl d) = (s, Some x)
    \<and> concat (map (\<lambda>p. ctx_events (processed_context p)) (ls_processed s)) = map (sanitized_input u) (raw_inputs its)
    \<and> wa_buffer (ls_window s) = []
    \<and> (\<forall>p \<in> set (ls_processed s). ctx_events (processed_context p) \<noteq> [])
    \<and> map fst (ls_processed s) = map of_nat [0..<length (ls_processed s)]
    \<and> lsum_windows_closed x = of_nat (length (ls_processed s))
    \<and> lsum_events_processed x = of_nat (length (raw_inputs its))"
proof -
  let ?i = "initial_loop (new_window_aggregator secs t0) dl d"
  obtain s r where run: "run_processing_loop u order dur c its ?i = (s, r)" by fastforce
  have "loop_inv u [] ?i" by (rule loop_inv_initial) (simp add: new_window_aggregator_def)
  from run_processing_loop_inv [OF this run] assms
  obtain x where inv: "loop_inv u (raw_inputs its) s" and x: "r = Some x" "wa_buffer (ls_window s) = []"
      "lsum_windows_closed x = ls_ordinal s" "lsum_events_processed x = ls_events_processed s"
    by auto
  then show ?thesis using run by (intro exI [of _ s] exI [of _ x]) (auto simp: loop_inv_def list_all_iff)
qed

section \<open>Invariants of the windows processed so far\<close>

text \<open>A relation between the windows processed so far and the daemon's state that every call to
  \<open>process_window\<close> extends, when the environment satisfies \<open>ok\<close>, holds whenever the loop stops.\<close>

locale window_invariant =
  fixes c :: "('w, 's) daemon_config" and ok :: "window_env \<Rightarrow> bool"
    and rel :: "(u32 \<times> structured_context \<times> raw_event_stats) list \<Rightarrow> ('w, 's) daemon_state \<Rightarrow> bool"
  assumes window_step: "ok env \<Longrightarrow> rel ps d \<Longrightarrow> rel (ps @ [(k, ctx, st)]) (process_window c env k ctx st d)"
begin

lemma close_step:
  "ok (it_env it) \<Longrightarrow> rel (ls_processed s) (ls_daemon s) \<Longrightarrow>
   rel (ls_processed (close_window order c it s)) (ls_daemon (close_window order c it s))"
  by (auto simp: close_window_def Let_def intro: window_step split: prod.splits option.splits)

lemma loop_step_rel:
  assumes "ok (it_env it)" "rel (ls_processed s) (ls_daemon s)"
  shows "rel (ls_processed (loop_step u order dur c it s)) (ls_daemon (loop_step u order dur c it s))"
  using assms close_step [OF assms(1), of s order]
    close_step [OF assms(1), of "ingest_raw u (it_event_id it) i s" order for i]
  by (auto simp: loop_step_def Let_def ingest_raw_def split: processing_event.splits)

lemma run_rel:
  assumes "\<And>it. it \<in> set its \<Longrightarrow> ok (it_env it)" "rel (ls_processed s) (ls_daemon s)"
  shows "rel (ls_processed (fst (run_processing_loop u order dur c its s)))
     (ls_daemon (fst (run_processing_loop u order dur c its s)))"
  using assms
proof (induction its arbitrary: s)
  case (Cons it its)
  then show ?case by (simp add: close_step loop_step_rel Let_def)
qed simp

lemma initial_rel:
  assumes "\<And>it. it \<in> set its \<Longrightarrow> ok (it_env it)" "rel [] d"
    "run_processing_loop u order dur c its (initial_loop w dl d) = (s, r)"
  shows "rel (ls_processed s) (ls_daemon s)"
  using run_rel [of its "initial_loop w dl d" u order dur] assms by (simp add: initial_loop_def)

end

lemma worker_keeps [simp]:
  "ds_trace (poll_worker st d) = ds_trace d" "ds_trace (start_worker d) = ds_trace d"
  "ds_adapter_state (poll_worker st d) = ds_adapter_state d" "ds_adapter_state (start_worker d) = ds_adapter_state d"
  "ds_backends (poll_worker st d) = ds_backends d" "ds_backends (start_worker d) = ds_backends d"
  "ds_memory (start_worker d) = ds_memory d"
  "ds_decisions (poll_worker st d) = ds_decisions d" "ds_decisions (start_worker d) = ds_decisions d"
  by (simp_all add: poll_worker_def start_worker_def split: option.splits prod.splits)

lemma history_llm [simp]: "history (set_llm_summary t m) = history m"
  by (simp add: history_def set_llm_summary_def)

lemma history_poll [simp]: "history (ds_memory (poll_worker st d)) = history (ds_memory d)"
  by (auto simp: poll_worker_def worker_poll_def split: option.splits job_status.splits sum.splits)

lemma worker_poll_llm:
  "worker_poll st w m = (w1, m1) \<Longrightarrow> mm_observation_windows m1 = mm_observation_windows m"
  using historyD(1) [OF history_llm]
  by (auto simp: worker_poll_def split: option.splits job_status.splits sum.splits)

section \<open>The runtime trace\<close>

text \<open>A line is the rendering of a processed window and of the router's answer for it, and its audit
  records say of every suggested action what the reference verdicts say.\<close>

definition line_accounts :: "policy_config \<Rightarrow> (u32 \<times> structured_context \<times> raw_event_stats) \<times> decision_backend_result
    \<Rightarrow> window_record \<Rightarrow> bool" where
  "line_accounts cfg = (\<lambda>((k, ctx, st), dec) line.
     line = daemon_window_record k ctx st (wr_behavior_profile line) dec (wr_audit line)
     \<and> stats_total st = of_nat (length (ctx_events ctx))
     \<and> map record_entry (wr_audit line) =
         reference_entries cfg k (dr_intent_batch dec) (for_route (dr_route dec)) ctx)"

text \<open>What the policy lets the processed windows do under the router's answers.\<close>

definition windows_authorized :: "policy_config \<Rightarrow> ((u32 \<times> structured_context \<times> raw_event_stats) \<times> decision_backend_result) list
    \<Rightarrow> authorized_action list" where
  "windows_authorized cfg xs = concat (map (\<lambda>((k, ctx, st), dec).
     authorized_spec cfg k (dr_intent_batch dec) (for_route (dr_route dec)) ctx) xs)"


definition trace_rel :: "('w, 's) daemon_config \<Rightarrow> 's \<Rightarrow> (u32 \<times> structured_context \<times> raw_event_stats) list
    \<Rightarrow> ('w, 's) daemon_state \<Rightarrow> bool" where
  "trace_rel c s0 ps d \<longleftrightarrow> length (ds_decisions d) = length ps \<and> ds_trace d \<noteq> None
     \<and> (list_all (\<lambda>(k, ctx, st). stats_total st = of_nat (length (ctx_events ctx))) ps
        \<and> list_all (\<lambda>dec. small_batch (dr_intent_batch dec)) (ds_decisions d) \<longrightarrow>
          list_all2 (line_accounts (dc_policy c)) (zip ps (ds_decisions d)) (the (ds_trace d))
        \<and> ds_adapter_state d = foldl (\<lambda>s a. fst (dc_adapter c s a)) s0
            (windows_authorized (dc_policy c) (zip ps (ds_decisions d))))"



lemma trace_step:
  assumes "we_trace_written env" "trace_rel c s0 ps d"
  shows "trace_rel c s0 (ps @ [(k, ctx, st)]) (process_window c env k ctx st d)"
proof -
  obtain lines where l: "ds_trace d = Some lines"
    using assms(2) by (auto simp: trace_rel_def)
  obtain b dec where r: "router_evaluate (dc_router c) (we_times env)
      (memory_model_input ctx (ds_memory (poll_worker (we_poll_before env) d))) (ds_backends d) = (b, dec)"
    by fastforce
  obtain a audit where x: "run_lifecycle (dc_adapter c) (dc_policy c) k (dr_intent_batch dec)
      (dr_route dec) (dr_error dec) (for_route (dr_route dec)) ctx (ds_adapter_state d) = (a, audit)"
    by fastforce
  let ?d = "process_window c env k ctx st d"
  obtain prof where t: "ds_trace ?d = Some (lines @ [daemon_window_record k ctx st prof dec audit])"
    and a: "ds_adapter_state ?d = a" "ds_decisions ?d = ds_decisions d @ [dec]"
    using assms(1) by (simp add: process_window_def Let_def r x l)
  have s: "map record_entry audit = reference_entries (dc_policy c) k (dr_intent_batch dec) (for_route (dr_route dec)) ctx"
    "a = foldl (\<lambda>s a. fst (dc_adapter c s a)) (ds_adapter_state d)
      (authorized_spec (dc_policy c) k (dr_intent_batch dec) (for_route (dr_route dec)) ctx)"
    if "small_batch (dr_intent_batch dec)"
    using run_lifecycle_entries [OF that, of "dc_adapter c" "dc_policy c" k "dr_route dec"
        "dr_error dec" "for_route (dr_route dec)" ctx "ds_adapter_state d"]
      run_lifecycle_authorized [OF that, of "dc_adapter c" "dc_policy c" k "dr_route dec"
        "dr_error dec" "for_route (dr_route dec)" ctx "ds_adapter_state d"] x by simp_all
  have n: "length (ds_decisions d) = length ps" using assms(2) by (simp add: trace_rel_def)
  have "line_accounts (dc_policy c) ((k, ctx, st), dec) (daemon_window_record k ctx st prof dec audit)"
    if "small_batch (dr_intent_batch dec)" "stats_total st = of_nat (length (ctx_events ctx))"
    using s(1) [OF that(1)] that(2) by (simp add: line_accounts_def daemon_window_record_def)
  then show ?thesis using assms(2) n s(2)
    by (auto simp: trace_rel_def t a l windows_authorized_def intro!: list_all2_appendI)
qed

interpretation trace: window_invariant c we_trace_written "trace_rel c s0" for c s0
  by unfold_locales (rule trace_step)


section \<open>The memory\<close>

definition history_rel :: "usize \<Rightarrow> (u32 \<times> structured_context \<times> raw_event_stats) list \<Rightarrow> ('w, 's) daemon_state \<Rightarrow> bool" where
  "history_rel n ps d \<longleftrightarrow>
     unat (mm_observation_windows (ds_memory d)) = min (length ps) (2 ^ 32 - 1)
   \<and> map rd_window_id (mm_recent (ds_memory d)) = keep_last n (map (\<lambda>p. ctx_window_id (processed_context p)) ps)
   \<and> mm_recent_limit (ds_memory d) = n"

lemma process_window_history:
  "history (ds_memory (process_window c env k ctx st d)) =
     (sat_add (mm_observation_windows (ds_memory d)) 1,
      keep_last (mm_recent_limit (ds_memory d)) (map rd_window_id (mm_recent (ds_memory d)) @ [ctx_window_id ctx]),
      mm_recent_limit (ds_memory d), Some (ctx_window_id ctx))"
proof -
  let ?d1 = "poll_worker (we_poll_before env) d"
  have "\<exists>dec audit. history (ds_memory (process_window c env k ctx st d)) = history (observe_window ctx dec audit (ds_memory ?d1))"
    by (simp add: process_window_def Let_def split: prod.splits option.splits) blast
  moreover have "history (ds_memory ?d1) = history (ds_memory d)" by simp
  ultimately show ?thesis using historyD [of "ds_memory ?d1" "ds_memory d"]
    by (auto simp: observe_window_history)
qed

lemma unat_u32_max: "unat (- 1 :: u32) = 2 ^ 32 - 1"
  by (simp add: unsigned_minus_1_eq_mask mask_eq_exp_minus_1)

lemma unat_sat_add_min:
  assumes "unat (w :: u32) = min n (2 ^ 32 - 1)"
  shows "unat (sat_add w 1) = min (Suc n) (2 ^ 32 - 1)"
proof (cases "w = - 1")
  case True
  then show ?thesis using assms unat_u32_max by (simp add: unat_sat_add_1)
next
  case False
  then have "unat w \<noteq> 2 ^ 32 - 1" by (metis unat_u32_max word_unat_eq_iff)
  then show ?thesis using assms False by (simp add: unat_sat_add_1)
qed

lemma history_step:
  assumes "history_rel n ps d"
  shows "history_rel n (ps @ [(k, ctx, st)]) (process_window c env k ctx st d)"
proof -
  let ?m = "ds_memory (process_window c env k ctx st d)"
  have h: "mm_observation_windows ?m = sat_add (mm_observation_windows (ds_memory d)) 1"
    "map rd_window_id (mm_recent ?m) =
       keep_last (mm_recent_limit (ds_memory d)) (map rd_window_id (mm_recent (ds_memory d)) @ [ctx_window_id ctx])"
    "mm_recent_limit ?m = mm_recent_limit (ds_memory d)"
    using process_window_history [of c env k ctx st d] unfolding history_def by blast+
  show ?thesis using assms unat_sat_add_min [of "mm_observation_windows (ds_memory d)" "length ps"]
    by (simp add: history_rel_def h keep_last_snoc)
qed

interpretation memory_history: window_invariant c "\<lambda>_. True" "history_rel n" for c n
  by unfold_locales (rule history_step)

text \<open>Every window reaches the memory exactly once. From a fresh store, whatever the backends, the
  adapter and the summary thread do, the number of observed windows is the number of windows
  processed (saturating at \<open>u32::MAX\<close>) and the recent feedback shown to the model is about the last
  windows processed, in order, at most the configured number of them.\<close>

theorem memory_sees_every_window:
  assumes "run_processing_loop u order dur c its (initial_loop w dl d) = (s, r)"
    and "ds_memory d = memory_with_config cfg"
  shows "unat (mm_observation_windows (ds_memory (ls_daemon s))) = min (length (ls_processed s)) (2 ^ 32 - 1)
    \<and> map rd_window_id (mm_recent (ds_memory (ls_daemon s))) =
        keep_last (clamp 1 50 (mc_recent_limit cfg)) (map (\<lambda>p. ctx_window_id (processed_context p)) (ls_processed s))"
proof -
  have "history_rel (clamp 1 50 (mc_recent_limit cfg)) [] d"
    by (simp add: history_rel_def assms(2) memory_with_config_def keep_last_def)
  from memory_history.initial_rel [OF TrueI this assms(1)] show ?thesis by (simp add: history_rel_def)
qed

section \<open>The summary schedule\<close>

text \<open>With a thread that has finished by the second poll of each window.\<close>

definition schedule_rel :: "u32 \<Rightarrow> (u32 \<times> structured_context \<times> raw_event_stats) list \<Rightarrow> ('w, 's) daemon_state \<Rightarrow> bool" where
  "schedule_rel n ps d \<longleftrightarrow> (length ps < 2 ^ 32 \<longrightarrow>
     mm_observation_windows (ds_memory d) = of_nat (length ps)
     \<and> (\<exists>w. ds_worker d = Some w \<and> sw_has_summarizer w \<and> sw_interval_windows w = n
          \<and> unat (sw_last_started_window w) = length ps div unat n * unat n
          \<and> (case sw_pending w of
               None \<Rightarrow> length ps = 0 \<or> \<not> unat n dvd length ps
             | Some job \<Rightarrow> length ps \<noteq> 0 \<and> unat n dvd length ps \<and> sj_observed_windows job = of_nat (length ps))))"

lemma poll_finished:
  assumes "st \<noteq> JobRunning" "ds_worker d = Some w"
  shows "ds_worker (poll_worker st d) = Some (w\<lparr>sw_pending := None\<rparr>)"
  using assms by (cases "sw_pending w") (auto simp: poll_worker_def worker_poll_def split: job_status.splits sum.splits)

lemma poll_some:
  assumes "ds_worker d = Some w"
  shows "\<exists>p. ds_worker (poll_worker st d) = Some (w\<lparr>sw_pending := p\<rparr>)"
  using assms
  by (cases "sw_pending w") (auto simp: poll_worker_def worker_poll_def split: job_status.splits sum.splits
      intro: exI [of _ None] exI [of _ "sw_pending w"])

lemma process_window_worker:
  assumes "we_poll_after env \<noteq> JobRunning" "ds_worker d = Some w"
  shows "ds_worker (process_window c env k ctx st d) =
     Some (worker_maybe_start (w\<lparr>sw_pending := None\<rparr>) (ds_memory (process_window c env k ctx st d)))"
proof -
  obtain p where p: "ds_worker (poll_worker (we_poll_before env) d) = Some (w\<lparr>sw_pending := p\<rparr>)"
    using poll_some [OF assms(2)] by blast
  have "ds_worker (poll_worker (we_poll_after env)
      (poll_worker (we_poll_before env) d\<lparr>ds_backends := b, ds_adapter_state := a, ds_memory := m, ds_decisions := ds\<rparr>)) =
      Some (w\<lparr>sw_pending := None\<rparr>)" for b a m ds
    by (subst poll_finished [OF assms(1), of _ "w\<lparr>sw_pending := p\<rparr>"]) (simp_all add: p)
  then show ?thesis
    by (simp add: process_window_def Let_def start_worker_def split: prod.splits option.splits)
qed

lemma next_multiple:
  fixes n :: nat
  assumes "0 < n"
  shows "Suc k div n * n = (if n dvd Suc k then Suc k else k div n * n)"
proof -
  have "Suc (k mod n) = n \<Longrightarrow> n + k div n * n = Suc k"
    by (metis add.commute add_Suc_right div_mult_mod_eq)
  then show ?thesis by (auto simp: div_Suc dvd_eq_mod_eq_0 mod_Suc)
qed

lemma schedule_step:
  assumes "we_poll_after env \<noteq> JobRunning" "0 < n" "schedule_rel n ps d"
  shows "schedule_rel n (ps @ [(k, ctx, st)]) (process_window c env k ctx st d)"
  unfolding schedule_rel_def
proof (intro impI)
  let ?d = "process_window c env k ctx st d" and ?l = "length ps"
  assume "length (ps @ [(k, ctx, st)]) < 2 ^ 32"
  then have l: "Suc ?l < 2 ^ 32" by simp
  with assms(3) obtain w where w: "ds_worker d = Some w" "sw_has_summarizer w" "sw_interval_windows w = n"
      "unat (sw_last_started_window w) = ?l div unat n * unat n"
    and o: "mm_observation_windows (ds_memory d) = of_nat ?l"
    by (auto simp: schedule_rel_def)
  have "unat (mm_observation_windows (ds_memory d)) = ?l" using o l by (simp add: unat_of_nat)
  then have "unat (sat_add (mm_observation_windows (ds_memory d)) 1) = Suc ?l"
    using unat_sat_add_min [of "mm_observation_windows (ds_memory d)" ?l] l by simp
  then have m: "unat (mm_observation_windows (ds_memory ?d)) = Suc ?l"
    using process_window_history [of c env k ctx st d] unfolding history_def by simp
  then have m': "mm_observation_windows (ds_memory ?d) = of_nat (Suc ?l)" by (simp only: word_unat_eq_iff unat_of_nat) (use l in simp)
  have n: "0 < unat n" using assms(2) by (simp add: word_less_nat_alt)
  have dvd: "mm_observation_windows (ds_memory ?d) mod n = 0 \<longleftrightarrow> unat n dvd Suc ?l"
    by (simp add: word_unat_eq_iff unat_mod_distrib m dvd_eq_mod_eq_0)
  have le: "?l div unat n * unat n < Suc ?l" by (simp add: le_imp_less_Suc)
  have ne: "mm_observation_windows (ds_memory ?d) \<noteq> 0" "mm_observation_windows (ds_memory ?d) \<noteq> sw_last_started_window w"
    using m w(4) le by auto
  show "mm_observation_windows (ds_memory ?d) = of_nat (length (ps @ [(k, ctx, st)])) \<and>
     (\<exists>w. ds_worker ?d = Some w \<and> sw_has_summarizer w \<and> sw_interval_windows w = n
        \<and> unat (sw_last_started_window w) = length (ps @ [(k, ctx, st)]) div unat n * unat n
        \<and> (case sw_pending w of
             None \<Rightarrow> length (ps @ [(k, ctx, st)]) = 0 \<or> \<not> unat n dvd length (ps @ [(k, ctx, st)])
           | Some job \<Rightarrow> length (ps @ [(k, ctx, st)]) \<noteq> 0 \<and> unat n dvd length (ps @ [(k, ctx, st)])
               \<and> sj_observed_windows job = of_nat (length (ps @ [(k, ctx, st)]))))"
    using ne dvd w assms(2) m m' next_multiple [OF n, of ?l]
    by (simp add: process_window_worker [OF assms(1) w(1)] worker_maybe_start_def Let_def del: of_nat_Suc)
qed

interpretation summary_schedule: window_invariant c "\<lambda>env. we_poll_after env \<noteq> JobRunning \<and> 0 < n" "schedule_rel n" for c n
  by unfold_locales (use schedule_step in blast)

text \<open>The profile is refreshed at every multiple of the configured interval. From a fresh store, with a
  summarizer, a non-zero interval \<open>n\<close> and a summary thread that has finished by the second poll of
  each window, after \<open>k < 2 ^ 32\<close> windows the last refresh was started at the last multiple of \<open>n\<close> up
  to \<open>k\<close>, and a job is pending exactly when \<open>k\<close> itself is a non-zero multiple; it then owns a
  snapshot of \<open>k\<close> windows.\<close>

theorem summary_refreshed_on_schedule:
  assumes "run_processing_loop u order dur c its (initial_loop w dl d) = (s, r)"
    and "\<And>it. it \<in> set its \<Longrightarrow> we_poll_after (it_env it) \<noteq> JobRunning"
    and "0 < n" "ds_memory d = memory_with_config cfg" "ds_worker d = Some (new_summary_worker True n)"
    and "k = length (ls_processed s)" "k < 2 ^ 32"
  shows "\<exists>w. ds_worker (ls_daemon s) = Some w
    \<and> unat (sw_last_started_window w) = k div unat n * unat n
    \<and> (sw_pending w \<noteq> None \<longleftrightarrow> k \<noteq> 0 \<and> unat n dvd k)
    \<and> (\<forall>job. sw_pending w = Some job \<longrightarrow> sj_observed_windows job = of_nat k)"
proof -
  have "schedule_rel n [] d"
    by (simp add: schedule_rel_def assms(4,5) memory_with_config_def new_summary_worker_def)
  from summary_schedule.initial_rel [OF _ this assms(1)] assms(2,3)
  have "schedule_rel n (ls_processed s) (ls_daemon s)" by blast
  with assms(6,7) obtain w where "ds_worker (ls_daemon s) = Some w"
    "unat (sw_last_started_window w) = k div unat n * unat n"
    "case sw_pending w of None \<Rightarrow> k = 0 \<or> \<not> unat n dvd k
     | Some job \<Rightarrow> k \<noteq> 0 \<and> unat n dvd k \<and> sj_observed_windows job = of_nat k"
    unfolding schedule_rel_def by blast
  then show ?thesis by (intro exI [of _ w]) (auto split: option.splits)
qed

section \<open>Noninterference, end to end\<close>

text \<open>Two iterations that look the same but for what the boundary hides in a raw event.\<close>

definition same_public :: "(string \<Rightarrow> string) \<Rightarrow> iteration \<Rightarrow> iteration \<Rightarrow> bool" where
  "same_public u it it' \<longleftrightarrow> it' = it
     \<or> (\<exists>i r'. it_event it = PeRaw i \<and> secret_variant u (ing_raw_event i) r'
          \<and> it' = it\<lparr>it_event := PeRaw (i\<lparr>ing_raw_event := r'\<rparr>)\<rparr>)"

lemma same_public_stop:
  "same_public u it it' \<Longrightarrow> should_stop_processing (it_event it') = should_stop_processing (it_event it)"
  by (auto simp: same_public_def should_stop_processing_def)

lemma close_window_event [simp]: "close_window order c (it\<lparr>it_event := e\<rparr>) s = close_window order c it s"
  by (simp add: close_window_def Let_def split: prod.split option.split)

lemma same_public_close:
  "same_public u it it' \<Longrightarrow> close_window order c it' s = close_window order c it s"
  by (auto simp: same_public_def)

lemma same_public_ingest:
  "secret_variant u (ing_raw_event i) r' \<Longrightarrow> ingest_raw u eid (i\<lparr>ing_raw_event := r'\<rparr>) s = ingest_raw u eid i s"
  using sanitize_secret [of u "ing_raw_event i" r' eid "ing_source_tier i"]
    stats_record_kind [OF secret_variant_kind, of u "ing_raw_event i" r']
  by (simp add: ingest_raw_def)

lemma same_public_step:
  assumes "same_public u it it'"
  shows "loop_step u order dur c it' s = loop_step u order dur c it s"
  using assms unfolding same_public_def
  by (auto simp: loop_step_def Let_def same_public_ingest)

text \<open>C5: nothing behind the air-gap depends on what it hides. Two runs of the daemon whose inputs differ
  only in hidden content (notification keys, bodies of the same declared analysis, file paths of the
  same category, Binder methods of the same class) end in the same state: the same windows, model
  inputs, backend calls, adapter calls, memory, files and trace, and the same summary.\<close>

theorem daemon_noninterference:
  assumes "list_all2 (same_public u) its its'"
  shows "run_processing_loop u order dur c its' s = run_processing_loop u order dur c its s"
  using assms
  by (induction its its' arbitrary: s rule: list_all2_induct)
     (simp_all add: same_public_stop same_public_close same_public_step)

section \<open>The collection loop (collection.rs)\<close>

text \<open>One tick of Task 1: what its source sees, how many sends the channel accepts before its receiver
  is gone (all of them while Task 2 runs), and what the shutdown channel answers.\<close>

datatype try_recv = RecvEmpty | RecvSignal | RecvClosed | RecvLagged

record 'e tick =
  tk_source_input :: 'e
  tk_accepts :: "usize option"
  tk_shutdown :: try_recv

definition send_all :: "usize option \<Rightarrow> 'a list \<Rightarrow> 'a list \<times> bool" where
  "send_all accepts xs =
     (case accepts of None \<Rightarrow> (xs, True)
      | Some n \<Rightarrow> (take n xs, length xs \<le> n))"

text \<open>The result: what entered the channel, and whether the loop has returned.\<close>

fun run_collection_loop :: "('e \<Rightarrow> 'p \<Rightarrow> 'p \<times> ingested_raw_event list) \<Rightarrow> 'e tick list \<Rightarrow> 'p
    \<Rightarrow> ingested_raw_event list \<times> bool" where
  "run_collection_loop poll [] p = ([], False)"
| "run_collection_loop poll (t # ts) p =
     (let (p1, events) = poll (tk_source_input t) p;
          (sent, open) = send_all (tk_accepts t) events
      in if \<not> open then (sent, True)
         else if tk_shutdown t \<noteq> RecvEmpty then (sent, True)
         else (let (rest, done) = run_collection_loop poll ts p1 in (sent @ rest, done)))"

text \<open>Everything the source yields over some ticks.\<close>

fun polled :: "('e \<Rightarrow> 'p \<Rightarrow> 'p \<times> ingested_raw_event list) \<Rightarrow> 'e tick list \<Rightarrow> 'p \<Rightarrow> ingested_raw_event list" where
  "polled poll [] p = []"
| "polled poll (t # ts) p = (let (p1, events) = poll (tk_source_input t) p in events @ polled poll ts p1)"

lemma collection_sends_all:
  assumes "\<forall>t \<in> set (ts @ [t]). tk_accepts t = None" "\<forall>t \<in> set ts. tk_shutdown t = RecvEmpty" "tk_shutdown t \<noteq> RecvEmpty"
  shows "run_collection_loop poll (ts @ t # rest) p = (polled poll (ts @ [t]) p, True)"
  using assms
  by (induction ts arbitrary: p) (simp_all add: send_all_def Let_def split_beta)

text \<open>A graceful shutdown loses nothing from the collectors to the windows. If the receiver is alive
  until the tick whose shutdown check reports anything (a signal, a closed or a lagged channel),
  Task 1 returns having sent every event it polled, that tick included; and if the channel delivers
  them in order and then reports that it is closed, Task 2 returns and the events of its windows
  are exactly the sanitized images of the events polled, in order.\<close>

theorem graceful_shutdown:
  assumes "\<forall>t \<in> set (ts @ [t]). tk_accepts t = None" "\<forall>t \<in> set ts. tk_shutdown t = RecvEmpty"
    and "tk_shutdown t \<noteq> RecvEmpty"
    and "map snd (raw_inputs its) = fst (run_collection_loop poll (ts @ t # rest) p)"
    and "PeRawChannelClosed \<in> it_event ` set its"
  shows "snd (run_collection_loop poll (ts @ t # rest) p)
    \<and> map snd (raw_inputs its) = polled poll (ts @ [t]) p
    \<and> (\<exists>s x. run_processing_loop u order dur c its (initial_loop (new_window_aggregator secs t0) dl d) = (s, Some x)
         \<and> concat (map (\<lambda>p. ctx_events (processed_context p)) (ls_processed s)) =
             map (\<lambda>(eid, i). sanitize_with_tier u eid (ing_raw_event i) (ing_source_tier i))
               (zip (map fst (raw_inputs its)) (polled poll (ts @ [t]) p))
         \<and> wa_buffer (ls_window s) = [])"
proof -
  note sent = collection_sends_all [OF assms(1-3), of poll rest p]
  let ?i = "initial_loop (new_window_aggregator secs t0) dl d"
  obtain s r where run: "run_processing_loop u order dur c its ?i = (s, r)" by fastforce
  have "loop_inv u [] ?i" by (rule loop_inv_initial) (simp add: new_window_aggregator_def)
  from run_processing_loop_inv [OF this run] assms(5)
  obtain x where "loop_inv u (raw_inputs its) s" "r = Some x" "wa_buffer (ls_window s) = []" by auto
  moreover have "raw_inputs its = zip (map fst (raw_inputs its)) (polled poll (ts @ [t]) p)"
    using assms(4) sent by (metis fst_conv zip_map_fst_snd)
  ultimately show ?thesis using run sent assms(4) by (auto simp: loop_inv_def)
qed

section \<open>Concrete inputs\<close>

text \<open>A daemon whose backends all propose the same batch.\<close>

definition constant_backend :: "unit backend" where
  "constant_backend w mi = (w, \<lparr>dr_route = LocalEvaluator, dr_intent_batch = demo_lifecycle_batch, dr_rationale_tags = [],
     dr_latency_us = 0, dr_error = None\<rparr>)"

definition demo_daemon :: "(unit, authorized_action list) daemon_config" where
  "demo_daemon = \<lparr>dc_router = \<lparr>rt_config = default_router_config, rt_rule_based = constant_backend,
       rt_local_evaluator = constant_backend, rt_fallback = constant_backend, rt_cloud_llm = None,
       rt_cloud_disabled = True, rt_cloud_misconfigured = None, rt_runtime_user_id = None\<rparr>,
     dc_adapter = log_adapter, dc_policy = default_policy_config, dc_memory_config = default_memory_config\<rparr>"

definition demo_daemon_state :: "(unit, authorized_action list) daemon_state" where
  "demo_daemon_state = \<lparr>ds_backends = ((), []), ds_adapter_state = [],
     ds_memory = memory_with_config default_memory_config, ds_worker = Some (new_summary_worker True 1),
     ds_disk = Map.empty, ds_trace = Some [], ds_decisions = []\<rparr>"

definition demo_iteration :: "processing_event \<Rightarrow> iteration" where
  "demo_iteration e = \<lparr>it_event = e, it_event_id = ''e'', it_now = 5, it_restart = 5, it_close_ms = 10000,
     it_window_id = ''w'', it_env = \<lparr>we_times = \<lparr>t_count = 0, t_fallback = 0, t_record = 0\<rparr>,
       we_poll_before = JobDone (Inr ''likes chat''), we_poll_after = JobDone (Inl ''offline''), we_save = Saved,
       we_trace_written = True\<rparr>\<rparr>"

definition demo_raw :: "string \<Rightarrow> ingested_raw_event" where
  "demo_raw key = \<lparr>ing_raw_event = RawNotificationPosted (demo_notification\<lparr>nr_group_key := Some key, nr_has_picture := False\<rparr>),
     ing_source_tier = PublicApi\<rparr>"

definition demo_inputs :: "string \<Rightarrow> iteration list" where
  "demo_inputs key = map demo_iteration [PeRaw (demo_raw key), PeWindowExpired, PeRaw (demo_raw ''k''), PeRawChannelClosed]"

abbreviation demo_loop :: "string \<Rightarrow> (unit, authorized_action list) loop_state \<times> loop_summary option" where
  "demo_loop key \<equiv> run_processing_loop (\<lambda>s. s) rev 100 demo_daemon (demo_inputs key)
     (initial_loop (new_window_aggregator 10 0) 100 demo_daemon_state)"

lemma demo_iteration_sel [simp]:
  "it_event (demo_iteration e) = e" "it_event_id (demo_iteration e) = ''e''"
  "we_trace_written (it_env (demo_iteration e))" "we_poll_after (it_env (demo_iteration e)) = JobDone (Inl ''offline'')"
  by (simp_all add: demo_iteration_def)

lemma demo_processed: "length (ls_processed (fst (demo_loop key))) = 2"
  by (simp add: demo_inputs_def should_stop_processing_def loop_step_def close_window_def ingest_raw_def
      wa_push_def wa_close_def new_window_aggregator_def initial_loop_def demo_iteration_def Let_def)




theorem shutdown_loses_no_event_witness:
  "concat (map (\<lambda>p. ctx_events (processed_context p)) (ls_processed (fst (demo_loop ''a'')))) =
     map (sanitized_input (\<lambda>s. s)) [(''e'', demo_raw ''a''), (''e'', demo_raw ''k'')]"
proof -
  have "PeRawChannelClosed \<in> it_event ` set (demo_inputs ''a'')" by (simp add: demo_inputs_def)
  from shutdown_loses_no_event [OF this, of "\<lambda>s. s" rev 100 demo_daemon 10 0 100 demo_daemon_state]
  show ?thesis by (auto simp: demo_inputs_def)
qed


theorem memory_sees_every_window_witness:
  "unat (mm_observation_windows (ds_memory (ls_daemon (fst (demo_loop ''a''))))) = 2
   \<and> map rd_window_id (mm_recent (ds_memory (ls_daemon (fst (demo_loop ''a''))))) =
       keep_last (clamp 1 50 5) (map (\<lambda>p. ctx_window_id (processed_context p)) (ls_processed (fst (demo_loop ''a''))))"
proof -
  have m: "ds_memory demo_daemon_state = memory_with_config default_memory_config" by (simp add: demo_daemon_state_def)
  have l: "mc_recent_limit default_memory_config = 5" by (simp add: default_memory_config_def)
  show ?thesis
    using memory_sees_every_window [OF prod.collapse [symmetric, of "demo_loop ''a''"] m]
    unfolding demo_processed l by simp
qed

theorem summary_refreshed_on_schedule_witness:
  "\<exists>w. ds_worker (ls_daemon (fst (demo_loop ''a''))) = Some w \<and> unat (sw_last_started_window w) = 2
     \<and> sw_pending w \<noteq> None"
proof -
  have "\<And>it. it \<in> set (demo_inputs ''a'') \<Longrightarrow> we_poll_after (it_env it) \<noteq> JobRunning" by (auto simp: demo_inputs_def)
  from summary_refreshed_on_schedule [OF prod.collapse [symmetric, of "demo_loop ''a''"] this, of 1 default_memory_config
      "length (ls_processed (fst (demo_loop ''a'')))"] demo_processed [of "''a''"]
  show ?thesis by (auto simp: demo_daemon_state_def)
qed

theorem daemon_noninterference_witness: "demo_loop ''chat-alice'' = demo_loop ''chat-clara''"
proof -
  have "same_public (\<lambda>s. s) (demo_iteration (PeRaw (demo_raw ''chat-clara''))) (demo_iteration (PeRaw (demo_raw ''chat-alice'')))"
    unfolding same_public_def
    by (rule disjI2, rule exI [of _ "demo_raw ''chat-clara''"], rule exI [of _ "ing_raw_event (demo_raw ''chat-alice'')"])
       (use secret_variant.notification_keys [where u = "\<lambda>s. s" and g = "Some ''chat-alice''" and b = False
          and n = "demo_notification\<lparr>nr_group_key := Some ''chat-clara'', nr_has_picture := False\<rparr>"]
        in \<open>simp add: demo_raw_def demo_iteration_def\<close>)
  then have "list_all2 (same_public (\<lambda>s. s)) (demo_inputs ''chat-clara'') (demo_inputs ''chat-alice'')"
    by (simp add: demo_inputs_def) (simp add: same_public_def)
  then show ?thesis by (rule daemon_noninterference)
qed

text \<open>A source that yields one event per tick.\<close>

theorem graceful_shutdown_witness:
  "\<exists>s x. run_processing_loop (\<lambda>s. s) rev 100 demo_daemon (demo_inputs ''a'')
       (initial_loop (new_window_aggregator 10 0) 100 demo_daemon_state) = (s, Some x)
     \<and> concat (map (\<lambda>p. ctx_events (processed_context p)) (ls_processed s)) =
         map (sanitized_input (\<lambda>s. s)) [(''e'', demo_raw ''a''), (''e'', demo_raw ''k'')]"
proof -
  let ?poll = "\<lambda>i (p::unit). (p, [demo_raw i])"
  let ?t = "\<lambda>i sh. \<lparr>tk_source_input = i, tk_accepts = None, tk_shutdown = sh\<rparr>"
  have "\<forall>t \<in> set ([?t ''a'' RecvEmpty] @ [?t ''k'' RecvSignal]). tk_accepts t = None"
    "\<forall>t \<in> set [?t ''a'' RecvEmpty]. tk_shutdown t = RecvEmpty" "tk_shutdown (?t ''k'' RecvSignal) \<noteq> RecvEmpty"
    "map snd (raw_inputs (demo_inputs ''a'')) =
       fst (run_collection_loop ?poll ([?t ''a'' RecvEmpty] @ ?t ''k'' RecvSignal # []) ())"
    "PeRawChannelClosed \<in> it_event ` set (demo_inputs ''a'')"
    by (simp_all add: demo_inputs_def send_all_def)
  from graceful_shutdown [OF this, of "\<lambda>s. s" rev 100 demo_daemon 10 0 100 demo_daemon_state]
  obtain s x where "run_processing_loop (\<lambda>s. s) rev 100 demo_daemon (demo_inputs ''a'')
       (initial_loop (new_window_aggregator 10 0) 100 demo_daemon_state) = (s, Some x)"
    "concat (map (\<lambda>p. ctx_events (processed_context p)) (ls_processed s)) =
       map (sanitized_input (\<lambda>s. s)) (zip (map fst (raw_inputs (demo_inputs ''a'')))
         (polled ?poll ([?t ''a'' RecvEmpty] @ [?t ''k'' RecvSignal]) ()))" by blast
  moreover have "raw_inputs (demo_inputs ''a'') = [(''e'', demo_raw ''a''), (''e'', demo_raw ''k'')]"
    by (simp add: demo_inputs_def)
  ultimately show ?thesis by simp
qed

end
