(* ===== verification/Parsing.thy ===== *)
theory Parsing
  imports Prelude
begin

text \<open>
  The parts of the standard library's text processing that the readers of \<open>/proc\<close>, of JSON lines and
  of environment variables use: \<open>str::parse\<close> on integers, \<open>lines\<close>, \<open>split_whitespace\<close>, and
  the \<open>strip\<close>, \<open>find\<close> and \<open>split_once\<close> families. Strings are UTF-8 byte lists.

  The lemmas: parsing inverts printing, splitting inverts joining, and UTF-8 validity is additive at
  character boundaries.
\<close>

section \<open>Integers\<close>

definition digit_of :: "char \<Rightarrow> nat option" where
  "digit_of c = (let n = of_char c :: nat in if 48 \<le> n \<and> n \<le> 57 then Some (n - 48) else None)"

fun parse_digits :: "nat \<Rightarrow> string \<Rightarrow> nat option" where
  "parse_digits acc [] = Some acc"
| "parse_digits acc (c # cs) =
     (case digit_of c of None \<Rightarrow> None | Some d \<Rightarrow> parse_digits (acc * 10 + d) cs)"

text \<open>\<open>parse::<uN>\<close>: an optional plus sign, at least one digit, no overflow.\<close>

definition parse_uint :: "nat \<Rightarrow> string \<Rightarrow> nat option" where
  "parse_uint bound s =
     (let ds = (case s of CHR ''+'' # rest \<Rightarrow> rest | _ \<Rightarrow> s) in
      if ds = [] then None
      else case parse_digits 0 ds of None \<Rightarrow> None | Some n \<Rightarrow> if n < bound then Some n else None)"

definition parse_u8 :: "string \<Rightarrow> u8 option" where
  "parse_u8 s = map_option of_nat (parse_uint (2 ^ 8) s)"

definition parse_u32 :: "string \<Rightarrow> u32 option" where
  "parse_u32 s = map_option of_nat (parse_uint (2 ^ 32) s)"

definition parse_u64 :: "string \<Rightarrow> u64 option" where
  "parse_u64 s = map_option of_nat (parse_uint (2 ^ 64) s)"

definition parse_i32 :: "string \<Rightarrow> i32 option" where
  "parse_i32 s =
     (case s of
        CHR ''-'' # ds \<Rightarrow>
          (if ds = [] then None
           else case parse_digits 0 ds of None \<Rightarrow> None
                | Some n \<Rightarrow> if n \<le> 2 ^ 31 then Some (- int n) else None)
      | _ \<Rightarrow> map_option int (parse_uint (2 ^ 31) s))"

section \<open>Pieces of a string\<close>

definition is_ws_char :: "string \<Rightarrow> bool" where
  "is_ws_char ch = is_whitespace (utf8_decode ch)"

fun split_ws_chars :: "string \<Rightarrow> string list \<Rightarrow> string list" where
  "split_ws_chars cur [] = (if cur = [] then [] else [cur])"
| "split_ws_chars cur (ch # chs) =
     (if is_ws_char ch then (if cur = [] then [] else [cur]) @ split_ws_chars [] chs
      else split_ws_chars (cur @ ch) chs)"

definition split_whitespace :: "string \<Rightarrow> string list" where
  "split_whitespace s = split_ws_chars [] (utf8_split s)"

definition strip_cr :: "string \<Rightarrow> string" where
  "strip_cr l = (if l \<noteq> [] \<and> last l = CHR 0x0D then butlast l else l)"

text \<open>\<open>str::lines\<close>: a final newline ends the last line, it does not start an empty one.\<close>

definition str_lines :: "string \<Rightarrow> string list" where
  "str_lines s =
     (let ls = split_char (CHR 0x0A) s in
      map strip_cr (butlast ls) @ (if last ls = [] then [] else [strip_cr (last ls)]))"

definition trim_end_char :: "char \<Rightarrow> string \<Rightarrow> string" where
  "trim_end_char c s = rev (dropWhile (\<lambda>x. x = c) (rev s))"

definition strip_suffix :: "string \<Rightarrow> string \<Rightarrow> string option" where
  "strip_suffix s p = map_option rev (strip_prefix (rev s) (rev p))"

text \<open>\<open>split_once(c)\<close>: around the first occurrence.\<close>

definition split_once :: "char \<Rightarrow> string \<Rightarrow> (string \<times> string) option" where
  "split_once c s =
     (if c \<in> set s then Some (takeWhile (\<lambda>x. x \<noteq> c) s, tl (dropWhile (\<lambda>x. x \<noteq> c) s)) else None)"

text \<open>What follows the last occurrence of a character (\<open>rfind\<close>), if there is one.\<close>

definition after_last :: "char \<Rightarrow> string \<Rightarrow> string option" where
  "after_last c s = (if c \<in> set s then Some (rev (takeWhile (\<lambda>x. x \<noteq> c) (rev s))) else None)"

definition nth_opt :: "nat \<Rightarrow> 'a list \<Rightarrow> 'a option" where
  "nth_opt n xs = (if n < length xs then Some (xs ! n) else None)"

section \<open>UTF-8 validity\<close>

text \<open>One encoded character, by the ranges of the Unicode standard (no overlong form, no surrogate).\<close>

definition is_cont :: "nat \<Rightarrow> bool" where
  "is_cont n \<longleftrightarrow> 128 \<le> n \<and> n < 192"

definition valid_utf8_char :: "string \<Rightarrow> bool" where
  "valid_utf8_char ch =
     (case map of_char ch :: nat list of
        [a] \<Rightarrow> a < 128
      | [a, b] \<Rightarrow> 194 \<le> a \<and> a < 224 \<and> is_cont b
      | [a, b, c] \<Rightarrow> 224 \<le> a \<and> a < 240 \<and> is_cont b \<and> is_cont c
          \<and> (a = 224 \<longrightarrow> 160 \<le> b) \<and> (a = 237 \<longrightarrow> b < 160)
      | [a, b, c, d] \<Rightarrow> 240 \<le> a \<and> a < 245 \<and> is_cont b \<and> is_cont c \<and> is_cont d
          \<and> (a = 240 \<longrightarrow> 144 \<le> b) \<and> (a = 244 \<longrightarrow> b < 144)
      | _ \<Rightarrow> False)"

definition valid_utf8 :: "string \<Rightarrow> bool" where
  "valid_utf8 s = list_all valid_utf8_char (utf8_split s)"

lemma valid_utf8_char_width: "valid_utf8_char (b # bs) \<Longrightarrow> utf8_width b = Suc (length bs)"
  by (auto simp: valid_utf8_char_def utf8_width_def Let_def split: list.splits if_splits)

lemma utf8_split_append: "valid_utf8 s \<Longrightarrow> utf8_split (s @ t) = utf8_split s @ utf8_split t"
proof (induction s rule: utf8_split.induct)
  case (2 b bs)
  let ?k = "utf8_width b - 1"
  from "2.prems" have v: "valid_utf8_char (b # take ?k bs)" "valid_utf8 (drop ?k bs)"
    by (simp_all add: valid_utf8_def Let_def)
  then have "?k \<le> length bs" using valid_utf8_char_width [OF v(1)] by (simp split: if_splits)
  then show ?case using "2.IH" [OF refl v(2)] by (simp add: Let_def)
qed simp

lemma valid_utf8_append: "valid_utf8 s \<Longrightarrow> valid_utf8 (s @ t) = valid_utf8 t"
  using utf8_split_append [of s t] by (simp add: valid_utf8_def)

lemma utf8_split_ascii: "list_all (\<lambda>c. (of_char c :: nat) < 128) s \<Longrightarrow> utf8_split s = map (\<lambda>c. [c]) s"
  by (induction s) (simp_all add: utf8_width_def)

lemma valid_utf8_ascii: "is_ascii s \<Longrightarrow> valid_utf8 s"
  unfolding is_ascii_def by (simp add: valid_utf8_def utf8_split_ascii list_all_iff valid_utf8_char_def)

lemma valid_utf8_char_tail: "valid_utf8_char (b # bs) \<Longrightarrow> c \<in> set bs \<Longrightarrow> is_cont (of_char c)"
  by (auto simp: valid_utf8_char_def split: list.splits)

lemma valid_utf8_single: "valid_utf8_char ch \<Longrightarrow> valid_utf8 ch"
proof (cases ch)
  case (Cons b bs)
  assume v: "valid_utf8_char ch"
  with Cons have "utf8_width b = Suc (length bs)" using valid_utf8_char_width by simp
  with v Cons show ?thesis by (simp add: valid_utf8_def Let_def)
qed (simp add: valid_utf8_def)

section \<open>Splitting and printing\<close>

lemma split_char_append: "split_char d (s @ d # t) = split_char d s @ split_char d t"
  by (induction s) (auto split: list.splits)

lemma split_char_free: "d \<notin> set s \<Longrightarrow> split_char d s = [s]"
  by (induction s) auto

lemma after_last_append: "c \<notin> set t \<Longrightarrow> after_last c (s @ c # t) = Some t"
  by (simp add: after_last_def takeWhile_append)

lemma digit_of_show: "d < 10 \<Longrightarrow> digit_of (char_of (48 + d)) = Some d"
  by (simp add: digit_of_def Let_def)

lemma parse_digits_append:
  "parse_digits acc (s @ t) = (case parse_digits acc s of None \<Rightarrow> None | Some a \<Rightarrow> parse_digits a t)"
  by (induction s arbitrary: acc) (auto split: option.splits)

lemma parse_digits_show: "parse_digits 0 (show_nat n) = Some n"
proof (induction n rule: show_nat.induct)
  case (1 n)
  show ?case
  proof (cases "n < 10")
    case True
    then show ?thesis by (subst show_nat.simps) (simp add: digit_of_show)
  next
    case False
    with 1 show ?thesis by (subst show_nat.simps) (simp add: parse_digits_append digit_of_show)
  qed
qed

lemma parse_show_nat_digits: "c \<in> set (show_nat n) \<Longrightarrow> \<exists>d < (10::nat). c = char_of (48 + d)"
proof (induction n rule: show_nat.induct)
  case (1 n)
  show ?case
  proof (cases "n < 10")
    case True
    with "1.prems" show ?thesis by (subst (asm) show_nat.simps) auto
  next
    case False
    with "1.prems" "1.IH" show ?thesis by (subst (asm) show_nat.simps) (auto intro: exI [of _ "n mod 10"])
  qed
qed

lemma show_nat_not_Nil [simp]: "show_nat n \<noteq> []"
  by (subst show_nat.simps) simp

lemma parse_uint_show: "n < bound \<Longrightarrow> parse_uint bound (show_nat n) = Some n"
proof -
  assume b: "n < bound"
  obtain c cs where s: "show_nat n = c # cs" by (cases "show_nat n") simp_all
  with parse_show_nat_digits [of c n] obtain d :: nat where "d < 10" "c = char_of (48 + d)" by auto
  then have "of_char c = (48 + d :: nat)" by simp
  then have "c \<noteq> CHR ''+''" using \<open>d < 10\<close> by auto
  then have "(case show_nat n of CHR ''+'' # rest \<Rightarrow> rest | _ \<Rightarrow> show_nat n) = show_nat n"
    unfolding s by (auto split: list.splits char.splits bool.splits)
  then show ?thesis using b by (simp add: parse_uint_def Let_def parse_digits_show)
qed

end
