(* ===== verification/Json_Value.thy ===== *)
theory Json_Value
  imports BTree_Map Float
begin

text \<open>
  The JSON document type the code walks (\<open>serde_json::Value\<close>): its constructors, and the accessors
  \<open>get\<close>, \<open>as_str\<close>, \<open>as_i64\<close> and \<open>is_null\<close>. An object is a \<open>BTreeMap\<close> in key
  order. Parsing text into a document and a document into a typed value belong to the library: they
  are parameters wherever they are used.
\<close>

datatype json_number = PosInt u64 | NegInt i64 | NumFloat f64

datatype json =
    JNull
  | JBool bool
  | JNumber json_number
  | JString string
  | JArray "json list"
  | JObject "(string, json) btree_map"

fun json_get :: "string \<Rightarrow> json \<Rightarrow> json option" where
  "json_get k (JObject m) = btree_get m k"
| "json_get k _ = None"

fun json_as_str :: "json \<Rightarrow> string option" where
  "json_as_str (JString s) = Some s"
| "json_as_str _ = None"

fun json_as_i64 :: "json \<Rightarrow> i64 option" where
  "json_as_i64 (JNumber (PosInt n)) = (if uint n \<le> i64_max then Some (uint n) else None)"
| "json_as_i64 (JNumber (NegInt n)) = Some n"
| "json_as_i64 _ = None"

fun json_is_null :: "json \<Rightarrow> bool" where
  "json_is_null JNull = True"
| "json_is_null _ = False"

end
