(* ===== verification/Jsonl_Tailer.thy ===== *)
theory Jsonl_Tailer
  imports Parsing Json_Value Event_Types
begin

text \<open>
  The Android JSONL ingress (\<open>aios-collector/src/android_jsonl.rs\<close>): \<open>AndroidJsonlIngress\<close>
  turns one line into an envelope, \<open>AndroidJsonlTailer\<close> polls a growing file. The JSON parser and
  the deserialiser of \<open>RawEvent\<close> are parameters. What the operating system shows of the file
  during one poll is a \<open>file_view\<close>.

  The lemmas: after every successful or failed poll of an append-only file the tailer has consumed a
  valid UTF-8 prefix and holds exactly its unfinished last line; so the envelopes delivered do not
  depend on where the writer's flushes, or the polls, cut the file.
\<close>

section \<open>Lines to envelopes\<close>

definition SCHEMA_VERSION :: string where "SCHEMA_VERSION = ''dipecs.collector.v1''"
definition DEFAULT_SOURCE :: string where "DEFAULT_SOURCE = ''apps.android-collector''"
definition FIELD_RAW_EVENT :: string where "FIELD_RAW_EVENT = ''rawEvent''"
definition FIELD_SOURCE :: string where "FIELD_SOURCE = ''source''"
definition FIELD_EVENT_ID :: string where "FIELD_EVENT_ID = ''eventId''"
definition FIELD_TIMESTAMP_MS :: string where "FIELD_TIMESTAMP_MS = ''timestampMs''"

datatype android_jsonl_record = EmptyLine | NoRawEvent | EnvelopeRecord collector_envelope

fun into_envelope :: "android_jsonl_record \<Rightarrow> collector_envelope option" where
  "into_envelope (EnvelopeRecord e) = Some e"
| "into_envelope EmptyLine = None"
| "into_envelope NoRawEvent = None"

text \<open>An I/O error is invalid UTF-8 from \<open>read_to_string\<close> or the system's message.\<close>

datatype io_error = InvalidUtf8 | OsError string

datatype android_jsonl_error = JsonlIo io_error | JsonlJson string

record android_jsonl_ingress = aji_source_tier :: source_tier

definition android_jsonl_ingress_new :: android_jsonl_ingress where
  "android_jsonl_ingress_new = \<lparr>aji_source_tier = PublicApi\<rparr>"

definition raw_event_json :: "json \<Rightarrow> json option" where
  "raw_event_json v =
     (case json_get FIELD_RAW_EVENT v of
        Some r \<Rightarrow> if json_is_null r then None else Some r
      | None \<Rightarrow> None)"

definition parse_raw_event ::
  "(json \<Rightarrow> string + raw_event) \<Rightarrow> json \<Rightarrow> android_jsonl_error + raw_event" where
  "parse_raw_event from_value v =
     (case from_value v of Inl e \<Rightarrow> Inl (JsonlJson e) | Inr r \<Rightarrow> Inr r)"

definition nonblank_str :: "json option \<Rightarrow> string option" where
  "nonblank_str j =
     (case Option.bind j json_as_str of
        Some s \<Rightarrow> if trim s \<noteq> [] then Some s else None
      | None \<Rightarrow> None)"

definition collector_source :: "json \<Rightarrow> string" where
  "collector_source v = (case nonblank_str (json_get FIELD_SOURCE v) of Some s \<Rightarrow> s | None \<Rightarrow> DEFAULT_SOURCE)"

definition collector_event_id :: "json \<Rightarrow> string option" where
  "collector_event_id v = nonblank_str (json_get FIELD_EVENT_ID v)"

fun event_timestamp_ms :: "raw_event \<Rightarrow> i64 option" where
  "event_timestamp_ms (RawAppTransition e) = Some (atr_timestamp_ms e)"
| "event_timestamp_ms (RawBinderTransaction e) = Some (btx_timestamp_ms e)"
| "event_timestamp_ms (RawProcStateChange e) = Some (pse_timestamp_ms e)"
| "event_timestamp_ms (RawFileSystemAccess e) = Some (fsa_timestamp_ms e)"
| "event_timestamp_ms (RawNotificationPosted e) = Some (nr_timestamp_ms e)"
| "event_timestamp_ms (RawNotificationInteraction e) = Some (nir_timestamp_ms e)"
| "event_timestamp_ms (RawScreenState e) = Some (sse_timestamp_ms e)"
| "event_timestamp_ms (RawSystemState e) = Some (sys_timestamp_ms e)"

definition collector_timestamp_ms :: "json \<Rightarrow> raw_event \<Rightarrow> i64" where
  "collector_timestamp_ms v r =
     (case Option.bind (json_get FIELD_TIMESTAMP_MS v) json_as_i64 of
        Some t \<Rightarrow> t
      | None \<Rightarrow> (case event_timestamp_ms r of Some t \<Rightarrow> t | None \<Rightarrow> 0))"

definition parse_record ::
  "(string \<Rightarrow> string + json) \<Rightarrow> (json \<Rightarrow> string + raw_event) \<Rightarrow> android_jsonl_ingress \<Rightarrow> string
     \<Rightarrow> android_jsonl_error + android_jsonl_record" where
  "parse_record from_str from_value ing line =
     (if trim line = [] then Inr EmptyLine
      else case from_str line of
        Inl e \<Rightarrow> Inl (JsonlJson e)
      | Inr v \<Rightarrow>
          (case raw_event_json v of
             None \<Rightarrow> Inr NoRawEvent
           | Some rv \<Rightarrow>
               (case parse_raw_event from_value rv of
                  Inl e \<Rightarrow> Inl e
                | Inr r \<Rightarrow> Inr (EnvelopeRecord
                    \<lparr>env_schema_version = SCHEMA_VERSION,
                     env_source = collector_source v,
                     env_source_tier = aji_source_tier ing,
                     env_device_trace_id = collector_event_id v,
                     env_captured_at_ms = collector_timestamp_ms v r,
                     env_received_at_ms = None,
                     env_raw_event = r\<rparr>))))"

definition parse_line ::
  "(string \<Rightarrow> string + json) \<Rightarrow> (json \<Rightarrow> string + raw_event) \<Rightarrow> android_jsonl_ingress \<Rightarrow> string
     \<Rightarrow> android_jsonl_error + collector_envelope option" where
  "parse_line from_str from_value ing line =
     (case parse_record from_str from_value ing line of Inl e \<Rightarrow> Inl e | Inr r \<Rightarrow> Inr (into_envelope r))"

section \<open>The tailer\<close>

record jsonl_tailer =
  jt_path :: string
  jt_offset :: u64
  jt_partial_line :: string
  jt_ingress :: android_jsonl_ingress

definition tailer_new :: "string \<Rightarrow> jsonl_tailer" where
  "tailer_new path = \<lparr>jt_path = path, jt_offset = 0, jt_partial_line = [], jt_ingress = android_jsonl_ingress_new\<rparr>"

text \<open>The file as one poll finds it: absent, not openable, its metadata not readable, its bytes not
  readable (the length is known by then), or present with its bytes.\<close>

datatype file_view =
    FileMissing
  | OpenFailed string
  | MetadataFailed string
  | ReadFailed nat string
  | FilePresent string

definition offset_is_past_end :: "u64 \<Rightarrow> jsonl_tailer \<Rightarrow> bool" where
  "offset_is_past_end file_len t \<longleftrightarrow> file_len < jt_offset t"

definition reset_for_recreated_file :: "jsonl_tailer \<Rightarrow> jsonl_tailer" where
  "reset_for_recreated_file t = t\<lparr>jt_offset := 0, jt_partial_line := []\<rparr>"

text \<open>\<open>read_to_string\<close> from an offset: all of the remaining bytes, if they are UTF-8.\<close>

definition read_chunk_at_offset :: "string \<Rightarrow> u64 \<Rightarrow> jsonl_tailer \<Rightarrow> jsonl_tailer \<times> (android_jsonl_error + string)" where
  "read_chunk_at_offset content offset t =
     (let chunk = drop (unat offset) content in
      if valid_utf8 chunk
      then (t\<lparr>jt_offset := offset + of_nat (length chunk)\<rparr>, Inr chunk)
      else (t, Inl (JsonlIo InvalidUtf8)))"

definition first_visible :: "string \<Rightarrow> nat option" where
  "first_visible s = find (\<lambda>c. \<not> is_whitespace c) (chars s)"

definition should_rewind_after_chunk_read :: "u64 \<Rightarrow> string \<Rightarrow> jsonl_tailer \<Rightarrow> bool" where
  "should_rewind_after_chunk_read old_offset chunk t =
     (if old_offset = 0 \<or> jt_partial_line t \<noteq> [] then False
      else case first_visible chunk of None \<Rightarrow> False | Some c \<Rightarrow> c \<noteq> 123)"

definition read_new_chunk :: "file_view \<Rightarrow> jsonl_tailer \<Rightarrow> jsonl_tailer \<times> (android_jsonl_error + string option)" where
  "read_new_chunk view t =
     (case view of
        FileMissing \<Rightarrow> (t, Inr None)
      | OpenFailed e \<Rightarrow> (t, Inl (JsonlIo (OsError e)))
      | MetadataFailed e \<Rightarrow> (t, Inl (JsonlIo (OsError e)))
      | ReadFailed len e \<Rightarrow>
          (if offset_is_past_end (of_nat len) t then reset_for_recreated_file t else t,
           Inl (JsonlIo (OsError e)))
      | FilePresent content \<Rightarrow>
          (let t1 = (if offset_is_past_end (of_nat (length content)) t
                     then reset_for_recreated_file t else t);
               old_offset = jt_offset t1;
               (t2, r) = read_chunk_at_offset content old_offset t1 in
           case r of
             Inl e \<Rightarrow> (t2, Inl e)
           | Inr chunk \<Rightarrow>
               (let (t3, r3) =
                  (if should_rewind_after_chunk_read old_offset chunk t2
                   then read_chunk_at_offset content 0 (reset_for_recreated_file t2)
                   else (t2, Inr chunk)) in
                case r3 of
                  Inl e \<Rightarrow> (t3, Inl e)
                | Inr c \<Rightarrow> (t3, Inr (if c = [] then None else Some c)))))"

definition pending_with_new_chunk :: "string \<Rightarrow> jsonl_tailer \<Rightarrow> jsonl_tailer \<times> string" where
  "pending_with_new_chunk chunk t =
     (if jt_partial_line t = [] then (t, chunk)
      else (t\<lparr>jt_partial_line := []\<rparr>, jt_partial_line t @ chunk))"

abbreviation newline :: char where "newline \<equiv> CHR 0x0A"

text \<open>\<open>split_off\<close> after the last newline: what stays, and the unfinished line.\<close>

definition split_tail :: "string \<Rightarrow> string \<times> string" where
  "split_tail s =
     (case after_last newline s of
        Some tail \<Rightarrow> (take (length s - length tail) s, tail)
      | None \<Rightarrow> ([], s))"

definition lines_of :: "string \<Rightarrow> string list" where
  "lines_of s = map (trim_end_char (CHR 0x0D)) (filter (\<lambda>l. l \<noteq> []) (split_char newline s))"

definition take_complete_lines :: "string \<Rightarrow> jsonl_tailer \<Rightarrow> jsonl_tailer \<times> string list" where
  "take_complete_lines chunk t =
     (let (t1, pending) = pending_with_new_chunk chunk t;
          has_partial_tail = \<not> (pending \<noteq> [] \<and> last pending = newline) in
      if has_partial_tail
      then (let (complete, tail) = split_tail pending in
            (t1\<lparr>jt_partial_line := tail\<rparr>, lines_of complete))
      else (t1, lines_of pending))"

fun parse_complete_lines ::
  "(string \<Rightarrow> string + json) \<Rightarrow> (json \<Rightarrow> string + raw_event) \<Rightarrow> android_jsonl_ingress \<Rightarrow> string list
     \<Rightarrow> android_jsonl_error + collector_envelope list" where
  "parse_complete_lines from_str from_value ing [] = Inr []"
| "parse_complete_lines from_str from_value ing (l # ls) =
     (case parse_line from_str from_value ing (trim_end_char (CHR 0x0D) l) of
        Inl e \<Rightarrow> Inl e
      | Inr oe \<Rightarrow>
          (case parse_complete_lines from_str from_value ing ls of
             Inl e \<Rightarrow> Inl e
           | Inr es \<Rightarrow> Inr (case oe of None \<Rightarrow> es | Some e \<Rightarrow> e # es)))"

definition tailer_poll ::
  "(string \<Rightarrow> string + json) \<Rightarrow> (json \<Rightarrow> string + raw_event) \<Rightarrow> jsonl_tailer \<Rightarrow> file_view
     \<Rightarrow> jsonl_tailer \<times> (android_jsonl_error + collector_envelope list)" where
  "tailer_poll from_str from_value t view =
     (let (t1, r) = read_new_chunk view t in
      case r of
        Inl e \<Rightarrow> (t1, Inl e)
      | Inr None \<Rightarrow> (t1, Inr [])
      | Inr (Some chunk) \<Rightarrow>
          (let (t2, ls) = take_complete_lines chunk t1 in
           (t2, parse_complete_lines from_str from_value (jt_ingress t2) ls)))"

section \<open>Finished and unfinished lines of what was read\<close>

definition tail_of :: "string \<Rightarrow> string" where
  "tail_of s = rev (takeWhile (\<lambda>x. x \<noteq> newline) (rev s))"

definition head_of :: "string \<Rightarrow> string" where
  "head_of s = rev (dropWhile (\<lambda>x. x \<noteq> newline) (rev s))"

lemma head_tail: "head_of s @ tail_of s = s"
proof -
  have "rev s = takeWhile (\<lambda>x. x \<noteq> newline) (rev s) @ dropWhile (\<lambda>x. x \<noteq> newline) (rev s)" by simp
  then show ?thesis unfolding head_of_def tail_of_def by (metis rev_append rev_rev_ident)
qed

lemma tail_of_free: "newline \<notin> set (tail_of s)"
  by (auto simp: tail_of_def dest: set_takeWhileD)

lemma head_of_cases:
  obtains "head_of s = []" | x where "head_of s = x @ [newline]"
proof (cases "dropWhile (\<lambda>x. x \<noteq> newline) (rev s)")
  case Nil
  then show ?thesis using that by (simp add: head_of_def)
next
  case (Cons a xs)
  then have "a = newline" by (metis (mono_tags, lifting) hd_dropWhile list.distinct(1) list.sel(1))
  with Cons show ?thesis using that by (simp add: head_of_def)
qed

lemma tail_of_append: "tail_of (s @ u) = tail_of (tail_of s @ u)"
  by (auto simp: tail_of_def takeWhile_append)

lemma head_of_append: "head_of (s @ u) = head_of s @ head_of (tail_of s @ u)"
proof -
  have "head_of (s @ u) @ tail_of (s @ u) = (head_of s @ tail_of s) @ u"
    by (simp only: head_tail)
  also have "\<dots> = head_of s @ (head_of (tail_of s @ u) @ tail_of (tail_of s @ u))"
    by (metis head_tail append_assoc)
  finally show ?thesis by (simp add: tail_of_append [of s u])
qed

lemma split_tail_eq: "split_tail s = (head_of s, tail_of s)"
proof (cases "newline \<in> set s")
  case True
  have "length s = length (head_of s) + length (tail_of s)" by (metis head_tail length_append)
  then have "take (length s - length (tail_of s)) s = head_of s"
    by (metis add_diff_cancel_right' append_eq_conv_conj head_tail)
  with True show ?thesis by (simp add: split_tail_def after_last_def tail_of_def)
next
  case False
  then have "takeWhile (\<lambda>x. x \<noteq> newline) (rev s) = rev s"
    unfolding takeWhile_eq_all_conv by auto
  then have "tail_of s = s" by (simp only: tail_of_def rev_rev_ident)
  moreover from this have "head_of s = []" using head_tail [of s] by simp
  ultimately show ?thesis using False by (simp add: split_tail_def after_last_def)
qed

lemma lines_of_head: "lines_of (head_of s @ u) = lines_of (head_of s) @ lines_of u"
proof (cases s rule: head_of_cases)
  case (2 x)
  then show ?thesis by (simp add: lines_of_def split_char_append)
qed (simp add: lines_of_def)

lemma tail_of_Nil_iff: "tail_of s = [] \<longleftrightarrow> s = [] \<or> last s = newline"
  by (cases s rule: rev_cases) (simp_all add: tail_of_def)

lemma head_of_complete: "last s = newline \<Longrightarrow> s \<noteq> [] \<Longrightarrow> head_of s = s"
  using head_tail [of s] tail_of_Nil_iff [of s] by simp

text \<open>One step of the line splitter: it hands out the lines finished since, and keeps the rest.\<close>

lemma take_complete_lines_step:
  assumes "jt_partial_line t = tail_of s" "chunk \<noteq> []"
  obtains ls where
    "take_complete_lines chunk t = (t\<lparr>jt_partial_line := tail_of (s @ chunk)\<rparr>, ls)"
    "lines_of (head_of (s @ chunk)) = lines_of (head_of s) @ ls"
proof -
  let ?p = "tail_of s @ chunk"
  have p: "pending_with_new_chunk chunk t = (t\<lparr>jt_partial_line := []\<rparr>, ?p)"
    using assms(1) by (cases t) (auto simp: pending_with_new_chunk_def)
  have "take_complete_lines chunk t =
      (t\<lparr>jt_partial_line := tail_of (s @ chunk)\<rparr>, lines_of (head_of ?p))"
  proof (cases "last ?p = newline")
    case True
    with assms(2) show ?thesis
      using tail_of_Nil_iff [of ?p] tail_of_append [of s chunk]
      by (simp add: take_complete_lines_def p head_of_complete)
  next
    case False
    then show ?thesis
      using tail_of_append [of s chunk] by (simp add: take_complete_lines_def p split_tail_eq)
  qed
  moreover have "lines_of (head_of (s @ chunk)) = lines_of (head_of s) @ lines_of (head_of ?p)"
    unfolding head_of_append [of s chunk] by (rule lines_of_head)
  ultimately show ?thesis by (rule that)
qed

lemma parse_complete_lines_append:
  "parse_complete_lines fs fv ing (as @ bs) =
     (case parse_complete_lines fs fv ing as of
        Inl e \<Rightarrow> Inl e
      | Inr es \<Rightarrow> (case parse_complete_lines fs fv ing bs of Inl e \<Rightarrow> Inl e | Inr es' \<Rightarrow> Inr (es @ es')))"
  by (induction as) (auto split: sum.splits option.splits)

section \<open>An append-only file\<close>

text \<open>What the polls may see of a file whose final bytes are \<open>c\<close>, of which \<open>n\<close> were visible
  before: longer and longer prefixes, with any failures in between.\<close>

fun append_only :: "string \<Rightarrow> nat \<Rightarrow> file_view list \<Rightarrow> bool" where
  "append_only c n [] = True"
| "append_only c n (FilePresent s # vs) \<longleftrightarrow>
     n \<le> length s \<and> s = take (length s) c \<and> append_only c (length s) vs"
| "append_only c n (ReadFailed len e # vs) \<longleftrightarrow> n \<le> len \<and> len \<le> length c \<and> append_only c len vs"
| "append_only c n (_ # vs) = append_only c n vs"

text \<open>The writer's format: from the start of every line on, the first visible character opens an
  object.\<close>

fun line_starts :: "string \<Rightarrow> string list" where
  "line_starts [] = []"
| "line_starts (c # cs) = (if c = newline then cs # line_starts cs else line_starts cs)"

definition object_lines :: "string \<Rightarrow> bool" where
  "object_lines c = list_all (\<lambda>t. first_visible t = None \<or> first_visible t = Some 123) (line_starts c)"

fun delivered :: "android_jsonl_error + collector_envelope list \<Rightarrow> collector_envelope list" where
  "delivered (Inl e) = []"
| "delivered (Inr es) = es"

lemma line_starts_mem: "t \<in> set (line_starts (s @ newline # t))"
  by (induction s) auto

lemma first_visible_Nil [simp]: "first_visible [] = None"
  by (simp add: first_visible_def chars_def)

lemma first_visible_prefix:
  "valid_utf8 u \<Longrightarrow> first_visible u = Some k \<Longrightarrow> first_visible (u @ v) = Some k"
  by (auto simp: first_visible_def chars_def utf8_split_append find_Some_iff nth_append)

text \<open>The tailer has consumed the first \<open>n\<close> bytes.\<close>

definition consumed :: "string \<Rightarrow> nat \<Rightarrow> jsonl_tailer \<Rightarrow> bool" where
  "consumed c n t \<longleftrightarrow> n \<le> length c \<and> unat (jt_offset t) = n \<and> valid_utf8 (take n c)
     \<and> jt_partial_line t = tail_of (take n c) \<and> jt_ingress t = android_jsonl_ingress_new"

lemma consumed_no_rewind:
  assumes "object_lines c" "consumed c n t" "n \<le> m" "valid_utf8 (drop n (take m c))"
    "jt_partial_line t' = jt_partial_line t"
  shows "\<not> should_rewind_after_chunk_read (jt_offset t) (drop n (take m c)) t'"
proof
  assume r: "should_rewind_after_chunk_read (jt_offset t) (drop n (take m c)) t'"
  let ?u = "drop n (take m c)"
  from r obtain k where k: "jt_offset t \<noteq> 0" "jt_partial_line t = []" "first_visible ?u = Some k" "k \<noteq> 123"
    using assms(5) by (auto simp: should_rewind_after_chunk_read_def split: if_splits option.splits)
  from k(1) have "unat (jt_offset t) \<noteq> 0" by (simp add: unat_eq_zero)
  with assms(2) have ne: "take n c \<noteq> []" "n \<le> length c" unfolding consumed_def by auto
  with k(2) assms(2) have "last (take n c) = newline"
    using tail_of_Nil_iff [of "take n c"] unfolding consumed_def by metis
  with ne(1) have "take n c = butlast (take n c) @ [newline]" by (metis append_butlast_last_id)
  then have c: "c = butlast (take n c) @ newline # drop n c"
    by (metis append.assoc append_Cons append_Nil append_take_drop_id)
  from assms(3) have "drop n c = ?u @ drop m c"
    by (metis append_take_drop_id drop_append drop_take take_drop linordered_semidom_class.add_diff_inverse
        drop_drop add.commute le_add_diff_inverse)
  with k(3) assms(4) have "first_visible (drop n c) = Some k" by (simp add: first_visible_prefix)
  with assms(1) k(4) line_starts_mem [of "drop n c" "butlast (take n c)"] c show False
    by (auto simp: object_lines_def list_all_iff)
qed

lemma consumed_not_past_end:
  "consumed c n t \<Longrightarrow> n \<le> m \<Longrightarrow> m \<le> length c \<Longrightarrow> length c < 2 ^ 64
     \<Longrightarrow> \<not> offset_is_past_end (of_nat m) t"
  by (simp add: consumed_def offset_is_past_end_def word_less_nat_alt unat_of_nat)

text \<open>A poll that sees \<open>m\<close> bytes either stops at a cut character and changes nothing, or
  consumes all of them and delivers the lines they finish.\<close>

lemma poll_prefix:
  assumes c: "object_lines c" "length c < 2 ^ 64" and t: "consumed c n t" and m: "n \<le> m" "m \<le> length c"
    and ok: "parse_complete_lines fs fv android_jsonl_ingress_new (lines_of (head_of (take m c))) = Inr es"
      "parse_complete_lines fs fv android_jsonl_ingress_new (lines_of (head_of (take n c))) = Inr es0"
  shows "\<exists>t' r. tailer_poll fs fv t (FilePresent (take m c)) = (t', r)
    \<and> (r = Inl (JsonlIo InvalidUtf8) \<and> t' = t \<and> \<not> valid_utf8 (take m c)
        \<or> (\<exists>d. r = Inr d \<and> es = es0 @ d \<and> consumed c m t'))"
proof (cases "valid_utf8 (drop n (take m c))")
  case False
  have o: "unat (jt_offset t) = n" "valid_utf8 (take n c)" using t by (simp_all add: consumed_def)
  have "take m c = take n c @ drop n (take m c)" using m(1) by (metis append_take_drop_id min.absorb1 take_take)
  with o(2) False have "\<not> valid_utf8 (take m c)" using valid_utf8_append by metis
  with False show ?thesis
    using consumed_not_past_end [OF t m c(2)] m(2)
    by (simp add: tailer_poll_def read_new_chunk_def read_chunk_at_offset_def o)
next
  case True
  let ?u = "drop n (take m c)"
  let ?t1 = "t\<lparr>jt_offset := jt_offset t + of_nat (length ?u)\<rparr>"
  have o: "unat (jt_offset t) = n" "valid_utf8 (take n c)" "jt_partial_line t = tail_of (take n c)"
      "jt_ingress t = android_jsonl_ingress_new"
    using t by (simp_all add: consumed_def)
  have mc: "take m c = take n c @ ?u" using m(1) by (metis append_take_drop_id min.absorb1 take_take)
  have v: "valid_utf8 (take m c)" using o(2) True mc valid_utf8_append by metis
  have nr: "\<not> should_rewind_after_chunk_read (jt_offset t) ?u ?t1"
    by (rule consumed_no_rewind [OF c(1) t m(1) True]) simp
  have r: "read_new_chunk (FilePresent (take m c)) t = (?t1, Inr (if ?u = [] then None else Some ?u))"
    using consumed_not_past_end [OF t m c(2)] m(2) True nr
    by (simp add: read_new_chunk_def read_chunk_at_offset_def o)
  have "jt_offset t = of_nat n" by (simp add: o(1) [symmetric])
  moreover have "n + length ?u = m" using m by simp
  ultimately have "jt_offset t + of_nat (length ?u) = of_nat m" by (metis of_nat_add)
  then have o1: "unat (jt_offset ?t1) = m" using m(2) c(2) by (simp add: unat_of_nat)
  show ?thesis
  proof (cases "?u = []")
    case True
    then have "take m c = take n c" "m = n" using mc m by (simp_all add: min_def split: if_splits)
    with True r t ok o1 show ?thesis by (auto simp: tailer_poll_def consumed_def)
  next
    case False
    obtain ls where ls: "take_complete_lines ?u ?t1 = (?t1\<lparr>jt_partial_line := tail_of (take n c @ ?u)\<rparr>, ls)"
        "lines_of (head_of (take n c @ ?u)) = lines_of (head_of (take n c)) @ ls"
      by (rule take_complete_lines_step [of ?t1 "take n c" ?u]) (use False o(3) in simp_all)
    from ok ls(2) obtain d where d: "parse_complete_lines fs fv android_jsonl_ingress_new ls = Inr d" "es = es0 @ d"
      unfolding mc [symmetric] by (auto simp: parse_complete_lines_append split: sum.splits)
    have "consumed c m (?t1\<lparr>jt_partial_line := tail_of (take n c @ ?u)\<rparr>)"
      using o1 v m(2) o(4) unfolding mc [symmetric] by (simp add: consumed_def)
    with d r ls(1) False o(4) show ?thesis by (simp add: tailer_poll_def)
  qed
qed

lemma parse_head_prefix:
  assumes "parse_complete_lines fs fv ing (lines_of (head_of c)) = Inr all"
  obtains es where "parse_complete_lines fs fv ing (lines_of (head_of (take m c))) = Inr es"
proof -
  have "lines_of (head_of c) = lines_of (head_of (take m c)) @ lines_of (head_of (tail_of (take m c) @ drop m c))"
    using head_of_append [of "take m c" "drop m c"] by (simp add: lines_of_head)
  with assms show ?thesis by (auto simp: parse_complete_lines_append split: sum.splits intro: that)
qed

lemma tailer_poll_nothing [simp]:
  "tailer_poll fs fv t FileMissing = (t, Inr [])"
  "tailer_poll fs fv t (OpenFailed e) = (t, Inl (JsonlIo (OsError e)))"
  "tailer_poll fs fv t (MetadataFailed e) = (t, Inl (JsonlIo (OsError e)))"
  by (simp_all add: tailer_poll_def read_new_chunk_def)

lemma polls_append_only:
  assumes "object_lines c" "length c < 2 ^ 64"
    "parse_complete_lines fs fv android_jsonl_ingress_new (lines_of (head_of c)) = Inr all"
  shows "append_only c k vs \<Longrightarrow> consumed c n t \<Longrightarrow> n \<le> k \<Longrightarrow> k \<le> length c
    \<Longrightarrow> parse_complete_lines fs fv android_jsonl_ingress_new (lines_of (head_of (take n c))) = Inr es0
    \<Longrightarrow> \<exists>n'. consumed c n' (fst (map_state (tailer_poll fs fv) t vs))
        \<and> parse_complete_lines fs fv android_jsonl_ingress_new (lines_of (head_of (take n' c)))
            = Inr (es0 @ concat (map delivered (snd (map_state (tailer_poll fs fv) t vs))))"
proof (induction vs arbitrary: k n t es0)
  case Nil
  then show ?case by auto
next
  case (Cons v vs)
  note proj = map_state_proj map_state.simps(1)
  show ?case
  proof (cases v)
    case (FilePresent s)
    let ?m = "length s"
    from Cons.prems(1) FilePresent have v: "k \<le> ?m" "s = take ?m c" "append_only c ?m vs" by auto
    from v(2) have len: "?m \<le> length c" by (metis length_take min.cobounded1)
    from v(1) Cons.prems(3) have nm: "n \<le> ?m" by simp
    obtain es where es: "parse_complete_lines fs fv android_jsonl_ingress_new (lines_of (head_of (take ?m c))) = Inr es"
      by (rule parse_head_prefix [OF assms(3)])
    obtain t' r where p: "tailer_poll fs fv t v = (t', r)"
      "r = Inl (JsonlIo InvalidUtf8) \<and> t' = t \<or> (\<exists>d. r = Inr d \<and> es = es0 @ d \<and> consumed c ?m t')"
      using poll_prefix [OF assms(1,2) Cons.prems(2) nm len es Cons.prems(5)] v(2) FilePresent by metis
    from p(2) show ?thesis
    proof
      assume "r = Inl (JsonlIo InvalidUtf8) \<and> t' = t"
      then show ?thesis
        using Cons.IH [OF v(3) Cons.prems(2) nm len Cons.prems(5)] p(1)
        by (simp add: proj del: map_state.simps(2))
    next
      assume "\<exists>d. r = Inr d \<and> es = es0 @ d \<and> consumed c ?m t'"
      then obtain d where d: "r = Inr d" "es = es0 @ d" "consumed c ?m t'" by blast
      from Cons.IH [OF v(3) d(3) order.refl len es] d(1,2) p(1) show ?thesis
        by (simp add: proj del: map_state.simps(2))
    qed
  next
    case (ReadFailed len e)
    with Cons.prems have len: "k \<le> len" "len \<le> length c" "append_only c len vs" by auto
    with Cons.prems(3) have nl: "n \<le> len" by simp
    then have "tailer_poll fs fv t v = (t, Inl (JsonlIo (OsError e)))"
      using consumed_not_past_end [OF Cons.prems(2) _ len(2) assms(2)] ReadFailed
      by (simp add: tailer_poll_def read_new_chunk_def)
    with Cons.IH [OF len(3) Cons.prems(2) nl len(2) Cons.prems(5)] show ?thesis
      by (simp add: proj del: map_state.simps(2))
  qed (use Cons in \<open>simp_all add: proj del: map_state.simps(2)\<close>)
qed

lemma consumed_new: "consumed c 0 (tailer_new path)"
  by (simp add: consumed_def tailer_new_def tail_of_def valid_utf8_def)

lemma tailer_delivers:
  assumes "object_lines c" "valid_utf8 c" "length c < 2 ^ 64"
    and "parse_complete_lines fs fv android_jsonl_ingress_new (lines_of (head_of c)) = Inr es"
    and "append_only c 0 vs"
    and "map_state (tailer_poll fs fv) (tailer_new path) (vs @ [FilePresent c]) = (t, rs)"
  shows "concat (map delivered rs) = es \<and> jt_partial_line t = tail_of c \<and> unat (jt_offset t) = length c"
proof -
  let ?f = "tailer_poll fs fv"
  have 0: "parse_complete_lines fs fv android_jsonl_ingress_new (lines_of (head_of (take 0 c))) = Inr []"
    by (simp add: head_of_def lines_of_def)
  obtain t1 rs1 where 1: "map_state ?f (tailer_new path) vs = (t1, rs1)" by fastforce
  obtain n where n: "consumed c n t1"
    "parse_complete_lines fs fv android_jsonl_ingress_new (lines_of (head_of (take n c))) = Inr (concat (map delivered rs1))"
    using polls_append_only [OF assms(1,3,4,5) consumed_new [of c path] _ _ 0] 1 by auto
  then have le: "n \<le> length c" by (simp add: consumed_def)
  obtain d where d: "?f t1 (FilePresent c) = (t, Inr d)" "es = concat (map delivered rs1) @ d" "consumed c (length c) t"
      "rs = rs1 @ [Inr d]"
    using poll_prefix [OF assms(1,3) n(1) le order.refl _ n(2)] assms(2,4,6) 1
    by (auto simp: map_state_append)
  then show ?thesis by (simp add: consumed_def)
qed

lemma append_only_mono: "append_only c k vs \<Longrightarrow> n \<le> k \<Longrightarrow> append_only c n vs"
proof (induction vs)
  case (Cons v vs)
  then show ?case by (cases v) auto
qed simp

lemma append_only_skip: "append_only c n (v # vs) \<Longrightarrow> append_only c n vs"
  by (cases v) (auto intro: append_only_mono)

lemma append_only_subseq: "subseq us vs \<Longrightarrow> append_only c n vs \<Longrightarrow> append_only c n us"
proof (induction arbitrary: n rule: list_emb.induct)
  case (list_emb_Cons us vs v)
  then show ?case by (blast dest: append_only_skip)
next
  case (list_emb_Cons2 u v us vs)
  then show ?case by (cases v) auto
qed simp

section \<open>Properties\<close>

text \<open>C23: polling an append-only file whose finished lines are all well-formed (UTF-8, and every finished line
  parses to an envelope) delivers every finished line's envelope exactly once and in file order, however the
  polls cut the file (inside a line, inside a character) and whatever failures to open, seek or read come
  between: once a poll has seen the whole file, the envelopes of all successful polls together are the ones of
  the file's finished lines, and the tailer holds the unfinished line. The hypothesis is needed: a malformed
  line makes its poll fail after the offset has moved, and the well-formed lines read with it are lost.\<close>

theorem tailer_exactly_once:
  assumes "object_lines c" "valid_utf8 c" "length c < 2 ^ 64"
    and "parse_complete_lines fs fv android_jsonl_ingress_new (lines_of (head_of c)) = Inr es"
    and "append_only c 0 vs"
    and "map_state (tailer_poll fs fv) (tailer_new path) (vs @ [FilePresent c]) = (t, rs)"
  shows "concat (map delivered rs) = es \<and> jt_partial_line t = tail_of c \<and> unat (jt_offset t) = length c"
  using assms by (rule tailer_delivers)

definition jsonl_demo_from_str :: "string \<Rightarrow> string + json" where
  "jsonl_demo_from_str s =
     (if s = ''{!}'' then Inl ''expected value''
      else Inr (JObject [(''eventId'', JString s), (''rawEvent'', JBool True)]))"

definition jsonl_demo_from_value :: "json \<Rightarrow> string + raw_event" where
  "jsonl_demo_from_value v = Inr (RawScreenState \<lparr>sse_timestamp_ms = 7, sse_state = Interactive\<rparr>)"

definition jsonl_demo_file :: string where
  "jsonl_demo_file = ''{'' @ [CHR 0xC3, CHR 0xA9] @ ''}'' @ [newline] @ ''{''"

definition jsonl_demo_line :: string where
  "jsonl_demo_line = ''{'' @ [CHR 0xC3, CHR 0xA9] @ ''}''"

definition jsonl_demo_envelope :: collector_envelope where
  "jsonl_demo_envelope =
     \<lparr>env_schema_version = ''dipecs.collector.v1'', env_source = ''apps.android-collector'',
      env_source_tier = PublicApi,
      env_device_trace_id = Some jsonl_demo_line, env_captured_at_ms = 7,
      env_received_at_ms = None,
      env_raw_event = RawScreenState \<lparr>sse_timestamp_ms = 7, sse_state = Interactive\<rparr>\<rparr>"

lemma jsonl_demo_head: "lines_of (head_of jsonl_demo_file) = [jsonl_demo_line]" by code_simp

lemma jsonl_demo_line_shape:
  "trim_end_char (CHR 0x0D) jsonl_demo_line = jsonl_demo_line"
  "trim jsonl_demo_line = jsonl_demo_line" "jsonl_demo_line \<noteq> []" "jsonl_demo_line \<noteq> ''{!}''"
  by (simp_all add: jsonl_demo_line_def trim_end_char_def trim_def utf8_width_def utf8_decode_def
      is_whitespace_def)

lemmas jsonl_demo_lines = jsonl_demo_head jsonl_demo_line_shape

lemmas jsonl_demo_parse = parse_line_def parse_record_def raw_event_json_def parse_raw_event_def
  collector_source_def collector_event_id_def collector_timestamp_ms_def nonblank_str_def
  android_jsonl_ingress_new_def FIELD_RAW_EVENT_def FIELD_SOURCE_def FIELD_EVENT_ID_def
  FIELD_TIMESTAMP_MS_def SCHEMA_VERSION_def DEFAULT_SOURCE_def btree_get_def
  jsonl_demo_from_str_def jsonl_demo_from_value_def

lemma jsonl_demo_valid: "object_lines jsonl_demo_file" "valid_utf8 jsonl_demo_file"
  by (simp_all add: jsonl_demo_file_def object_lines_def first_visible_def chars_def utf8_width_def
        utf8_decode_def is_whitespace_def valid_utf8_def valid_utf8_char_def is_cont_def)

lemma jsonl_demo_parsed:
  "parse_complete_lines jsonl_demo_from_str jsonl_demo_from_value android_jsonl_ingress_new
     (lines_of (head_of jsonl_demo_file)) = Inr [jsonl_demo_envelope]"
  by (simp add: jsonl_demo_lines jsonl_demo_parse jsonl_demo_envelope_def)

text \<open>The first poll cuts the two-byte character, the second fails, the third ends inside the line.\<close>

theorem tailer_exactly_once_witness:
  "concat (map delivered (snd (map_state (tailer_poll jsonl_demo_from_str jsonl_demo_from_value)
      (tailer_new ''actions.jsonl'')
      ([FilePresent (take 2 jsonl_demo_file), ReadFailed 3 ''EIO'', FilePresent (take 4 jsonl_demo_file)]
        @ [FilePresent jsonl_demo_file])))) = [jsonl_demo_envelope]"
proof -
  let ?vs = "[FilePresent (take 2 jsonl_demo_file), ReadFailed 3 ''EIO'', FilePresent (take 4 jsonl_demo_file)]"
  let ?r = "map_state (tailer_poll jsonl_demo_from_str jsonl_demo_from_value) (tailer_new ''actions.jsonl'')
      (?vs @ [FilePresent jsonl_demo_file])"
  have "object_lines jsonl_demo_file" "valid_utf8 jsonl_demo_file" by (fact jsonl_demo_valid)+
  moreover have "length jsonl_demo_file < 2 ^ 64" "append_only jsonl_demo_file 0 ?vs"
    by (simp_all add: jsonl_demo_file_def)
  moreover note jsonl_demo_parsed
  moreover have "?r = (fst ?r, snd ?r)" by simp
  ultimately have "concat (map delivered (snd ?r)) = [jsonl_demo_envelope]
      \<and> jt_partial_line (fst ?r) = tail_of jsonl_demo_file \<and> unat (jt_offset (fst ?r)) = length jsonl_demo_file"
    by (intro tailer_exactly_once)
  then show ?thesis by simp
qed

text \<open>One malformed line costs its whole batch: when a finished line of a file does not parse,
  the poll that reads it returns the error and no envelope, and has moved past the file, so that the
  next poll of the unchanged file returns no envelope either.\<close>

theorem malformed_line_drops_batch:
  assumes "valid_utf8 c" "length c < 2 ^ 64"
    and "parse_complete_lines fs fv android_jsonl_ingress_new (lines_of (head_of c)) = Inl e"
  shows "\<exists>t. tailer_poll fs fv (tailer_new path) (FilePresent c) = (t, Inl e)
    \<and> tailer_poll fs fv t (FilePresent c) = (t, Inr [])"
proof -
  let ?t0 = "tailer_new path"
  let ?t1 = "?t0\<lparr>jt_offset := of_nat (length c)\<rparr>"
  have ne: "c \<noteq> []" using assms(3) by (auto simp: head_of_def lines_of_def)
  have r: "read_new_chunk (FilePresent c) ?t0 = (?t1, Inr (Some c))"
    using ne assms(1) by (simp add: read_new_chunk_def offset_is_past_end_def tailer_new_def
        read_chunk_at_offset_def should_rewind_after_chunk_read_def)
  obtain ls where ls: "take_complete_lines c ?t1 = (?t1\<lparr>jt_partial_line := tail_of ([] @ c)\<rparr>, ls)"
      "lines_of (head_of ([] @ c)) = lines_of (head_of []) @ ls"
    by (rule take_complete_lines_step [of ?t1 "[]" c]) (use ne in \<open>simp_all add: tailer_new_def tail_of_def\<close>)
  then have "lines_of (head_of c) = ls" by (simp add: head_of_def lines_of_def)
  then have "tailer_poll fs fv ?t0 (FilePresent c) = (?t1\<lparr>jt_partial_line := tail_of c\<rparr>, Inl e)"
    using r ls(1) assms(3) by (simp add: tailer_poll_def tailer_new_def)
  moreover have "tailer_poll fs fv (?t1\<lparr>jt_partial_line := tail_of c\<rparr>) (FilePresent c) =
      (?t1\<lparr>jt_partial_line := tail_of c\<rparr>, Inr [])"
    using assms(2) by (simp add: tailer_poll_def read_new_chunk_def offset_is_past_end_def tailer_new_def
        read_chunk_at_offset_def should_rewind_after_chunk_read_def unat_of_nat valid_utf8_def Let_def)
  ultimately show ?thesis by blast
qed

definition jsonl_bad_file :: string where
  "jsonl_bad_file = ''{1}'' @ [newline] @ ''{!}'' @ [newline] @ ''{2}'' @ [newline]"

lemma jsonl_bad_head: "lines_of (head_of jsonl_bad_file) = [''{1}'', ''{!}'', ''{2}'']" by code_simp

lemma jsonl_trim_1: "trim ''{1}'' = ''{1}''"
  by (simp add: trim_def utf8_width_def utf8_decode_def is_whitespace_def)
lemma jsonl_trim_bad: "trim ''{!}'' = ''{!}''"
  by (simp add: trim_def utf8_width_def utf8_decode_def is_whitespace_def)

lemma jsonl_bad_trim: "trim_end_char (CHR 0x0D) ''{1}'' = ''{1}''" "trim_end_char (CHR 0x0D) ''{!}'' = ''{!}''"
  by (simp_all add: trim_end_char_def)

lemmas jsonl_bad_lines = jsonl_bad_head jsonl_trim_1 jsonl_trim_bad jsonl_bad_trim

theorem malformed_line_drops_batch_witness:
  "\<exists>t. tailer_poll jsonl_demo_from_str jsonl_demo_from_value (tailer_new ''p'') (FilePresent jsonl_bad_file) =
        (t, Inl (JsonlJson ''expected value''))
    \<and> tailer_poll jsonl_demo_from_str jsonl_demo_from_value t (FilePresent jsonl_bad_file) = (t, Inr [])"
proof (rule malformed_line_drops_batch)
  show "valid_utf8 jsonl_bad_file" by code_simp
  show "length jsonl_bad_file < 2 ^ 64" by (simp add: jsonl_bad_file_def)
  show "parse_complete_lines jsonl_demo_from_str jsonl_demo_from_value android_jsonl_ingress_new
      (lines_of (head_of jsonl_bad_file)) = Inl (JsonlJson ''expected value'')"
    by (simp add: jsonl_bad_lines jsonl_demo_parse)
qed

text \<open>A file that has become shorter than what was read is read as a new file: the poll gives
  what the first poll of it by a fresh tailer gives, whatever the tailer held before.\<close>

theorem truncated_file_restarts:
  assumes "length c < unat (jt_offset t)" "jt_ingress t = android_jsonl_ingress_new"
  shows "tailer_poll fs fv t (FilePresent c) = tailer_poll fs fv (tailer_new (jt_path t)) (FilePresent c)"
proof -
  have "length c < 2 ^ 64" using assms(1) unsigned_less [of "jt_offset t", where 'a = nat] by simp
  with assms(1) have "offset_is_past_end (of_nat (length c)) t"
    by (simp add: offset_is_past_end_def word_less_nat_alt unat_of_nat)
  moreover have "\<not> offset_is_past_end (of_nat (length c)) (tailer_new p)" for p
    by (simp add: offset_is_past_end_def tailer_new_def)
  moreover have "reset_for_recreated_file t = tailer_new (jt_path t)"
    using assms(2) by (cases t) (simp add: reset_for_recreated_file_def tailer_new_def)
  ultimately show ?thesis by (simp add: tailer_poll_def read_new_chunk_def)
qed

theorem truncated_file_restarts_witness:
  "tailer_poll fs fv ((tailer_new ''p'')\<lparr>jt_offset := 9, jt_partial_line := ''{''\<rparr>) (FilePresent ''{1}'') =
     tailer_poll fs fv (tailer_new ''p'') (FilePresent ''{1}'')"
  using truncated_file_restarts [of "''{1}''" "(tailer_new ''p'')\<lparr>jt_offset := 9, jt_partial_line := ''{''\<rparr>" fs fv]
  by (simp add: tailer_new_def)

end
