(* ===== verification/Collectors.thy ===== *)
theory Collectors
  imports Jsonl_Tailer Privacy_Airgap
begin

text \<open>
  The daemon's own event sources: the \<open>/proc\<close> reader (\<open>aios-collector/src/proc_reader.rs\<close>), the
  system state collector (\<open>system_collector.rs\<close>), the Binder and fanotify probes
  (\<open>binder_probe.rs\<close>, \<open>fanotify_monitor.rs\<close>), and \<open>SystemRawEventSource\<close>
  (\<open>aios-daemon/src/collection.rs\<close>) that polls them and the JSONL tailer. The file system is a
  function from paths to bytes (\<open>None\<close>: not readable), which \<open>read_to_string\<close> checks for UTF-8; a directory is
  its entry names in the order the system yields them.

  The lemmas: the fields of a well-formed stat line are found whatever the command name contains; the
  changed snapshots keep a consumer's view in step with the processes; of a command line only the first
  argument, and whether the whole is UTF-8, makes a difference; collected events carry the tier of their collector.
\<close>

type_synonym file_system = "string \<Rightarrow> string option"

text \<open>\<open>fs::read_to_string\<close>: the whole file, if it can be read and is UTF-8 throughout.\<close>

definition read_to_string :: "file_system \<Rightarrow> string \<Rightarrow> string option" where
  "read_to_string fs path = Option.bind (fs path) (\<lambda>bytes. if valid_utf8 bytes then Some bytes else None)"

text \<open>A call that may panic.\<close>

datatype 'a outcome = Panics | Returns 'a

fun outcome_map :: "('a \<Rightarrow> 'b) \<Rightarrow> 'a outcome \<Rightarrow> 'b outcome" where
  "outcome_map f Panics = Panics"
| "outcome_map f (Returns x) = Returns (f x)"

section \<open>The /proc reader\<close>

record proc_snapshot =
  psn_pid :: u32
  psn_uid :: u32
  psn_package_name :: "string option"
  psn_vm_rss_kb :: u64
  psn_vm_swap_kb :: u64
  psn_threads :: u32
  psn_oom_score :: i32
  psn_io_read_mb :: u64
  psn_io_write_mb :: u64
  psn_state :: proc_state

definition proc_state_of :: "string \<Rightarrow> proc_state" where
  "proc_state_of s =
     (if s = ''R'' then ProcRunning
      else if s \<in> {''S'', ''D'', ''I''} then ProcSleeping
      else if s \<in> {''Z'', ''X''} then ProcZombie
      else ProcUnknown)"

text \<open>The slice \<open>&content[comm_end + 2..]\<close> panics past the end and inside a character.\<close>

definition stat_rest :: "string \<Rightarrow> string outcome" where
  "stat_rest after_comm =
     (case after_comm of
        [] \<Rightarrow> Panics
      | _ # rest \<Rightarrow>
          (case rest of
             [] \<Rightarrow> Returns []
           | b # _ \<Rightarrow> if is_cont (of_char b) then Panics else Returns rest))"

definition parse_stat :: "string \<Rightarrow> (proc_state \<times> u32) option" where
  "parse_stat rest =
     (case split_whitespace rest of
        [] \<Rightarrow> None
      | st # parts \<Rightarrow>
          (case nth_opt 16 parts of
             None \<Rightarrow> None
           | Some t \<Rightarrow> map_option (Pair (proc_state_of st)) (parse_u32 t)))"

definition read_stat :: "file_system \<Rightarrow> string \<Rightarrow> (proc_state \<times> u32) option outcome" where
  "read_stat fs base =
     (case read_to_string fs (base @ ''/stat'') of
        None \<Rightarrow> Returns None
      | Some content \<Rightarrow>
          (case after_last (CHR '')'') content of
             None \<Rightarrow> Returns None
           | Some after_comm \<Rightarrow> outcome_map parse_stat (stat_rest after_comm)))"

definition second_word :: "(string \<Rightarrow> 'a option) \<Rightarrow> string \<Rightarrow> 'a option" where
  "second_word parse line = Option.bind (nth_opt 1 (split_whitespace line)) parse"

fun read_status_lines :: "string list \<Rightarrow> u32 \<times> u64 \<times> u64 \<Rightarrow> (u32 \<times> u64 \<times> u64) option" where
  "read_status_lines [] acc = Some acc"
| "read_status_lines (line # ls) (uid, rss, swap) =
     (if starts_with line ''Uid:'' then
        (case second_word parse_u32 line of None \<Rightarrow> None | Some v \<Rightarrow> read_status_lines ls (v, rss, swap))
      else if starts_with line ''VmRSS:'' then
        (case second_word parse_u64 line of None \<Rightarrow> None | Some v \<Rightarrow> read_status_lines ls (uid, v, swap))
      else if starts_with line ''VmSwap:'' then
        (case second_word parse_u64 line of None \<Rightarrow> None | Some v \<Rightarrow> read_status_lines ls (uid, rss, v))
      else read_status_lines ls (uid, rss, swap))"

definition read_status :: "file_system \<Rightarrow> string \<Rightarrow> (u32 \<times> u64 \<times> u64) option" where
  "read_status fs base =
     Option.bind (read_to_string fs (base @ ''/status'')) (\<lambda>content. read_status_lines (str_lines content) (0, 0, 0))"

definition read_oom_score :: "file_system \<Rightarrow> string \<Rightarrow> i32 option" where
  "read_oom_score fs base = Option.bind (read_to_string fs (base @ ''/oom_score'')) (\<lambda>content. parse_i32 (trim content))"

fun read_io_lines :: "string list \<Rightarrow> u64 \<times> u64 \<Rightarrow> (u64 \<times> u64) option" where
  "read_io_lines [] acc = Some acc"
| "read_io_lines (line # ls) (r, w) =
     (if starts_with line ''read_bytes:'' then
        (case second_word parse_u64 line of None \<Rightarrow> None | Some v \<Rightarrow> read_io_lines ls (v, w))
      else if starts_with line ''write_bytes:'' then
        (case second_word parse_u64 line of None \<Rightarrow> None | Some v \<Rightarrow> read_io_lines ls (r, v))
      else read_io_lines ls (r, w))"

definition read_io :: "file_system \<Rightarrow> string \<Rightarrow> (u64 \<times> u64) option" where
  "read_io fs base =
     Option.bind (read_to_string fs (base @ ''/io'')) (\<lambda>content.
       map_option (\<lambda>(r, w). (r div (1024 * 1024), w div (1024 * 1024))) (read_io_lines (str_lines content) (0, 0)))"

definition package_of_arg :: "string \<Rightarrow> string option" where
  "package_of_arg first_arg =
     (if first_arg = [] then None
      else if CHR ''.'' \<in> set first_arg \<and> \<not> starts_with first_arg ''/'' then Some first_arg
      else path_file_name first_arg)"

definition read_cmdline :: "file_system \<Rightarrow> string \<Rightarrow> string option" where
  "read_cmdline fs base =
     Option.bind (read_to_string fs (base @ ''/cmdline'')) (\<lambda>content. package_of_arg (hd (split_char (CHR 0x00) content)))"

definition read_process :: "file_system \<Rightarrow> u32 \<Rightarrow> proc_snapshot option outcome" where
  "read_process fs pid =
     (let base = ''/proc/'' @ show_nat (unat pid) in
      outcome_map (\<lambda>stat.
        case stat of None \<Rightarrow> None | Some (state, threads) \<Rightarrow>
          (case read_status fs base of None \<Rightarrow> None | Some (uid, rss, swap) \<Rightarrow>
             (let oom = (case read_oom_score fs base of Some s \<Rightarrow> s | None \<Rightarrow> 0);
                  (r, w) = (case read_io fs base of Some rw \<Rightarrow> rw | None \<Rightarrow> (0, 0)) in
              Some \<lparr>psn_pid = pid, psn_uid = uid, psn_package_name = read_cmdline fs base,
                    psn_vm_rss_kb = rss, psn_vm_swap_kb = swap, psn_threads = threads,
                    psn_oom_score = oom, psn_io_read_mb = r, psn_io_write_mb = w, psn_state = state\<rparr>)))
        (read_stat fs base))"

text \<open>\<open>scan_all\<close>: one snapshot per readable process directory, in directory order; \<open>None\<close>
  is a \<open>/proc\<close> that cannot be listed.\<close>

fun scan_entries :: "file_system \<Rightarrow> string list \<Rightarrow> proc_snapshot list outcome" where
  "scan_entries fs [] = Returns []"
| "scan_entries fs (name # names) =
     (case parse_u32 name of
        None \<Rightarrow> scan_entries fs names
      | Some pid \<Rightarrow>
          (case read_process fs pid of
             Panics \<Rightarrow> Panics
           | Returns None \<Rightarrow> scan_entries fs names
           | Returns (Some s) \<Rightarrow> outcome_map (Cons s) (scan_entries fs names)))"

definition scan_all :: "file_system \<Rightarrow> string list option \<Rightarrow> proc_snapshot list outcome" where
  "scan_all fs proc_dir = (case proc_dir of None \<Rightarrow> Returns [] | Some names \<Rightarrow> scan_entries fs names)"

definition to_event :: "proc_snapshot \<Rightarrow> i64 \<Rightarrow> proc_state_event" where
  "to_event s timestamp_ms =
     \<lparr>pse_timestamp_ms = timestamp_ms, pse_pid = psn_pid s, pse_uid = psn_uid s,
      pse_package_name = psn_package_name s, pse_vm_rss_kb = psn_vm_rss_kb s,
      pse_vm_swap_kb = psn_vm_swap_kb s, pse_threads = psn_threads s, pse_oom_score = psn_oom_score s,
      pse_io_read_mb = psn_io_read_mb s, pse_io_write_mb = psn_io_write_mb s, pse_state = psn_state s\<rparr>"

text \<open>\<open>diff_snapshots\<close>; the current snapshots come in the hash map's iteration order.\<close>

definition snapshot_changed :: "(u32 \<rightharpoonup> proc_snapshot) \<Rightarrow> proc_snapshot \<Rightarrow> bool" where
  "snapshot_changed prev c =
     (case prev (psn_pid c) of
        Some p \<Rightarrow> psn_vm_rss_kb p \<noteq> psn_vm_rss_kb c \<or> psn_vm_swap_kb p \<noteq> psn_vm_swap_kb c
          \<or> psn_oom_score p \<noteq> psn_oom_score c \<or> psn_threads p \<noteq> psn_threads c
          \<or> psn_state p \<noteq> psn_state c
      | None \<Rightarrow> True)"

definition diff_snapshots :: "(u32 \<rightharpoonup> proc_snapshot) \<Rightarrow> proc_snapshot list \<Rightarrow> proc_snapshot list" where
  "diff_snapshots prev curr_values = filter (snapshot_changed prev) curr_values"

section \<open>The system state collector\<close>

fun read_battery_paths :: "file_system \<Rightarrow> string list \<Rightarrow> u8 option" where
  "read_battery_paths fs [] = None"
| "read_battery_paths fs (path # paths) =
     (case Option.bind (read_to_string fs path) (\<lambda>content. parse_u8 (trim content)) of
        Some pct \<Rightarrow> Some pct
      | None \<Rightarrow> read_battery_paths fs paths)"

definition read_battery :: "file_system \<Rightarrow> u8 option" where
  "read_battery fs = read_battery_paths fs
     [''/sys/class/power_supply/battery/capacity'', ''/sys/class/power_supply/BAT0/capacity'',
      ''/sys/class/power_supply/BAT1/capacity'']"

fun read_charging_paths :: "(string \<Rightarrow> string) \<Rightarrow> file_system \<Rightarrow> string list \<Rightarrow> bool" where
  "read_charging_paths u fs [] = False"
| "read_charging_paths u fs (path # paths) =
     (case read_to_string fs path of
        Some content \<Rightarrow> str_contains (to_lowercase u (trim content)) ''charging''
      | None \<Rightarrow> read_charging_paths u fs paths)"

definition read_charging :: "(string \<Rightarrow> string) \<Rightarrow> file_system \<Rightarrow> bool" where
  "read_charging u fs = read_charging_paths u fs
     [''/sys/class/power_supply/battery/status'', ''/sys/class/power_supply/BAT0/status'']"

definition interface_up :: "file_system \<Rightarrow> string \<Rightarrow> bool" where
  "interface_up fs name =
     (case read_to_string fs (''/sys/class/net/'' @ name @ ''/operstate'') of
        Some st \<Rightarrow> trim st = ''up'' | None \<Rightarrow> False)"

fun detect_interfaces :: "file_system \<Rightarrow> string list \<Rightarrow> network_type option" where
  "detect_interfaces fs [] = None"
| "detect_interfaces fs (name # names) =
     (let up = interface_up fs name in
      if up \<and> (starts_with name ''wlan'' \<or> name = ''wlan0'') then Some Wifi
      else if up \<and> (starts_with name ''rmnet'' \<or> starts_with name ''wwan'') then Some Cellular
      else detect_interfaces fs names)"

definition detect_network :: "file_system \<Rightarrow> string list option \<Rightarrow> network_type" where
  "detect_network fs net_dir =
     (case net_dir of
        None \<Rightarrow> NetUnknown
      | Some names \<Rightarrow>
          (case detect_interfaces fs names of
             Some t \<Rightarrow> t
           | None \<Rightarrow> if interface_up fs ''eth0'' then Wifi else NetUnknown))"

definition system_snapshot ::
  "(string \<Rightarrow> string) \<Rightarrow> file_system \<Rightarrow> string list option \<Rightarrow> i64 \<Rightarrow> system_state_event" where
  "system_snapshot u fs net_dir timestamp_ms =
     \<lparr>sys_timestamp_ms = timestamp_ms, sys_battery_pct = read_battery fs,
      sys_is_charging = read_charging u fs, sys_network = detect_network fs net_dir,
      sys_ringer_mode = RingNormal, sys_location_type = LocUnknown,
      sys_headphone_connected = False, sys_bluetooth_connected = False\<rparr>"

section \<open>The probes\<close>

datatype binder_probe_status =
  BinderUninitialized | BinderUnsupportedPlatform | TracepointUnavailable | BinderPermissionRequired | BinderReady

record binder_transaction =
  btr_timestamp_ms :: i64
  btr_source_pid :: u32
  btr_source_uid :: u32
  btr_target_service :: string
  btr_target_method :: string
  btr_is_oneway :: bool
  btr_payload_size :: u32

text \<open>What the platform offers: whether it is Linux, and whether the tracepoint exists.\<close>

record platform =
  pf_linux :: bool
  pf_binder_tracepoint :: bool

definition binder_detect_status :: "platform \<Rightarrow> binder_probe_status" where
  "binder_detect_status pf =
     (if \<not> pf_linux pf then BinderUnsupportedPlatform
      else if \<not> pf_binder_tracepoint pf then TracepointUnavailable
      else BinderPermissionRequired)"

definition binder_try_init :: "platform \<Rightarrow> binder_probe_status \<times> bool" where
  "binder_try_init pf = (let st = binder_detect_status pf in (st, st = BinderReady))"

definition binder_poll :: "binder_probe_status \<Rightarrow> binder_transaction list" where
  "binder_poll st = (if st \<noteq> BinderReady then [] else [])"

definition binder_to_event :: "binder_transaction \<Rightarrow> binder_tx" where
  "binder_to_event b =
     \<lparr>btx_timestamp_ms = btr_timestamp_ms b, btx_source_pid = btr_source_pid b,
      btx_source_uid = btr_source_uid b, btx_target_service = btr_target_service b,
      btx_target_method = btr_target_method b, btx_is_oneway = btr_is_oneway b,
      btx_payload_size = btr_payload_size b\<rparr>"

datatype fanotify_status = FanUninitialized | FanUnsupportedPlatform | FanPermissionRequired | FanReady

record fanotify_monitor =
  fan_roots :: "string list"
  fan_max_events_per_poll :: usize
  fan_status :: fanotify_status

definition fanotify_default :: fanotify_monitor where
  "fanotify_default = \<lparr>fan_roots = [''/''], fan_max_events_per_poll = 256, fan_status = FanUninitialized\<rparr>"

definition fanotify_detect_status :: "platform \<Rightarrow> fanotify_status" where
  "fanotify_detect_status pf = (if \<not> pf_linux pf then FanUnsupportedPlatform else FanPermissionRequired)"

definition fanotify_try_init :: "platform \<Rightarrow> fanotify_monitor \<Rightarrow> fanotify_monitor \<times> fanotify_status" where
  "fanotify_try_init pf m = (let st = fanotify_detect_status pf in (m\<lparr>fan_status := st\<rparr>, st))"

definition fanotify_poll :: "fanotify_monitor \<Rightarrow> raw_event list" where
  "fanotify_poll m = (if fan_status m \<noteq> FanReady then [] else [])"

definition event_from_observation ::
  "i64 \<Rightarrow> u32 \<Rightarrow> u32 \<Rightarrow> string \<Rightarrow> fs_access_type \<Rightarrow> u64 option \<Rightarrow> raw_event" where
  "event_from_observation timestamp_ms pid uid path access bytes =
     RawFileSystemAccess \<lparr>fsa_timestamp_ms = timestamp_ms, fsa_pid = pid, fsa_uid = uid,
       fsa_file_path = path, fsa_access_type = access, fsa_bytes_transferred = bytes\<rparr>"

section \<open>The daemon's event source\<close>

definition SYS_POLL_INTERVAL_SECS :: nat where "SYS_POLL_INTERVAL_SECS = 30"
definition ANDROID_JSONL_POLL_INTERVAL_MS :: nat where "ANDROID_JSONL_POLL_INTERVAL_MS = 500"

text \<open>An \<open>Instant\<close> is a reading of the monotonic clock in nanoseconds; \<open>elapsed\<close> saturates.\<close>

type_synonym poll_instant = nat

record system_source =
  ssr_android_tailer :: "jsonl_tailer option"
  ssr_binder_probe :: binder_probe_status
  ssr_prev :: "u32 \<rightharpoonup> proc_snapshot"
  ssr_last_sys_poll :: "poll_instant option"
  ssr_last_android_jsonl_poll :: "poll_instant option"

definition system_source_new :: "platform \<Rightarrow> string option \<Rightarrow> system_source" where
  "system_source_new pf android_trace_jsonl =
     \<lparr>ssr_android_tailer = map_option tailer_new android_trace_jsonl,
      ssr_binder_probe = fst (binder_try_init pf), ssr_prev = Map.empty,
      ssr_last_sys_poll = None, ssr_last_android_jsonl_poll = None\<rparr>"

text \<open>What one poll reads from its surroundings: the wall clock, the file system, the two listed
  directories, the trace file, and the monotonic clock at its four uses.\<close>

record source_input =
  si_now_ms :: i64
  si_fs :: file_system
  si_proc_dir :: "string list option"
  si_net_dir :: "string list option"
  si_trace :: file_view
  si_sys_check :: poll_instant
  si_sys_done :: poll_instant
  si_android_check :: poll_instant
  si_android_done :: poll_instant

text \<open>The library's parts: Unicode lower-casing, the JSON parser and deserialiser, and the order in
  which a hash map yields its values.\<close>

record source_env =
  sen_lowercase :: "string \<Rightarrow> string"
  sen_from_str :: "string \<Rightarrow> string + json"
  sen_from_value :: "json \<Rightarrow> string + raw_event"
  sen_values :: "(u32 \<rightharpoonup> proc_snapshot) \<Rightarrow> proc_snapshot list"

definition snapshot_map :: "proc_snapshot list \<Rightarrow> u32 \<rightharpoonup> proc_snapshot" where
  "snapshot_map ss = foldl (\<lambda>m s. m(psn_pid s \<mapsto> s)) Map.empty ss"

definition proc_events :: "i64 \<Rightarrow> proc_snapshot list \<Rightarrow> ingested_raw_event list" where
  "proc_events now_ms changed =
     map (\<lambda>s. ingress_accept_internal (RawProcStateChange (to_event s now_ms)) ''ProcReader'' now_ms) changed"

definition sys_due :: "system_source \<Rightarrow> poll_instant \<Rightarrow> bool" where
  "sys_due s now = (case ssr_last_sys_poll s of
     None \<Rightarrow> True | Some t \<Rightarrow> SYS_POLL_INTERVAL_SECS \<le> (now - t) div 10 ^ 9)"

definition android_due :: "system_source \<Rightarrow> poll_instant \<Rightarrow> bool" where
  "android_due s now = (case ssr_last_android_jsonl_poll s of
     None \<Rightarrow> True | Some t \<Rightarrow> ANDROID_JSONL_POLL_INTERVAL_MS * 10 ^ 6 \<le> now - t)"

definition sys_step :: "source_env \<Rightarrow> source_input \<Rightarrow> system_source \<Rightarrow> system_source \<times> ingested_raw_event list" where
  "sys_step E i s =
     (if sys_due s (si_sys_check i)
      then (s\<lparr>ssr_last_sys_poll := Some (si_sys_done i)\<rparr>,
            [ingress_accept_internal
               (RawSystemState (system_snapshot (sen_lowercase E) (si_fs i) (si_net_dir i) (si_now_ms i)))
               ''SystemStateCollector'' (si_now_ms i)])
      else (s, []))"

definition binder_events :: "source_input \<Rightarrow> system_source \<Rightarrow> ingested_raw_event list" where
  "binder_events i s =
     map (\<lambda>tx. ingress_accept_internal (RawBinderTransaction (binder_to_event tx)) ''BinderProbe'' (si_now_ms i))
       (binder_poll (ssr_binder_probe s))"

fun accept_all :: "collector_envelope list \<Rightarrow> ingested_raw_event list" where
  "accept_all [] = []"
| "accept_all (e # es) = (case ingress_accept e of Inr i \<Rightarrow> i # accept_all es | Inl _ \<Rightarrow> accept_all es)"

definition android_step :: "source_env \<Rightarrow> source_input \<Rightarrow> system_source \<Rightarrow> system_source \<times> ingested_raw_event list" where
  "android_step E i s =
     (case ssr_android_tailer s of
        None \<Rightarrow> (s, [])
      | Some t \<Rightarrow>
          (if android_due s (si_android_check i)
           then (let (t1, r) = tailer_poll (sen_from_str E) (sen_from_value E) t (si_trace i) in
                 (s\<lparr>ssr_android_tailer := Some t1, ssr_last_android_jsonl_poll := Some (si_android_done i)\<rparr>,
                  case r of Inr es \<Rightarrow> accept_all es | Inl _ \<Rightarrow> []))
           else (s, [])))"

definition source_poll ::
  "source_env \<Rightarrow> source_input \<Rightarrow> system_source \<Rightarrow> (system_source \<times> ingested_raw_event list) outcome" where
  "source_poll E i s =
     outcome_map (\<lambda>snapshots.
       let curr = snapshot_map snapshots;
           changed = diff_snapshots (ssr_prev s) (sen_values E curr);
           s1 = s\<lparr>ssr_prev := curr\<rparr>;
           (s2, sys) = sys_step E i s1;
           (s3, android) = android_step E i s2
       in (s3, proc_events (si_now_ms i) changed @ sys @ binder_events i s2 @ android))
     (scan_all (si_fs i) (si_proc_dir i))"

section \<open>The stat line\<close>

text \<open>A field as the kernel prints it: ASCII, visible, not empty.\<close>

definition stat_field :: "string \<Rightarrow> bool" where
  "stat_field f \<longleftrightarrow> f \<noteq> [] \<and> list_all (\<lambda>c. 32 < (of_char c :: nat) \<and> (of_char c :: nat) < 128 \<and> c \<noteq> CHR '')'') f"

lemma is_ws_char_ascii: "(of_char c :: nat) < 128 \<Longrightarrow> is_ws_char [c] = is_whitespace (of_char c)"
  by (simp add: is_ws_char_def utf8_decode_def)

lemma split_ws_visible:
  "list_all (\<lambda>c. 32 < (of_char c :: nat) \<and> (of_char c :: nat) < 128) f
     \<Longrightarrow> split_ws_chars cur (map (\<lambda>c. [c]) f @ chs) = split_ws_chars (cur @ f) chs"
  by (induction f arbitrary: cur) (auto simp: is_ws_char_ascii is_whitespace_def)

lemma split_ws_fields:
  "list_all stat_field fs \<Longrightarrow> fs \<noteq> [] \<Longrightarrow>
     split_ws_chars [] (map (\<lambda>c. [c]) (join_str '' '' fs @ [newline])) = fs"
proof (induction "'' ''" fs rule: join_str.induct)
  case (2 x)
  then show ?case
    using split_ws_visible [of x "[]" "[[newline]]"]
    by (auto simp: stat_field_def list_all_iff is_ws_char_ascii is_whitespace_def)
next
  case (3 x y xs)
  then show ?case
    using split_ws_visible [of x "[]" "[CHR '' ''] # map (\<lambda>c. [c]) (join_str '' '' (y # xs) @ [newline])"]
    by (auto simp: stat_field_def list_all_iff is_ws_char_ascii is_whitespace_def)
qed simp

lemma join_fields_set:
  "c \<in> set (join_str '' '' fs) \<Longrightarrow> c = CHR '' '' \<or> (\<exists>f \<in> set fs. c \<in> set f)"
  by (induction "'' ''" fs rule: join_str.induct) auto

lemma split_whitespace_fields:
  assumes "list_all stat_field fs" "fs \<noteq> []"
  shows "split_whitespace (join_str '' '' fs @ [newline]) = fs"
proof -
  have "(of_char c :: nat) < 128" if "c \<in> set (join_str '' '' fs @ [newline])" for c
  proof (cases "c = newline")
    case False
    with that have "c \<in> set (join_str '' '' fs)" by simp
    then consider "c = CHR '' ''" | f where "f \<in> set fs" "c \<in> set f" using join_fields_set by blast
    then show ?thesis using assms(1) by cases (auto simp: stat_field_def list_all_iff)
  qed simp
  then have "list_all (\<lambda>c. (of_char c :: nat) < 128) (join_str '' '' fs @ [newline])"
    by (simp add: list_all_iff)
  then show ?thesis
    unfolding split_whitespace_def by (simp only: utf8_split_ascii split_ws_fields [OF assms])
qed

lemma read_stat_line:
  assumes "fs (base @ ''/stat'') = Some (pre @ '' ('' @ comm @ '') '' @ join_str '' '' flds @ [newline])"
    and "valid_utf8 (pre @ '' ('' @ comm @ '') '' @ join_str '' '' flds @ [newline])"
    and "list_all stat_field flds" "17 < length flds"
    and "flds ! 17 = show_nat n" "n < 2 ^ 32"
  shows "read_stat fs base = Returns (Some (proc_state_of (flds ! 0), of_nat n))"
proof -
  let ?rest = "join_str '' '' flds @ [newline]"
  from assms(4) obtain st parts where f: "flds = st # parts" "16 < length parts"
    by (cases flds) auto
  have "CHR '')'' \<notin> set ('' '' @ ?rest)"
    using assms(3) by (auto simp: stat_field_def list_all_iff dest!: join_fields_set)
  then have "after_last (CHR '')'') ((pre @ '' ('' @ comm) @ CHR '')'' # '' '' @ ?rest) = Some ('' '' @ ?rest)"
    by (rule after_last_append)
  moreover obtain b bs where b: "?rest = b # bs" "(of_char b :: nat) < 128"
  proof -
    have "join_str '' '' flds = st @ tl (join_str '' '' (''.'' # parts))"
      using f by (cases parts) auto
    moreover obtain c cs where "st = c # cs" "(of_char c :: nat) < 128"
      using assms(3) f(1) by (cases st) (auto simp: stat_field_def)
    ultimately show thesis using that by simp
  qed
  ultimately have "read_stat fs base = Returns (parse_stat ?rest)"
    using assms(1,2) by (simp add: read_stat_def read_to_string_def stat_rest_def is_cont_def)
  also have "split_whitespace ?rest = flds"
    using assms(3,4) by (intro split_whitespace_fields) auto
  then have "parse_stat ?rest = Some (proc_state_of (flds ! 0), of_nat n)"
    using f assms(5,6) parse_uint_show [OF assms(6)]
    by (simp add: parse_stat_def nth_opt_def parse_u32_def)
  finally show ?thesis by simp
qed

text \<open>The state and the thread count of a process are read from the third and the twentieth field
  of its stat line, if it is UTF-8, whatever its command name contains: parentheses, spaces and line breaks included;
  the slice behind the name never panics on such a line.\<close>

theorem read_stat_fields:
  assumes "fs (base @ ''/stat'') = Some (pre @ '' ('' @ comm @ '') '' @ join_str '' '' flds @ [newline])"
    and "valid_utf8 (pre @ '' ('' @ comm @ '') '' @ join_str '' '' flds @ [newline])"
    and "list_all stat_field flds" "17 < length flds"
    and "flds ! 17 = show_nat n" "n < 2 ^ 32"
  shows "read_stat fs base = Returns (Some (proc_state_of (flds ! 0), of_nat n))"
  using assms by (rule read_stat_line)

text \<open>A command name with a closing parenthesis and a space in it.\<close>

definition demo_stat_fields :: "string list" where
  "demo_stat_fields = ''S'' # replicate 16 ''0'' @ [''42'', ''0'']"

lemma demo_stat_ascii:
  "is_ascii (''7'' @ '' ('' @ ''a) R b'' @ '') '' @ join_str '' '' demo_stat_fields @ [newline])"
  by code_simp

theorem read_stat_fields_witness:
  "read_stat (\<lambda>p. if p = ''/proc/7/stat''
       then Some (''7'' @ '' ('' @ ''a) R b'' @ '') '' @ join_str '' '' demo_stat_fields @ [newline]) else None)
     ''/proc/7'' = Returns (Some (ProcSleeping, 42))"
proof -
  let ?fs = "\<lambda>p. if p = ''/proc/7/stat''
       then Some (''7'' @ '' ('' @ ''a) R b'' @ '') '' @ join_str '' '' demo_stat_fields @ [newline]) else None"
  have "show_nat 42 = ''42''" by (simp add: show_nat.simps) code_simp
  then have "demo_stat_fields ! 17 = show_nat 42" by (simp add: demo_stat_fields_def nth_append)
  moreover have "list_all stat_field demo_stat_fields" by (simp add: demo_stat_fields_def stat_field_def list_all_iff)
  ultimately have "read_stat ?fs ''/proc/7'' = Returns (Some (proc_state_of (demo_stat_fields ! 0), of_nat 42))"
    by (intro read_stat_fields [where pre = "''7''" and comm = "''a) R b''", OF _ valid_utf8_ascii [OF demo_stat_ascii]])
      (simp_all add: demo_stat_fields_def)
  then show ?thesis by (simp add: demo_stat_fields_def proc_state_of_def)
qed

section \<open>What a command line reveals\<close>

text \<open>A NUL byte is a character of its own, so what is before it is UTF-8 if the whole is.\<close>

lemma valid_utf8_before_nul: "valid_utf8 s \<Longrightarrow> valid_utf8 (takeWhile (\<lambda>c. c \<noteq> CHR 0x00) s)"
proof (induction s rule: utf8_split.induct)
  case (2 b bs)
  let ?ch = "b # take (utf8_width b - 1) bs" and ?rest = "drop (utf8_width b - 1) bs"
  have v: "valid_utf8_char ?ch" "valid_utf8 ?rest" using "2.prems" by (simp_all add: valid_utf8_def Let_def)
  show ?case
  proof (cases "b = CHR 0x00")
    case False
    have "c \<noteq> CHR 0x00" if "c \<in> set ?ch" for c
      using that False valid_utf8_char_tail [OF v(1), of c] by (auto simp: is_cont_def)
    then have "takeWhile (\<lambda>c. c \<noteq> CHR 0x00) (?ch @ ?rest) = ?ch @ takeWhile (\<lambda>c. c \<noteq> CHR 0x00) ?rest"
      by (intro takeWhile_append2) blast
    then show ?thesis using "2.IH" [OF refl v(2)] valid_utf8_append [OF valid_utf8_single [OF v(1)]] by simp
  qed (simp add: valid_utf8_def)
qed (simp add: valid_utf8_def)

text \<open>The file system with the command lines reduced: to the first argument where the file is UTF-8, to one
  byte that is no UTF-8 where it is not.\<close>

definition mask_arguments :: "file_system \<Rightarrow> file_system" where
  "mask_arguments fs = (\<lambda>p. if take 8 (rev p) = rev ''/cmdline''
     then map_option (\<lambda>s. if valid_utf8 s then takeWhile (\<lambda>c. c \<noteq> CHR 0x00) s else [CHR 0xFF]) (fs p) else fs p)"

lemma mask_other:
  "take 8 (rev (base @ f)) \<noteq> rev ''/cmdline'' \<Longrightarrow> mask_arguments fs (base @ f) = fs (base @ f)"
  by (simp add: mask_arguments_def)

lemma hd_split_char: "hd (split_char d s) = takeWhile (\<lambda>c. c \<noteq> d) s"
  by (induction s) (auto split: list.splits)

lemma mask_read_process: "read_process (mask_arguments fs) pid = read_process fs pid"
proof -
  have "read_stat (mask_arguments fs) b = read_stat fs b" for b
    by (simp add: read_stat_def read_to_string_def mask_other)
  moreover have "read_status (mask_arguments fs) b = read_status fs b" for b
    by (simp add: read_status_def read_to_string_def mask_other)
  moreover have "read_oom_score (mask_arguments fs) b = read_oom_score fs b" for b
    by (simp add: read_oom_score_def read_to_string_def mask_other)
  moreover have "read_io (mask_arguments fs) b = read_io fs b" for b
    by (simp add: read_io_def read_to_string_def mask_other)
  moreover have "\<not> valid_utf8 [CHR 0xFF]" by code_simp
  then have "read_cmdline (mask_arguments fs) b = read_cmdline fs b" for b
    by (cases "fs (b @ ''/cmdline'')")
      (simp_all add: read_cmdline_def read_to_string_def mask_arguments_def hd_split_char takeWhile_idem valid_utf8_before_nul)
  ultimately show ?thesis unfolding read_process_def by (simp only:)
qed

lemma mask_scan: "scan_entries (mask_arguments fs) names = scan_entries fs names"
  by (induction names) (simp_all add: mask_read_process split: option.splits outcome.splits)

lemma mask_battery_paths:
  "\<forall>p \<in> set ps. mask_arguments fs p = fs p \<Longrightarrow> read_battery_paths (mask_arguments fs) ps = read_battery_paths fs ps"
  by (induction ps) (simp_all add: read_to_string_def split: option.split)

lemma mask_charging_paths:
  "\<forall>p \<in> set ps. mask_arguments fs p = fs p \<Longrightarrow> read_charging_paths u (mask_arguments fs) ps = read_charging_paths u fs ps"
  by (induction ps) (simp_all add: read_to_string_def split: option.split)

lemma mask_system: "system_snapshot u (mask_arguments fs) nd t = system_snapshot u fs nd t"
proof -
  have up: "interface_up (mask_arguments fs) n = interface_up fs n" for n
    using mask_other [of "''/sys/class/net/'' @ n" "''/operstate''" fs] by (simp add: interface_up_def read_to_string_def)
  then have "detect_interfaces (mask_arguments fs) ns = detect_interfaces fs ns" for ns
    by (induction ns) (simp_all only: detect_interfaces.simps up)
  with up have "detect_network (mask_arguments fs) nd = detect_network fs nd"
    unfolding detect_network_def by (simp only:)
  moreover have "read_battery (mask_arguments fs) = read_battery fs"
    unfolding read_battery_def by (rule mask_battery_paths) (simp add: mask_arguments_def)
  moreover have "read_charging u (mask_arguments fs) = read_charging u fs"
    unfolding read_charging_def by (rule mask_charging_paths) (simp add: mask_arguments_def)
  ultimately show ?thesis by (simp add: system_snapshot_def)
qed

text \<open>C29: of a process's command line the collector uses the first argument and nothing else but the fact
  that the whole is UTF-8 (\<open>read_to_string\<close> refuses the file otherwise): with every further argument of
  every process removed from the command lines that are UTF-8, and the ones that are not replaced by one fixed
  byte, a poll of the whole event source behaves identically, in its events and in the state it keeps.\<close>

theorem arguments_never_collected:
  "source_poll E (i\<lparr>si_fs := mask_arguments (si_fs i)\<rparr>) s = source_poll E i s"
proof -
  let ?i = "i\<lparr>si_fs := mask_arguments (si_fs i)\<rparr>"
  have "scan_all (si_fs ?i) (si_proc_dir ?i) = scan_all (si_fs i) (si_proc_dir i)"
    by (simp add: scan_all_def mask_scan split: option.splits)
  moreover have "sys_step E ?i = sys_step E i" by (rule ext) (simp add: sys_step_def mask_system)
  moreover have "binder_events ?i = binder_events i" by (rule ext) (simp add: binder_events_def)
  moreover have "android_step E ?i = android_step E i" by (rule ext) (simp add: android_step_def split: option.split)
  ultimately show ?thesis by (simp add: source_poll_def)
qed

section \<open>The charging state\<close>

definition says_charging :: "string \<Rightarrow> bool" where
  "says_charging s \<longleftrightarrow> is_ascii (trim s) \<and> str_contains (to_ascii_lowercase (trim s)) ''charging''"

lemma trim_charging: "trim (''Charging'' @ [CHR 0x0A]) = ''Charging''"
  by (simp add: trim_def utf8_width_def utf8_decode_def is_whitespace_def)
lemma ascii_charging: "is_ascii ''Charging''" by code_simp
lemma lower_charging: "str_contains (to_ascii_lowercase ''Charging'') ''charging''" by code_simp
lemma trim_discharging: "trim (''Discharging'' @ [CHR 0x0A]) = ''Discharging''"
  by (simp add: trim_def utf8_width_def utf8_decode_def is_whitespace_def)
lemma ascii_discharging: "is_ascii ''Discharging''" by code_simp
lemma lower_discharging: "str_contains (to_ascii_lowercase ''Discharging'') ''charging''" by code_simp
lemma trim_not_charging: "trim (''Not charging'' @ [CHR 0x0A]) = ''Not charging''"
  by (simp add: trim_def utf8_width_def utf8_decode_def is_whitespace_def)
lemma ascii_not_charging: "is_ascii ''Not charging''" by code_simp
lemma lower_not_charging: "str_contains (to_ascii_lowercase ''Not charging'') ''charging''" by code_simp

lemma says_charging_status:
  "says_charging (''Charging'' @ [newline])" "says_charging (''Discharging'' @ [newline])"
  "says_charging (''Not charging'' @ [newline])"
  unfolding says_charging_def
  by (simp_all only: trim_charging ascii_charging lower_charging trim_discharging ascii_discharging
      lower_discharging trim_not_charging ascii_not_charging lower_not_charging simp_thms)

lemma says_charging_read: "says_charging s \<Longrightarrow> str_contains (to_lowercase u (trim s)) ''charging''"
  by (simp add: says_charging_def to_lowercase_def)

text \<open>C38: the charging flag is set on a battery that is not charging: for the kernel's status values
  ``Discharging'' and ``Not charging'', as for ``Charging'', the flag is true.\<close>

theorem discharging_reads_as_charging:
  assumes "fs ''/sys/class/power_supply/battery/status'' = Some (st @ [newline])"
    and "st \<in> {''Charging'', ''Discharging'', ''Not charging''}"
  shows "sys_is_charging (system_snapshot u fs net_dir t)"
proof -
  have "says_charging (st @ [newline])"
    using assms(2) says_charging_status by blast
  then have "str_contains (to_lowercase u (trim (st @ [newline]))) ''charging''"
    by (rule says_charging_read)
  moreover have "valid_utf8 (st @ [newline])" using assms(2) by (intro valid_utf8_ascii) (auto simp: is_ascii_def)
  ultimately show ?thesis using assms(1) by (simp add: system_snapshot_def read_charging_def read_to_string_def)
qed

theorem discharging_reads_as_charging_witness:
  "sys_is_charging (system_snapshot (\<lambda>s. s) (\<lambda>p. Some (''Discharging'' @ [newline])) None 0)"
  by (rule discharging_reads_as_charging [where st = "''Discharging''"]) simp_all

section \<open>Runs of the event source\<close>

fun source_run ::
  "source_env \<Rightarrow> source_input list \<Rightarrow> system_source \<Rightarrow> (system_source \<times> ingested_raw_event list) outcome" where
  "source_run E [] s = Returns (s, [])"
| "source_run E (i # is) s =
     (case source_poll E i s of
        Panics \<Rightarrow> Panics
      | Returns (s1, evs) \<Rightarrow> outcome_map (\<lambda>(s2, evs'). (s2, evs @ evs')) (source_run E is s1))"

lemma outcome_map_Returns: "outcome_map f r = Returns y \<longleftrightarrow> (\<exists>x. r = Returns x \<and> y = f x)"
  by (cases r) auto

lemma source_run_Cons:
  assumes "source_run E (i # is) s = Returns (s', evs)"
  obtains s1 e1 e2 where "source_poll E i s = Returns (s1, e1)" "source_run E is s1 = Returns (s', e2)"
    "evs = e1 @ e2"
  using assms by (cases "source_poll E i s") (auto simp: outcome_map_Returns split: prod.splits)

lemma source_poll_Returns:
  assumes "source_poll E i s = Returns (s', evs)"
  obtains ss s2 sys android where "scan_all (si_fs i) (si_proc_dir i) = Returns ss"
    "sys_step E i (s\<lparr>ssr_prev := snapshot_map ss\<rparr>) = (s2, sys)"
    "android_step E i s2 = (s', android)"
    "evs = proc_events (si_now_ms i) (diff_snapshots (ssr_prev s) (sen_values E (snapshot_map ss)))
            @ sys @ binder_events i s2 @ android"
proof -
  obtain ss where ss: "scan_all (si_fs i) (si_proc_dir i) = Returns ss"
    using assms by (auto simp: source_poll_def outcome_map_Returns)
  obtain s2 sys where sys: "sys_step E i (s\<lparr>ssr_prev := snapshot_map ss\<rparr>) = (s2, sys)" by fastforce
  obtain s3 android where android: "android_step E i s2 = (s3, android)" by fastforce
  from assms ss sys android show ?thesis by (intro that [OF ss sys]) (auto simp: source_poll_def)
qed

lemma sys_step_frame:
  "sys_step E i s = (s', evs) \<Longrightarrow> ssr_prev s' = ssr_prev s \<and> ssr_android_tailer s' = ssr_android_tailer s
     \<and> ssr_last_android_jsonl_poll s' = ssr_last_android_jsonl_poll s"
  by (auto simp: sys_step_def split: if_splits)

lemma android_step_frame: "android_step E i s = (s', evs) \<Longrightarrow> ssr_prev s' = ssr_prev s"
  by (auto simp: android_step_def Let_def split: if_splits option.splits prod.splits)

text \<open>The tiers: the JSONL ingress is constructed with the public tier, everything else is the
  daemon's own.\<close>

definition is_android :: "ingested_raw_event \<Rightarrow> bool" where
  "is_android e \<longleftrightarrow> ing_source_tier e = PublicApi"

definition ingest_envelope :: "collector_envelope \<Rightarrow> ingested_raw_event" where
  "ingest_envelope e = \<lparr>ing_raw_event = env_raw_event e, ing_source_tier = PublicApi\<rparr>"

lemma parse_line_envelope:
  assumes "parse_line fs fv ing l = Inr (Some e)"
  shows "env_schema_version e = SCHEMA_VERSION" "env_source_tier e = aji_source_tier ing"
  using assms
  by (auto simp: parse_line_def parse_record_def split: if_splits sum.splits option.splits)

lemma accept_parsed:
  "parse_complete_lines fs fv android_jsonl_ingress_new ls = Inr es \<Longrightarrow> accept_all es = map ingest_envelope es"
proof (induction ls arbitrary: es)
  case (Cons l ls)
  then show ?case
    using parse_line_envelope [of fs fv android_jsonl_ingress_new "trim_end_char (CHR 0x0D) l"]
    by (auto simp: ingress_accept_def SCHEMA_VERSION_def SUPPORTED_COLLECTOR_SCHEMA_def ingest_envelope_def
        android_jsonl_ingress_new_def split: sum.splits option.splits)
qed simp

lemma daemon_events:
  "\<forall>e \<in> set (proc_events t ss). \<not> is_android e"
  "sys_step E i s = (s', evs) \<Longrightarrow> \<forall>e \<in> set evs. \<not> is_android e"
  "\<forall>e \<in> set (binder_events i s). \<not> is_android e"
  by (auto simp: proc_events_def binder_events_def sys_step_def is_android_def ingress_accept_internal_def
      split: if_splits)

text \<open>A poll keeps the tailer's ingress, and what it delivers went through it.\<close>

lemma tailer_poll_ingress:
  assumes "tailer_poll fs fv t v = (t', r)"
  shows "jt_ingress t' = jt_ingress t" "r = Inr es \<Longrightarrow> \<exists>ls. parse_complete_lines fs fv (jt_ingress t) ls = Inr es"
proof -
  obtain t1 r1 where 1: "read_new_chunk v t = (t1, r1)" by fastforce
  then have i1: "jt_ingress t1 = jt_ingress t"
    by (auto simp: read_new_chunk_def read_chunk_at_offset_def reset_for_recreated_file_def Let_def
        split: file_view.splits if_splits)
  have i2: "jt_ingress (fst (take_complete_lines c t1)) = jt_ingress t1" for c
    by (simp add: take_complete_lines_def pending_with_new_chunk_def split_tail_eq Let_def)
  show "jt_ingress t' = jt_ingress t"
    using assms 1 i1 i2 by (auto simp: tailer_poll_def Let_def split_beta split: sum.splits option.splits)
  assume r: "r = Inr es"
  show "\<exists>ls. parse_complete_lines fs fv (jt_ingress t) ls = Inr es"
  proof (cases "r1")
    case (Inr oc)
    show ?thesis
    proof (cases oc)
      case None
      with assms 1 Inr r show ?thesis by (intro exI [of _ "[]"]) (simp add: tailer_poll_def)
    next
      case (Some c)
      with assms 1 Inr r i1 i2 [of c] show ?thesis
        by (intro exI [of _ "snd (take_complete_lines c t1)"]) (simp add: tailer_poll_def split_beta)
    qed
  qed (use assms 1 r in \<open>simp add: tailer_poll_def\<close>)
qed

definition public_tailer :: "system_source \<Rightarrow> bool" where
  "public_tailer s \<longleftrightarrow> (\<forall>t. ssr_android_tailer s = Some t \<longrightarrow> jt_ingress t = android_jsonl_ingress_new)"

lemma android_step_public:
  assumes "android_step E i s = (s', evs)" "public_tailer s"
  shows "public_tailer s'" "\<forall>e \<in> set evs. is_android e"
proof -
  have "public_tailer s' \<and> (\<forall>e \<in> set evs. is_android e)"
  proof (cases "ssr_android_tailer s")
    case None
    with assms show ?thesis by (simp add: android_step_def)
  next
    case (Some t)
    obtain t1 r where p: "tailer_poll (sen_from_str E) (sen_from_value E) t (si_trace i) = (t1, r)" by fastforce
    from Some assms(2) have t: "jt_ingress t = android_jsonl_ingress_new" by (simp add: public_tailer_def)
    have "\<forall>e \<in> set (accept_all es). is_android e" if r: "r = Inr es" for es
    proof -
      obtain ls where "parse_complete_lines (sen_from_str E) (sen_from_value E) android_jsonl_ingress_new ls = Inr es"
        using tailer_poll_ingress(2) [OF p r] t by auto
      then show ?thesis by (auto simp: accept_parsed is_android_def ingest_envelope_def)
    qed
    then show ?thesis
      using assms Some p tailer_poll_ingress(1) [OF p] t
      by (auto simp: android_step_def public_tailer_def split: if_splits sum.splits)
  qed
  then show "public_tailer s'" "\<forall>e \<in> set evs. is_android e" by simp_all
qed

lemma sys_step_public: "sys_step E i s = (s', evs) \<Longrightarrow> public_tailer s' = public_tailer s"
  by (simp add: public_tailer_def sys_step_frame)

section \<open>A consumer's view of the processes\<close>

text \<open>What the daemon-tier process events tell of a process: the last one counts.\<close>

definition view_step :: "(u32 \<rightharpoonup> proc_state_event) \<Rightarrow> ingested_raw_event \<Rightarrow> u32 \<rightharpoonup> proc_state_event" where
  "view_step v e = (case ing_raw_event e of
     RawProcStateChange p \<Rightarrow> if is_android e then v else v(pse_pid p \<mapsto> p) | _ \<Rightarrow> v)"

definition process_view :: "ingested_raw_event list \<Rightarrow> u32 \<rightharpoonup> proc_state_event" where
  "process_view evs = foldl view_step Map.empty evs"

definition agrees :: "proc_state_event \<Rightarrow> proc_snapshot \<Rightarrow> bool" where
  "agrees e p \<longleftrightarrow> pse_vm_rss_kb e = psn_vm_rss_kb p \<and> pse_vm_swap_kb e = psn_vm_swap_kb p
     \<and> pse_oom_score e = psn_oom_score p \<and> pse_threads e = psn_threads p \<and> pse_state e = psn_state p"

definition in_step :: "(u32 \<rightharpoonup> proc_snapshot) \<Rightarrow> (u32 \<rightharpoonup> proc_state_event) \<Rightarrow> bool" where
  "in_step prev v \<longleftrightarrow> (\<forall>pid p. prev pid = Some p \<longrightarrow> (\<exists>e. v pid = Some e \<and> agrees e p))"

lemma snapshot_map_pid: "snapshot_map ss pid = Some p \<Longrightarrow> psn_pid p = pid"
  by (induction ss rule: rev_induct) (auto simp: snapshot_map_def split: if_splits)

lemma view_step_other:
  "is_android e \<or> (\<forall>p. ing_raw_event e \<noteq> RawProcStateChange p) \<Longrightarrow> view_step v e = v"
  by (cases "ing_raw_event e") (auto simp: view_step_def)

lemma view_other:
  "\<forall>e \<in> set evs. is_android e \<or> (\<forall>p. ing_raw_event e \<noteq> RawProcStateChange p) \<Longrightarrow> foldl view_step v evs = v"
  by (induction evs arbitrary: v) (simp_all add: view_step_other)

text \<open>The process events of one poll: a pid among them gets one of its reported snapshots, any other
  keeps what it had.\<close>

lemma view_proc_events:
  "foldl view_step v (proc_events t ss) pid =
     (let qs = filter (\<lambda>s. psn_pid s = pid) ss in
      if qs = [] then v pid else Some (to_event (last qs) t))"
proof (induction ss rule: rev_induct)
  case (snoc s ss)
  have "foldl view_step v (proc_events t (ss @ [s])) =
      (foldl view_step v (proc_events t ss))(psn_pid s \<mapsto> to_event s t)"
    by (simp add: proc_events_def ingress_accept_internal_def view_step_def is_android_def)
      (simp add: to_event_def)
  with snoc show ?case by (simp add: Let_def)
qed (simp add: proc_events_def)

lemma in_step_poll:
  assumes v: "in_step prev v" and vals: "set vs = ran cur"
    and pid: "\<And>pid p. cur pid = Some p \<Longrightarrow> psn_pid p = pid"
  shows "in_step cur (foldl view_step v (proc_events t (diff_snapshots prev vs)))"
  unfolding in_step_def
proof (intro allI impI)
  fix pid p
  assume p: "cur pid = Some p"
  let ?qs = "filter (\<lambda>s. psn_pid s = pid) (diff_snapshots prev vs)"
  have uniq: "s = p" if "s \<in> set ?qs" for s
    using that p pid vals by (fastforce simp: diff_snapshots_def ran_def)
  show "\<exists>e. foldl view_step v (proc_events t (diff_snapshots prev vs)) pid = Some e \<and> agrees e p"
  proof (cases ?qs)
    case Nil
    have "p \<in> set vs" using p vals by (auto simp: ran_def)
    with Nil p pid have "\<not> snapshot_changed prev p" by (auto simp: diff_snapshots_def filter_empty_conv)
    then obtain p' where "prev pid = Some p'" "psn_vm_rss_kb p' = psn_vm_rss_kb p"
        "psn_vm_swap_kb p' = psn_vm_swap_kb p" "psn_oom_score p' = psn_oom_score p"
        "psn_threads p' = psn_threads p" "psn_state p' = psn_state p"
      using pid [OF p] by (auto simp: snapshot_changed_def split: option.splits)
    with v have "\<exists>e. v pid = Some e \<and> agrees e p" unfolding in_step_def agrees_def by metis
    with Nil show ?thesis by (simp add: view_proc_events)
  next
    case (Cons q qs)
    then have "last ?qs = p" using uniq last_in_set [of ?qs] by (metis list.distinct(1))
    with Cons show ?thesis by (simp add: view_proc_events agrees_def to_event_def)
  qed
qed

text \<open>Whoever follows the daemon's process events knows every live process: after any number of
  polls, for each process the last poll found, the last event sent for its pid carries the process's
  present memory, swap, thread, OOM and state values, in whatever order the hash map yields the
  snapshots, and although only changed processes are reported.\<close>

theorem process_view_in_step:
  assumes "\<And>ss. set (sen_values E (snapshot_map ss)) = ran (snapshot_map ss)"
    and "source_run E is (system_source_new pf path) = Returns (s, evs)"
    and "ssr_prev s pid = Some p"
  shows "\<exists>e. process_view evs pid = Some e \<and> agrees e p"
proof -
  have "in_step (ssr_prev s0) v \<Longrightarrow> public_tailer s0 \<Longrightarrow> source_run E is s0 = Returns (s, evs)
      \<Longrightarrow> in_step (ssr_prev s) (foldl view_step v evs)" for s0 v
  proof (induction "is" arbitrary: s0 v evs)
    case (Cons i "is")
    obtain s1 e1 e2 where run: "source_poll E i s0 = Returns (s1, e1)" "source_run E is s1 = Returns (s, e2)"
        "evs = e1 @ e2"
      using Cons.prems(3) by (rule source_run_Cons)
    obtain ss s2 sys android where poll: "sys_step E i (s0\<lparr>ssr_prev := snapshot_map ss\<rparr>) = (s2, sys)"
        "android_step E i s2 = (s1, android)"
        "e1 = proc_events (si_now_ms i) (diff_snapshots (ssr_prev s0) (sen_values E (snapshot_map ss)))
            @ sys @ binder_events i s2 @ android"
      using run(1) by (rule source_poll_Returns)
    have pub: "public_tailer s2"
      using sys_step_public [OF poll(1)] Cons.prems(2) by (simp add: public_tailer_def)
    have prev: "ssr_prev s1 = snapshot_map ss"
      using sys_step_frame [OF poll(1)] android_step_frame [OF poll(2)] by simp
    have other: "foldl view_step w (sys @ binder_events i s2 @ android) = w" for w
      using android_step_public(2) [OF poll(2) pub] poll(1)
      by (intro view_other)
        (auto simp: sys_step_def binder_events_def binder_poll_def ingress_accept_internal_def split: if_splits)
    have "in_step (snapshot_map ss) (foldl view_step v (proc_events (si_now_ms i)
        (diff_snapshots (ssr_prev s0) (sen_values E (snapshot_map ss)))))"
      by (rule in_step_poll [OF Cons.prems(1) assms(1) snapshot_map_pid])
    then have "in_step (ssr_prev s1) (foldl view_step v e1)"
      unfolding prev poll(3) foldl_append by (simp only: other [unfolded foldl_append])
    from Cons.IH [OF this android_step_public(1) [OF poll(2) pub] run(2)] show ?case
      unfolding run(3) foldl_append .
  qed simp
  moreover have "in_step (ssr_prev (system_source_new pf path)) Map.empty"
    by (simp add: in_step_def system_source_new_def)
  moreover have "public_tailer (system_source_new pf path)"
    by (auto simp: public_tailer_def system_source_new_def tailer_new_def)
  ultimately have "in_step (ssr_prev s) (process_view evs)"
    using assms(2) unfolding process_view_def by blast
  with assms(3) show ?thesis by (simp add: in_step_def)
qed

definition demo_source_env :: source_env where
  "demo_source_env = \<lparr>sen_lowercase = (\<lambda>s. s), sen_from_str = jsonl_demo_from_str,
     sen_from_value = jsonl_demo_from_value,
     sen_values = (\<lambda>m. map (\<lambda>k. the (m k)) (sorted_list_of_set (dom m)))\<rparr>"

lemma demo_source_env_values: "set (sen_values demo_source_env (snapshot_map ss)) = ran (snapshot_map ss)"
proof -
  have "finite (dom (snapshot_map ss))"
    by (induction ss rule: rev_induct) (simp_all add: snapshot_map_def)
  then show ?thesis by (auto simp: demo_source_env_def ran_def image_iff dom_def intro: domI) (metis option.sel)
qed

definition demo_platform :: platform where
  "demo_platform = \<lparr>pf_linux = True, pf_binder_tracepoint = False\<rparr>"

definition demo_proc :: file_system where
  "demo_proc p =
     (if p = ''/proc/7/stat''
      then Some (''7'' @ '' ('' @ ''a) R b'' @ '') '' @ join_str '' '' demo_stat_fields @ [newline])
      else if p = ''/proc/7/status'' then Some [] else None)"

definition demo_input :: source_input where
  "demo_input = \<lparr>si_now_ms = 5, si_fs = demo_proc, si_proc_dir = Some [''7'', ''self''], si_net_dir = None,
     si_trace = FilePresent jsonl_demo_file, si_sys_check = 0, si_sys_done = 1, si_android_check = 2,
     si_android_done = 3\<rparr>"

lemma demo_scan:
  "scan_all (si_fs demo_input) (si_proc_dir demo_input) = Returns
     [\<lparr>psn_pid = 7, psn_uid = 0, psn_package_name = None, psn_vm_rss_kb = 0, psn_vm_swap_kb = 0,
       psn_threads = 42, psn_oom_score = 0, psn_io_read_mb = 0, psn_io_write_mb = 0, psn_state = ProcSleeping\<rparr>]"
proof -
  have "show_nat 42 = ''42''" by (simp add: show_nat.simps) code_simp
  then have f: "demo_stat_fields ! 17 = show_nat 42" "list_all stat_field demo_stat_fields"
    by (simp_all add: demo_stat_fields_def nth_append stat_field_def list_all_iff)
  have stat: "read_stat demo_proc ''/proc/7'' = Returns (Some (proc_state_of (demo_stat_fields ! 0), of_nat 42))"
    by (rule read_stat_line [where pre = "''7''" and comm = "''a) R b''", OF _ valid_utf8_ascii [OF demo_stat_ascii]])
      (simp_all add: f demo_proc_def, simp_all add: demo_stat_fields_def)
  have "show_nat 7 = ''7''" by (simp add: show_nat.simps) code_simp
  then have "read_process demo_proc 7 = Returns (Some
      \<lparr>psn_pid = 7, psn_uid = 0, psn_package_name = None, psn_vm_rss_kb = 0, psn_vm_swap_kb = 0,
       psn_threads = 42, psn_oom_score = 0, psn_io_read_mb = 0, psn_io_write_mb = 0, psn_state = ProcSleeping\<rparr>)"
    using stat by (simp add: read_process_def read_status_def read_oom_score_def read_io_def read_cmdline_def
        read_to_string_def valid_utf8_def str_lines_def demo_proc_def demo_stat_fields_def proc_state_of_def)
  then show ?thesis
    by (simp add: demo_input_def scan_all_def parse_u32_def parse_uint_def digit_of_def)
qed

lemma demo_run:
  obtains s evs where "source_run demo_source_env [demo_input] (system_source_new pf path) = Returns (s, evs)"
    "ssr_prev s 7 \<noteq> None"
proof -
  obtain s1 sys where sys: "sys_step demo_source_env demo_input
      (system_source_new pf path\<lparr>ssr_prev := snapshot_map
         [\<lparr>psn_pid = 7, psn_uid = 0, psn_package_name = None, psn_vm_rss_kb = 0, psn_vm_swap_kb = 0,
           psn_threads = 42, psn_oom_score = 0, psn_io_read_mb = 0, psn_io_write_mb = 0,
           psn_state = ProcSleeping\<rparr>]\<rparr>) = (s1, sys)"
    by fastforce
  obtain s2 android where android: "android_step demo_source_env demo_input s1 = (s2, android)" by fastforce
  have "ssr_prev s2 7 \<noteq> None"
    using sys_step_frame [OF sys] android_step_frame [OF android] by (simp add: snapshot_map_def)
  with sys android demo_scan show ?thesis by (intro that) (simp_all add: source_poll_def)
qed

theorem process_view_in_step_witness:
  "\<exists>s evs e p. source_run demo_source_env [demo_input] (system_source_new demo_platform None) = Returns (s, evs)
     \<and> ssr_prev s 7 = Some p \<and> process_view evs 7 = Some e \<and> agrees e p"
proof -
  obtain s evs p where r: "source_run demo_source_env [demo_input] (system_source_new demo_platform None) = Returns (s, evs)"
    "ssr_prev s 7 = Some p"
    using demo_run by blast
  then show ?thesis using process_view_in_step [OF demo_source_env_values r] by blast
qed

section \<open>From the file to the channel\<close>

lemma android_due_later:
  "\<forall>t. ssr_last_android_jsonl_poll s = Some t \<longrightarrow> t + 500 * 10 ^ 6 \<le> now \<Longrightarrow> android_due s now"
  by (auto simp: android_due_def ANDROID_JSONL_POLL_INTERVAL_MS_def split: option.splits)

text \<open>The tailer sees the trace at the polls that are due, and the source delivers what it delivers.\<close>

lemma android_step_tailer:
  assumes "android_step E i s = (s', evs)" "ssr_android_tailer s = Some t" "public_tailer s"
  shows "if android_due s (si_android_check i)
    then \<exists>t1 r. tailer_poll (sen_from_str E) (sen_from_value E) t (si_trace i) = (t1, r)
      \<and> ssr_android_tailer s' = Some t1 \<and> ssr_last_android_jsonl_poll s' = Some (si_android_done i)
      \<and> evs = map ingest_envelope (delivered r)
    else s' = s \<and> evs = []"
proof (cases "android_due s (si_android_check i)")
  case True
  obtain t1 r where p: "tailer_poll (sen_from_str E) (sen_from_value E) t (si_trace i) = (t1, r)" by fastforce
  have "accept_all es = map ingest_envelope es" if "r = Inr es" for es
    using tailer_poll_ingress(2) [OF p that] assms(2,3) by (auto simp: public_tailer_def accept_parsed)
  then show ?thesis using assms(1,2) True p by (auto simp: android_step_def split: sum.splits)
qed (use assms(1,2) in \<open>simp add: android_step_def\<close>)

lemma source_poll_android:
  assumes "source_poll E i s = Returns (s', evs)" "ssr_android_tailer s = Some t" "public_tailer s"
  shows "public_tailer s' \<and>
    (if android_due s (si_android_check i)
     then \<exists>t1 r. tailer_poll (sen_from_str E) (sen_from_value E) t (si_trace i) = (t1, r)
      \<and> ssr_android_tailer s' = Some t1 \<and> ssr_last_android_jsonl_poll s' = Some (si_android_done i)
      \<and> filter is_android evs = map ingest_envelope (delivered r)
     else ssr_android_tailer s' = Some t
      \<and> ssr_last_android_jsonl_poll s' = ssr_last_android_jsonl_poll s \<and> filter is_android evs = [])"
proof -
  obtain ss s2 sys android where poll: "sys_step E i (s\<lparr>ssr_prev := snapshot_map ss\<rparr>) = (s2, sys)"
      "android_step E i s2 = (s', android)"
      "evs = proc_events (si_now_ms i) (diff_snapshots (ssr_prev s) (sen_values E (snapshot_map ss)))
          @ sys @ binder_events i s2 @ android"
    using assms(1) by (rule source_poll_Returns)
  have s2: "ssr_android_tailer s2 = Some t" "ssr_last_android_jsonl_poll s2 = ssr_last_android_jsonl_poll s"
      "public_tailer s2"
    using sys_step_frame [OF poll(1)] assms(2,3) by (simp_all add: public_tailer_def)
  then have due: "android_due s2 now = android_due s now" for now by (simp add: android_due_def)
  have "filter is_android evs = android"
    using poll(3) daemon_events(1,3) daemon_events(2) [OF poll(1)] android_step_public(2) [OF poll(2) s2(3)]
    by (simp add: filter_empty_conv)
  moreover have "public_tailer s'" by (rule android_step_public(1) [OF poll(2) s2(3)])
  ultimately show ?thesis
    using android_step_tailer [OF poll(2) s2(1,3)] s2 unfolding due by (auto split: if_splits)
qed

lemma source_run_append:
  assumes "source_run E (is @ js) s = Returns (s', evs)"
  obtains s1 e1 e2 where "source_run E is s = Returns (s1, e1)" "source_run E js s1 = Returns (s', e2)"
    "evs = e1 @ e2"
  using assms
proof (induction "is" arbitrary: s evs thesis)
  case (Cons i "is")
  obtain s1 e1 e2 where 1: "source_poll E i s = Returns (s1, e1)" "source_run E (is @ js) s1 = Returns (s', e2)"
      "evs = e1 @ e2"
    using Cons.prems(2) unfolding append_Cons by (rule source_run_Cons)
  obtain s2 e3 e4 where 2: "source_run E is s1 = Returns (s2, e3)" "source_run E js s2 = Returns (s', e4)"
      "e2 = e3 @ e4"
    using Cons.IH [OF _ 1(2)] by blast
  from 1 2 show ?case by (intro Cons.prems(1) [of s2 "e1 @ e3" e4]) simp_all
qed simp

lemma source_run_tailer:
  "source_run E is s = Returns (s', evs) \<Longrightarrow> ssr_android_tailer s = Some t \<Longrightarrow> public_tailer s \<Longrightarrow>
   \<exists>vs t' rs. subseq vs (map si_trace is)
    \<and> map_state (tailer_poll (sen_from_str E) (sen_from_value E)) t vs = (t', rs)
    \<and> ssr_android_tailer s' = Some t' \<and> public_tailer s'
    \<and> filter is_android evs = map ingest_envelope (concat (map delivered rs))
    \<and> (\<forall>x. ssr_last_android_jsonl_poll s' = Some x \<longrightarrow>
         ssr_last_android_jsonl_poll s = Some x \<or> x \<in> si_android_done ` set is)"
proof (induction "is" arbitrary: s t evs)
  case Nil
  then show ?case by (intro exI [of _ "[]"]) auto
next
  case (Cons i "is")
  let ?f = "tailer_poll (sen_from_str E) (sen_from_value E)"
  obtain s1 e1 e2 where 1: "source_poll E i s = Returns (s1, e1)" "source_run E is s1 = Returns (s', e2)"
      "evs = e1 @ e2"
    using Cons.prems(1) by (rule source_run_Cons)
  note poll = source_poll_android [OF 1(1) Cons.prems(2,3)]
  show ?case
  proof (cases "android_due s (si_android_check i)")
    case True
    with poll obtain t1 r where p: "public_tailer s1" "?f t (si_trace i) = (t1, r)" "ssr_android_tailer s1 = Some t1"
        "ssr_last_android_jsonl_poll s1 = Some (si_android_done i)"
        "filter is_android e1 = map ingest_envelope (delivered r)"
      by auto
    from Cons.IH [OF 1(2) p(3,1)] obtain vs t' rs where v: "subseq vs (map si_trace is)"
        "map_state ?f t1 vs = (t', rs)" "ssr_android_tailer s' = Some t'" "public_tailer s'"
        "filter is_android e2 = map ingest_envelope (concat (map delivered rs))"
        "\<forall>x. ssr_last_android_jsonl_poll s' = Some x \<longrightarrow>
           ssr_last_android_jsonl_poll s1 = Some x \<or> x \<in> si_android_done ` set is"
      by blast
    show ?thesis
      by (intro exI [of _ "si_trace i # vs"] exI [of _ t'] exI [of _ "r # rs"])
        (use v p 1(3) in \<open>auto\<close>)
  next
    case False
    with poll have p: "public_tailer s1" "ssr_android_tailer s1 = Some t"
        "ssr_last_android_jsonl_poll s1 = ssr_last_android_jsonl_poll s" "filter is_android e1 = []"
      by auto
    from Cons.IH [OF 1(2) p(2,1)] obtain vs t' rs where v: "subseq vs (map si_trace is)"
        "map_state ?f t vs = (t', rs)" "ssr_android_tailer s' = Some t'" "public_tailer s'"
        "filter is_android e2 = map ingest_envelope (concat (map delivered rs))"
        "\<forall>x. ssr_last_android_jsonl_poll s' = Some x \<longrightarrow>
           ssr_last_android_jsonl_poll s1 = Some x \<or> x \<in> si_android_done ` set is"
      by blast
    have "subseq vs (map si_trace (i # is))" using v(1) by (simp add: list_emb_Cons)
    with v p 1(3) show ?thesis by (intro exI [of _ vs] exI [of _ t'] exI [of _ rs]) auto
  qed
qed

text \<open>C28: the daemon's event source, polled at its own pace, hands every event of an Android trace whose
  finished lines are all well-formed (UTF-8, and every one parses to an envelope; a malformed line would lose
  the lines read with it) to the ingress pipeline exactly once, in file order and under the public tier: when a
  poll that is due has seen the whole append-only file, the public-tier events of the run are the envelopes
  of the file's finished lines, whatever the earlier polls saw, missed because they came too early, or
  failed to read; no envelope is refused for its schema.\<close>

theorem source_ingests_trace_exactly_once:
  assumes "object_lines c" "valid_utf8 c" "length c < 2 ^ 64"
    and "parse_complete_lines (sen_from_str E) (sen_from_value E) android_jsonl_ingress_new
           (lines_of (head_of c)) = Inr es"
    and "append_only c 0 (map si_trace is)" "si_trace i = FilePresent c"
    and "\<forall>j \<in> set is. si_android_done j + 500 * 10 ^ 6 \<le> si_android_check i"
    and "source_run E (is @ [i]) (system_source_new pf (Some path)) = Returns (s, evs)"
  shows "filter is_android evs = map ingest_envelope es"
proof -
  let ?f = "tailer_poll (sen_from_str E) (sen_from_value E)"
  let ?s0 = "system_source_new pf (Some path)"
  obtain s1 e1 e2 where 1: "source_run E is ?s0 = Returns (s1, e1)" "source_run E [i] s1 = Returns (s, e2)"
      "evs = e1 @ e2"
    using assms(8) by (rule source_run_append)
  have "public_tailer ?s0" "ssr_android_tailer ?s0 = Some (tailer_new path)" "ssr_last_android_jsonl_poll ?s0 = None"
    by (simp_all add: public_tailer_def system_source_new_def tailer_new_def)
  with source_run_tailer [OF 1(1)] obtain vs t rs where v: "subseq vs (map si_trace is)"
      "map_state ?f (tailer_new path) vs = (t, rs)" "ssr_android_tailer s1 = Some t" "public_tailer s1"
      "filter is_android e1 = map ingest_envelope (concat (map delivered rs))"
      "\<forall>x. ssr_last_android_jsonl_poll s1 = Some x \<longrightarrow> x \<in> si_android_done ` set is"
    by auto
  have "android_due s1 (si_android_check i)"
    using v(6) assms(7) by (intro android_due_later) auto
  moreover obtain e2' where e2: "source_poll E i s1 = Returns (s, e2')" "e2 = e2'"
    using 1(2) by (rule source_run_Cons) simp
  ultimately obtain t1 r where p: "?f t (FilePresent c) = (t1, r)"
      "filter is_android e2 = map ingest_envelope (delivered r)"
    using source_poll_android [OF e2(1) v(3,4)] assms(6) by auto
  have "map_state ?f (tailer_new path) (vs @ [FilePresent c]) = (t1, rs @ [r])"
    using v(2) p(1) by (simp add: map_state_append)
  from tailer_delivers [OF assms(1-4) append_only_subseq [OF v(1) assms(5)] this] show ?thesis
    using 1(3) v(5) p(2) by auto
qed

theorem source_ingests_trace_exactly_once_witness:
  "\<exists>s evs. source_run demo_source_env ([demo_input\<lparr>si_trace := FilePresent (take 2 jsonl_demo_file)\<rparr>]
       @ [demo_input\<lparr>si_android_check := 10 ^ 9\<rparr>]) (system_source_new demo_platform (Some ''actions.jsonl'')) = Returns (s, evs)
     \<and> filter is_android evs = map ingest_envelope [jsonl_demo_envelope]"
proof -
  let ?is = "[demo_input\<lparr>si_trace := FilePresent (take 2 jsonl_demo_file)\<rparr>]"
  let ?i = "demo_input\<lparr>si_android_check := 10 ^ 9\<rparr>"
  have poll: "\<exists>r. source_poll demo_source_env j s = Returns r"
    if "si_fs j = si_fs demo_input" "si_proc_dir j = si_proc_dir demo_input" for j s
    using that demo_scan by (simp add: source_poll_def)
  have "\<exists>r. source_run demo_source_env (?is @ [?i]) (system_source_new demo_platform (Some ''actions.jsonl'')) = Returns r"
    using poll [of "hd ?is" "system_source_new demo_platform (Some ''actions.jsonl'')"] poll [of ?i]
    by (auto split: outcome.splits) (metis outcome.distinct(1))
  then obtain s evs where r: "source_run demo_source_env (?is @ [?i]) (system_source_new demo_platform (Some ''actions.jsonl'')) = Returns (s, evs)"
    by fast
  have "object_lines jsonl_demo_file" "valid_utf8 jsonl_demo_file" by (fact jsonl_demo_valid)+
  moreover have "length jsonl_demo_file < 2 ^ 64" by (simp add: jsonl_demo_file_def)
  moreover have "parse_complete_lines (sen_from_str demo_source_env) (sen_from_value demo_source_env) android_jsonl_ingress_new
      (lines_of (head_of jsonl_demo_file)) = Inr [jsonl_demo_envelope]"
    using jsonl_demo_parsed by (simp add: demo_source_env_def)
  moreover have "append_only jsonl_demo_file 0 (map si_trace ?is)" by (simp add: jsonl_demo_file_def)
  moreover have "si_trace ?i = FilePresent jsonl_demo_file" by (simp add: demo_input_def)
  moreover have "\<forall>j \<in> set ?is. si_android_done j + 500 * 10 ^ 6 \<le> si_android_check ?i"
    by (simp add: demo_input_def)
  ultimately have "filter is_android evs = map ingest_envelope [jsonl_demo_envelope]"
    using r by (rule source_ingests_trace_exactly_once)
  with r show ?thesis by blast
qed

end
