(* ===== verification/Prefetch_Target.thy ===== *)
theory Prefetch_Target
  imports Event_Types
begin

text \<open>
  \<open>aios-agent/src/backends/prefetch_target.rs\<close>: which URL a file signal prefetches. Package names are
  matched by substring after trimming and ASCII lowercasing; every answer is a fixed \<open>https\<close> URL.
\<close>

fun fallback_url :: "extension_category \<Rightarrow> string" where
  "fallback_url ExtDocument = ''https://www.w3.org/WAI/ER/tests/xhtml/testfiles/resources/pdf/dummy.pdf''"
| "fallback_url ExtImage = ''https://httpbin.org/image/png''"
| "fallback_url ExtVideo = ''https://www.w3schools.com/html/mov_bbb.mp4''"
| "fallback_url ExtAudio = ''https://www.w3schools.com/html/horse.mp3''"
| "fallback_url ExtArchive = ''https://github.com/114August514/DiPECS/archive/refs/heads/main.zip''"
| "fallback_url ExtCode = ''https://raw.githubusercontent.com/114August514/DiPECS/main/README.md''"
| "fallback_url ExtOther = ''https://httpbin.org/json''"
| "fallback_url ExtUnknown = ''https://httpbin.org/json''"

definition known_package_url :: "string \<Rightarrow> extension_category \<Rightarrow> string option" where
  "known_package_url package_name ext =
     (let p = to_ascii_lowercase (trim package_name); has = (\<lambda>k. str_contains p k) in
      if has ''lark'' \<or> has ''feishu'' then
        Some (if ext = ExtDocument then ''https://www.feishu.cn/docx/'' else ''https://www.feishu.cn/'')
      else if p = ''com.google.android.apps.docs'' \<or> has ''drive'' then
        Some (if ext = ExtImage \<or> ext = ExtVideo then ''https://photos.google.com/''
              else ''https://drive.google.com/drive/my-drive'')
      else if has ''dropbox'' then Some ''https://www.dropbox.com/home''
      else if has ''skydrive'' \<or> has ''onedrive'' then Some ''https://onedrive.live.com/''
      else if has ''slack'' then Some ''https://app.slack.com/client''
      else if has ''telegram'' then Some ''https://web.telegram.org/''
      else if has ''whatsapp'' then Some ''https://www.whatsapp.com/''
      else if has ''tencent.mm'' \<or> has ''wechat'' then Some ''https://weixin.qq.com/''
      else if has ''tencent.mobileqq'' \<or> has ''mobileqq'' then Some ''https://im.qq.com/''
      else if has ''chrome'' \<or> has ''browser'' then Some ''https://www.google.com/''
      else None)"

definition default_prefetch_target :: "extension_category \<Rightarrow> string option \<Rightarrow> string" where
  "default_prefetch_target ext package_name =
     ''url:'' @ (case Option.bind package_name (\<lambda>p. known_package_url p ext) of
                   Some url \<Rightarrow> url | None \<Rightarrow> fallback_url ext)"

definition looks_like_package_name :: "string \<Rightarrow> bool" where
  "looks_like_package_name raw \<longleftrightarrow>
     CHR ''.'' \<in> set raw \<and> CHR ''/'' \<notin> set raw \<and> CHR '':'' \<notin> set raw
     \<and> list_all (\<lambda>c. is_ascii_alphanumeric c \<or> c \<in> {CHR ''.'', CHR ''_'', CHR ''-''}) raw"

section \<open>Every target is a fixed https URL\<close>

lemma fallback_url_https: "prefix ''https://'' (fallback_url ext)"
  by (cases ext) simp_all

lemma known_package_url_https: "known_package_url p ext = Some url \<Longrightarrow> prefix ''https://'' url"
  by (auto simp: known_package_url_def Let_def split: if_splits)

lemma default_prefetch_target_https: "starts_with (default_prefetch_target ext p) ''url:https://''"
  using fallback_url_https [of ext] known_package_url_https [of _ ext]
  by (cases p) (auto simp: default_prefetch_target_def starts_with_def split: option.splits)

text \<open>A name that contains \<open>skydrive\<close> or \<open>onedrive\<close> contains \<open>drive\<close>, which an earlier branch tests.\<close>

lemma drive_shadows_onedrive:
  assumes "str_contains p ''skydrive'' \<or> str_contains p ''onedrive''"
  shows "str_contains p ''drive''"
proof -
  have "sublist ''drive'' ''skydrive''" "sublist ''drive'' ''onedrive''" by code_simp+
  with assms show ?thesis unfolding str_contains_iff_sublist by (meson sublist_order.order_trans)
qed

text \<open>The OneDrive entry is unreachable. Whatever the package, the prefetch target is never
  \<open>onedrive.live.com\<close>: the names that would select it contain \<open>drive\<close> and are taken by the
  Google Drive branch above it.\<close>

theorem onedrive_never_prefetched: "default_prefetch_target ext p \<noteq> ''url:https://onedrive.live.com/''"
proof -
  have "known_package_url q ext \<noteq> Some ''https://onedrive.live.com/''" for q
  proof -
    have "str_contains (to_ascii_lowercase (trim q)) ''drive''
        \<or> \<not> (str_contains (to_ascii_lowercase (trim q)) ''skydrive'' \<or> str_contains (to_ascii_lowercase (trim q)) ''onedrive'')"
      using drive_shadows_onedrive by blast
    then show ?thesis
      unfolding known_package_url_def Let_def by (elim disjE) (simp_all split: if_split)
  qed
  moreover have "fallback_url ext \<noteq> ''https://onedrive.live.com/''" by (cases ext) simp_all
  ultimately show ?thesis by (cases p) (auto simp: default_prefetch_target_def split: option.splits)
qed

end
