(* ===== verification/Cloud_Translate.thy ===== *)
theory Cloud_Translate
  imports Prefetch_Target Rule_Based Parsing
begin

text \<open>
  From the cloud model's JSON to intents (\<open>aios-agent/src/backends/cloud_llm/translate.rs\<close>): the
  records of the model's answer, the tolerant parsing of enum names, the normalisation of prefetch
  targets, and the translation that fails as a whole at the first name it does not know. Fresh ids are
  \<open>ids n\<close>, \<open>ids (n + 1)\<close>, ...: the translation returns the next number also when it fails.

  The lemmas: translation succeeds exactly on the answers whose names are all known; what it yields is
  well-formed whatever the model wrote.
\<close>

record model_action =
  mla_action_type :: string
  mla_target :: "string option"
  mla_urgency :: "string option"

record model_intent =
  mli_intent_type :: string
  mli_target :: "string option"
  mli_extension_category :: "string option"
  mli_confidence :: f32
  mli_risk_level :: string
  mli_actions :: "model_action list"
  mli_rationale_tags :: "string list"

record model_output =
  mlo_intents :: "model_intent list"

section \<open>Names\<close>

definition normalize_enum_name :: "string \<Rightarrow> string" where
  "normalize_enum_name raw = map ascii_lower (filter is_ascii_alphanumeric raw)"

definition parse_extension_category :: "string \<Rightarrow> string + extension_category" where
  "parse_extension_category raw =
     (let n = normalize_enum_name raw in
      if n = ''document'' then Inr ExtDocument
      else if n = ''image'' then Inr ExtImage
      else if n = ''video'' then Inr ExtVideo
      else if n = ''audio'' then Inr ExtAudio
      else if n = ''archive'' then Inr ExtArchive
      else if n = ''code'' then Inr ExtCode
      else if n = ''other'' then Inr ExtOther
      else if n = ''unknown'' then Inr ExtUnknown
      else Inl (''unsupported extension_category: '' @ raw))"

definition or_default :: "string option \<Rightarrow> string" where
  "or_default t = (case t of Some s \<Rightarrow> s | None \<Rightarrow> [])"

definition parse_intent_type :: "string \<Rightarrow> string option \<Rightarrow> string option \<Rightarrow> string + intent_type" where
  "parse_intent_type raw target ext =
     (let n = normalize_enum_name raw in
      if n = ''openapp'' then Inr (OpenApp (or_default target))
      else if n = ''switchtoapp'' then Inr (SwitchToApp (or_default target))
      else if n = ''checknotification'' then Inr (CheckNotification (or_default target))
      else if n = ''handlefile'' then
        (case parse_extension_category (case ext of Some e \<Rightarrow> e | None \<Rightarrow> ''Unknown'') of
           Inl e \<Rightarrow> Inl e | Inr c \<Rightarrow> Inr (HandleFile c))
      else if n = ''entercontext'' then Inr (EnterContext (or_default target))
      else if n = ''idle'' then Inr Idle
      else Inl (''unsupported intent_type: '' @ raw))"

definition parse_risk_level :: "string \<Rightarrow> string + risk_level" where
  "parse_risk_level raw =
     (let n = normalize_enum_name raw in
      if n = ''low'' then Inr RiskLow
      else if n = ''medium'' then Inr RiskMedium
      else if n = ''high'' then Inr RiskHigh
      else Inl (''unsupported risk_level: '' @ raw))"

definition parse_action_type :: "string \<Rightarrow> string + action_type" where
  "parse_action_type raw =
     (let n = normalize_enum_name raw in
      if n = ''prewarmprocess'' then Inr PreWarmProcess
      else if n = ''prefetchfile'' then Inr PrefetchFile
      else if n = ''keepalive'' then Inr KeepAlive
      else if n = ''releasememory'' then Inr ReleaseMemory
      else if n = ''noop'' then Inr NoOp
      else Inl (''unsupported action_type: '' @ raw))"

definition parse_action_urgency :: "string \<Rightarrow> string + action_urgency" where
  "parse_action_urgency raw =
     (let n = normalize_enum_name raw in
      if n = ''immediate'' then Inr Immediate
      else if n = ''idletime'' \<or> n = ''idle'' then Inr IdleTime
      else if n = ''deferred'' then Inr Deferred
      else Inl (''unsupported urgency: '' @ raw))"

section \<open>Targets\<close>

definition infer_prefetch_category :: "model_intent \<Rightarrow> extension_category option" where
  "infer_prefetch_category i =
     (if normalize_enum_name (mli_intent_type i) \<noteq> ''handlefile'' then None
      else Some (case mli_extension_category i of
        None \<Rightarrow> ExtUnknown
      | Some raw \<Rightarrow> (case parse_extension_category raw of Inl _ \<Rightarrow> ExtUnknown | Inr c \<Rightarrow> c)))"

definition infer_prefetch_target :: "model_intent \<Rightarrow> extension_category option \<Rightarrow> string option" where
  "infer_prefetch_target i ext =
     (if normalize_enum_name (mli_intent_type i) \<noteq> ''handlefile'' then None
      else Some (default_prefetch_target (case ext of Some c \<Rightarrow> c | None \<Rightarrow> ExtUnknown) (mli_target i)))"

definition normalize_target_value :: "extension_category option \<Rightarrow> string \<Rightarrow> string option" where
  "normalize_target_value cat v =
     (if starts_with v ''url:'' \<or> starts_with v ''uri:'' then Some v
      else if starts_with v ''http://'' \<or> starts_with v ''https://'' then Some (''url:'' @ v)
      else if starts_with v ''content://'' then Some (''uri:'' @ v)
      else case strip_prefix v ''pkg:'' of
        Some package_name \<Rightarrow> map_option (\<lambda>c. default_prefetch_target c (Some (trim package_name))) cat
      | None \<Rightarrow>
          (if looks_like_package_name v then map_option (\<lambda>c. default_prefetch_target c (Some v)) cat
           else None))"

definition normalize_prefetch_target ::
  "string option \<Rightarrow> string option \<Rightarrow> extension_category option \<Rightarrow> string option" where
  "normalize_prefetch_target target fallback cat =
     (let normalized = Option.bind target (\<lambda>t. let v = trim t in if v = [] then None else normalize_target_value cat v)
      in case normalized of Some t \<Rightarrow> Some t | None \<Rightarrow> fallback)"

section \<open>Translation\<close>

definition nonblank :: "string option \<Rightarrow> string option" where
  "nonblank t = (case t of Some v \<Rightarrow> if trim v = [] then None else Some v | None \<Rightarrow> None)"

definition translate_action ::
  "model_action \<Rightarrow> string option \<Rightarrow> extension_category option \<Rightarrow> string + suggested_action" where
  "translate_action a fallback cat =
     (case parse_action_type (mla_action_type a) of
        Inl e \<Rightarrow> Inl e
      | Inr ty \<Rightarrow>
          (let target = (if ty = PrefetchFile then normalize_prefetch_target (nonblank (mla_target a)) fallback cat
                         else nonblank (mla_target a)) in
           case (case mla_urgency a of None \<Rightarrow> Inr IdleTime | Some u \<Rightarrow> parse_action_urgency u) of
             Inl e \<Rightarrow> Inl e
           | Inr u \<Rightarrow> Inr \<lparr>sa_action_type = ty, sa_target = target, sa_urgency = u\<rparr>))"

text \<open>\<open>collect::<Result<Vec<_>, _>>\<close>: the first error ends it.\<close>

fun collect_results :: "('a \<Rightarrow> 'e + 'b) \<Rightarrow> 'a list \<Rightarrow> 'e + 'b list" where
  "collect_results f [] = Inr []"
| "collect_results f (x # xs) =
     (case f x of Inl e \<Rightarrow> Inl e
      | Inr y \<Rightarrow> (case collect_results f xs of Inl e \<Rightarrow> Inl e | Inr ys \<Rightarrow> Inr (y # ys)))"

definition noop_action :: suggested_action where
  "noop_action = \<lparr>sa_action_type = NoOp, sa_target = None, sa_urgency = IdleTime\<rparr>"

definition translate_intent :: "(nat \<Rightarrow> string) \<Rightarrow> nat \<Rightarrow> model_intent \<Rightarrow> nat \<times> (string + intent)" where
  "translate_intent ids n i =
     (let cat = infer_prefetch_category i;
          prefetched = infer_prefetch_target i cat in
      case parse_intent_type (mli_intent_type i) (mli_target i) (mli_extension_category i) of
        Inl e \<Rightarrow> (n, Inl e)
      | Inr ty \<Rightarrow>
          (case (if mli_actions i = [] then Inr [noop_action]
                 else collect_results (\<lambda>a. translate_action a prefetched cat) (mli_actions i)) of
             Inl e \<Rightarrow> (n, Inl e)
           | Inr acts \<Rightarrow>
               (Suc n,
                case parse_risk_level (mli_risk_level i) of
                  Inl e \<Rightarrow> Inl e
                | Inr risk \<Rightarrow> Inr
                    \<lparr>in_intent_id = ids n, in_intent_type = ty,
                     in_confidence = fp_clamp (FFin 0) (FFin 1) (mli_confidence i),
                     in_risk_level = risk, in_suggested_actions = acts,
                     in_rationale_tags = (if mli_rationale_tags i = [] then [''cloud_llm'']
                                          else mli_rationale_tags i)\<rparr>)))"

definition idle_intent :: "(nat \<Rightarrow> string) \<Rightarrow> nat \<Rightarrow> intent" where
  "idle_intent ids n =
     \<lparr>in_intent_id = ids n, in_intent_type = Idle, in_confidence = f32_lit (1 / 2), in_risk_level = RiskLow,
      in_suggested_actions = [noop_action], in_rationale_tags = [''cloud_llm_idle_fallback'']\<rparr>"

fun translate_all :: "(nat \<Rightarrow> string) \<Rightarrow> nat \<Rightarrow> model_intent list \<Rightarrow> nat \<times> (string + intent list)" where
  "translate_all ids n [] = (n, Inr [])"
| "translate_all ids n (i # is) =
     (case translate_intent ids n i of
        (n1, Inl e) \<Rightarrow> (n1, Inl e)
      | (n1, Inr t) \<Rightarrow>
          (case translate_all ids n1 is of
             (n2, Inl e) \<Rightarrow> (n2, Inl e) | (n2, Inr ts) \<Rightarrow> (n2, Inr (t # ts))))"

definition translate_intents :: "(nat \<Rightarrow> string) \<Rightarrow> nat \<Rightarrow> model_intent list \<Rightarrow> nat \<times> (string + intent list)" where
  "translate_intents ids n is =
     (if is = [] then (Suc n, Inr [idle_intent ids n]) else translate_all ids n is)"

definition idle_batch :: "(nat \<Rightarrow> string) \<Rightarrow> nat \<Rightarrow> structured_context \<Rightarrow> string \<Rightarrow> intent_batch" where
  "idle_batch ids n ctx model =
     \<lparr>ib_window_id = ctx_window_id ctx, ib_intents = [idle_intent ids n],
      ib_generated_at_ms = ctx_window_end_ms ctx, ib_model = model\<rparr>"

text \<open>Markdown fences around the answer.\<close>

definition code_fence :: string where "code_fence = replicate 3 (CHR 0x60)"

definition strip_code_fences :: "string \<Rightarrow> string" where
  "strip_code_fences content =
     (let trimmed = trim content in
      if \<not> starts_with trimmed code_fence then trimmed
      else (let without_prefix = (case split_once (CHR 0x0A) trimmed of Some (_, rest) \<Rightarrow> rest | None \<Rightarrow> trimmed) in
            case strip_suffix without_prefix code_fence of Some s \<Rightarrow> trim s | None \<Rightarrow> without_prefix))"

definition parse_model_output :: "(string \<Rightarrow> string + model_output) \<Rightarrow> string \<Rightarrow> string + model_output" where
  "parse_model_output from_str content =
     (case from_str (trim (strip_code_fences content)) of
        Inl e \<Rightarrow> Inl (''model output was not valid JSON: '' @ e)
      | Inr out \<Rightarrow> Inr out)"

section \<open>Which answers are accepted\<close>

definition accepted_action :: "model_action \<Rightarrow> bool" where
  "accepted_action a \<longleftrightarrow>
     normalize_enum_name (mla_action_type a)
       \<in> {''prewarmprocess'', ''prefetchfile'', ''keepalive'', ''releasememory'', ''noop''}
     \<and> (\<forall>u \<in> set_option (mla_urgency a).
          normalize_enum_name u \<in> {''immediate'', ''idletime'', ''idle'', ''deferred''})"

definition accepted_intent :: "model_intent \<Rightarrow> bool" where
  "accepted_intent i \<longleftrightarrow>
     normalize_enum_name (mli_intent_type i)
       \<in> {''openapp'', ''switchtoapp'', ''checknotification'', ''handlefile'', ''entercontext'', ''idle''}
     \<and> (normalize_enum_name (mli_intent_type i) = ''handlefile'' \<longrightarrow>
          (\<forall>e \<in> set_option (mli_extension_category i). normalize_enum_name e
             \<in> {''document'', ''image'', ''video'', ''audio'', ''archive'', ''code'', ''other'', ''unknown''}))
     \<and> normalize_enum_name (mli_risk_level i) \<in> {''low'', ''medium'', ''high''}
     \<and> list_all accepted_action (mli_actions i)"

definition succeeds :: "'e + 'a \<Rightarrow> bool" where
  "succeeds r \<longleftrightarrow> (case r of Inl _ \<Rightarrow> False | Inr _ \<Rightarrow> True)"

lemma succeeds_simps [simp]: "succeeds (Inr x)" "\<not> succeeds (Inl e)"
  by (simp_all add: succeeds_def)

lemma collect_results_succeeds: "succeeds (collect_results f xs) \<longleftrightarrow> list_all (\<lambda>x. succeeds (f x)) xs"
  by (induction xs) (auto split: sum.splits)

lemma collect_results_mem:
  "collect_results f xs = Inr ys \<Longrightarrow> y \<in> set ys \<Longrightarrow> \<exists>x \<in> set xs. f x = Inr y"
  by (induction xs arbitrary: ys) (auto split: sum.splits)

lemma collect_results_length: "collect_results f xs = Inr ys \<Longrightarrow> length ys = length xs"
  by (induction xs arbitrary: ys) (auto split: sum.splits)

lemma parse_extension_succeeds: "succeeds (parse_extension_category raw) \<longleftrightarrow>
    normalize_enum_name raw
      \<in> {''document'', ''image'', ''video'', ''audio'', ''archive'', ''code'', ''other'', ''unknown''}"
  by (simp add: parse_extension_category_def Let_def)

lemma parse_risk_succeeds:
  "succeeds (parse_risk_level raw) \<longleftrightarrow> normalize_enum_name raw \<in> {''low'', ''medium'', ''high''}"
  by (simp add: parse_risk_level_def Let_def)

lemma parse_action_type_succeeds: "succeeds (parse_action_type raw) \<longleftrightarrow>
    normalize_enum_name raw \<in> {''prewarmprocess'', ''prefetchfile'', ''keepalive'', ''releasememory'', ''noop''}"
  by (simp add: parse_action_type_def Let_def)

lemma parse_urgency_succeeds: "succeeds (parse_action_urgency raw) \<longleftrightarrow>
    normalize_enum_name raw \<in> {''immediate'', ''idletime'', ''idle'', ''deferred''}"
  by (simp add: parse_action_urgency_def Let_def)

lemma normalize_Unknown: "normalize_enum_name ''Unknown'' = ''unknown''" by code_simp

lemma parse_intent_type_succeeds: "succeeds (parse_intent_type raw target ext) \<longleftrightarrow>
    normalize_enum_name raw
      \<in> {''openapp'', ''switchtoapp'', ''checknotification'', ''handlefile'', ''entercontext'', ''idle''}
    \<and> (normalize_enum_name raw = ''handlefile'' \<longrightarrow> (\<forall>e \<in> set_option ext. normalize_enum_name e
          \<in> {''document'', ''image'', ''video'', ''audio'', ''archive'', ''code'', ''other'', ''unknown''}))"
proof -
  have "succeeds (case parse_extension_category e of Inl e \<Rightarrow> Inl e | Inr c \<Rightarrow> Inr (HandleFile c))
      \<longleftrightarrow> succeeds (parse_extension_category e)" for e
    by (simp split: sum.splits)
  then show ?thesis
    by (cases ext) (simp_all add: parse_intent_type_def Let_def parse_extension_succeeds normalize_Unknown)
qed

lemma translate_action_succeeds: "succeeds (translate_action a fb cat) \<longleftrightarrow> accepted_action a"
proof -
  have "succeeds (translate_action a fb cat) \<longleftrightarrow> succeeds (parse_action_type (mla_action_type a))
      \<and> succeeds (case mla_urgency a of None \<Rightarrow> Inr IdleTime | Some u \<Rightarrow> parse_action_urgency u)"
    by (auto simp: translate_action_def Let_def split: sum.splits)
  then show ?thesis
    by (cases "mla_urgency a") (simp_all add: accepted_action_def parse_action_type_succeeds parse_urgency_succeeds)
qed

lemma translate_intent_succeeds: "succeeds (snd (translate_intent ids n i)) \<longleftrightarrow> accepted_intent i"
proof -
  let ?acts = "if mli_actions i = [] then Inr [noop_action]
    else collect_results (\<lambda>a. translate_action a (infer_prefetch_target i (infer_prefetch_category i))
           (infer_prefetch_category i)) (mli_actions i)"
  have "succeeds (snd (translate_intent ids n i)) \<longleftrightarrow>
      succeeds (parse_intent_type (mli_intent_type i) (mli_target i) (mli_extension_category i))
      \<and> succeeds ?acts \<and> succeeds (parse_risk_level (mli_risk_level i))"
    by (auto simp: translate_intent_def Let_def split: sum.splits)
  moreover have "succeeds ?acts \<longleftrightarrow> list_all accepted_action (mli_actions i)"
    by (simp add: collect_results_succeeds translate_action_succeeds)
  ultimately show ?thesis
    unfolding accepted_intent_def parse_intent_type_succeeds parse_risk_succeeds by blast
qed

lemma translate_all_succeeds: "succeeds (snd (translate_all ids n is)) \<longleftrightarrow> list_all accepted_intent is"
proof (induction "is" arbitrary: n)
  case (Cons i "is")
  obtain n1 r where r: "translate_intent ids n i = (n1, r)" by fastforce
  obtain n2 r2 where r2: "translate_all ids n1 is = (n2, r2)" by fastforce
  from r r2 Cons [of n1] translate_intent_succeeds [of ids n i] show ?case
    by (cases r; cases r2) simp_all
qed simp

lemma translate_intents_succeeds:
  "succeeds (snd (translate_intents ids n is)) \<longleftrightarrow> list_all accepted_intent is"
  by (simp add: translate_intents_def translate_all_succeeds)

text \<open>The cloud answer is taken as a whole or not at all, and taken exactly when every name in it is
  known: each intent type, each category of a file intent, each risk level, each action type and each
  urgency, compared without case and punctuation.\<close>

theorem translation_accepts_exactly:
  "succeeds (snd (translate_intents ids n is)) \<longleftrightarrow> list_all accepted_intent is"
  by (rule translate_intents_succeeds)

section \<open>What is accepted is well-formed\<close>

definition prefetch_scheme :: "string \<Rightarrow> bool" where
  "prefetch_scheme t \<longleftrightarrow> starts_with t ''url:'' \<or> starts_with t ''uri:''"

lemma starts_with_shorter: "starts_with t (p @ q) \<Longrightarrow> starts_with t p"
  by (auto simp: starts_with_def prefix_def)

lemma default_prefetch_scheme: "prefetch_scheme (default_prefetch_target c p)"
  using default_prefetch_target_https [of c p] starts_with_shorter [of _ "''url:''" "''https://''"]
  by (simp add: prefetch_scheme_def)

lemma normalize_target_scheme: "normalize_target_value cat v = Some t \<Longrightarrow> prefetch_scheme t"
  by (auto simp: normalize_target_value_def default_prefetch_scheme prefetch_scheme_def starts_with_def
      split: if_splits option.splits)
    (use default_prefetch_scheme in \<open>auto simp: prefetch_scheme_def starts_with_def\<close>)

definition wellformed_action :: "suggested_action \<Rightarrow> bool" where
  "wellformed_action a \<longleftrightarrow>
     (sa_action_type a = PrefetchFile \<longrightarrow> (\<forall>t \<in> set_option (sa_target a). prefetch_scheme t))"

definition wellformed_intent :: "intent \<Rightarrow> bool" where
  "wellformed_intent i \<longleftrightarrow>
     (in_confidence i \<noteq> FNaN \<longrightarrow> fp_le (FFin 0) (in_confidence i) \<and> fp_le (in_confidence i) (FFin 1))
     \<and> in_suggested_actions i \<noteq> [] \<and> in_rationale_tags i \<noteq> []
     \<and> list_all wellformed_action (in_suggested_actions i)"

lemma translate_action_wellformed:
  assumes "translate_action a fb cat = Inr s" "\<forall>t \<in> set_option fb. prefetch_scheme t"
  shows "wellformed_action s"
  using assms normalize_target_scheme [of cat]
  by (auto simp: translate_action_def wellformed_action_def normalize_prefetch_target_def Let_def
      split: sum.splits option.splits if_splits bind_splits)

lemma wellformed_noop: "wellformed_action noop_action"
  by (simp add: wellformed_action_def noop_action_def)

lemma clamp_unit:
  "fp_clamp (FFin 0) (FFin 1) c \<noteq> FNaN
    \<Longrightarrow> fp_le (FFin 0) (fp_clamp (FFin 0) (FFin 1) c) \<and> fp_le (fp_clamp (FFin 0) (FFin 1) c) (FFin 1)"
  by (cases c) (auto simp: fp_clamp_def fp_le_def Let_def split: if_splits)

lemma translate_intent_wellformed:
  assumes "translate_intent ids n i = (n', Inr t)"
  shows "wellformed_intent t" "n' = Suc n" "in_intent_id t = ids n"
proof -
  let ?cat = "infer_prefetch_category i" and ?fb = "infer_prefetch_target i (infer_prefetch_category i)"
  from assms obtain ty acts risk where
      acts: "(if mli_actions i = [] then Inr [noop_action]
        else collect_results (\<lambda>a. translate_action a ?fb ?cat) (mli_actions i)) = Inr acts"
    and t: "t = \<lparr>in_intent_id = ids n, in_intent_type = ty,
       in_confidence = fp_clamp (FFin 0) (FFin 1) (mli_confidence i), in_risk_level = risk,
       in_suggested_actions = acts,
       in_rationale_tags = (if mli_rationale_tags i = [] then [''cloud_llm''] else mli_rationale_tags i)\<rparr>"
      "n' = Suc n"
    by (auto simp: translate_intent_def Let_def split: sum.splits)
  have "\<forall>t \<in> set_option ?fb. prefetch_scheme t"
    by (simp add: infer_prefetch_target_def default_prefetch_scheme)
  then have "wellformed_action s" if "s \<in> set acts" for s
    using acts that wellformed_noop translate_action_wellformed
    by (fastforce dest: collect_results_mem split: if_splits)
  moreover have "acts \<noteq> []"
    using acts collect_results_length [of "\<lambda>a. translate_action a ?fb ?cat" "mli_actions i" acts]
    by (auto split: if_splits)
  ultimately show "wellformed_intent t" "n' = Suc n" "in_intent_id t = ids n"
    using t clamp_unit [of "mli_confidence i"] by (simp_all add: wellformed_intent_def list_all_iff)
qed

lemma translate_all_result:
  "translate_all ids n is = (n', Inr ts)
    \<Longrightarrow> list_all wellformed_intent ts \<and> map in_intent_id ts = map ids [n..<n + length is] \<and> n' = n + length is"
proof (induction "is" arbitrary: n ts)
  case (Cons i "is")
  then obtain n1 t ts1 where t: "translate_intent ids n i = (n1, Inr t)" "translate_all ids n1 is = (n', Inr ts1)"
      "ts = t # ts1"
    by (auto split: prod.splits sum.splits)
  from translate_intent_wellformed [OF t(1)] Cons.IH [OF t(2)] t(3) show ?case
    by (simp add: upt_conv_Cons del: upt_Suc)
qed simp

lemma half_in_unit: "f32_lit (1 / 2) = FFin (1 / 2)" by code_simp

text \<open>Whatever the cloud model wrote, an accepted answer becomes at least one intent, one per
  answered intent, with fresh ids in order; each has a confidence in [0, 1] (or a NaN it was given), at
  least one action and one rationale tag; and every file prefetch it suggests has no target or one
  with a scheme the Android bridge knows, so the policy never refuses it for its target.\<close>

theorem cloud_intents_wellformed:
  assumes "translate_intents ids n is = (n', Inr ts)"
  shows "ts \<noteq> [] \<and> length ts = max 1 (length is) \<and> map in_intent_id ts = map ids [n..<n']
    \<and> list_all wellformed_intent ts
    \<and> (\<forall>t \<in> set ts. \<forall>a \<in> set (in_suggested_actions t).
         sa_action_type a = PrefetchFile \<longrightarrow> check_target PrefetchFile (sa_target a) known = None)"
proof (cases "is = []")
  case True
  with assms show ?thesis
    by (auto simp: translate_intents_def idle_intent_def wellformed_intent_def wellformed_noop fp_le_def
        half_in_unit) (simp add: noop_action_def)
next
  case False
  with assms have r: "translate_all ids n is = (n', Inr ts)" by (simp add: translate_intents_def)
  note wf = translate_all_result [OF r]
  then have len: "length ts = length is" by (metis diff_add_inverse length_map length_upt)
  have "check_target PrefetchFile (sa_target a) known = None"
    if "t \<in> set ts" "a \<in> set (in_suggested_actions t)" "sa_action_type a = PrefetchFile" for t a
  proof -
    from wf that have "\<forall>t \<in> set_option (sa_target a). prefetch_scheme t"
      by (auto simp: list_all_iff wellformed_intent_def wellformed_action_def)
    then show ?thesis
      by (cases "sa_target a") (auto simp: prefetch_scheme_def is_allowed_low_risk_target_def starts_with_def)
  qed
  with wf len False show ?thesis by (auto simp: max_def Suc_le_eq)
qed


definition demo_answer :: "model_intent list" where
  "demo_answer = [\<lparr>mli_intent_type = ''Handle_File'', mli_target = Some ''com.tencent.mm'',
     mli_extension_category = Some ''PDF'', mli_confidence = FFin 3, mli_risk_level = ''LOW'',
     mli_actions = [\<lparr>mla_action_type = ''prefetchFile'', mla_target = Some '' http://x '', mla_urgency = None\<rparr>],
     mli_rationale_tags = []\<rparr>]"

definition demo_answer_ok :: "model_intent list" where
  "demo_answer_ok = map (\<lambda>i. i\<lparr>mli_extension_category := Some ''image''\<rparr>) demo_answer"

lemma demo_names:
  "normalize_enum_name ''Handle_File'' = ''handlefile''" "normalize_enum_name ''image'' = ''image''"
  "normalize_enum_name ''LOW'' = ''low''" "normalize_enum_name ''prefetchFile'' = ''prefetchfile''"
  by code_simp+

theorem cloud_intents_wellformed_witness:
  "\<exists>n' ts. translate_intents show_nat 4 demo_answer_ok = (n', Inr ts) \<and> ts \<noteq> [] \<and> list_all wellformed_intent ts"
proof -
  have "list_all accepted_intent demo_answer_ok"
    by (simp add: demo_answer_ok_def demo_answer_def accepted_intent_def accepted_action_def demo_names)
  then have "succeeds (snd (translate_intents show_nat 4 demo_answer_ok))"
    by (simp only: translate_intents_succeeds)
  then obtain n' ts where r: "translate_intents show_nat 4 demo_answer_ok = (n', Inr ts)"
    by (cases "translate_intents show_nat 4 demo_answer_ok") (auto simp: succeeds_def split: sum.splits)
  from r cloud_intents_wellformed [OF r] show ?thesis by blast
qed

end
