(* ===== verification/Local_Evaluator.thy ===== *)
theory Local_Evaluator
  imports Rule_Based Prefetch_Target "HOL-Library.AList" "HOL-Library.Char_ord" "HOL-Library.List_Lexorder"
begin

text \<open>
  \<open>aios-agent/src/backends/local_evaluator.rs\<close>: the scored local backend. A candidate is made per event
  of interest, scored in \<open>f32\<close> with boosts, penalties and the feedback of recent windows, filtered by
  the device state, deduplicated by its key in a hash map and ranked. The hash map's iteration order
  is the parameter \<open>order\<close>, any permutation.

  The lemmas: scores are never NaN, keys are unique, so the ranking does not depend on the order;
  every proposal passes the policy's action guards; the backend interprets \<open>confined_backend\<close>.
\<close>

section \<open>Window signals\<close>

record window_signals =
  ws_foreground_apps :: "string list"
  ws_low_battery :: bool
  ws_charging :: bool
  ws_cellular :: bool
  ws_offline :: bool
  ws_screen_noninteractive :: bool

definition below_threshold :: "u8 option \<Rightarrow> bool" where
  "below_threshold pct = (case pct of None \<Rightarrow> False | Some p \<Rightarrow> p < 20)"

fun signal_event :: "sanitized_event_type \<Rightarrow> window_signals \<Rightarrow> window_signals" where
  "signal_event (SeSystemStatus pct charging net ringer loc head) s =
     s\<lparr>ws_low_battery := ws_low_battery s \<or> below_threshold pct, ws_charging := ws_charging s \<or> charging,
       ws_cellular := ws_cellular s \<or> net = Cellular, ws_offline := ws_offline s \<or> net = Offline\<rparr>"
| "signal_event (SeScreen st) s =
     (if st = NonInteractive \<or> st = KeyguardShown \<or> st = KeyguardHidden
      then s\<lparr>ws_screen_noninteractive := True\<rparr> else s)"
| "signal_event _ s = s"

definition window_signals_of :: "structured_context \<Rightarrow> window_signals" where
  "window_signals_of ctx =
     (let s = (case cs_latest_system_status (ctx_summary ctx) of
                 None \<Rightarrow> \<lparr>ws_foreground_apps = cs_foreground_apps (ctx_summary ctx), ws_low_battery = False,
                          ws_charging = False, ws_cellular = False, ws_offline = False,
                          ws_screen_noninteractive = False\<rparr>
               | Some st \<Rightarrow> \<lparr>ws_foreground_apps = cs_foreground_apps (ctx_summary ctx),
                          ws_low_battery = below_threshold (snap_battery_pct st),
                          ws_charging = snap_is_charging st, ws_cellular = (snap_network st = Cellular),
                          ws_offline = (snap_network st = Offline), ws_screen_noninteractive = False\<rparr>)
      in foldl (\<lambda>s e. signal_event (se_event_type e) s) s (ctx_events ctx))"

section \<open>Window aggregation\<close>

type_synonym tally = "string \<rightharpoonup> u32"
type_synonym timeline = "string \<rightharpoonup> i64 list"

definition increment_count :: "string \<Rightarrow> tally \<Rightarrow> tally" where
  "increment_count k m = m(k \<mapsto> (case m k of None \<Rightarrow> 0 | Some n \<Rightarrow> n) + 1)"

definition push_timestamp :: "string \<Rightarrow> i64 \<Rightarrow> timeline \<Rightarrow> timeline" where
  "push_timestamp k t m = m(k \<mapsto> (case m k of None \<Rightarrow> [] | Some ts \<Rightarrow> ts) @ [t])"

record window_aggregation =
  wg_package_counts :: tally
  wg_notification_counts :: tally
  wg_file_package_counts :: tally
  wg_notification_timestamps :: timeline
  wg_file_timestamps :: timeline
  wg_recent_foreground_app :: "string option"
  wg_frequent_foreground_apps :: tally
  wg_frequent_notifying_apps :: tally
  wg_recent_policy_rejections :: tally
  wg_recent_execution_failures :: tally

definition empty_aggregation :: window_aggregation where
  "empty_aggregation = \<lparr>wg_package_counts = Map.empty, wg_notification_counts = Map.empty,
     wg_file_package_counts = Map.empty, wg_notification_timestamps = Map.empty, wg_file_timestamps = Map.empty,
     wg_recent_foreground_app = None, wg_frequent_foreground_apps = Map.empty,
     wg_frequent_notifying_apps = Map.empty, wg_recent_policy_rejections = Map.empty,
     wg_recent_execution_failures = Map.empty\<rparr>"

fun aggregate_event :: "sanitized_event_type \<Rightarrow> i64 \<Rightarrow> window_aggregation \<times> (i64 \<times> string) option
    \<Rightarrow> window_aggregation \<times> (i64 \<times> string) option" where
  "aggregate_event (SeAppTransition p a Foreground) t (g, recent) =
     (g\<lparr>wg_package_counts := increment_count p (wg_package_counts g)\<rparr>,
      (case recent of None \<Rightarrow> Some (t, p) | Some (t0, q) \<Rightarrow> if t0 \<le> t then Some (t, p) else recent))"
| "aggregate_event (SeNotification p c ch th xh hs og gk) t (g, recent) =
     (g\<lparr>wg_package_counts := increment_count p (wg_package_counts g),
        wg_notification_counts := increment_count p (wg_notification_counts g),
        wg_notification_timestamps := push_timestamp p t (wg_notification_timestamps g)\<rparr>, recent)"
| "aggregate_event (SeFileActivity (Some p) ext act hot) t (g, recent) =
     (g\<lparr>wg_package_counts := increment_count p (wg_package_counts g),
        wg_file_package_counts := increment_count p (wg_file_package_counts g),
        wg_file_timestamps := push_timestamp p t (wg_file_timestamps g)\<rparr>, recent)"
| "aggregate_event (SeInterAppInteraction (Some p) svc i) t (g, recent) =
     (g\<lparr>wg_package_counts := increment_count p (wg_package_counts g)\<rparr>, recent)"
| "aggregate_event _ t st = st"

definition feedback_action_key :: "string \<Rightarrow> string option \<Rightarrow> string" where
  "feedback_action_key a target = a @ '':'' @ (case target of None \<Rightarrow> [] | Some t \<Rightarrow> t)"

definition aggregate_outcome :: "window_aggregation \<Rightarrow> action_feedback_record \<Rightarrow> window_aggregation" where
  "aggregate_outcome g a =
     (let key = feedback_action_key (af_action_type a) (af_target a);
          g1 = (if af_correctness a = PolicyRejected \<or> str_contains (af_terminal a) ''Denied''
                  \<or> af_denial_reason a \<noteq> None
                then g\<lparr>wg_recent_policy_rejections := increment_count key (wg_recent_policy_rejections g)\<rparr> else g)
      in (if af_correctness a = ExecutionFailed \<or> str_contains (af_terminal a) ''Failed'' \<or> af_error a \<noteq> None
          then g1\<lparr>wg_recent_execution_failures := increment_count key (wg_recent_execution_failures g1)\<rparr> else g1))"

definition aggregation_of :: "structured_context \<Rightarrow> user_behavior_profile option \<Rightarrow> recent_decision_record list
    \<Rightarrow> window_aggregation" where
  "aggregation_of ctx profile recent_feedback =
     (let (g, recent) = foldl (\<lambda>st e. aggregate_event (se_event_type e) (se_timestamp_ms e) st)
            (empty_aggregation, None) (ctx_events ctx);
          g = g\<lparr>wg_recent_foreground_app := map_option snd recent\<rparr>;
          g = (case profile of None \<Rightarrow> g
               | Some p \<Rightarrow> g\<lparr>wg_frequent_foreground_apps := foldl (\<lambda>m (k, n). m(k \<mapsto> n)) Map.empty (ubp_frequent_foreground_apps p),
                            wg_frequent_notifying_apps := foldl (\<lambda>m (k, n). m(k \<mapsto> n)) Map.empty (ubp_frequent_notifying_apps p)\<rparr>)
      in foldl (\<lambda>g r. foldl aggregate_outcome g (rd_action_outcomes r)) g recent_feedback)"

section \<open>Scores\<close>

datatype boost_group = BoostPackage | BoostBehavior | BoostCorrelation

record score =
  sc_value :: f32
  sc_tags :: "string list"
  sc_package_boost :: f32
  sc_behavior_boost :: f32
  sc_correlation_boost :: f32

definition score_with_tags :: "f32 \<Rightarrow> string list \<Rightarrow> score" where
  "score_with_tags v tags = \<lparr>sc_value = v, sc_tags = tags, sc_package_boost = FFin 0, sc_behavior_boost = FFin 0,
     sc_correlation_boost = FFin 0\<rparr>"

definition new_score :: "f32 \<Rightarrow> score" where
  "new_score v = score_with_tags v []"

definition score_add :: "f32 \<Rightarrow> string \<Rightarrow> score \<Rightarrow> score" where
  "score_add d tag s = s\<lparr>sc_value := fp_add fmt32 (sc_value s) d, sc_tags := sc_tags s @ [tag]\<rparr>"

fun group_cap :: "boost_group \<Rightarrow> f32" where
  "group_cap BoostPackage = f32_lit (8 / 100)"
| "group_cap BoostBehavior = f32_lit (5 / 100)"
| "group_cap BoostCorrelation = f32_lit (8 / 100)"

fun group_boost :: "boost_group \<Rightarrow> score \<Rightarrow> f32" where
  "group_boost BoostPackage s = sc_package_boost s"
| "group_boost BoostBehavior s = sc_behavior_boost s"
| "group_boost BoostCorrelation s = sc_correlation_boost s"

fun add_group_boost :: "boost_group \<Rightarrow> f32 \<Rightarrow> score \<Rightarrow> score" where
  "add_group_boost BoostPackage d s = s\<lparr>sc_package_boost := fp_add fmt32 (sc_package_boost s) d\<rparr>"
| "add_group_boost BoostBehavior d s = s\<lparr>sc_behavior_boost := fp_add fmt32 (sc_behavior_boost s) d\<rparr>"
| "add_group_boost BoostCorrelation d s = s\<lparr>sc_correlation_boost := fp_add fmt32 (sc_correlation_boost s) d\<rparr>"

definition add_grouped :: "boost_group \<Rightarrow> f32 \<Rightarrow> string \<Rightarrow> score \<Rightarrow> score" where
  "add_grouped g d tag s =
     (let remaining = fp_sub fmt32 (group_cap g) (group_boost g s);
          applied = fp_min d (fp_max remaining (FFin 0))
      in if fp_le applied (FFin 0) then s\<lparr>sc_tags := sc_tags s @ [tag @ '':capped'']\<rparr>
         else (add_group_boost g applied (s\<lparr>sc_value := fp_add fmt32 (sc_value s) applied\<rparr>))
                \<lparr>sc_tags := sc_tags s @ [tag]\<rparr>)"

definition window_penalties :: "window_signals \<Rightarrow> bool \<Rightarrow> score \<Rightarrow> score" where
  "window_penalties sig visible s =
     (let s = (if ws_low_battery sig \<and> \<not> ws_charging sig
               then score_add (f32_lit (- 18 / 100)) ''local:penalty:low_battery'' s else s);
          s = (if ws_cellular sig then score_add (f32_lit (- 6 / 100)) ''local:penalty:cellular_network'' s else s);
          s = (if ws_offline sig then score_add (f32_lit (- 20 / 100)) ''local:penalty:offline'' s else s)
      in (if ws_screen_noninteractive sig \<and> visible
          then score_add (f32_lit (- 12 / 100)) ''local:penalty:screen_noninteractive'' s else s))"

definition apply_window :: "window_signals \<Rightarrow> bool \<Rightarrow> score \<Rightarrow> score" where
  "apply_window sig visible s =
     (let s = window_penalties sig visible s
      in s\<lparr>sc_value := fp_clamp (FFin 0) (f32_lit (99 / 100)) (sc_value s)\<rparr>)"

section \<open>Boosts\<close>

definition apply_package_boost :: "window_aggregation \<Rightarrow> string option \<Rightarrow> score \<Rightarrow> score" where
  "apply_package_boost g pkg s =
     (case pkg of None \<Rightarrow> s
      | Some p \<Rightarrow>
          let s = (if 2 \<le> (case wg_package_counts g p of None \<Rightarrow> 0 | Some n \<Rightarrow> n)
                   then add_grouped BoostPackage (f32_lit (4 / 100)) ''local:boost:repeated_package_in_window'' s else s);
              s = (if wg_frequent_foreground_apps g p \<noteq> None
                   then add_grouped BoostBehavior (f32_lit (3 / 100)) ''local:boost:frequent_foreground_app'' s else s)
          in (if wg_frequent_notifying_apps g p \<noteq> None
              then add_grouped BoostBehavior (f32_lit (3 / 100)) ''local:boost:frequent_notifying_app'' s else s))"

definition nearest_delta_ms :: "i64 list option \<Rightarrow> i64 \<Rightarrow> i64 option" where
  "nearest_delta_ms ts t =
     (case ts of None \<Rightarrow> None
      | Some xs \<Rightarrow> (case map (\<lambda>x. i64_wrap \<bar>i64_saturating_sub t x\<bar>) xs of
          [] \<Rightarrow> None | d # ds \<Rightarrow> Some (foldl min d ds)))"

definition correlation_boost :: "i64 option \<Rightarrow> string \<Rightarrow> score \<Rightarrow> score" where
  "correlation_boost delta tag s =
     (case delta of None \<Rightarrow> s
      | Some d \<Rightarrow>
          (if d \<le> 10000 then add_grouped BoostCorrelation (f32_lit (6 / 100)) (tag @ ''_strong'') s
           else add_grouped BoostCorrelation (f32_lit (3 / 100)) (tag @ ''_weak'') s))"

definition apply_file_notification_boost :: "window_aggregation \<Rightarrow> string option \<Rightarrow> i64 \<Rightarrow> score \<Rightarrow> score" where
  "apply_file_notification_boost g pkg t s =
     (case pkg of None \<Rightarrow> s
      | Some p \<Rightarrow> correlation_boost (nearest_delta_ms (wg_notification_timestamps g p) t)
                    ''local:boost:file_notification_same_package'' s)"

definition apply_notification_file_boost :: "window_aggregation \<Rightarrow> string \<Rightarrow> i64 \<Rightarrow> score \<Rightarrow> score" where
  "apply_notification_file_boost g p t s =
     correlation_boost (nearest_delta_ms (wg_file_timestamps g p) t) ''local:boost:notification_file_activity_link'' s"

definition is_recent_foreground :: "window_aggregation \<Rightarrow> string \<Rightarrow> bool" where
  "is_recent_foreground g p \<longleftrightarrow> wg_recent_foreground_app g = Some p"

definition action_feedback_penalty :: "window_aggregation \<Rightarrow> score \<Rightarrow> suggested_action \<Rightarrow> score" where
  "action_feedback_penalty g s a =
     (let key = feedback_action_key (debug_action_type (sa_action_type a)) (sa_target a);
          s = (if wg_recent_policy_rejections g key \<noteq> None
               then score_add (f32_lit (- 12 / 100)) ''local:penalty:recent_policy_rejected'' s else s)
      in (if wg_recent_execution_failures g key \<noteq> None
          then score_add (f32_lit (- 8 / 100)) ''local:penalty:recent_execution_failed'' s else s))"

definition apply_action_feedback :: "window_aggregation \<Rightarrow> suggested_action list \<Rightarrow> score \<Rightarrow> score" where
  "apply_action_feedback g as s = foldl (action_feedback_penalty g) s as"

section \<open>Candidates\<close>

record intent_candidate =
  ic_intent_type :: intent_type
  ic_confidence :: f32
  ic_actions :: "suggested_action list"
  ic_tags :: "string list"

definition new_candidate :: "intent_type \<Rightarrow> score \<Rightarrow> suggested_action list \<Rightarrow> string list \<Rightarrow> intent_candidate" where
  "new_candidate t s as tags = \<lparr>ic_intent_type = t, ic_confidence = sc_value s, ic_actions = as,
     ic_tags = tags @ sc_tags s\<rparr>"

definition local_action :: "action_type \<Rightarrow> string option \<Rightarrow> action_urgency \<Rightarrow> suggested_action" where
  "local_action a t u = \<lparr>sa_action_type = a, sa_target = t, sa_urgency = u\<rparr>"

definition file_candidate :: "window_signals \<Rightarrow> window_aggregation \<Rightarrow> i64 \<Rightarrow> string option \<Rightarrow> extension_category
    \<Rightarrow> bool \<Rightarrow> intent_candidate" where
  "file_candidate sig g t pkg ext hot =
     (let s = new_score (if hot then f32_lit (80 / 100) else f32_lit (72 / 100));
          s = (if hot then score_add (f32_lit (6 / 100)) ''local:boost:hot_file'' s else s);
          s = apply_package_boost g pkg s;
          s = apply_file_notification_boost g pkg t s;
          s = apply_window sig False s;
          actions = [local_action PrefetchFile (Some (default_prefetch_target ext pkg)) IdleTime]
      in new_candidate (HandleFile ext) (apply_action_feedback g actions s) actions
           [''local:file_activity'', ''local:extension:'' @ debug_extension_category ext])"

definition notification_candidate :: "window_signals \<Rightarrow> window_aggregation \<Rightarrow> i64 \<Rightarrow> string \<Rightarrow> semantic_hint list
    \<Rightarrow> bool \<Rightarrow> intent_candidate" where
  "notification_candidate sig g t pkg hints ongoing =
     (let s = new_score (if ongoing then f32_lit (66 / 100) else f32_lit (74 / 100));
          s = (if pkg \<in> set (ws_foreground_apps sig)
               then score_add (f32_lit (8 / 100)) ''local:boost:foreground_notification_app'' s else s);
          s = (if LinkAttachment \<in> set hints
               then score_add (f32_lit (3 / 100)) ''local:boost:link_attachment'' s else s);
          s = apply_package_boost g (Some pkg) s;
          s = apply_notification_file_boost g pkg t s;
          s = apply_window sig True s;
          actions = [local_action PreWarmProcess (Some (''pkg:'' @ pkg)) Immediate]
      in new_candidate (OpenApp pkg) (apply_action_feedback g actions s) actions
           [''local:attachment_notification''])"

definition foreground_candidate :: "window_signals \<Rightarrow> window_aggregation \<Rightarrow> string \<Rightarrow> intent_candidate" where
  "foreground_candidate sig g pkg =
     (let s = score_add (f32_lit (4 / 100)) ''local:boost:foreground'' (new_score (f32_lit (78 / 100)));
          s = apply_package_boost g (Some pkg) s;
          s = (if is_recent_foreground g pkg
               then add_grouped BoostPackage (f32_lit (3 / 100)) ''local:boost:recent_foreground'' s else s);
          s = apply_window sig True s;
          actions = [local_action PreWarmProcess (Some (''pkg:'' @ pkg)) Immediate,
                     local_action KeepAlive (Some ''work:collector_heartbeat'') Immediate]
      in new_candidate (SwitchToApp pkg) (apply_action_feedback g actions s) actions
           [''local:foreground_transition''])"

definition inter_app_candidate :: "window_signals \<Rightarrow> window_aggregation \<Rightarrow> intent_candidate" where
  "inter_app_candidate sig g =
     (let s = apply_window sig False (new_score (f32_lit (80 / 100)));
          actions = [local_action PreWarmProcess (Some ''own:resources'') Immediate]
      in new_candidate (EnterContext ''inter_app_interaction'') (apply_action_feedback g actions s) actions
           [''local:inter_app_interaction''])"

definition low_battery_candidate :: "window_aggregation \<Rightarrow> intent_candidate" where
  "low_battery_candidate g =
     (let actions = [local_action ReleaseMemory (Some ''cache:prefetch'') Immediate];
          s = score_with_tags (f32_lit (84 / 100)) [''local:signal:low_battery'']
      in new_candidate Idle (apply_action_feedback g actions s) actions [''local:low_battery''])"

fun event_candidates :: "window_signals \<Rightarrow> window_aggregation \<Rightarrow> i64 \<Rightarrow> sanitized_event_type \<Rightarrow> intent_candidate list" where
  "event_candidates sig g t (SeFileActivity pkg ext act hot) = [file_candidate sig g t pkg ext hot]"
| "event_candidates sig g t (SeNotification pkg c ch th xh hints ongoing gk) =
     (if FileMention \<in> set hints \<or> ImageMention \<in> set hints \<or> LinkAttachment \<in> set hints
      then [notification_candidate sig g t pkg hints ongoing] else [])"
| "event_candidates sig g t (SeAppTransition pkg a Foreground) = [foreground_candidate sig g pkg]"
| "event_candidates sig g t (SeInterAppInteraction src svc i) =
     (if i = ActivityLaunch \<or> i = ShareIntent then [inter_app_candidate sig g] else [])"
| "event_candidates sig g t _ = []"

definition window_candidates :: "window_signals \<Rightarrow> window_aggregation \<Rightarrow> sanitized_event list \<Rightarrow> intent_candidate list" where
  "window_candidates sig g es =
     concat (map (\<lambda>e. event_candidates sig g (se_timestamp_ms e) (se_event_type e)) es)
     @ (if ws_low_battery sig \<and> \<not> ws_charging sig then [low_battery_candidate g] else [])"

section \<open>The device filter\<close>

definition is_safe_prefetch_target :: "string \<Rightarrow> bool" where
  "is_safe_prefetch_target t \<longleftrightarrow> starts_with t ''url:https://'' \<or> starts_with t ''uri:content://''"

definition is_safe_prewarm_target :: "window_signals \<Rightarrow> string \<Rightarrow> bool" where
  "is_safe_prewarm_target sig t =
     (if ws_screen_noninteractive sig \<and> (starts_with t ''pkg:'' \<or> starts_with t ''notif:'') then False
      else starts_with t ''own:'' \<or> starts_with t ''notif:''
        \<or> (case strip_prefix t ''pkg:'' of None \<Rightarrow> False | Some p \<Rightarrow> looks_like_package_name p))"

definition is_policy_aware_action :: "window_signals \<Rightarrow> suggested_action \<Rightarrow> bool" where
  "is_policy_aware_action sig a =
     (case sa_action_type a of
        PrefetchFile \<Rightarrow> (\<not> ws_low_battery sig \<or> ws_charging sig) \<and> \<not> ws_offline sig
          \<and> (case sa_target a of None \<Rightarrow> False | Some t \<Rightarrow> is_safe_prefetch_target t)
      | PreWarmProcess \<Rightarrow> (case sa_target a of None \<Rightarrow> False | Some t \<Rightarrow> is_safe_prewarm_target sig t)
      | KeepAlive \<Rightarrow> (case sa_target a of None \<Rightarrow> True | Some t \<Rightarrow> starts_with t ''work:'')
      | ReleaseMemory \<Rightarrow> (case sa_target a of None \<Rightarrow> True | Some t \<Rightarrow> t = ''cache:prefetch'' \<or> t = ''cache:all'')
      | NoOp \<Rightarrow> sa_target a = None)"

definition filter_candidate :: "window_signals \<Rightarrow> intent_candidate \<Rightarrow> intent_candidate" where
  "filter_candidate sig c =
     (let kept = filter (is_policy_aware_action sig) (ic_actions c) in
      if length kept < length (ic_actions c)
      then c\<lparr>ic_actions := kept, ic_tags := ic_tags c @ [''local:suppress:policy_aware_filter'']\<rparr>
      else c\<lparr>ic_actions := kept\<rparr>)"

section \<open>Deduplication and ranking\<close>

fun extension_key :: "extension_category \<Rightarrow> string" where
  "extension_key ExtDocument = ''document''"
| "extension_key ExtImage = ''image''"
| "extension_key ExtVideo = ''video''"
| "extension_key ExtAudio = ''audio''"
| "extension_key ExtArchive = ''archive''"
| "extension_key ExtCode = ''code''"
| "extension_key ExtOther = ''other''"
| "extension_key ExtUnknown = ''unknown''"

fun intent_key :: "intent_type \<Rightarrow> string" where
  "intent_key (OpenApp p) = ''open:'' @ p"
| "intent_key (SwitchToApp p) = ''switch:'' @ p"
| "intent_key (CheckNotification p) = ''notify:'' @ p"
| "intent_key (HandleFile ext) = ''file:'' @ extension_key ext"
| "intent_key (EnterContext c) = ''context:'' @ c"
| "intent_key Idle = ''idle''"

definition candidate_key :: "intent_candidate \<Rightarrow> string" where
  "candidate_key c = join_str ''|'' (intent_key (ic_intent_type c) #
     map (\<lambda>a. debug_action_type (sa_action_type a) @ '':'' @ (case sa_target a of None \<Rightarrow> [] | Some t \<Rightarrow> t)) (ic_actions c))"

definition merge_candidate_tags :: "string list \<Rightarrow> string list \<Rightarrow> string list" where
  "merge_candidate_tags target source = foldl push_new target source"

type_synonym dedup_map = "(string \<times> intent_candidate) list"

definition dedup_insert :: "dedup_map \<Rightarrow> intent_candidate \<Rightarrow> dedup_map" where
  "dedup_insert m c =
     (let key = candidate_key c in
      case map_of m key of
        Some existing \<Rightarrow>
          (if fp_le (ic_confidence c) (ic_confidence existing)
           then AList.update key (existing\<lparr>ic_tags := merge_candidate_tags (ic_tags existing) (ic_tags c)\<rparr>) m
           else AList.update key (c\<lparr>ic_tags := merge_candidate_tags (ic_tags c) (ic_tags existing)\<rparr>) m)
      | None \<Rightarrow> m @ [(key, c)])"

text \<open>The comparator does not return \<open>Greater\<close>: higher confidence first, then the smaller key.\<close>

definition rank_le :: "intent_candidate \<Rightarrow> intent_candidate \<Rightarrow> bool" where
  "rank_le a b \<longleftrightarrow> fp_lt (ic_confidence b) (ic_confidence a)
     \<or> (\<not> fp_lt (ic_confidence a) (ic_confidence b) \<and> candidate_key a \<le> candidate_key b)"

definition candidate_intent :: "intent_candidate \<Rightarrow> intent" where
  "candidate_intent c = \<lparr>in_intent_id = [], in_intent_type = ic_intent_type c, in_confidence = ic_confidence c,
     in_risk_level = RiskLow, in_suggested_actions = ic_actions c, in_rationale_tags = ic_tags c\<rparr>"

type_synonym candidate_order = "intent_candidate list \<Rightarrow> intent_candidate list"

definition finalize_candidates :: "candidate_order \<Rightarrow> window_signals \<Rightarrow> usize \<Rightarrow> intent_candidate list \<Rightarrow> intent list" where
  "finalize_candidates order sig max_intents cs =
     (let kept = filter (\<lambda>c. ic_actions c \<noteq> []) (map (filter_candidate sig) cs);
          deduped = foldl dedup_insert [] kept;
          ranked = sort_by rank_le (order (map snd deduped))
      in map candidate_intent (take max_intents ranked))"

section \<open>The backend\<close>

definition evaluate_local_intents :: "candidate_order \<Rightarrow> structured_context \<Rightarrow> user_behavior_profile option
    \<Rightarrow> recent_decision_record list \<Rightarrow> intent list" where
  "evaluate_local_intents order ctx profile recent =
     (let sig = window_signals_of ctx;
          g = aggregation_of ctx profile recent;
          intents = finalize_candidates order sig 5 (window_candidates sig g (ctx_events ctx))
      in if intents = []
         then [\<lparr>in_intent_id = [], in_intent_type = Idle, in_confidence = f32_lit (60 / 100), in_risk_level = RiskLow,
                in_suggested_actions = [local_action NoOp None IdleTime], in_rationale_tags = [''local:idle_window'']\<rparr>]
         else intents)"

definition local_evaluate_input :: "candidate_order \<Rightarrow> backend_world \<Rightarrow> structured_context
    \<Rightarrow> user_behavior_profile option \<Rightarrow> recent_decision_record list \<Rightarrow> backend_world \<times> decision_backend_result" where
  "local_evaluate_input order w ctx profile recent =
     (let intents = evaluate_local_intents order ctx profile recent in
      (draw (length intents) w,
       \<lparr>dr_route = LocalEvaluator,
        dr_intent_batch =
          \<lparr>ib_window_id = ctx_window_id ctx, ib_intents = number_intents w intents,
           ib_generated_at_ms = ctx_window_end_ms ctx, ib_model = ''local-evaluator-v0.1''\<rparr>,
        dr_rationale_tags = concat (map in_rationale_tags (number_intents w intents)),
        dr_latency_us = bw_latency_us w (bw_calls w), dr_error = None\<rparr>))"

definition local_evaluate_context :: "candidate_order \<Rightarrow> backend_world \<Rightarrow> structured_context
    \<Rightarrow> backend_world \<times> decision_backend_result" where
  "local_evaluate_context order w ctx = local_evaluate_input order w ctx None []"

definition local_evaluate :: "candidate_order \<Rightarrow> backend_world backend" where
  "local_evaluate order w mi =
     local_evaluate_input order w (mi_current_context mi) (Some (mi_behavior_profile mi)) (mi_recent_feedback mi)"

section \<open>Confidences\<close>

text \<open>A confidence that leaves the scorer: not NaN and at most \<open>0.99\<close> (as the \<open>f32\<close> nearest to it).\<close>

definition score_cap :: f32 where
  "score_cap = f32_lit (99 / 100)"

definition confidence_ok :: "f32 \<Rightarrow> bool" where
  "confidence_ok v \<longleftrightarrow> v \<noteq> FNaN \<and> fp_le v score_cap"

fun fp_finite :: "fp \<Rightarrow> bool" where
  "fp_finite (FFin x) = True"
| "fp_finite _ = False"

lemma fp_add_finite_not_NaN: "fp_finite d \<Longrightarrow> v \<noteq> FNaN \<Longrightarrow> fp_add f v d \<noteq> FNaN"
  by (cases d; cases v) simp_all

lemma fp_finite_boost: "fp_finite d \<Longrightarrow> fp_finite (fp_min d (fp_max r (FFin 0)))"
  by (cases d; cases r) (auto simp: fp_min_def fp_max_def)

lemma fp_finiteE: "fp_finite v \<Longrightarrow> (\<And>x. v = FFin x \<Longrightarrow> thesis) \<Longrightarrow> thesis"
  by (cases v) simp_all

lemma score_constants [simp]:
  "fp_finite (f32_lit (1 / 25))" "fp_finite (f32_lit (3 / 100))" "fp_finite (f32_lit (3 / 50))"
  "fp_finite (f32_lit (2 / 25))" "fp_finite (f32_lit (- (9 / 50)))" "fp_finite (f32_lit (- (3 / 50)))"
  "fp_finite (f32_lit (- (1 / 5)))" "fp_finite (f32_lit (- (3 / 25)))" "fp_finite (f32_lit (- (2 / 25)))"
  by code_simp+

definition score_ok :: "score \<Rightarrow> bool" where
  "score_ok s \<longleftrightarrow> sc_value s \<noteq> FNaN"

lemma score_add_ok: "fp_finite d \<Longrightarrow> score_ok s \<Longrightarrow> score_ok (score_add d tag s)"
  by (simp add: score_ok_def score_add_def fp_add_finite_not_NaN)

lemma add_grouped_ok: "fp_finite d \<Longrightarrow> score_ok s \<Longrightarrow> score_ok (add_grouped g d tag s)"
  by (cases g) (auto simp: score_ok_def add_grouped_def Let_def fp_add_finite_not_NaN fp_finite_boost)

lemma new_score_ok [simp]: "score_ok (new_score (f32_lit x))"
  by (simp add: score_ok_def new_score_def score_with_tags_def)

lemma apply_package_boost_ok: "score_ok s \<Longrightarrow> score_ok (apply_package_boost g pkg s)"
  by (auto simp: apply_package_boost_def Let_def add_grouped_ok split: option.splits)

lemma correlation_boost_ok: "score_ok s \<Longrightarrow> score_ok (correlation_boost d tag s)"
  by (auto simp: correlation_boost_def add_grouped_ok split: option.splits)

lemma file_boost_ok: "score_ok s \<Longrightarrow> score_ok (apply_file_notification_boost g pkg t s)"
  by (auto simp: apply_file_notification_boost_def correlation_boost_ok split: option.splits)

lemma notification_boost_ok: "score_ok s \<Longrightarrow> score_ok (apply_notification_file_boost g p t s)"
  by (simp add: apply_notification_file_boost_def correlation_boost_ok)

lemmas boosts_ok = score_add_ok add_grouped_ok apply_package_boost_ok file_boost_ok notification_boost_ok

lemma window_penalties_ok: "score_ok s \<Longrightarrow> score_ok (window_penalties sig visible s)"
  by (auto simp: window_penalties_def Let_def intro!: score_add_ok)

lemma apply_window_confidence: "score_ok s \<Longrightarrow> confidence_ok (sc_value (apply_window sig visible s))"
  using window_penalties_ok [of s sig visible]
  by (simp add: apply_window_def Let_def confidence_ok_def score_cap_def score_ok_def fp_clamp_le_hi fp_clamp_not_NaN)

text \<open>The feedback penalties only lower a confidence.\<close>

lemma score_cap_rep: "fp_rep fmt32 score_cap" "fp_finite score_cap"
  by code_simp+

lemma penalty_confidence:
  assumes "confidence_ok v" "fp_finite d" "fp_le d (FFin 0)"
  shows "confidence_ok (fp_add fmt32 v d)"
proof -
  obtain y where d: "d = FFin y" "y \<le> 0" using assms(2,3) by (auto elim!: fp_finiteE)
  obtain b where b: "score_cap = FFin b" using score_cap_rep(2) by (rule fp_finiteE)
  show ?thesis
  proof (cases v)
    case (FFin x)
    have "x \<le> b" using assms(1) unfolding confidence_ok_def FFin b by simp
    then have "fp_le (fp_add fmt32 (FFin x) (FFin y)) (FFin b)"
      by (intro fp_add_le_rep) (use score_cap_rep(1) d(2) b in \<open>simp_all add: fmt32_def\<close>)
    then show ?thesis using FFin d b by (simp add: confidence_ok_def)
  next
    case (FInf s)
    then show ?thesis using assms(1) d by (simp add: confidence_ok_def)
  qed (use assms(1) in \<open>simp add: confidence_ok_def\<close>)
qed

lemma penalty_signs [simp]: "fp_le (f32_lit (- (3 / 25))) (FFin 0)" "fp_le (f32_lit (- (2 / 25))) (FFin 0)"
  by code_simp+

lemma feedback_confidence:
  "confidence_ok (sc_value s) \<Longrightarrow> confidence_ok (sc_value (apply_action_feedback g as s))"
  by (induction as arbitrary: s)
     (simp_all add: apply_action_feedback_def action_feedback_penalty_def Let_def score_add_def penalty_confidence)

section \<open>What the candidates propose\<close>

lemma low_battery_base: "confidence_ok (f32_lit (21 / 25))"
  by code_simp

definition candidate_shape :: "structured_context \<Rightarrow> intent_candidate \<Rightarrow> bool" where
  "candidate_shape ctx c \<longleftrightarrow> confidence_ok (ic_confidence c) \<and> length (ic_actions c) \<le> 2
     \<and> (\<forall>a \<in> set (ic_actions c). sa_urgency a \<noteq> Deferred
          \<and> check_target (sa_action_type a) (sa_target a) (known_from_context ctx) = None)"

lemma new_candidate_shape:
  assumes "confidence_ok (sc_value s)" "length as \<le> 2"
    and "\<forall>a \<in> set as. sa_urgency a \<noteq> Deferred
          \<and> check_target (sa_action_type a) (sa_target a) (known_from_context ctx) = None"
  shows "candidate_shape ctx (new_candidate t (apply_action_feedback g as s) as tags)"
  using assms by (simp add: candidate_shape_def new_candidate_def feedback_confidence)

lemma prefetch_allowed: "check_target PrefetchFile (Some (default_prefetch_target ext p)) k = None"
  using default_prefetch_target_https [of ext p]
  by (auto simp: is_allowed_low_risk_target_def starts_with_def prefix_def)

lemma prewarm_own_allowed: "check_target PreWarmProcess (Some ''own:resources'') k = None"
  by (simp add: is_allowed_prewarm_target_def starts_with_def)

lemma prewarm_package_allowed:
  "observed ctx p \<Longrightarrow>
   check_target PreWarmProcess (Some (CHR ''p'' # CHR ''k'' # CHR ''g'' # CHR '':'' # p)) (known_from_context ctx) = None"
  by (simp add: is_allowed_prewarm_target_def strip_prefix_def)

lemma event_package_observed:
  "e \<in> set (ctx_events ctx) \<Longrightarrow> event_type_package (se_event_type e) = Some p \<Longrightarrow> observed ctx p"
  by (auto simp: observed_def)

lemma file_candidate_shape: "candidate_shape ctx (file_candidate sig g t pkg ext hot)"
  unfolding file_candidate_def Let_def
  by (rule new_candidate_shape)
     (auto simp: local_action_def prefetch_allowed simp del: check_target.simps intro!: apply_window_confidence boosts_ok)

lemma inter_app_candidate_shape: "candidate_shape ctx (inter_app_candidate sig g)"
  unfolding inter_app_candidate_def Let_def
  by (rule new_candidate_shape)
     (auto simp: local_action_def prewarm_own_allowed simp del: check_target.simps intro!: apply_window_confidence)

lemma notification_candidate_shape:
  "observed ctx pkg \<Longrightarrow>
   candidate_shape ctx (notification_candidate sig g t pkg hints ongoing)"
  unfolding notification_candidate_def Let_def
  by (rule new_candidate_shape)
     (auto simp: local_action_def prewarm_package_allowed simp del: check_target.simps
       intro!: apply_window_confidence boosts_ok)

lemma heartbeat_allowed: "check_target KeepAlive (Some ''work:collector_heartbeat'') k = None"
  by (simp add: is_allowed_low_risk_target_def starts_with_def)

lemma foreground_candidate_shape:
  "observed ctx pkg \<Longrightarrow> candidate_shape ctx (foreground_candidate sig g pkg)"
  unfolding foreground_candidate_def Let_def
  by (rule new_candidate_shape)
     (auto simp: local_action_def prewarm_package_allowed heartbeat_allowed simp del: check_target.simps
       intro!: apply_window_confidence boosts_ok)

lemma low_battery_candidate_shape: "candidate_shape ctx (low_battery_candidate g)"
  unfolding low_battery_candidate_def Let_def
  by (rule new_candidate_shape)
     (auto simp: local_action_def is_allowed_low_risk_target_def score_with_tags_def low_battery_base)

lemma window_candidates_shape:
  "c \<in> set (window_candidates sig g (ctx_events ctx)) \<Longrightarrow> candidate_shape ctx c"
proof -
  have "candidate_shape ctx c" if "e \<in> set (ctx_events ctx)"
    "c \<in> set (event_candidates sig g (se_timestamp_ms e) (se_event_type e))" for e
    using that event_package_observed [OF that(1)]
    by (cases "(sig, g, se_timestamp_ms e, se_event_type e)" rule: event_candidates.cases)
       (auto simp: file_candidate_shape inter_app_candidate_shape notification_candidate_shape
         foreground_candidate_shape split: if_splits)
  then show "c \<in> set (window_candidates sig g (ctx_events ctx)) \<Longrightarrow> candidate_shape ctx c"
    by (auto simp: window_candidates_def low_battery_candidate_shape split: if_splits)
qed

section \<open>Deduplication\<close>

text \<open>A deduplicated candidate is one of the source's, up to its tags, under its own key.\<close>

definition from_source :: "intent_candidate set \<Rightarrow> intent_candidate \<Rightarrow> bool" where
  "from_source src c \<longleftrightarrow> (\<exists>c0 \<in> src. ic_intent_type c = ic_intent_type c0 \<and> ic_confidence c = ic_confidence c0
     \<and> ic_actions c = ic_actions c0)"

definition dedup_inv :: "intent_candidate set \<Rightarrow> dedup_map \<Rightarrow> bool" where
  "dedup_inv src m \<longleftrightarrow> distinct (map fst m)
     \<and> (\<forall>(k, c) \<in> set m. candidate_key c = k \<and> from_source src c)"

lemma candidate_key_tags [simp]: "candidate_key (c\<lparr>ic_tags := t\<rparr>) = candidate_key c"
  by (simp add: candidate_key_def)

lemma from_source_tags [simp]: "from_source src (c\<lparr>ic_tags := t\<rparr>) = from_source src c"
  by (simp add: from_source_def)

lemma set_alist_update: "set (AList.update k v m) \<subseteq> insert (k, v) (set m)"
  by (induction m) auto

lemma dedup_inv_update:
  assumes "dedup_inv src m" "candidate_key c = k" "from_source src c"
  shows "dedup_inv src (AList.update k c m)"
  using assms set_alist_update [of k c m] distinct_update [of m k c] unfolding dedup_inv_def by auto

lemma dedup_inv_insert:
  assumes "dedup_inv src m" "c \<in> src"
  shows "dedup_inv src (dedup_insert m c)"
proof (cases "map_of m (candidate_key c)")
  case None
  then have "candidate_key c \<notin> fst ` set m" by (simp add: map_of_eq_None_iff)
  with assms None show ?thesis by (auto simp: dedup_insert_def Let_def dedup_inv_def from_source_def)
next
  case (Some existing)
  then have "(candidate_key c, existing) \<in> set m" by (rule map_of_SomeD)
  with assms have e: "candidate_key existing = candidate_key c" "from_source src existing"
    by (auto simp: dedup_inv_def)
  have "from_source src c" using assms(2) by (auto simp: from_source_def)
  with e Some assms(1) show ?thesis by (simp add: dedup_insert_def Let_def dedup_inv_update)
qed

lemma dedup_inv_all: "set cs \<subseteq> src \<Longrightarrow> dedup_inv src m \<Longrightarrow> dedup_inv src (foldl dedup_insert m cs)"
  by (induction cs arbitrary: m) (simp_all add: dedup_inv_insert)

lemma dedup_inv_kept: "dedup_inv (set cs) (foldl dedup_insert [] cs)"
  by (rule dedup_inv_all) (simp_all add: dedup_inv_def)

lemma dedup_values_distinct: "dedup_inv src m \<Longrightarrow> distinct (map candidate_key (map snd m))"
proof -
  assume inv: "dedup_inv src m"
  then have "map candidate_key (map snd m) = map fst m" by (auto simp: dedup_inv_def)
  with inv show ?thesis unfolding dedup_inv_def by metis
qed

section \<open>Ranking\<close>

lemma rank_le_total:
  assumes "ic_confidence a \<noteq> FNaN" "ic_confidence b \<noteq> FNaN"
  shows "rank_le a b \<or> rank_le b a"
  using fp_lt_total [OF assms] by (auto simp: rank_le_def)

lemma rank_le_trans:
  assumes "ic_confidence a \<noteq> FNaN" "ic_confidence b \<noteq> FNaN" "ic_confidence c \<noteq> FNaN" "rank_le a b" "rank_le b c"
  shows "rank_le a c"
  using assms fp_lt_total [OF assms(1,2)] fp_lt_total [OF assms(2,3)]
  by (auto simp: rank_le_def dest: fp_lt_asym fp_lt_trans)

lemma rank_le_antisym: "rank_le a b \<Longrightarrow> rank_le b a \<Longrightarrow> candidate_key a = candidate_key b"
  by (auto simp: rank_le_def dest: fp_lt_asym)

lemma distinct_key_eq:
  "distinct (map f xs) \<Longrightarrow> a \<in> set xs \<Longrightarrow> b \<in> set xs \<Longrightarrow> f a = f b \<Longrightarrow> a = b"
  by (simp add: distinct_map inj_on_def)

lemma ranking_order_independent:
  assumes "mset (order xs) = mset xs" "mset (order' xs) = mset xs" "distinct (map candidate_key xs)"
    and "\<And>c. c \<in> set xs \<Longrightarrow> ic_confidence c \<noteq> FNaN"
  shows "sort_by rank_le (order xs) = sort_by rank_le (order' xs)"
proof (rule sort_by_perm_unique_on)
  show "mset (order xs) = mset (order' xs)" using assms(1,2) by simp
  have s: "set (order xs) = set xs" using assms(1) by (metis set_mset_mset)
  show "rank_le a b \<or> rank_le b a" if "a \<in> set (order xs)" "b \<in> set (order xs)" for a b
    using that assms(4) rank_le_total unfolding s by blast
  show "rank_le a c" if "a \<in> set (order xs)" "b \<in> set (order xs)" "c \<in> set (order xs)" "rank_le a b" "rank_le b c" for a b c
    using that assms(4) rank_le_trans unfolding s by blast
  show "a = b" if "a \<in> set (order xs)" "b \<in> set (order xs)" "rank_le a b" "rank_le b a" for a b
    using that assms(3) rank_le_antisym distinct_key_eq [of candidate_key xs a b] unfolding s by blast
qed

section \<open>The intents of a window\<close>

definition kept_candidates :: "structured_context \<Rightarrow> user_behavior_profile option \<Rightarrow> recent_decision_record list
    \<Rightarrow> intent_candidate list" where
  "kept_candidates ctx profile recent =
     (let sig = window_signals_of ctx; g = aggregation_of ctx profile recent
      in filter (\<lambda>c. ic_actions c \<noteq> []) (map (filter_candidate sig) (window_candidates sig g (ctx_events ctx))))"

lemma evaluate_local_intents_alt:
  "evaluate_local_intents order ctx profile recent =
     (let intents = map candidate_intent (take 5 (sort_by rank_le
            (order (map snd (foldl dedup_insert [] (kept_candidates ctx profile recent))))))
      in if intents = []
         then [\<lparr>in_intent_id = [], in_intent_type = Idle, in_confidence = f32_lit (60 / 100), in_risk_level = RiskLow,
                in_suggested_actions = [local_action NoOp None IdleTime], in_rationale_tags = [''local:idle_window'']\<rparr>]
         else intents)"
  by (simp add: evaluate_local_intents_def finalize_candidates_def kept_candidates_def Let_def)

definition intent_shape :: "structured_context \<Rightarrow> intent \<Rightarrow> bool" where
  "intent_shape ctx i \<longleftrightarrow> in_risk_level i = RiskLow \<and> confidence_ok (in_confidence i)
     \<and> in_suggested_actions i \<noteq> [] \<and> length (in_suggested_actions i) \<le> 2
     \<and> (\<forall>a \<in> set (in_suggested_actions i). is_policy_aware_action (window_signals_of ctx) a
          \<and> sa_urgency a \<noteq> Deferred \<and> check_target (sa_action_type a) (sa_target a) (known_from_context ctx) = None)"

lemma kept_candidates_shape:
  assumes "c \<in> set (kept_candidates ctx profile recent)"
  shows "candidate_shape ctx c \<and> ic_actions c \<noteq> []
     \<and> (\<forall>a \<in> set (ic_actions c). is_policy_aware_action (window_signals_of ctx) a)"
proof -
  from assms obtain c0 where c0: "c0 \<in> set (window_candidates (window_signals_of ctx) (aggregation_of ctx profile recent) (ctx_events ctx))"
    "c = filter_candidate (window_signals_of ctx) c0" "ic_actions c \<noteq> []"
    by (auto simp: kept_candidates_def Let_def)
  have "length (filter P xs) \<le> 2" if "length xs \<le> 2" for P and xs :: "suggested_action list"
    using that by (rule order_trans [OF length_filter_le])
  with window_candidates_shape [OF c0(1)] c0 show ?thesis
    by (auto simp: candidate_shape_def filter_candidate_def Let_def)
qed

lemma deduped_shape:
  assumes "c \<in> set (map snd (foldl dedup_insert [] (kept_candidates ctx profile recent)))"
  shows "intent_shape ctx (candidate_intent c)"
proof -
  from assms dedup_inv_kept [of "kept_candidates ctx profile recent"]
  have "from_source (set (kept_candidates ctx profile recent)) c" by (auto simp: dedup_inv_def)
  then obtain c0 where c0: "c0 \<in> set (kept_candidates ctx profile recent)" "ic_confidence c = ic_confidence c0"
    "ic_actions c = ic_actions c0" by (auto simp: from_source_def)
  from kept_candidates_shape [OF c0(1)] show ?thesis
    by (simp add: c0(2,3) intent_shape_def candidate_intent_def candidate_shape_def)
qed

lemma idle_confidence: "confidence_ok (f32_lit (3 / 5))"
  by code_simp

lemma local_intents_shape:
  assumes "\<And>xs. mset (order xs) = mset xs" "i \<in> set (evaluate_local_intents order ctx profile recent)"
  shows "intent_shape ctx i"
proof -
  have s: "set (order xs) = set xs" for xs using assms(1) by (metis set_mset_mset)
  let ?d = "map snd (foldl dedup_insert [] (kept_candidates ctx profile recent))"
  from assms(2) consider c where "c \<in> set (take 5 (sort_by rank_le (order ?d)))" "i = candidate_intent c"
    | "i = \<lparr>in_intent_id = [], in_intent_type = Idle, in_confidence = f32_lit (60 / 100), in_risk_level = RiskLow,
          in_suggested_actions = [local_action NoOp None IdleTime], in_rationale_tags = [''local:idle_window'']\<rparr>"
    unfolding evaluate_local_intents_alt Let_def by (auto split: if_splits)
  then show ?thesis
  proof cases
    case 1
    then have "c \<in> set ?d" using set_take_subset [of 5 "sort_by rank_le (order ?d)"] unfolding set_sort_by s by blast
    then show ?thesis unfolding 1(2) by (rule deduped_shape)
  next
    case 2
    then show ?thesis using idle_confidence
      by (simp add: intent_shape_def local_action_def is_policy_aware_action_def)
  qed
qed

lemma local_intents_count: "evaluate_local_intents order ctx profile recent \<noteq> [] \<and> length (evaluate_local_intents order ctx profile recent) \<le> 5"
  by (simp add: evaluate_local_intents_alt Let_def)

lemma local_order_independent:
  assumes "\<And>xs. mset (order xs) = mset xs" "\<And>xs. mset (order' xs) = mset xs"
  shows "evaluate_local_intents order ctx profile recent = evaluate_local_intents order' ctx profile recent"
proof -
  let ?d = "map snd (foldl dedup_insert [] (kept_candidates ctx profile recent))"
  have "sort_by rank_le (order ?d) = sort_by rank_le (order' ?d)"
  proof (rule ranking_order_independent [where order = order and order' = order' and xs = ?d, OF assms dedup_values_distinct [OF dedup_inv_kept]])
    fix c assume "c \<in> set ?d"
    from deduped_shape [OF this] show "ic_confidence c \<noteq> FNaN"
      by (simp add: intent_shape_def candidate_intent_def confidence_ok_def)
  qed
  then show ?thesis by (simp add: evaluate_local_intents_alt)
qed

section \<open>Interface\<close>

lemma local_intents_allowed:
  assumes "\<And>xs. mset (order xs) = mset xs" "i \<in> set (evaluate_local_intents order ctx profile recent)"
  shows "allows_risk (for_route LocalEvaluator) (in_risk_level i)
    \<and> (a \<in> set (in_suggested_actions i) \<longrightarrow> allows_action (for_route LocalEvaluator) (sa_action_type a))"
proof -
  have "allows_action (for_route LocalEvaluator) t" for t by (cases t) (simp_all add: allows_action_def)
  then show ?thesis using local_intents_shape [OF assms] by (simp add: intent_shape_def allows_risk_def)
qed

text \<open>Orders the hash map can produce: sorting by any key is one, the identity another.\<close>

interpretation local_evaluator: confined_backend "local_evaluate (sort_by le)" LocalEvaluator for le
proof unfold_locales
  fix w :: backend_world and mi
  show "within_capability (for_route LocalEvaluator) (dr_intent_batch (snd (local_evaluate (sort_by le) w mi)))"
    by (rule within_capability_numbered [where js = "evaluate_local_intents (sort_by le) (mi_current_context mi)
          (Some (mi_behavior_profile mi)) (mi_recent_feedback mi)"])
       (auto simp: local_evaluate_def local_evaluate_input_def Let_def dest: local_intents_allowed [rotated])
qed (simp_all add: local_evaluate_def local_evaluate_input_def stamped_def Let_def)

section \<open>Properties\<close>

text \<open>The local evaluator is deterministic. Candidates are deduplicated in a hash map, whose iteration
  order is arbitrary, yet the intents of a window, their ranking, their cut to five, their tags and
  their ids are the same whatever that order is.\<close>

theorem local_evaluator_deterministic:
  assumes "\<And>xs. mset (order xs) = mset xs" "\<And>xs. mset (order' xs) = mset xs"
  shows "local_evaluate order w mi = local_evaluate order' w mi"
  using local_order_independent [of order order', OF assms]
  by (simp add: local_evaluate_def local_evaluate_input_def)

text \<open>The local evaluator and the policy agree on everything but confidence. Whatever the order of the
  hash map, under the default policy every action it proposes is either approved or denied because
  its intent's confidence is below the floor: it is never denied for its risk, type, capability,
  urgency or target, nor by the cap on actions.\<close>

theorem local_evaluator_denied_only_for_confidence:
  assumes "\<And>xs. mset (order xs) = mset xs"
    and "d \<in> set (evaluate_batch_with_context default_policy_config
            (dr_intent_batch (snd (local_evaluate order w mi))) (for_route LocalEvaluator) (mi_current_context mi))"
  shows "pd_verdict d = Approved \<or> pd_verdict d = Denied ConfidenceTooLow"
proof -
  let ?ctx = "mi_current_context mi" and ?b = "dr_intent_batch (snd (local_evaluate order w mi))"
  from assms(2) obtain io i jo a where p: "(io, i, jo, a) \<in> set (positions ?b)"
    and v: "pd_verdict d = spec_verdict default_policy_config (for_route LocalEvaluator) (Some (known_from_context ?ctx)) i jo"
    by (auto simp: batch_decisions_mem)
  from p have i: "i \<in> set (number_intents w (evaluate_local_intents order ?ctx (Some (mi_behavior_profile mi)) (mi_recent_feedback mi)))"
    and jo: "jo < length (in_suggested_actions i)"
    by (auto simp: positions_mem local_evaluate_def local_evaluate_input_def Let_def)
  from number_intents_mem [OF i] obtain j x where
    "j \<in> set (evaluate_local_intents order ?ctx (Some (mi_behavior_profile mi)) (mi_recent_feedback mi))"
    "i = j\<lparr>in_intent_id := x\<rparr>" by blast
  with local_intents_shape [OF assms(1)] have sh: "intent_shape ?ctx i" by (fastforce simp: intent_shape_def)
  have "single_denial default_policy_config (for_route LocalEvaluator) (Some (known_from_context ?ctx)) (in_suggested_actions i ! jo) = None"
  proof -
    have "in_suggested_actions i ! jo \<in> set (in_suggested_actions i)" using jo by simp
    moreover have "allows_action (for_route LocalEvaluator) t" for t by (cases t) (simp_all add: allows_action_def)
    ultimately show ?thesis using sh
      by (simp add: intent_shape_def single_denial_None default_policy_config_def)
  qed
  moreover have "length (filter P (take jo (in_suggested_actions i))) < pc_max_actions_per_batch default_policy_config" for P
    using sh jo length_filter_le [of P "take jo (in_suggested_actions i)"]
    by (simp add: intent_shape_def default_policy_config_def)
  ultimately show ?thesis
    using sh unfolding v
    by (auto simp: spec_verdict_def intent_denial_def intent_shape_def allows_risk_def default_policy_config_def
        not_le [symmetric] split: option.splits)
qed

lemma policy_aware_device:
  assumes "is_policy_aware_action sig a"
  shows "sa_action_type a = PrefetchFile \<Longrightarrow> \<not> ws_offline sig \<and> (ws_low_battery sig \<longrightarrow> ws_charging sig)
       \<and> (\<exists>t. sa_target a = Some t \<and> is_safe_prefetch_target t)"
    and "sa_action_type a = PreWarmProcess \<Longrightarrow> ws_screen_noninteractive sig \<Longrightarrow>
       \<exists>t. sa_target a = Some t \<and> starts_with t ''own:''"
proof -
  have "starts_with t ''own:''" if "is_safe_prewarm_target sig t" "ws_screen_noninteractive sig" for t
    using that strip_prefix_None [of t "''pkg:''"] by (auto simp: is_safe_prewarm_target_def split: option.splits if_splits)
  with assms show "sa_action_type a = PrefetchFile \<Longrightarrow> \<not> ws_offline sig \<and> (ws_low_battery sig \<longrightarrow> ws_charging sig)
       \<and> (\<exists>t. sa_target a = Some t \<and> is_safe_prefetch_target t)"
    "sa_action_type a = PreWarmProcess \<Longrightarrow> ws_screen_noninteractive sig \<Longrightarrow>
       \<exists>t. sa_target a = Some t \<and> starts_with t ''own:''"
    by (auto simp: is_policy_aware_action_def split: option.splits)
qed

text \<open>The local evaluator respects the device. A window yields one to five intents, each with one or two
  actions; no file is prefetched while the device was offline, or on a low battery not charging, and
  only from an https or content target; no package is prewarmed while the screen was off; and no
  confidence is NaN or above \<open>0.99\<close>.\<close>

theorem local_evaluator_respects_device:
  assumes "\<And>xs. mset (order xs) = mset xs"
  shows "let intents = evaluate_local_intents order ctx profile recent; sig = window_signals_of ctx in
    1 \<le> length intents \<and> length intents \<le> 5
    \<and> list_all (\<lambda>i. in_suggested_actions i \<noteq> [] \<and> length (in_suggested_actions i) \<le> 2
        \<and> confidence_ok (in_confidence i)
        \<and> list_all (\<lambda>a.
            (sa_action_type a = PrefetchFile \<longrightarrow> \<not> ws_offline sig \<and> (ws_low_battery sig \<longrightarrow> ws_charging sig)
               \<and> (\<exists>t. sa_target a = Some t \<and> is_safe_prefetch_target t))
            \<and> (sa_action_type a = PreWarmProcess \<and> ws_screen_noninteractive sig \<longrightarrow>
               (\<exists>t. sa_target a = Some t \<and> starts_with t ''own:''))) (in_suggested_actions i)) intents"
proof -
  have "1 \<le> length (evaluate_local_intents order ctx profile recent)"
    using local_intents_count [of order ctx profile recent] by (simp add: Suc_leI)
  moreover have "intent_shape ctx i" if "i \<in> set (evaluate_local_intents order ctx profile recent)" for i
    using local_intents_shape [OF assms that] .
  ultimately show ?thesis
    using local_intents_count [of order ctx profile recent]
    by (auto simp: Let_def list_all_iff intent_shape_def dest: policy_aware_device)
qed

section \<open>Concrete inputs\<close>

definition demo_local_context :: structured_context where
  "demo_local_context =
     (let es = [demo_file_event ExtImage, demo_foreground_event ''com.mail'', demo_foreground_event ''com.chat'']
      in \<lparr>ctx_window_id = ''w0'', ctx_window_start_ms = 0, ctx_window_end_ms = 10000, ctx_duration_secs = 10,
          ctx_events = es, ctx_summary = build_summary rev es\<rparr>)"

theorem local_evaluator_deterministic_witness:
  "local_evaluate rev demo_world (current_only demo_local_context) =
     local_evaluate (\<lambda>xs. xs) demo_world (current_only demo_local_context)"
  by (rule local_evaluator_deterministic) simp_all

lemma demo_local_decision:
  "\<lparr>pd_intent_ordinal = 0, pd_action_ordinal = 0, pd_verdict = Approved\<rparr> \<in>
     set (evaluate_batch_with_context default_policy_config
       (dr_intent_batch (snd (local_evaluate rev demo_world (current_only demo_local_context))))
       (for_route LocalEvaluator) (mi_current_context (current_only demo_local_context)))"
  by code_simp

theorem local_evaluator_denied_only_for_confidence_witness:
  "pd_verdict \<lparr>pd_intent_ordinal = 0, pd_action_ordinal = 0, pd_verdict = Approved\<rparr> = Approved
   \<or> pd_verdict \<lparr>pd_intent_ordinal = 0, pd_action_ordinal = 0, pd_verdict = Approved\<rparr> = Denied ConfidenceTooLow"
  by (rule local_evaluator_denied_only_for_confidence [OF _ demo_local_decision]) simp

theorem local_evaluator_respects_device_witness:
  "1 \<le> length (evaluate_local_intents rev demo_local_context None [])
   \<and> length (evaluate_local_intents rev demo_local_context None []) \<le> 5"
  using local_evaluator_respects_device [of rev demo_local_context None "[]"] by (simp add: Let_def)

text \<open>The feedback penalties come after the clamp: a confidence can leave the documented range \<open>0.0~1.0\<close>
  downwards (such an intent is below every floor, so the policy denies it).\<close>

definition demo_strained_context :: structured_context where
  "demo_strained_context =
     (let ev = (\<lambda>t. \<lparr>se_event_id = ''e'', se_timestamp_ms = 1, se_event_type = t, se_source_tier = PublicApi,
              se_app_package = None, se_uid = None\<rparr>);
          es = [ev (SeSystemStatus (Some 9) False Cellular RingNormal LocUnknown False),
                ev (SeSystemStatus (Some 9) False Offline RingNormal LocUnknown False),
                ev (SeScreen NonInteractive), demo_foreground_event ''com.mail'']
      in \<lparr>ctx_window_id = ''w1'', ctx_window_start_ms = 0, ctx_window_end_ms = 10000, ctx_duration_secs = 10,
          ctx_events = es, ctx_summary = build_summary rev es\<rparr>)"

definition demo_bad_outcome :: "string \<Rightarrow> string \<Rightarrow> action_feedback_record" where
  "demo_bad_outcome a t = \<lparr>af_action_type = a, af_target = Some t, af_terminal = ''Failed'',
     af_correctness = PolicyRejected, af_correctness_evidence = [], af_denial_reason = None,
     af_error = None, af_outcome_summary = None\<rparr>"

definition demo_bad_feedback :: "recent_decision_record list" where
  "demo_bad_feedback = [\<lparr>rd_window_id = ''w0'', rd_window_start_ms = 0, rd_window_end_ms = 1, rd_foreground_apps = [],
     rd_notified_apps = [], rd_semantic_hints = [], rd_route = [], rd_model = [], rd_intent_count = 1,
     rd_rationale_tags = [], rd_backend_error = None,
     rd_action_outcomes = [demo_bad_outcome ''PreWarmProcess'' ''pkg:com.mail'',
       demo_bad_outcome ''KeepAlive'' ''work:collector_heartbeat'']\<rparr>]"

lemma local_confidence_may_be_negative:
  "list_ex (\<lambda>i. fp_lt (in_confidence i) (FFin 0)) (evaluate_local_intents rev demo_strained_context None demo_bad_feedback)"
  by code_simp

end
