(* ===== verification/Cloud_Client.thy ===== *)
theory Cloud_Client
  imports Cloud_Translate Local_Evaluator Router
begin

text \<open>
  The cloud backend around the translation: its configuration from environment variables
  (\<open>aios-agent/src/backends/cloud_llm/config.rs\<close>), the HTTP client as a decision backend
  (\<open>client.rs\<close>), the profile summarizer (\<open>summarizer.rs\<close>), \<open>CloudBackendState\<close> (\<open>mod.rs\<close>) and
  the router's construction from all of them (\<open>DecisionRouter::new\<close>).

  An environment is a function from variable names to values (\<open>None\<close>: unset or not Unicode). The
  network, the JSON library and the float parser are the fields of \<open>cloud_env\<close>; what the network
  answers may depend on everything the backends have drawn so far.
\<close>

type_synonym environment = "string \<Rightarrow> string option"

section \<open>Configuration (config.rs)\<close>

definition ENV_ENABLED :: string where "ENV_ENABLED = ''DIPECS_CLOUD_LLM_ENABLED''"
definition ENV_PROVIDER :: string where "ENV_PROVIDER = ''DIPECS_CLOUD_LLM_PROVIDER''"
definition ENV_ENDPOINT :: string where "ENV_ENDPOINT = ''DIPECS_CLOUD_LLM_ENDPOINT''"
definition ENV_MODEL :: string where "ENV_MODEL = ''DIPECS_CLOUD_LLM_MODEL''"
definition ENV_API_KEY :: string where "ENV_API_KEY = ''DIPECS_CLOUD_LLM_API_KEY''"
definition ENV_TIMEOUT_SECS :: string where "ENV_TIMEOUT_SECS = ''DIPECS_CLOUD_LLM_TIMEOUT_SECS''"
definition ENV_TEMPERATURE :: string where "ENV_TEMPERATURE = ''DIPECS_CLOUD_LLM_TEMPERATURE''"
definition ENV_SYSTEM_PROMPT :: string where "ENV_SYSTEM_PROMPT = ''DIPECS_CLOUD_LLM_SYSTEM_PROMPT''"
definition ENV_REASONING_EFFORT :: string where "ENV_REASONING_EFFORT = ''DIPECS_CLOUD_LLM_REASONING_EFFORT''"
definition ENV_ENABLE_THINKING :: string where "ENV_ENABLE_THINKING = ''DIPECS_CLOUD_LLM_ENABLE_THINKING''"
definition ENV_DEEPSEEK_API_KEY :: string where "ENV_DEEPSEEK_API_KEY = ''DEEPSEEK_API_KEY''"
definition ENV_DASHSCOPE_API_KEY :: string where "ENV_DASHSCOPE_API_KEY = ''DASHSCOPE_API_KEY''"

definition DEFAULT_TIMEOUT_SECS :: u64 where "DEFAULT_TIMEOUT_SECS = 15"
definition DEFAULT_TEMPERATURE :: f32 where "DEFAULT_TEMPERATURE = f32_lit (1 / 10)"

definition DEFAULT_DEEPSEEK_ENDPOINT :: string where
  "DEFAULT_DEEPSEEK_ENDPOINT = ''https://api.deepseek.com/chat/completions''"

definition DEFAULT_QWEN_ENDPOINT :: string where
  "DEFAULT_QWEN_ENDPOINT = ''https://dashscope.aliyuncs.com/compatible-mode/v1/chat/completions''"

definition DEFAULT_SYSTEM_PROMPT :: string where
  "DEFAULT_SYSTEM_PROMPT = concat (map (\<lambda>l. l @ [CHR 0x0A])
   [''You are the decision backend for DiPECS.'',
    ''Return only valid JSON with this shape:'',
    ''{'',
    ''  \"intents\": ['',
    ''    {'',
    ''      \"intent_type\": \"OpenApp|SwitchToApp|CheckNotification|HandleFile|EnterContext|Idle\",'',
    ''      \"target\": \"optional string\",'',
    ''      \"extension_category\": \"Document|Image|Video|Audio|Archive|Code|Other|Unknown\",'',
    ''      \"confidence\": 0.0,'',
    ''      \"risk_level\": \"Low|Medium|High\",'',
    ''      \"actions\": ['',
    ''        {'',
    ''          \"action_type\": \"PreWarmProcess|PrefetchFile|KeepAlive|ReleaseMemory|NoOp\",'',
    ''          \"target\": \"optional string\",'',
    ''          \"urgency\": \"Immediate|IdleTime|Deferred\"'',
    ''        }'',
    ''      ],'',
    ''      \"rationale_tags\": [\"short_tag\"]'',
    ''    }'',
    ''  ]'',
    ''}'',
    '''',
    ''Rules:'',
    ''- Return JSON only, no markdown fences.'',
    ''- Use at most 3 intents.'',
    ''- If uncertain, return one Idle intent with one NoOp action.'',
    ''- Intent type selection:'',
    ''  * HandleFile: when file_activity is present or notification references a file.'',
    ''  * CheckNotification: for notifications (especially with semantic_hints like'',
    ''    LinkAttachment, FinancialContext, VerificationCode, FileMention).'',
    ''  * OpenApp/SwitchToApp: for foreground app transitions.'',
    ''  * Idle: when no actionable signal exists.'',
    ''- Action selection based on semantic hints and context:'',
    ''  * PreWarmProcess when notified_apps have semantic_hints (LinkAttachment,'',
    ''    FinancialContext, VerificationCode, FileMention) '' @ [CHR 0xE2, CHR 0x80, CHR 0x94] @ '' user will likely'',
    ''    switch to that app soon.'',
    ''  * PrefetchFile when file_activity is present with a specific extension.'',
    ''  * ReleaseMemory when battery is low and not charging.'',
    ''  * KeepAlive when charging or when system needs sustained background work.'',
    ''  * NoOp only when there is genuinely no actionable signal.'',
    ''- For PrefetchFile targets, use the app package name (e.g. `com.example.chat`)'',
    ''  or a concrete Android bridge target (`url:https://...`, `uri:content://...`).'',
    ''- For PreWarmProcess, use `own:resources` or `pkg:<observed.package>`.'',
    ''- For KeepAlive, use `work:collector_heartbeat`.'',
    ''- For ReleaseMemory, use `cache:prefetch`.'',
    ''- Use short snake_case rationale tags.'',
    ''- The user message contains `model_input_json` with:'',
    ''  - `current_context`: the current sanitized window (events, summary).'',
    ''  - `behavior_profile`: long-running privacy-preserving habit summary.'',
    ''  - `recent_feedback`: recent decisions plus local policy/execution outcomes.'',
    ''- Prefer current_context for immediate facts, use behavior_profile for stable'',
    ''  tendencies, and use recent_feedback to avoid repeating recently denied,'',
    ''  failed, or low-value actions.''])"

datatype cloud_provider = GenericOpenAiCompatible | DeepSeek | Qwen

definition provider_parse :: "string \<Rightarrow> string + cloud_provider" where
  "provider_parse raw =
     (let p = to_ascii_lowercase (trim raw) in
      if p \<in> {''generic'', ''openai-compatible'', ''openai_compatible'', ''openai''}
      then Inr GenericOpenAiCompatible
      else if p = ''deepseek'' then Inr DeepSeek
      else if p = ''qwen'' \<or> p = ''dashscope'' then Inr Qwen
      else Inl (''unsupported DIPECS_CLOUD_LLM_PROVIDER: '' @ raw @ '' (expected generic, deepseek, or qwen)''))"

fun default_endpoint :: "cloud_provider \<Rightarrow> string" where
  "default_endpoint GenericOpenAiCompatible = []"
| "default_endpoint DeepSeek = DEFAULT_DEEPSEEK_ENDPOINT"
| "default_endpoint Qwen = DEFAULT_QWEN_ENDPOINT"

fun default_model :: "cloud_provider \<Rightarrow> string" where
  "default_model GenericOpenAiCompatible = []"
| "default_model DeepSeek = ''deepseek-v4-flash''"
| "default_model Qwen = ''qwen-plus''"

fun api_key_candidates :: "cloud_provider \<Rightarrow> string list" where
  "api_key_candidates GenericOpenAiCompatible = [ENV_API_KEY]"
| "api_key_candidates DeepSeek = [ENV_API_KEY, ENV_DEEPSEEK_API_KEY]"
| "api_key_candidates Qwen = [ENV_API_KEY, ENV_DASHSCOPE_API_KEY]"

definition read_var :: "environment \<Rightarrow> string \<Rightarrow> string option" where
  "read_var env key = (case env key of Some v \<Rightarrow> if v = [] then None else Some v | None \<Rightarrow> None)"

definition parse_bool :: "string \<Rightarrow> bool option" where
  "parse_bool v =
     (let p = to_ascii_lowercase (trim v) in
      if p \<in> {''1'', ''true'', ''yes'', ''on''} then Some True
      else if p \<in> {''0'', ''false'', ''no'', ''off''} then Some False
      else None)"

definition read_bool_var :: "environment \<Rightarrow> string \<Rightarrow> bool option" where
  "read_bool_var env key = Option.bind (read_var env key) parse_bool"

definition read_u64_var :: "environment \<Rightarrow> string \<Rightarrow> u64 option" where
  "read_u64_var env key = Option.bind (read_var env key) parse_u64"

definition read_f32_var :: "(string \<Rightarrow> f32 option) \<Rightarrow> environment \<Rightarrow> string \<Rightarrow> f32 option" where
  "read_f32_var parse_f32 env key = Option.bind (read_var env key) parse_f32"

definition cloud_llm_enabled :: "environment \<Rightarrow> bool" where
  "cloud_llm_enabled env = (case read_bool_var env ENV_ENABLED of Some b \<Rightarrow> b | None \<Rightarrow> False)"

record cloud_llm_config =
  clc_provider :: cloud_provider
  clc_endpoint :: string
  clc_model :: string
  clc_api_key :: "string option"
  clc_timeout_secs :: u64
  clc_temperature :: f32
  clc_system_prompt :: string
  clc_reasoning_effort :: "string option"
  clc_enable_thinking :: "bool option"

fun find_map :: "('a \<Rightarrow> 'b option) \<Rightarrow> 'a list \<Rightarrow> 'b option" where
  "find_map f [] = None"
| "find_map f (x # xs) = (case f x of Some y \<Rightarrow> Some y | None \<Rightarrow> find_map f xs)"

definition configured_provider :: "environment \<Rightarrow> string + cloud_provider" where
  "configured_provider env =
     (case read_var env ENV_PROVIDER of None \<Rightarrow> Inr DeepSeek | Some raw \<Rightarrow> provider_parse raw)"

definition config_from_env :: "(string \<Rightarrow> f32 option) \<Rightarrow> environment \<Rightarrow> string + cloud_llm_config" where
  "config_from_env parse_f32 env =
     (case configured_provider env of
        Inl e \<Rightarrow> Inl e
      | Inr provider \<Rightarrow>
          (let endpoint = (case read_var env ENV_ENDPOINT of Some v \<Rightarrow> v | None \<Rightarrow> default_endpoint provider) in
           if endpoint = [] then Inl (ENV_ENDPOINT @ '' is required when cloud LLM is enabled'')
           else
             (let model = (case read_var env ENV_MODEL of Some v \<Rightarrow> v | None \<Rightarrow> default_model provider) in
              if model = [] then Inl (ENV_MODEL @ '' is required when cloud LLM is enabled'')
              else Inr
                \<lparr>clc_provider = provider, clc_endpoint = endpoint, clc_model = model,
                 clc_api_key = find_map (read_var env) (api_key_candidates provider),
                 clc_timeout_secs =
                   (case read_u64_var env ENV_TIMEOUT_SECS of Some t \<Rightarrow> t | None \<Rightarrow> DEFAULT_TIMEOUT_SECS),
                 clc_temperature =
                   (case read_f32_var parse_f32 env ENV_TEMPERATURE of Some t \<Rightarrow> t | None \<Rightarrow> DEFAULT_TEMPERATURE),
                 clc_system_prompt =
                   (case read_var env ENV_SYSTEM_PROMPT of Some p \<Rightarrow> p | None \<Rightarrow> DEFAULT_SYSTEM_PROMPT),
                 clc_reasoning_effort = read_var env ENV_REASONING_EFFORT,
                 clc_enable_thinking = read_bool_var env ENV_ENABLE_THINKING\<rparr>)))"

section \<open>Requests and replies (client.rs)\<close>

record chat_message =
  cm_role :: string
  cm_content :: string

text \<open>The provider's way to ask for thinking; the inner record of \<open>thinking\<close> is its one field.\<close>

record provider_request_options =
  pro_thinking :: "string option"
  pro_enable_thinking :: "bool option"

definition options_from_config :: "cloud_llm_config \<Rightarrow> provider_request_options" where
  "options_from_config c =
     (case clc_provider c of
        DeepSeek \<Rightarrow>
          \<lparr>pro_thinking = map_option (\<lambda>b. if b then ''enabled'' else ''disabled'') (clc_enable_thinking c),
           pro_enable_thinking = None\<rparr>
      | Qwen \<Rightarrow> \<lparr>pro_thinking = None, pro_enable_thinking = clc_enable_thinking c\<rparr>
      | GenericOpenAiCompatible \<Rightarrow> \<lparr>pro_thinking = None, pro_enable_thinking = None\<rparr>)"

record chat_completion_request =
  cr_model :: string
  cr_temperature :: f32
  cr_response_format :: string
  cr_messages :: "chat_message list"
  cr_reasoning_effort :: "string option"
  cr_provider_options :: provider_request_options

record chat_message_response =
  mr_content :: "string option"
  mr_reasoning_content :: "string option"

record chat_completion_response =
  cp_model :: "string option"
  cp_choices :: "chat_message_response list"

definition first_text :: "chat_completion_response \<Rightarrow> string option" where
  "first_text r =
     (case cp_choices r of
        [] \<Rightarrow> None
      | m # _ \<Rightarrow>
          (case mr_content m of
             Some c \<Rightarrow> if trim c = [] then mr_reasoning_content m else Some c
           | None \<Rightarrow> mr_reasoning_content m))"

text \<open>A POST: its address, bearer token and JSON body; a reply: the transport's error, or a status and
  the body as the JSON library decodes it.\<close>

record 'b http_request =
  hq_url :: string
  hq_bearer :: "string option"
  hq_body :: 'b

datatype 'r http_reply = SendFailed string | Replied nat "string + 'r"

definition is_success :: "nat \<Rightarrow> bool" where
  "is_success st \<longleftrightarrow> 200 \<le> st \<and> st < 300"

record summary_request =
  sq_model :: string
  sq_temperature :: f32
  sq_messages :: "chat_message list"
  sq_provider_options :: provider_request_options

record cloud_env =
  ce_parse_f32 :: "string \<Rightarrow> f32 option"
  ce_build_client :: "u64 \<Rightarrow> string option"
  ce_input_json :: "model_input \<Rightarrow> string + string"
  ce_output_from_str :: "string \<Rightarrow> string + model_output"
  ce_send :: "backend_world \<Rightarrow> chat_completion_request http_request \<Rightarrow> chat_completion_response http_reply"
  ce_summary_json :: "user_behavior_profile \<Rightarrow> recent_decision_record list \<Rightarrow> string + string"
  ce_send_summary :: "summary_request http_request \<Rightarrow> string option list http_reply"

definition render_model_input_prompt :: "cloud_env \<Rightarrow> model_input \<Rightarrow> string + string" where
  "render_model_input_prompt E mi =
     (case ce_input_json E mi of
        Inl e \<Rightarrow> Inl (''serializing ModelInput failed: '' @ e)
      | Inr js \<Rightarrow> Inr (''Generate DiPECS intents for this sanitized context plus behavior memory.'' @ [CHR 0x0A]
          @ ''window_id='' @ ctx_window_id (mi_current_context mi) @ [CHR 0x0A] @ ''model_input_json='' @ js))"

definition build_request_body :: "cloud_env \<Rightarrow> cloud_llm_config \<Rightarrow> model_input \<Rightarrow> string + chat_completion_request" where
  "build_request_body E c mi =
     (case render_model_input_prompt E mi of
        Inl e \<Rightarrow> Inl e
      | Inr prompt \<Rightarrow> Inr
          \<lparr>cr_model = clc_model c, cr_temperature = clc_temperature c, cr_response_format = ''json_object'',
           cr_messages = [\<lparr>cm_role = ''system'', cm_content = clc_system_prompt c\<rparr>,
                          \<lparr>cm_role = ''user'', cm_content = prompt\<rparr>],
           cr_reasoning_effort = clc_reasoning_effort c, cr_provider_options = options_from_config c\<rparr>)"

definition reply_intents :: "cloud_env \<Rightarrow> cloud_llm_config \<Rightarrow> backend_world \<Rightarrow> structured_context
    \<Rightarrow> chat_completion_response \<Rightarrow> nat \<times> (string + intent_batch)" where
  "reply_intents E c w ctx payload =
     (case first_text payload of
        None \<Rightarrow> (bw_next_id w, Inl ''no completion content returned'')
      | Some content \<Rightarrow>
          (case parse_model_output (ce_output_from_str E) content of
             Inl e \<Rightarrow> (bw_next_id w, Inl e)
           | Inr out \<Rightarrow>
               (case translate_intents (bw_ids w) (bw_next_id w) (mlo_intents out) of
                  (n, Inl e) \<Rightarrow> (n, Inl e)
                | (n, Inr intents) \<Rightarrow>
                    (n, Inr \<lparr>ib_window_id = ctx_window_id ctx, ib_intents = intents,
                             ib_generated_at_ms = ctx_window_end_ms ctx,
                             ib_model = (case cp_model payload of Some m \<Rightarrow> m | None \<Rightarrow> clc_model c)\<rparr>))))"

text \<open>The number of the next fresh id, and the batch or the error.\<close>

definition request_intents :: "cloud_env \<Rightarrow> cloud_llm_config \<Rightarrow> backend_world \<Rightarrow> model_input
    \<Rightarrow> nat \<times> (string + intent_batch)" where
  "request_intents E c w mi =
     (case build_request_body E c mi of
        Inl e \<Rightarrow> (bw_next_id w, Inl e)
      | Inr body \<Rightarrow>
          (case ce_send E w \<lparr>hq_url = clc_endpoint c, hq_bearer = clc_api_key c, hq_body = body\<rparr> of
             SendFailed e \<Rightarrow> (bw_next_id w, Inl (''request failed: '' @ e))
           | Replied st body \<Rightarrow>
               (if \<not> is_success st
                then (bw_next_id w, Inl (''HTTP '' @ show_nat st @ '' from cloud LLM endpoint''))
                else (case body of
                        Inl e \<Rightarrow> (bw_next_id w, Inl (''invalid response JSON: '' @ e))
                      | Inr payload \<Rightarrow> reply_intents E c w (mi_current_context mi) payload))))"

definition cloud_evaluate :: "cloud_env \<Rightarrow> cloud_llm_config \<Rightarrow> backend_world backend" where
  "cloud_evaluate E c w mi =
     (let lat = bw_latency_us w (bw_calls w) in
      case request_intents E c w mi of
        (n, Inr batch) \<Rightarrow>
          (w\<lparr>bw_next_id := n, bw_calls := Suc (bw_calls w)\<rparr>,
           \<lparr>dr_route = CloudLlm, dr_intent_batch = batch,
            dr_rationale_tags = concat (map in_rationale_tags (ib_intents batch)),
            dr_latency_us = lat, dr_error = None\<rparr>)
      | (n, Inl e) \<Rightarrow>
          (w\<lparr>bw_next_id := Suc n, bw_calls := Suc (bw_calls w)\<rparr>,
           \<lparr>dr_route = CloudLlm,
            dr_intent_batch = idle_batch (bw_ids w) n (mi_current_context mi) ''cloud-llm-error'',
            dr_rationale_tags = [''cloud_llm_error''], dr_latency_us = lat, dr_error = Some e\<rparr>))"

definition cloud_evaluate_context :: "cloud_env \<Rightarrow> cloud_llm_config \<Rightarrow> backend_world \<Rightarrow> structured_context
    \<Rightarrow> backend_world \<times> decision_backend_result" where
  "cloud_evaluate_context E c w ctx = cloud_evaluate E c w (current_only ctx)"

section \<open>Profile summaries (summarizer.rs)\<close>

definition PROFILE_SUMMARY_SYSTEM_PROMPT :: string where
  "PROFILE_SUMMARY_SYSTEM_PROMPT = concat (map (\<lambda>l. l @ [CHR 0x0A])
   [''You summarize DiPECS user behavior memory.'',
    ''Return only compact plain text, no markdown, no JSON.'',
    ''Rules:'',
    ''- Summarize stable habits from sanitized counters and recent feedback only.'',
    ''- Mention action patterns that were likely correct, policy rejected, or failed.'',
    ''- Do not invent app names or private content.'',
    ''- Keep it under 80 words.''])"

definition profile_summary_enabled :: "environment \<Rightarrow> bool" where
  "profile_summary_enabled env = (case env ''DIPECS_PROFILE_SUMMARY_ENABLED'' of
     Some v \<Rightarrow> v \<in> {''1'', ''true'', ''TRUE'', ''yes'', ''YES'', ''on'', ''ON''} | None \<Rightarrow> False)"

definition summarizer_from_env :: "cloud_env \<Rightarrow> environment \<Rightarrow> string + cloud_llm_config option" where
  "summarizer_from_env E env =
     (if \<not> cloud_llm_enabled env \<or> \<not> profile_summary_enabled env then Inr None
      else case config_from_env (ce_parse_f32 E) env of
        Inl e \<Rightarrow> Inl e
      | Inr c \<Rightarrow>
          (case ce_build_client E (clc_timeout_secs c) of
             Some e \<Rightarrow> Inl (''building profile summarizer HTTP client failed: '' @ e)
           | None \<Rightarrow> Inr (Some c)))"

definition summarize :: "cloud_env \<Rightarrow> cloud_llm_config \<Rightarrow> user_behavior_profile \<Rightarrow> recent_decision_record list
    \<Rightarrow> string + string" where
  "summarize E c profile feedback =
     (case ce_summary_json E profile feedback of
        Inl e \<Rightarrow> Inl (''serializing profile summary input failed: '' @ e)
      | Inr user_json \<Rightarrow>
          (let request = \<lparr>sq_model = clc_model c, sq_temperature = clc_temperature c,
             sq_messages = [\<lparr>cm_role = ''system'', cm_content = PROFILE_SUMMARY_SYSTEM_PROMPT\<rparr>,
               \<lparr>cm_role = ''user'', cm_content = ''Summarize this DiPECS behavior memory.'' @ [CHR 0x0A]
                  @ ''profile_summary_input_json='' @ user_json\<rparr>],
             sq_provider_options = options_from_config c\<rparr> in
           case ce_send_summary E \<lparr>hq_url = clc_endpoint c, hq_bearer = clc_api_key c, hq_body = request\<rparr> of
             SendFailed e \<Rightarrow> Inl (''profile summary request failed: '' @ e)
           | Replied st body \<Rightarrow>
               (if \<not> is_success st
                then Inl (''HTTP '' @ show_nat st @ '' from profile summary endpoint'')
                else case body of
                  Inl e \<Rightarrow> Inl (''invalid profile summary response JSON: '' @ e)
                | Inr choices \<Rightarrow>
                    (case (case choices of [] \<Rightarrow> None | content # _ \<Rightarrow> content) of
                       None \<Rightarrow> Inl ''no profile summary content returned''
                     | Some v \<Rightarrow> if trim v = [] then Inl ''no profile summary content returned''
                                 else Inr (trim v)))))"

section \<open>State and router (mod.rs, router/mod.rs)\<close>

datatype cloud_backend_state = CloudDisabled | CloudMisconfigured string | CloudReady cloud_llm_config

definition cloud_try_new :: "cloud_env \<Rightarrow> cloud_llm_config \<Rightarrow> string + cloud_llm_config" where
  "cloud_try_new E c =
     (case ce_build_client E (clc_timeout_secs c) of
        Some e \<Rightarrow> Inl (''building HTTP client failed: '' @ e)
      | None \<Rightarrow> Inr c)"

definition cloud_state_from_env :: "cloud_env \<Rightarrow> environment \<Rightarrow> cloud_backend_state" where
  "cloud_state_from_env E env =
     (if \<not> cloud_llm_enabled env then CloudDisabled
      else case config_from_env (ce_parse_f32 E) env of
        Inl e \<Rightarrow> CloudMisconfigured e
      | Inr c \<Rightarrow> (case cloud_try_new E c of Inl e \<Rightarrow> CloudMisconfigured e | Inr b \<Rightarrow> CloudReady b))"

text \<open>\<open>DecisionRouter::new\<close>; loading the predictive model is a parameter, the order of equally ranked
  local candidates another.\<close>

definition router_new :: "cloud_env \<Rightarrow> candidate_order \<Rightarrow> (string \<Rightarrow> string + backend_world backend)
    \<Rightarrow> environment \<Rightarrow> router_config \<Rightarrow> backend_world router" where
  "router_new E ord load_predictive env cfg =
     (let st = cloud_state_from_env E env;
          local = (case env ''DIPECS_NEXT_APP_MODEL_PATH'' of
            Some path \<Rightarrow>
              (if trim path \<noteq> []
               then (case load_predictive path of
                       Inr p \<Rightarrow> composite_evaluate (local_evaluate ord) p
                     | Inl _ \<Rightarrow> local_evaluate ord)
               else local_evaluate ord)
          | None \<Rightarrow> local_evaluate ord) in
      \<lparr>rt_config = cfg, rt_rule_based = rule_based_evaluate, rt_local_evaluator = local,
       rt_fallback = fallback_evaluate,
       rt_cloud_llm = (case st of CloudReady b \<Rightarrow> Some (cloud_evaluate E b) | _ \<Rightarrow> None),
       rt_cloud_disabled = (st = CloudDisabled),
       rt_cloud_misconfigured = (case st of CloudMisconfigured e \<Rightarrow> Some e | _ \<Rightarrow> None),
       rt_runtime_user_id = nonblank (env ''DIPECS_NEXT_APP_USER_ID'')\<rparr>)"

section \<open>The backend's contract\<close>

lemma request_intents_Inr:
  assumes "request_intents E c w mi = (n, Inr b)"
  obtains js where "translate_intents (bw_ids w) (bw_next_id w) js = (n, Inr (ib_intents b))" "stamped mi b"
proof -
  from assms obtain payload where "reply_intents E c w (mi_current_context mi) payload = (n, Inr b)"
    by (auto simp: request_intents_def split: sum.splits http_reply.splits if_splits)
  then have "\<exists>js. translate_intents (bw_ids w) (bw_next_id w) js = (n, Inr (ib_intents b)) \<and> stamped mi b"
    by (auto simp: reply_intents_def stamped_def split: option.splits sum.splits prod.splits)
  with that show ?thesis by blast
qed

interpretation cloud: decision_backend "cloud_evaluate E c" CloudLlm for E c
proof unfold_locales
  fix w :: backend_world and mi
  show "stamped mi (dr_intent_batch (snd (cloud_evaluate E c w mi)))"
    by (auto simp: cloud_evaluate_def Let_def stamped_def idle_batch_def split: prod.splits sum.splits
        elim!: request_intents_Inr)
qed (simp add: cloud_evaluate_def Let_def split: prod.splits sum.splits)

lemma wellformed_idle: "wellformed_intent (idle_intent ids n)"
  by (simp add: idle_intent_def wellformed_intent_def wellformed_noop half_in_unit fp_le_def)

lemma translate_intents_wellformed:
  "translate_intents ids n is = (n', Inr ts) \<Longrightarrow> ts \<noteq> [] \<and> list_all wellformed_intent ts"
  using translate_all_result [of ids n "is" n' ts]
  by (auto simp: translate_intents_def wellformed_idle split: if_splits dest!: arg_cong [where f = length])

lemma request_batch_wellformed:
  assumes "request_intents E c w mi = (n, Inr b)"
  shows "ib_intents b \<noteq> [] \<and> list_all wellformed_intent (ib_intents b)"
proof -
  obtain js where "translate_intents (bw_ids w) (bw_next_id w) js = (n, Inr (ib_intents b))"
    using assms by (rule request_intents_Inr)
  then show ?thesis by (rule translate_intents_wellformed)
qed

text \<open>Whatever the network and the model answer, the cloud backend returns a batch stamped with the
  window it was asked about, with at least one intent and only well-formed ones; and when anything
  went wrong (serialisation, transport, status, body, answer format or an unknown name) the result
  carries the error and proposes one idle no-op, nothing of the answer.\<close>

theorem cloud_result_always_usable:
  "let r = snd (cloud_evaluate E c w mi) in
     dr_route r = CloudLlm \<and> stamped mi (dr_intent_batch r)
     \<and> ib_intents (dr_intent_batch r) \<noteq> [] \<and> list_all wellformed_intent (ib_intents (dr_intent_batch r))
     \<and> (dr_error r = None \<or>
          (\<exists>n. ib_intents (dr_intent_batch r) = [idle_intent (bw_ids w) n] \<and> dr_rationale_tags r = [''cloud_llm_error'']))"
proof -
  obtain n r where q: "request_intents E c w mi = (n, r)" by fastforce
  show ?thesis
  proof (cases r)
    case (Inl e)
    with q show ?thesis
      using cloud.stamp [of mi E c w]
      by (auto simp: cloud_evaluate_def Let_def idle_batch_def wellformed_idle)
  next
    case (Inr b)
    with q show ?thesis
      using cloud.stamp [of mi E c w] request_batch_wellformed [of E c w mi n b]
      by (simp add: cloud_evaluate_def Let_def)
  qed
qed

section \<open>Configuration\<close>

lemma read_var_nonempty: "read_var env k = Some v \<Longrightarrow> v \<noteq> []"
  by (auto simp: read_var_def split: option.splits if_splits)

lemma default_nonempty:
  "default_endpoint p = [] \<longleftrightarrow> p = GenericOpenAiCompatible" "default_model p = [] \<longleftrightarrow> p = GenericOpenAiCompatible"
  by (cases p; simp add: DEFAULT_DEEPSEEK_ENDPOINT_def DEFAULT_QWEN_ENDPOINT_def)+

text \<open>The cloud is configured exactly when its provider is known and, for a generic provider, an
  endpoint and a model are given; a configuration never has an empty endpoint or model, and every
  rejection names what is missing.\<close>

theorem config_accepts_exactly:
  "case config_from_env parse_f32 env of
     Inr c \<Rightarrow> configured_provider env = Inr (clc_provider c) \<and> clc_endpoint c \<noteq> [] \<and> clc_model c \<noteq> []
   | Inl e \<Rightarrow> configured_provider env = Inl e
       \<or> configured_provider env = Inr GenericOpenAiCompatible
         \<and> (read_var env ENV_ENDPOINT = None \<and> starts_with e ENV_ENDPOINT
            \<or> read_var env ENV_MODEL = None \<and> starts_with e ENV_MODEL)"
  by (cases "configured_provider env"; cases "read_var env ENV_ENDPOINT"; cases "read_var env ENV_MODEL")
    (auto simp: config_from_env_def Let_def default_nonempty starts_with_def dest: read_var_nonempty)

section \<open>Opt-in\<close>

lemma cloud_disabled_router:
  assumes "\<not> cloud_llm_enabled env"
  shows "router_new E ord lp env cfg = router_new E' ord lp env cfg"
    "rt_cloud_llm (router_new E ord lp env cfg) = None"
  using assms by (simp_all add: router_new_def cloud_state_from_env_def)

lemma router_new_backends:
  "rt_rule_based (router_new E ord lp env cfg) = rule_based_evaluate"
  "rt_fallback (router_new E ord lp env cfg) = fallback_evaluate"
  by (simp_all add: router_new_def Let_def)

lemma router_new_local: "dr_route (snd (rt_local_evaluator (router_new E ord lp env cfg) w mi)) = LocalEvaluator"
proof -
  have l: "dr_route (snd (local_evaluate ord w mi)) = LocalEvaluator" for ord
    by (simp add: local_evaluate_def local_evaluate_input_def Let_def)
  show ?thesis
    by (simp add: router_new_def Let_def l composite.routed split: option.split sum.split)
qed

lemma router_offline:
  assumes "\<not> cloud_llm_enabled env"
  shows "dr_route (snd (router_evaluate (router_new E ord lp env cfg) ts mi st)) \<noteq> CloudLlm"
proof -
  let ?rt = "router_new E ord lp env cfg"
  let ?route = "fst (determine_route ?rt (snd st) ts (mi_current_context mi))"
  obtain w1 r1 f where d: "dispatch_route ?rt ?route (fst st) (attach_user ?rt mi) = (w1, r1, f)"
    by (cases "dispatch_route ?rt ?route (fst st) (attach_user ?rt mi)")
  obtain tags where "snd (router_evaluate ?rt ts mi st) = r1\<lparr>dr_rationale_tags := tags\<rparr>"
    using router_evaluate_result [of ?rt ts mi st] d by auto
  moreover have "?route \<noteq> CloudLlm"
    using determine_route_CloudLlm [of ?rt "snd st" ts "mi_current_context mi"] cloud_disabled_router(2) [OF assms, of E ord lp cfg]
    by blast
  then have "dr_route r1 \<noteq> CloudLlm"
    using d router_new_local rule_based.routed fallback.routed
    by (cases ?route) (auto simp: dispatch_route_def Let_def split_beta router_new_backends)
  ultimately show ?thesis by simp
qed

text \<open>Nothing leaves the device unless the user opted in: with the cloud not enabled in the
  environment, the router built from it behaves identically whatever the network would answer, and no
  evaluation's result claims the cloud's route.\<close>

theorem no_cloud_without_opt_in:
  assumes "\<not> cloud_llm_enabled env"
  shows "router_evaluate (router_new E ord lp env cfg) ts mi st = router_evaluate (router_new E' ord lp env cfg) ts mi st
    \<and> dr_route (snd (router_evaluate (router_new E ord lp env cfg) ts mi st)) \<noteq> CloudLlm"
  using router_offline [OF assms] cloud_disabled_router(1) [OF assms, of E ord lp cfg E'] by simp


definition demo_cloud_env :: cloud_env where
  "demo_cloud_env = \<lparr>ce_parse_f32 = (\<lambda>s. None), ce_build_client = (\<lambda>t. None),
     ce_input_json = (\<lambda>mi. Inr ''{}''), ce_output_from_str = (\<lambda>s. Inr \<lparr>mlo_intents = demo_answer_ok\<rparr>),
     ce_send = (\<lambda>w q. Replied 200 (Inr \<lparr>cp_model = None,
        cp_choices = [\<lparr>mr_content = Some ''{}'', mr_reasoning_content = None\<rparr>]\<rparr>)),
     ce_summary_json = (\<lambda>p fb. Inr ''{}''), ce_send_summary = (\<lambda>q. SendFailed ''offline'')\<rparr>"

text \<open>A configured key alone does not enable the cloud.\<close>

theorem no_cloud_without_opt_in_witness:
  "dr_route (snd (router_evaluate (router_new demo_cloud_env (sort_by (\<lambda>a b. True)) (\<lambda>p. Inl ''no model'')
     ((\<lambda>k. None)(ENV_API_KEY \<mapsto> ''sk'')) default_router_config) (demo_times 1) (demo_complex_input ''w'')
     (demo_world, []))) \<noteq> CloudLlm"
proof -
  have "\<not> cloud_llm_enabled ((\<lambda>k. None)(ENV_API_KEY \<mapsto> ''sk''))"
    by (simp add: cloud_llm_enabled_def read_bool_var_def read_var_def ENV_ENABLED_def ENV_API_KEY_def)
  then show ?thesis by (rule no_cloud_without_opt_in [THEN conjunct2])
qed

end
