(* ===== verification/Replay_Audit.thy ===== *)
theory Replay_Audit
  imports Json_Value
begin

text \<open>
  The audit stream of a replay (\<open>aios-cli/src/replay.rs\<close>): the canonical projection of a record, and
  the emitter that writes every record twice, verbatim and projected, and hashes the projections it wrote;
  each of its two sinks may refuse a record, which ends the run.
  Rendering a document to bytes and the SHA-256 of a byte string are parameters.

  The lemmas: the projection is idempotent, sorted and free of volatile keys at every depth, and it
  forgets exactly the volatile entries, so records that differ in those only hash alike.
\<close>

section \<open>Canonical form\<close>

definition VOLATILE_KEYS :: "string list" where
  "VOLATILE_KEYS = [''event_id'', ''window_id'', ''intent_id'', ''latency_us'', ''backend_error'']"

definition insert_key :: "(string, json) btree_map \<Rightarrow> string \<times> json \<Rightarrow> (string, json) btree_map" where
  "insert_key m kv = btree_upsert (fst kv) (snd kv) (\<lambda>_. snd kv) m"

fun canonicalize :: "json \<Rightarrow> json" where
  "canonicalize (JObject m) =
     JObject (foldl insert_key []
       (map (\<lambda>kv. (fst kv, canonicalize (snd kv)))
         (filter (\<lambda>kv. fst kv \<notin> set VOLATILE_KEYS) (sort_key fst m))))"
| "canonicalize (JArray vs) = JArray (map canonicalize vs)"
| "canonicalize v = v"

section \<open>The emitter\<close>

text \<open>The two sinks are the caller's writers: which records each of them takes is a parameter (record \<open>n\<close> of
  the run, its line break included). A write that fails ends the run, so the failure is kept and the emitter
  takes nothing after it; the record that failed on the audit sink has already been given to the writer.\<close>

datatype sink_error = WriterFailed nat | AuditFailed nat

record sinks =
  sk_writer_takes :: "nat \<Rightarrow> bool"
  sk_audit_takes :: "nat \<Rightarrow> bool"

record emitter =
  em_sinks :: sinks
  em_writer :: "json list"
  em_audit :: "json list"
  em_failed :: "sink_error option"

definition emitter_new :: "sinks \<Rightarrow> emitter" where
  "emitter_new sk = \<lparr>em_sinks = sk, em_writer = [], em_audit = [], em_failed = None\<rparr>"

text \<open>One record written to one sink.\<close>

definition write_record :: "json \<Rightarrow> emitter \<Rightarrow> emitter" where
  "write_record v em =
     (let n = length (em_writer em) in
      if sk_writer_takes (em_sinks em) n then em\<lparr>em_writer := em_writer em @ [v]\<rparr>
      else em\<lparr>em_failed := Some (WriterFailed n)\<rparr>)"

definition write_audit :: "json \<Rightarrow> emitter \<Rightarrow> emitter" where
  "write_audit v em =
     (let n = length (em_audit em) in
      if sk_audit_takes (em_sinks em) n then em\<lparr>em_audit := em_audit em @ [v]\<rparr>
      else em\<lparr>em_failed := Some (AuditFailed n)\<rparr>)"

definition emit :: "json \<Rightarrow> emitter \<Rightarrow> emitter" where
  "emit v em =
     (if em_failed em \<noteq> None then em
      else (let em = write_record v em in
            if em_failed em \<noteq> None then em else write_audit (canonicalize v) em))"

text \<open>What the hasher was fed: each projection's bytes and a line break.\<close>

definition hashed_bytes :: "(json \<Rightarrow> string) \<Rightarrow> emitter \<Rightarrow> string" where
  "hashed_bytes to_vec em = concat (map (\<lambda>v. to_vec v @ [CHR 0x0A]) (em_audit em))"

definition emitter_finalize :: "(json \<Rightarrow> string) \<Rightarrow> (string \<Rightarrow> string) \<Rightarrow> emitter \<Rightarrow> string" where
  "emitter_finalize to_vec sha256_hex em = ''sha256:'' @ sha256_hex (hashed_bytes to_vec em)"

text \<open>\<open>json!({...})\<close>: an object of the listed fields.\<close>

definition json_obj :: "(string \<times> json) list \<Rightarrow> json" where
  "json_obj kvs = JObject (foldl insert_key [] kvs)"

section \<open>Well-formed and canonical documents\<close>

text \<open>A well-formed document has the entries of each object in key order, as a \<open>BTreeMap\<close> has.\<close>

fun json_wf :: "json \<Rightarrow> bool" where
  "json_wf (JObject m) \<longleftrightarrow> btree_invar m \<and> list_all (\<lambda>kv. json_wf (snd kv)) m"
| "json_wf (JArray vs) \<longleftrightarrow> list_all json_wf vs"
| "json_wf v \<longleftrightarrow> True"

fun no_volatile :: "json \<Rightarrow> bool" where
  "no_volatile (JObject m) \<longleftrightarrow> list_all (\<lambda>kv. fst kv \<notin> set VOLATILE_KEYS \<and> no_volatile (snd kv)) m"
| "no_volatile (JArray vs) \<longleftrightarrow> list_all no_volatile vs"
| "no_volatile v \<longleftrightarrow> True"

text \<open>Dropping the volatile entries, and nothing else.\<close>

fun strip_volatile :: "json \<Rightarrow> json" where
  "strip_volatile (JObject m) =
     JObject (map (\<lambda>kv. (fst kv, strip_volatile (snd kv))) (filter (\<lambda>kv. fst kv \<notin> set VOLATILE_KEYS) m))"
| "strip_volatile (JArray vs) = JArray (map strip_volatile vs)"
| "strip_volatile v = v"

lemma insert_last: "btree_invar (m @ [(k, v)]) \<Longrightarrow> insert_key m (k, v) = m @ [(k, v)]"
  unfolding insert_key_def
  by (induction m) (auto simp: btree_invar_def dest: order_less_not_sym)

lemma insert_sorted: "btree_invar (m @ kvs) \<Longrightarrow> foldl insert_key m kvs = m @ kvs"
proof (induction kvs arbitrary: m)
  case (Cons kv kvs)
  obtain k v where kv: "kv = (k, v)" by fastforce
  have "btree_invar (m @ [(k, v)])"
    using Cons.prems kv by (auto simp: btree_invar_def sorted_wrt_append)
  with Cons.IH [of "m @ [kv]"] Cons.prems show ?case by (simp add: kv insert_last)
qed simp

lemma btree_invar_filter: "btree_invar m \<Longrightarrow> btree_invar (filter P m)"
  by (induction m) (auto simp: btree_invar_def)

lemma btree_invar_map_snd: "btree_invar (map (\<lambda>kv. (fst kv, f (snd kv))) m) \<longleftrightarrow> btree_invar m"
  by (simp add: btree_invar_def comp_def)

lemma btree_sorted: "btree_invar m \<Longrightarrow> sort_key fst m = m"
  by (simp add: btree_invar_def sort_key_id_if_sorted strict_sorted_imp_sorted)

lemma canonicalize_wf: "json_wf v \<Longrightarrow> canonicalize v = strip_volatile v"
proof (induction v rule: canonicalize.induct)
  case (1 m)
  then have m: "btree_invar m" "\<forall>kv \<in> set m. json_wf (snd kv)" by (simp_all add: list_all_iff)
  let ?f = "filter (\<lambda>kv. fst kv \<notin> set VOLATILE_KEYS) m"
  have "map (\<lambda>kv. (fst kv, canonicalize (snd kv))) ?f = map (\<lambda>kv. (fst kv, strip_volatile (snd kv))) ?f"
    using 1 m by (intro map_cong refl) (auto simp: btree_sorted)
  moreover have "btree_invar (map (\<lambda>kv. (fst kv, strip_volatile (snd kv))) ?f)"
    using m(1) by (simp add: btree_invar_map_snd btree_invar_filter)
  then have "foldl insert_key [] (map (\<lambda>kv. (fst kv, strip_volatile (snd kv))) ?f) =
      map (\<lambda>kv. (fst kv, strip_volatile (snd kv))) ?f"
    using insert_sorted [of "[]" "map (\<lambda>kv. (fst kv, strip_volatile (snd kv))) ?f"] by simp
  ultimately show ?case
    by (simp only: canonicalize.simps strip_volatile.simps btree_sorted [OF m(1)])
next
  case (2 vs)
  then show ?case by (simp add: list_all_iff)
qed simp_all

lemma insert_key_invar: "btree_invar m \<Longrightarrow> btree_invar (foldl insert_key m kvs)"
  by (induction kvs arbitrary: m) (simp_all add: insert_key_def btree_upsert_invar)

lemma upsert_set: "set (btree_upsert k d (\<lambda>_. d) m) \<subseteq> insert (k, d) (set m)"
  by (induction m) (auto split: if_splits)

lemma insert_key_set: "set (foldl insert_key m kvs) \<subseteq> set m \<union> set kvs"
proof (induction kvs arbitrary: m)
  case (Cons kv kvs)
  have "set (insert_key m kv) \<subseteq> insert kv (set m)"
    unfolding insert_key_def using upsert_set [of "fst kv" "snd kv" m] by simp
  with Cons [of "insert_key m kv"] show ?case by auto
qed simp

lemma canonicalize_result: "json_wf (canonicalize v) \<and> no_volatile (canonicalize v)"
proof (induction v rule: canonicalize.induct)
  case (1 m)
  let ?kvs = "map (\<lambda>kv. (fst kv, canonicalize (snd kv)))
    (filter (\<lambda>kv. fst kv \<notin> set VOLATILE_KEYS) (sort_key fst m))"
  have "json_wf (snd kv) \<and> no_volatile (snd kv) \<and> fst kv \<notin> set VOLATILE_KEYS"
    if "kv \<in> set (foldl insert_key [] ?kvs)" for kv
  proof -
    have sub: "set (foldl insert_key [] ?kvs) \<subseteq> set ?kvs"
      using insert_key_set [of "[]" ?kvs] by (simp only: list.set(1) Un_empty_left)
    have "kv \<in> set ?kvs" by (rule subsetD [OF sub that])
    then obtain kv' where kv': "kv' \<in> set (filter (\<lambda>kv. fst kv \<notin> set VOLATILE_KEYS) (sort_key fst m))"
        "kv = (fst kv', canonicalize (snd kv'))"
      unfolding set_map by blast
    from 1 [OF kv'(1)] kv' show ?thesis by simp
  qed
  moreover have "btree_invar (foldl insert_key [] ?kvs)"
    by (rule insert_key_invar) (simp add: btree_empty)
  ultimately show ?case
    unfolding canonicalize.simps json_wf.simps no_volatile.simps list_all_iff by blast
next
  case (2 vs)
  then show ?case by (simp add: list_all_iff)
qed simp_all

lemma strip_id: "no_volatile v \<Longrightarrow> strip_volatile v = v"
proof (induction v rule: no_volatile.induct)
  case (1 m)
  then have "filter (\<lambda>kv. fst kv \<notin> set VOLATILE_KEYS) m = m" by (simp add: list_all_iff)
  moreover have "map (\<lambda>kv. (fst kv, strip_volatile (snd kv))) m = m"
    using 1 by (intro map_idI) (simp add: list_all_iff)
  ultimately show ?case by simp
next
  case (2 vs)
  then show ?case by (simp add: list_all_iff map_idI)
qed simp_all

text \<open>C27: the audit projection is a normal form. It has its keys in order and none of the volatile ones
  at any depth, projecting it again changes nothing, and of a document with ordered objects it is the
  document with exactly the volatile entries removed; two such documents that agree but for volatile
  entries have the same projection.\<close>

theorem canonicalize_normal_form:
  "json_wf (canonicalize v) \<and> no_volatile (canonicalize v) \<and> canonicalize (canonicalize v) = canonicalize v
   \<and> (json_wf v \<longrightarrow> canonicalize v = strip_volatile v)
   \<and> (json_wf v \<and> json_wf w \<and> strip_volatile v = strip_volatile w \<longrightarrow> canonicalize v = canonicalize w)"
  using canonicalize_result [of v] by (simp add: canonicalize_wf strip_id)


definition demo_record :: "string \<Rightarrow> json" where
  "demo_record eid = JObject [(''line'', JNumber (PosInt 1)),
     (''sanitized'', JArray [JObject [(''event_id'', JString eid), (''uid'', JNull)]])]"

theorem canonicalize_normal_form_witness: "canonicalize (demo_record ''a'') = canonicalize (demo_record ''b'')"
proof -
  have "json_wf (demo_record x)" for x
    by (simp add: demo_record_def btree_invar_def)
  moreover have "strip_volatile (demo_record x) = strip_volatile (demo_record ''a'')" for x
    by (simp add: demo_record_def VOLATILE_KEYS_def)
  ultimately show ?thesis
    using canonicalize_normal_form [of "demo_record ''a''" "demo_record ''b''"] by metis
qed

end
