(* ===== verification/Replay.thy ===== *)
theory Replay
  imports Replay_Audit Jsonl_Tailer Privacy_Airgap Router Action_Exec
begin

text \<open>
  The offline replay of a collector trace (\<open>aios-cli/src/replay.rs\<close>): the stages, the counters, the
  loop over the trace's lines with its windows driven by the trace's own timestamps, the processing of
  one window at each stage, and the human-readable summary. Parsing and serialising are parameters, as
  are the fresh ids, the clock readings, and which records the two sinks take.

  The lemmas: every line is counted once, as what it is; intents and actions are counted once each, at
  either of the two last stages; for a batch whose schemas are valid both stages count the same; and a
  run ends early at its first unreadable line or its first failing write, and for nothing else.
\<close>

section \<open>Stages and counters\<close>

datatype stage = StIngest | StSanitize | StContext | StDecision | StPolicy | StExecute

fun stage_rank :: "stage \<Rightarrow> nat" where
  "stage_rank StIngest = 0"
| "stage_rank StSanitize = 1"
| "stage_rank StContext = 2"
| "stage_rank StDecision = 3"
| "stage_rank StPolicy = 4"
| "stage_rank StExecute = 5"

definition includes_stage :: "stage \<Rightarrow> stage \<Rightarrow> bool" where
  "includes_stage s t \<longleftrightarrow> stage_rank t \<le> stage_rank s"

record replay_summary =
  rps_lines_total :: u64
  rps_lines_skipped_no_raw_event :: u64
  rps_lines_parse_error :: u64
  rps_events_ingested :: u64
  rps_windows_closed :: u64
  rps_intents_total :: u64
  rps_intents_approved :: u64
  rps_intents_rejected :: u64
  rps_actions_authorized :: u64
  rps_actions_denied :: u64
  rps_actions_failed :: u64
  rps_audit_records :: u64
  rps_denial_counts :: "(denial_reason, u64) btree_map"
  rps_audit_hash :: string

definition empty_replay_summary :: replay_summary where
  "empty_replay_summary =
     \<lparr>rps_lines_total = 0, rps_lines_skipped_no_raw_event = 0, rps_lines_parse_error = 0,
      rps_events_ingested = 0, rps_windows_closed = 0, rps_intents_total = 0, rps_intents_approved = 0,
      rps_intents_rejected = 0, rps_actions_authorized = 0, rps_actions_denied = 0, rps_actions_failed = 0,
      rps_audit_records = 0, rps_denial_counts = [], rps_audit_hash = []\<rparr>"

definition count_denial :: "denial_reason \<Rightarrow> (denial_reason, u64) btree_map \<Rightarrow> (denial_reason, u64) btree_map" where
  "count_denial r m = btree_upsert r 0 (\<lambda>n. n + 1) m"

section \<open>Parameters\<close>

text \<open>Fresh ids and clock readings are indexed by the line that needs them (the final flush has the
  index \<open>0\<close>); \<open>rpe_ser_...\<close> are the derived serialisers.\<close>

record replay_env =
  rpe_lowercase :: "string \<Rightarrow> string"
  rpe_file_order :: file_order
  rpe_from_str :: "string \<Rightarrow> string + json"
  rpe_from_value :: "json \<Rightarrow> string + raw_event"
  rpe_event_id :: "nat \<Rightarrow> string"
  rpe_window_id :: "nat \<Rightarrow> string"
  rpe_times :: "nat \<Rightarrow> call_times"
  rpe_ser_event :: "sanitized_event \<Rightarrow> json"
  rpe_ser_summary :: "context_summary \<Rightarrow> json"
  rpe_ser_record :: "audit_record \<Rightarrow> json"
  rpe_ser_coord :: "action_coord \<Rightarrow> json"
  rpe_ser_state :: "action_state \<Rightarrow> json"
  rpe_ser_outcome :: "action_outcome_summary option \<Rightarrow> json"
  rpe_ser_action :: "suggested_action \<Rightarrow> json"
  rpe_ser_reason :: "denial_reason \<Rightarrow> json"
  rpe_ser_replay_summary :: "replay_summary \<Rightarrow> json"
  rpe_to_vec :: "json \<Rightarrow> string"
  rpe_sha256_hex :: "string \<Rightarrow> string"

record 'w replay_state =
  rst_summary :: replay_summary
  rst_router :: "'w \<times> instant list"
  rst_emitter :: emitter

definition json_u64 :: "u64 \<Rightarrow> json" where "json_u64 n = JNumber (PosInt n)"

definition json_i64 :: "i64 \<Rightarrow> json" where
  "json_i64 i = JNumber (if i < 0 then NegInt i else PosInt (of_int i))"

definition json_opt_string :: "string option \<Rightarrow> json" where
  "json_opt_string s = (case s of Some x \<Rightarrow> JString x | None \<Rightarrow> JNull)"

fun debug_source_tier :: "source_tier \<Rightarrow> string" where
  "debug_source_tier PublicApi = ''PublicApi''"
| "debug_source_tier Daemon = ''Daemon''"
| "debug_source_tier PrivilegedDaemon = ''PrivilegedDaemon''"
| "debug_source_tier SystemImage = ''SystemImage''"

fun replay_event_kind :: "raw_event \<Rightarrow> string" where
  "replay_event_kind (RawAppTransition e) = ''AppTransition''"
| "replay_event_kind (RawBinderTransaction e) = ''BinderTransaction''"
| "replay_event_kind (RawProcStateChange e) = ''ProcStateChange''"
| "replay_event_kind (RawFileSystemAccess e) = ''FileSystemAccess''"
| "replay_event_kind (RawNotificationPosted e) = ''NotificationPosted''"
| "replay_event_kind (RawNotificationInteraction e) = ''NotificationInteraction''"
| "replay_event_kind (RawScreenState e) = ''ScreenState''"
| "replay_event_kind (RawSystemState e) = ''SystemState''"

section \<open>One window\<close>

definition emit_rs :: "json \<Rightarrow> 'w replay_state \<Rightarrow> 'w replay_state" where
  "emit_rs v st = st\<lparr>rst_emitter := emit v (rst_emitter st)\<rparr>"

definition context_record :: "replay_env \<Rightarrow> structured_context \<Rightarrow> json" where
  "context_record E ctx = json_obj
     [(''stage'', JString ''context''), (''window_id'', JString (ctx_window_id ctx)),
      (''window_start_ms'', json_i64 (ctx_window_start_ms ctx)), (''window_end_ms'', json_i64 (ctx_window_end_ms ctx)),
      (''duration_secs'', json_u64 (ucast (ctx_duration_secs ctx))),
      (''event_count'', json_u64 (of_nat (length (ctx_events ctx)))),
      (''summary'', rpe_ser_summary E (ctx_summary ctx))]"

definition decision_record :: "structured_context \<Rightarrow> decision_backend_result \<Rightarrow> json" where
  "decision_record ctx d = json_obj
     [(''stage'', JString ''decision''), (''window_id'', JString (ctx_window_id ctx)),
      (''route'', JString (debug_route (dr_route d))), (''model'', JString (ib_model (dr_intent_batch d))),
      (''intent_count'', json_u64 (of_nat (length (ib_intents (dr_intent_batch d))))),
      (''rationale_tags'', JArray (map JString (dr_rationale_tags d))),
      (''error'', json_opt_string (dr_error d))]"

text \<open>The counters of one audit record.\<close>

definition count_audit_record :: "replay_summary \<Rightarrow> audit_record \<Rightarrow> replay_summary" where
  "count_audit_record s r =
     (let s = s\<lparr>rps_audit_records := rps_audit_records s + 1\<rparr>;
          s = (if ar_terminal r \<in> {Succeeded, Failed}
               then s\<lparr>rps_actions_authorized := rps_actions_authorized s + 1\<rparr>
               else if ar_terminal r \<in> {RejectedInvalidSchema, DeniedByCapability, DeniedByPolicy}
               then (let s = s\<lparr>rps_actions_denied := rps_actions_denied s + 1\<rparr> in
                     case ar_denial_reason r of
                       Some reason \<Rightarrow> s\<lparr>rps_denial_counts := count_denial reason (rps_denial_counts s)\<rparr>
                     | None \<Rightarrow> s)
               else s)
      in if ar_terminal r = Failed then s\<lparr>rps_actions_failed := rps_actions_failed s + 1\<rparr> else s)"

definition intent_authorized :: "audit_record list \<Rightarrow> nat \<Rightarrow> bool" where
  "intent_authorized records k \<longleftrightarrow>
     (\<exists>r \<in> set (filter (\<lambda>r. co_intent_ordinal (ar_coord r) = of_nat k) records). ar_terminal r \<in> {Succeeded, Failed})"

definition execute_record :: "replay_env \<Rightarrow> u32 \<Rightarrow> structured_context \<Rightarrow> audit_record \<Rightarrow> json" where
  "execute_record E ordinal ctx r = json_obj
     [(''stage'', JString ''execute''), (''window_id'', JString (ctx_window_id ctx)),
      (''window_ordinal'', json_u64 (ucast ordinal)), (''coord'', rpe_ser_coord E (ar_coord r)),
      (''intent_id'', JString (ar_intent_id r)), (''action_type'', JString (debug_action_type (ar_action_type r))),
      (''terminal'', rpe_ser_state E (ar_terminal r)), (''outcome'', rpe_ser_outcome E (ar_outcome r)),
      (''error'', json_opt_string (ar_error r))]"

definition execute_stage :: "replay_env \<Rightarrow> u32 \<Rightarrow> structured_context \<Rightarrow> decision_backend_result
    \<Rightarrow> 'w replay_state \<Rightarrow> 'w replay_state" where
  "execute_stage E ordinal ctx d st =
     (let batch = dr_intent_batch d;
          records = snd (run_lifecycle offline_execute default_policy_config ordinal batch (dr_route d)
             (dr_error d) (for_route (dr_route d)) ctx ());
          ks = [0..<length (ib_intents batch)];
          s = rst_summary st;
          s = s\<lparr>rps_intents_approved := rps_intents_approved s + of_nat (length (filter (intent_authorized records) ks)),
                rps_intents_rejected := rps_intents_rejected s
                  + of_nat (length (filter (\<lambda>k. \<not> intent_authorized records k) ks))\<rparr>;
          st = st\<lparr>rst_summary := foldl count_audit_record s records\<rparr>;
          st = emit_rs (json_obj
             [(''stage'', JString ''policy''), (''window_id'', JString (ctx_window_id ctx)),
              (''window_ordinal'', json_u64 (ucast ordinal)),
              (''intent_count'', json_u64 (of_nat (length (ib_intents batch)))),
              (''audit_records'', JArray (map (rpe_ser_record E) records))]) st
      in foldl (\<lambda>st r. emit_rs (execute_record E ordinal ctx r) st) st records)"

definition intent_decisions :: "policy_action_decision list \<Rightarrow> nat \<Rightarrow> policy_action_decision list" where
  "intent_decisions ds k = filter (\<lambda>d. pd_intent_ordinal d = of_nat k) ds"

definition policy_record :: "replay_env \<Rightarrow> u32 \<Rightarrow> structured_context \<Rightarrow> policy_action_decision list \<Rightarrow> intent \<Rightarrow> json" where
  "policy_record E ordinal ctx ds i = json_obj
     [(''stage'', JString ''policy''), (''window_id'', JString (ctx_window_id ctx)),
      (''window_ordinal'', json_u64 (ucast ordinal)), (''intent_id'', JString (in_intent_id i)),
      (''approved'', JBool (filter (\<lambda>d. pd_verdict d = Approved) ds \<noteq> [])),
      (''action_denials'', JArray (concat (map (\<lambda>d. case pd_verdict d of
          Denied r \<Rightarrow> [rpe_ser_reason E r] | Approved \<Rightarrow> []) ds))),
      (''approved_actions'', JArray (concat (map (\<lambda>d. case pd_verdict d of
          Approved \<Rightarrow> (case nth_opt (unat (pd_action_ordinal d)) (in_suggested_actions i) of
             Some a \<Rightarrow> [json_obj [(''action'', rpe_ser_action E a)]] | None \<Rightarrow> [])
        | Denied r \<Rightarrow> []) ds)))]"

definition count_intent :: "policy_action_decision list \<Rightarrow> replay_summary \<Rightarrow> replay_summary" where
  "count_intent ds s =
     (let approved = of_nat (length (filter (\<lambda>d. pd_verdict d = Approved) ds));
          denied = of_nat (length ds) - approved;
          s = (if filter (\<lambda>d. pd_verdict d = Approved) ds \<noteq> []
               then s\<lparr>rps_intents_approved := rps_intents_approved s + 1\<rparr>
               else s\<lparr>rps_intents_rejected := rps_intents_rejected s + 1\<rparr>);
          s = s\<lparr>rps_actions_authorized := rps_actions_authorized s + approved,
                rps_actions_denied := rps_actions_denied s + denied\<rparr>
      in foldl (\<lambda>s d. case pd_verdict d of
           Approved \<Rightarrow> s
         | Denied r \<Rightarrow> s\<lparr>rps_denial_counts := count_denial r (rps_denial_counts s)\<rparr>) s ds)"

definition policy_stage :: "replay_env \<Rightarrow> u32 \<Rightarrow> structured_context \<Rightarrow> decision_backend_result
    \<Rightarrow> 'w replay_state \<Rightarrow> 'w replay_state" where
  "policy_stage E ordinal ctx d st =
     (let batch = dr_intent_batch d;
          decisions = evaluate_batch_with_context default_policy_config batch (for_route (dr_route d)) ctx
      in foldl (\<lambda>st (k, i).
           let ds = intent_decisions decisions k in
           emit_rs (policy_record E ordinal ctx ds i) (st\<lparr>rst_summary := count_intent ds (rst_summary st)\<rparr>))
         st (enumerate 0 (ib_intents batch)))"

definition replay_window :: "replay_env \<Rightarrow> 'w router \<Rightarrow> stage \<Rightarrow> nat \<Rightarrow> u32 \<Rightarrow> structured_context
    \<Rightarrow> 'w replay_state \<Rightarrow> 'w replay_state" where
  "replay_window E rt stage idx ordinal ctx st0 =
     (let s0 = rst_summary st0;
          st1 = st0\<lparr>rst_summary := s0\<lparr>rps_windows_closed := rps_windows_closed s0 + 1\<rparr>\<rparr>;
          st1 = (if includes_stage stage StContext then emit_rs (context_record E ctx) st1 else st1) in
      if \<not> includes_stage stage StDecision then st1
      else
        (let (router, d) = router_evaluate_context rt (rpe_times E idx) ctx (rst_router st1);
             s1 = rst_summary st1;
             st2 = emit_rs (decision_record ctx d)
               (st1\<lparr>rst_router := router,
                     rst_summary := s1\<lparr>rps_intents_total := rps_intents_total s1
                       + of_nat (length (ib_intents (dr_intent_batch d)))\<rparr>\<rparr>) in
         if \<not> includes_stage stage StPolicy then st2
         else if includes_stage stage StExecute then execute_stage E ordinal ctx d st2
         else policy_stage E ordinal ctx d st2))"

section \<open>The whole trace\<close>

datatype replay_error =
    ReadLineFailed nat
  | IngressFailed nat collector_ingress_error
  | SinkFailed sink_error

record 'w replay_loop =
  rl_state :: "'w replay_state"
  rl_aggregator :: "window_aggregator option"
  rl_last_captured_at_ms :: i64
  rl_window_ordinal :: u32

definition error_record :: "nat \<Rightarrow> string \<Rightarrow> json" where
  "error_record line_no e = json_obj
     [(''stage'', JString ''error''), (''line'', json_u64 (of_nat line_no)), (''error'', JString e)]"

definition parse_error :: "nat \<Rightarrow> string \<Rightarrow> 'w replay_loop \<Rightarrow> 'w replay_loop" where
  "parse_error line_no e l =
     (let st = rl_state l; s = rst_summary st in
      l\<lparr>rl_state := emit_rs (error_record line_no e)
         (st\<lparr>rst_summary := s\<lparr>rps_lines_parse_error := rps_lines_parse_error s + 1\<rparr>\<rparr>)\<rparr>)"

definition replay_envelope :: "json \<Rightarrow> raw_event \<Rightarrow> collector_envelope" where
  "replay_envelope v r =
     \<lparr>env_schema_version = ''dipecs.collector.v1'',
      env_source = (case Option.bind (json_get ''source'' v) json_as_str of
        Some s \<Rightarrow> s | None \<Rightarrow> ''apps.android-collector.replay''),
      env_source_tier = PublicApi,
      env_device_trace_id = Option.bind (json_get ''eventId'' v) json_as_str,
      env_captured_at_ms = (case Option.bind (json_get ''timestampMs'' v) json_as_i64 of Some t \<Rightarrow> t | None \<Rightarrow> 0),
      env_received_at_ms = None, env_raw_event = r\<rparr>"

definition close_if_expired :: "replay_env \<Rightarrow> 'w router \<Rightarrow> stage \<Rightarrow> nat \<Rightarrow> i64 \<Rightarrow> window_aggregator
    \<Rightarrow> 'w replay_loop \<Rightarrow> 'w replay_loop" where
  "close_if_expired E rt stage idx now agg l =
     (if is_expired now agg
      then (case wa_close (rpe_file_order E) (rpe_window_id E idx) now agg of
              (agg', Some ctx) \<Rightarrow>
                l\<lparr>rl_aggregator := Some agg',
                  rl_state := replay_window E rt stage idx (rl_window_ordinal l) ctx (rl_state l),
                  rl_window_ordinal := rl_window_ordinal l + 1\<rparr>
            | (agg', None) \<Rightarrow> l\<lparr>rl_aggregator := Some agg'\<rparr>)
      else l\<lparr>rl_aggregator := Some agg\<rparr>)"

definition ingest_line :: "replay_env \<Rightarrow> 'w router \<Rightarrow> u64 \<Rightarrow> stage \<Rightarrow> nat \<Rightarrow> json \<Rightarrow> raw_event
    \<Rightarrow> 'w replay_loop \<Rightarrow> replay_error + 'w replay_loop" where
  "ingest_line E rt window_secs stage line_no v r l0 =
     (let env = replay_envelope v r;
          now = env_captured_at_ms env;
          l1 = l0\<lparr>rl_last_captured_at_ms := max (rl_last_captured_at_ms l0) now\<rparr> in
      case ingress_accept env of
        Inl e \<Rightarrow> Inl (IngressFailed line_no e)
      | Inr ingested \<Rightarrow>
          (let st = rl_state l1; s = rst_summary st;
               st = st\<lparr>rst_summary := s\<lparr>rps_events_ingested := rps_events_ingested s + 1\<rparr>\<rparr>;
               st = (if includes_stage stage StIngest
                     then emit_rs (json_obj
                       [(''stage'', JString ''ingest''), (''line'', json_u64 (of_nat line_no)),
                        (''source_tier'', JString (debug_source_tier (ing_source_tier ingested))),
                        (''raw_event_kind'', JString (replay_event_kind (ing_raw_event ingested)))]) st
                     else st);
               agg = (case rl_aggregator l1 of Some a \<Rightarrow> a | None \<Rightarrow> new_window_aggregator window_secs now);
               l2 = close_if_expired E rt stage line_no now agg (l1\<lparr>rl_state := st\<rparr>) in
           if \<not> includes_stage stage StSanitize then Inr l2
           else
             (let ev = sanitize_with_tier (rpe_lowercase E) (rpe_event_id E line_no)
                    (ing_raw_event ingested) (ing_source_tier ingested);
                  l3 = l2\<lparr>rl_state := emit_rs (json_obj
                     [(''stage'', JString ''sanitize''), (''line'', json_u64 (of_nat line_no)),
                      (''sanitized'', rpe_ser_event E ev)]) (rl_state l2)\<rparr> in
              Inr (if includes_stage stage StContext
                   then l3\<lparr>rl_aggregator := map_option (wa_push ev) (rl_aggregator l3)\<rparr> else l3))))"

definition replay_line :: "replay_env \<Rightarrow> 'w router \<Rightarrow> u64 \<Rightarrow> stage \<Rightarrow> nat \<Rightarrow> string option
    \<Rightarrow> 'w replay_loop \<Rightarrow> replay_error + 'w replay_loop" where
  "replay_line E rt window_secs stage line_no read l0 =
     (case read of
        None \<Rightarrow> Inl (ReadLineFailed line_no)
      | Some raw_line \<Rightarrow>
          (if trim raw_line = [] then Inr l0
           else
             (let st = rl_state l0; s = rst_summary st;
                  l = l0\<lparr>rl_state := st\<lparr>rst_summary := s\<lparr>rps_lines_total := rps_lines_total s + 1\<rparr>\<rparr>\<rparr> in
              case rpe_from_str E raw_line of
                Inl e \<Rightarrow> Inr (parse_error line_no (''invalid JSON: '' @ e) l)
              | Inr v \<Rightarrow>
                  (let raw = (case json_get ''rawEvent'' v of Some r \<Rightarrow> r | None \<Rightarrow> JNull) in
                   if json_is_null raw
                   then (let st = rl_state l; s = rst_summary st in
                         Inr (l\<lparr>rl_state := st\<lparr>rst_summary :=
                           s\<lparr>rps_lines_skipped_no_raw_event := rps_lines_skipped_no_raw_event s + 1\<rparr>\<rparr>\<rparr>))
                   else case rpe_from_value E raw of
                     Inl e \<Rightarrow> Inr (parse_error line_no (''rawEvent does not match RawEvent shape: '' @ e) l)
                   | Inr r \<Rightarrow> ingest_line E rt window_secs stage line_no v r l))))"

text \<open>Every \<open>emit\<close> of a line is followed by \<open>?\<close>: a write that failed ends the run there. An emitter that
  has failed takes nothing more, and all else a line changes is local to the run and dropped with the error,
  so the model looks at the emitter once, when the line is done.\<close>

fun replay_lines :: "replay_env \<Rightarrow> 'w router \<Rightarrow> u64 \<Rightarrow> stage \<Rightarrow> nat \<Rightarrow> string option list
    \<Rightarrow> 'w replay_loop \<Rightarrow> replay_error + 'w replay_loop" where
  "replay_lines E rt ws stage n [] l = Inr l"
| "replay_lines E rt ws stage n (x # xs) l =
     (case replay_line E rt ws stage n x l of
        Inl e \<Rightarrow> Inl e
      | Inr l' \<Rightarrow>
          (case em_failed (rst_emitter (rl_state l')) of
             Some e \<Rightarrow> Inl (SinkFailed e)
           | None \<Rightarrow> replay_lines E rt ws stage (Suc n) xs l'))"

definition replay_start :: "'w \<Rightarrow> sinks \<Rightarrow> 'w replay_loop" where
  "replay_start w sk =
     \<lparr>rl_state = \<lparr>rst_summary = empty_replay_summary, rst_router = (w, []), rst_emitter = emitter_new sk\<rparr>,
      rl_aggregator = None, rl_last_captured_at_ms = 0, rl_window_ordinal = 0\<rparr>"

text \<open>The last open window is closed at the latest capture time seen.\<close>

definition flush_window :: "replay_env \<Rightarrow> 'w router \<Rightarrow> stage \<Rightarrow> 'w replay_loop \<Rightarrow> 'w replay_state" where
  "flush_window E rt stage l =
     (case rl_aggregator l of
        None \<Rightarrow> rl_state l
      | Some agg \<Rightarrow>
          (case snd (wa_close (rpe_file_order E) (rpe_window_id E 0) (rl_last_captured_at_ms l) agg) of
             Some ctx \<Rightarrow> replay_window E rt stage 0 (rl_window_ordinal l) ctx (rl_state l)
           | None \<Rightarrow> rl_state l))"

definition summary_record :: "replay_env \<Rightarrow> replay_summary \<Rightarrow> json" where
  "summary_record E s = json_obj [(''stage'', JString ''summary''), (''summary'', rpe_ser_replay_summary E s)]"

text \<open>The result, and the records written; the summary record goes to the writer alone.\<close>

definition run_with_audit :: "replay_env \<Rightarrow> 'w router \<Rightarrow> 'w \<Rightarrow> sinks \<Rightarrow> string option list \<Rightarrow> u64 \<Rightarrow> stage
    \<Rightarrow> replay_error + replay_summary \<times> emitter" where
  "run_with_audit E rt w sk lines window_secs stage =
     (case replay_lines E rt window_secs stage 1 lines (replay_start w sk) of
        Inl e \<Rightarrow> Inl e
      | Inr l \<Rightarrow>
          (let st = flush_window E rt stage l in
           case em_failed (rst_emitter st) of
             Some e \<Rightarrow> Inl (SinkFailed e)
           | None \<Rightarrow>
               (let s = (rst_summary st)\<lparr>rps_audit_hash :=
                      emitter_finalize (rpe_to_vec E) (rpe_sha256_hex E) (rst_emitter st)\<rparr>;
                    em = write_record (summary_record E s) (rst_emitter st) in
                case em_failed em of Some e \<Rightarrow> Inl (SinkFailed e) | None \<Rightarrow> Inr (s, em))))"

text \<open>A replay without an audit file gives \<open>std::io::sink()\<close> for it, which takes everything.\<close>

definition replay_run :: "replay_env \<Rightarrow> 'w router \<Rightarrow> 'w \<Rightarrow> (nat \<Rightarrow> bool) \<Rightarrow> string option list \<Rightarrow> u64 \<Rightarrow> stage
    \<Rightarrow> replay_error + replay_summary" where
  "replay_run E rt w takes lines window_secs stage =
     (case run_with_audit E rt w \<lparr>sk_writer_takes = takes, sk_audit_takes = (\<lambda>n. True)\<rparr> lines window_secs stage of
        Inl e \<Rightarrow> Inl e
      | Inr (s, _) \<Rightarrow> Inr s)"

section \<open>The human-readable summary\<close>

definition middle_dot :: string where "middle_dot = [CHR 0xC2, CHR 0xB7]"

definition short_hash :: "string \<Rightarrow> string" where
  "short_hash h =
     (if h = [] then ''(none)''
      else case strip_prefix h ''sha256:'' of
        Some hex \<Rightarrow>
          (if 16 < length hex
           then ''sha256:'' @ take 16 hex @ [CHR 0xE2, CHR 0x80, CHR 0xA6] @ ''  (full hash in NDJSON summary)''
           else h)
      | None \<Rightarrow> h)"

definition show_u64 :: "u64 \<Rightarrow> string" where "show_u64 n = show_nat (unat n)"

definition pad_right :: "nat \<Rightarrow> string \<Rightarrow> string" where
  "pad_right n s = s @ replicate (n - length s) (CHR '' '')"

definition human_summary :: "replay_summary \<Rightarrow> string" where
  "human_summary s =
     (let nl = [newline]; dot = '' '' @ middle_dot @ '' '';
          names = map (\<lambda>(r, n). debug_denial_reason r) (rps_denial_counts s);
          width = foldl max 0 (map length names) in
      ''=== DiPECS replay ==='' @ nl
      @ ''audit    '' @ short_hash (rps_audit_hash s) @ nl
      @ ''input    '' @ show_u64 (rps_lines_total s) @ '' lines'' @ dot
        @ show_u64 (rps_events_ingested s) @ '' ingested'' @ dot
        @ show_u64 (rps_lines_skipped_no_raw_event s) @ '' skipped'' @ dot
        @ show_u64 (rps_lines_parse_error s) @ '' parse errors'' @ nl
      @ ''windows  '' @ show_u64 (rps_windows_closed s) @ '' closed'' @ nl @ nl
      @ ''intents  '' @ show_u64 (rps_intents_total s) @ '' total'' @ dot
        @ show_u64 (rps_intents_approved s) @ '' approved'' @ dot
        @ show_u64 (rps_intents_rejected s) @ '' rejected'' @ nl
      @ ''actions  '' @ show_u64 (rps_actions_authorized s) @ '' authorized'' @ dot
        @ show_u64 (rps_actions_denied s) @ '' denied'' @ dot
        @ show_u64 (rps_actions_failed s) @ '' failed'' @ dot
        @ show_u64 (rps_audit_records s) @ '' audit records'' @ nl
      @ (if rps_denial_counts s = [] then []
         else nl @ ''denials by reason'' @ nl
           @ concat (map (\<lambda>(r, n). ''  '' @ pad_right width (debug_denial_reason r) @ ''  '' @ show_u64 n @ nl)
               (rps_denial_counts s))))"

section \<open>Both last stages count the same\<close>

definition add_counts :: "nat \<Rightarrow> nat \<Rightarrow> nat \<Rightarrow> nat \<Rightarrow> denial_reason list \<Rightarrow> replay_summary \<Rightarrow> replay_summary" where
  "add_counts ap rj au de rs s =
     s\<lparr>rps_intents_approved := rps_intents_approved s + of_nat ap,
       rps_intents_rejected := rps_intents_rejected s + of_nat rj,
       rps_actions_authorized := rps_actions_authorized s + of_nat au,
       rps_actions_denied := rps_actions_denied s + of_nat de,
       rps_denial_counts := foldl (\<lambda>m r. count_denial r m) (rps_denial_counts s) rs\<rparr>"

lemma add_counts_add:
  "add_counts a r u d ys (add_counts a' r' u' d' xs s) = add_counts (a' + a) (r' + r) (u' + u) (d' + d) (xs @ ys) s"
  by (simp add: add_counts_def)

lemma add_counts_zero: "add_counts 0 0 0 0 [] s = s"
  by (simp add: add_counts_def)

definition approved_decision :: "policy_action_decision \<Rightarrow> bool" where
  "approved_decision d \<longleftrightarrow> pd_verdict d = Approved"

definition decision_reasons :: "policy_action_decision list \<Rightarrow> denial_reason list" where
  "decision_reasons ds = concat (map (\<lambda>d. case pd_verdict d of Denied r \<Rightarrow> [r] | Approved \<Rightarrow> []) ds)"

lemma fold_denials:
  "foldl (\<lambda>s d. case pd_verdict d of Approved \<Rightarrow> s
      | Denied r \<Rightarrow> s\<lparr>rps_denial_counts := count_denial r (rps_denial_counts s)\<rparr>) s ds =
   add_counts 0 0 0 0 (decision_reasons ds) s"
proof (induction ds arbitrary: s)
  case Nil
  then show ?case by (simp add: decision_reasons_def add_counts_zero)
next
  case (Cons d ds)
  then show ?case by (simp add: decision_reasons_def add_counts_def split: policy_verdict.split)
qed

lemma count_intent_eq:
  "count_intent ds s =
     add_counts (if filter approved_decision ds \<noteq> [] then 1 else 0) (if filter approved_decision ds \<noteq> [] then 0 else 1)
       (length (filter approved_decision ds)) (length (filter (\<lambda>d. \<not> approved_decision d) ds))
       (decision_reasons ds) s"
proof -
  have "of_nat (length ds) - of_nat (length (filter approved_decision ds)) =
      (of_nat (length (filter (\<lambda>d. \<not> approved_decision d) ds)) :: u64)"
    using sum_length_filter_compl [of approved_decision ds]
    by (metis add_diff_cancel_left' of_nat_add)
  then show ?thesis
    unfolding count_intent_def Let_def fold_denials
    by (simp add: add_counts_def approved_decision_def [abs_def])
qed

definition authorized_record :: "audit_record \<Rightarrow> bool" where
  "authorized_record r \<longleftrightarrow> ar_terminal r \<in> {Succeeded, Failed}"

definition final_record :: "audit_record \<Rightarrow> bool" where
  "final_record r \<longleftrightarrow> ar_terminal r \<in> {Succeeded, Failed, RejectedInvalidSchema, DeniedByCapability, DeniedByPolicy}"

definition record_reasons :: "audit_record list \<Rightarrow> denial_reason list" where
  "record_reasons rs = concat (map (\<lambda>r. if authorized_record r then []
     else case ar_denial_reason r of Some d \<Rightarrow> [d] | None \<Rightarrow> []) rs)"

lemma fold_count_audit_record:
  "list_all final_record rs \<Longrightarrow> foldl count_audit_record s rs =
     (add_counts 0 0 (length (filter authorized_record rs)) (length (filter (\<lambda>r. \<not> authorized_record r) rs))
        (record_reasons rs) s)
     \<lparr>rps_audit_records := rps_audit_records s + of_nat (length rs),
      rps_actions_failed := rps_actions_failed s + of_nat (length (filter (\<lambda>r. ar_terminal r = Failed) rs))\<rparr>"
proof (induction rs arbitrary: s)
  case Nil
  then show ?case by (simp add: record_reasons_def add_counts_def)
next
  case (Cons r rs)
  then have "final_record r" by simp
  then have "count_audit_record s r = (add_counts 0 0 (if authorized_record r then 1 else 0)
       (if authorized_record r then 0 else 1) (record_reasons [r]) s)
     \<lparr>rps_audit_records := rps_audit_records s + 1,
      rps_actions_failed := rps_actions_failed s + (if ar_terminal r = Failed then 1 else 0)\<rparr>"
    by (auto simp: count_audit_record_def Let_def final_record_def authorized_record_def record_reasons_def
        add_counts_def split: option.split)
  with Cons show ?case by (simp add: add_counts_def record_reasons_def)
qed

lemma fold_count_intents:
  "foldl (\<lambda>s ds. count_intent ds s) s xs =
     add_counts (length (filter (\<lambda>ds. filter approved_decision ds \<noteq> []) xs))
       (length (filter (\<lambda>ds. filter approved_decision ds = []) xs))
       (length (filter approved_decision (concat xs))) (length (filter (\<lambda>d. \<not> approved_decision d) (concat xs)))
       (decision_reasons (concat xs)) s"
proof (induction xs arbitrary: s)
  case Nil
  then show ?case by (simp add: decision_reasons_def add_counts_zero)
next
  case (Cons ds xs)
  then show ?case by (simp add: count_intent_eq add_counts_add decision_reasons_def)
qed

lemma foldl_enumerate_fst: "foldl (\<lambda>s (k, i). f s k) s (enumerate n xs) = foldl f s [n..<n + length xs]"
  by (induction xs arbitrary: s n) (simp_all add: upt_conv_Cons del: upt_Suc)

lemma policy_stage_summary:
  "rst_summary (policy_stage E ordinal ctx d st) =
     foldl (\<lambda>s ds. count_intent ds s) (rst_summary st)
       (map (intent_decisions (evaluate_batch_with_context default_policy_config (dr_intent_batch d)
          (for_route (dr_route d)) ctx)) [0..<length (ib_intents (dr_intent_batch d))])"
proof -
  let ?ds = "evaluate_batch_with_context default_policy_config (dr_intent_batch d) (for_route (dr_route d)) ctx"
  have "rst_summary (foldl (\<lambda>st (k, i). let ds = intent_decisions ?ds k in
           emit_rs (policy_record E ordinal ctx ds i) (st\<lparr>rst_summary := count_intent ds (rst_summary st)\<rparr>)) st xs)
      = foldl (\<lambda>s (k, i). count_intent (intent_decisions ?ds k) s) (rst_summary st) xs" for xs
    by (induction xs arbitrary: st) (auto simp: emit_rs_def Let_def)
  from this [of "enumerate 0 (ib_intents (dr_intent_batch d))"] show ?thesis
    by (simp add: policy_stage_def Let_def foldl_enumerate_fst foldl_map)
qed

text \<open>Grouping the decisions by intent loses and reorders nothing.\<close>

definition decision_row :: "policy_config \<Rightarrow> intent_batch \<Rightarrow> capability_level \<Rightarrow> structured_context \<Rightarrow> nat
    \<Rightarrow> policy_action_decision list" where
  "decision_row cfg b cap ctx k =
     evaluate_intent cfg (ib_intents b ! k) (of_nat k) cap (Some (known_from_context ctx))"

lemma decisions_by_row:
  "evaluate_batch_with_context cfg b cap ctx = concat (map (decision_row cfg b cap ctx) [0..<length (ib_intents b)])"
proof -
  have "map (\<lambda>(io, i). evaluate_intent cfg i (of_nat io) cap (Some (known_from_context ctx))) (enumerate 0 (ib_intents b))
      = map (decision_row cfg b cap ctx) [0..<length (ib_intents b)]"
    by (rule nth_equalityI) (simp_all add: decision_row_def nth_enumerate_eq)
  then show ?thesis by (simp add: evaluate_batch_with_context_def evaluate_intents_def)
qed

lemma decision_row_ordinal: "d \<in> set (decision_row cfg b cap ctx k) \<Longrightarrow> pd_intent_ordinal d = of_nat k"
  by (auto simp: decision_row_def evaluate_intent_eq)

lemma intent_decisions_row:
  assumes "small_batch b" "k < length (ib_intents b)"
  shows "intent_decisions (evaluate_batch_with_context cfg b cap ctx) k = decision_row cfg b cap ctx k"
proof -
  have len: "length (ib_intents b) \<le> 2 ^ 32" using assms(1) by (simp add: small_batch_def)
  have row: "filter (\<lambda>d. pd_intent_ordinal d = (of_nat k :: u32)) (decision_row cfg b cap ctx j) =
      (if j = k then decision_row cfg b cap ctx k else [])" if "j < length (ib_intents b)" for j
  proof (cases "j = k")
    case False
    have "(of_nat j :: u32) \<noteq> of_nat k"
      using of_nat_u32_inj [of j k] that assms(2) len False by simp
    with False show ?thesis by (auto simp: filter_empty_conv dest: decision_row_ordinal)
  qed (auto simp: filter_id_conv dest: decision_row_ordinal)
  have other: "concat (map (\<lambda>j. if j = k then decision_row cfg b cap ctx k else []) js) = []"
    if "k \<notin> set js" for js
    using that by (induction js) auto
  have "map (filter (\<lambda>d. pd_intent_ordinal d = (of_nat k :: u32))) (map (decision_row cfg b cap ctx) [0..<length (ib_intents b)])
      = map (\<lambda>j. if j = k then decision_row cfg b cap ctx k else []) [0..<length (ib_intents b)]"
    using row by simp
  then have "intent_decisions (evaluate_batch_with_context cfg b cap ctx) k =
      concat (map (\<lambda>j. if j = k then decision_row cfg b cap ctx k else []) [0..<length (ib_intents b)])"
    unfolding intent_decisions_def decisions_by_row filter_concat by (simp only:)
  also have "[0..<length (ib_intents b)] = [0..<k] @ k # [Suc k..<length (ib_intents b)]"
    using assms(2) by (metis less_imp_add_positive upt_add_eq_append upt_conv_Cons le0 less_imp_le add_0 le_add1)
  finally show ?thesis by (simp add: other)
qed

lemma rows_concat:
  assumes "small_batch b"
  shows "concat (map (intent_decisions (evaluate_batch_with_context cfg b cap ctx)) [0..<length (ib_intents b)]) =
    evaluate_batch_with_context cfg b cap ctx"
proof -
  have "map (intent_decisions (evaluate_batch_with_context cfg b cap ctx)) [0..<length (ib_intents b)] =
      map (decision_row cfg b cap ctx) [0..<length (ib_intents b)]"
    by (rule map_cong) (simp_all add: intent_decisions_row [OF assms])
  then show ?thesis by (simp only: decisions_by_row [symmetric])
qed

section \<open>Records and decisions, position by position\<close>

definition valid_schemas :: "u32 \<Rightarrow> intent_batch \<Rightarrow> bool" where
  "valid_schemas w b \<longleftrightarrow> (\<forall>(io, i, jo, a) \<in> set (positions b).
     validate_schema (position_proposal w (ib_generated_at_ms b) (io, i, jo, a)) (in_risk_level i) = None)"

text \<open>An approved action has a valid schema: the policy refuses what the schema check would.\<close>

lemma approved_schema_valid:
  assumes "spec_verdict default_policy_config cap (Some k) i jo = Approved"
    "sa_action_type (ap_action p) = sa_action_type (in_suggested_actions i ! jo)"
    "sa_target (ap_action p) = sa_target (in_suggested_actions i ! jo)"
  shows "validate_schema p (in_risk_level i) = None"
proof -
  have d: "intent_denial default_policy_config cap i = None"
    "single_denial default_policy_config cap (Some k) (in_suggested_actions i ! jo) = None"
    using assms(1) by (auto simp: spec_verdict_Approved)
  from d(1) have "in_risk_level i \<noteq> RiskHigh"
    by (auto simp: intent_denial_None default_policy_config_def)
  moreover from d(2) have "check_target (sa_action_type (ap_action p)) (sa_target (ap_action p)) k = None"
    using assms(2,3) by (simp add: single_denial_None)
  then have "sa_action_type (ap_action p) = PreWarmProcess \<Longrightarrow>
      (case sa_target (ap_action p) of Some t \<Rightarrow> t \<noteq> [] | None \<Rightarrow> False)"
    by (cases "sa_target (ap_action p)") (auto simp: is_allowed_prewarm_target_def starts_with_def strip_prefix_Some
        split: if_splits option.splits)
  ultimately show ?thesis by (auto simp: validate_schema_def split: option.splits)
qed

definition replay_records :: "u32 \<Rightarrow> structured_context \<Rightarrow> decision_backend_result \<Rightarrow> audit_record list" where
  "replay_records w ctx d = snd (run_lifecycle offline_execute default_policy_config w (dr_intent_batch d) (dr_route d)
     (dr_error d) (for_route (dr_route d)) ctx ())"

definition replay_decisions :: "structured_context \<Rightarrow> decision_backend_result \<Rightarrow> policy_action_decision list" where
  "replay_decisions ctx d =
     evaluate_batch_with_context default_policy_config (dr_intent_batch d) (for_route (dr_route d)) ctx"

text \<open>What both stages read off one position: the intent's ordinal, whether the action is authorised,
  and the denial reason, if a reason was reached.\<close>

definition record_view :: "audit_record \<Rightarrow> u32 \<times> bool \<times> denial_reason option" where
  "record_view r = (co_intent_ordinal (ar_coord r), authorized_record r,
     if authorized_record r then None else ar_denial_reason r)"

definition decision_view :: "policy_action_decision \<Rightarrow> u32 \<times> bool \<times> denial_reason option" where
  "decision_view d = (pd_intent_ordinal d, approved_decision d,
     case pd_verdict d of Denied r \<Rightarrow> Some r | Approved \<Rightarrow> None)"

lemma map_enumerate_fst: "map (\<lambda>x. g (fst x)) (enumerate n as) = map g [n..<n + length as]"
  by (rule nth_equalityI) (simp_all add: nth_enumerate_eq)

text \<open>The decision and the record at one position.\<close>

definition decision_at :: "decision_backend_result \<Rightarrow> structured_context
    \<Rightarrow> nat \<times> intent \<times> nat \<times> suggested_action \<Rightarrow> policy_action_decision" where
  "decision_at d ctx = (\<lambda>(io, i, jo, a). \<lparr>pd_intent_ordinal = of_nat io, pd_action_ordinal = of_nat jo,
     pd_verdict = spec_verdict default_policy_config (for_route (dr_route d)) (Some (known_from_context ctx)) i jo\<rparr>)"

lemma replay_decisions_positions: "replay_decisions ctx d = map (decision_at d ctx) (positions (dr_intent_batch d))"
proof -
  have row: "map (decision_at d ctx \<circ> (\<lambda>(jo, a). (fst x, snd x, jo, a))) (enumerate 0 (in_suggested_actions (snd x))) =
      map (\<lambda>j. \<lparr>pd_intent_ordinal = of_nat (fst x), pd_action_ordinal = of_nat j,
        pd_verdict = spec_verdict default_policy_config (for_route (dr_route d)) (Some (known_from_context ctx)) (snd x) j\<rparr>)
        [0..<length (in_suggested_actions (snd x))]" for x
    by (rule nth_equalityI) (simp_all add: nth_enumerate_eq decision_at_def)
  show ?thesis
    unfolding replay_decisions_def evaluate_batch_with_context_def evaluate_intents_eq_spec spec_decisions_def
      positions_def map_concat
    by (rule arg_cong [where f = concat], unfold map_map, rule map_cong)
      (auto simp: row [of "(_, _)", simplified])
qed

definition record_facts :: "audit_record \<Rightarrow> u32 \<times> bool \<times> denial_reason option \<times> bool" where
  "record_facts r = (co_intent_ordinal (ar_coord r), authorized_record r,
     if authorized_record r then None else ar_denial_reason r, final_record r \<and> ar_terminal r \<noteq> Failed)"

lemma offline_record_facts:
  assumes "map_option pd_verdict (ds (co_intent_ordinal (ap_coord p), co_action_ordinal (ap_coord p))) = Some v"
    "v = Approved \<Longrightarrow> validate_schema p risk = None"
  shows "record_facts (snd (process_action offline_execute ds route be tier risk t s p)) =
     (co_intent_ordinal (ap_coord p), v = Approved,
      if validate_schema p risk \<noteq> None then None else case v of Denied r \<Rightarrow> Some r | Approved \<Rightarrow> None, True)"
proof -
  from assms(1) obtain d where
    d: "ds (co_intent_ordinal (ap_coord p), co_action_ordinal (ap_coord p)) = Some d" "pd_verdict d = v"
    by auto
  from d(1) show ?thesis
  proof (cases rule: process_action_split [where risk = risk])
    case (denied r)
    with d denial_to_terminal_cases [of r] show ?thesis
      by (auto simp: process_action_simps record_build_defs record_facts_def authorized_record_def final_record_def)
  next
    case (invalid err)
    with d assms(2) have "v \<noteq> Approved" by auto
    with invalid d show ?thesis
      by (simp add: process_action_simps record_build_defs record_facts_def authorized_record_def final_record_def)
  next
    case approved
    with d show ?thesis
      by (simp add: process_action_simps record_build_defs record_facts_def authorized_record_def final_record_def
          offline_execute_def)
  qed
qed

lemma replay_records_facts:
  assumes small: "small_batch (dr_intent_batch d)"
  shows "map record_facts (replay_records w ctx d) =
     map (\<lambda>x. (of_nat (fst x), approved_decision (decision_at d ctx x),
         if validate_schema (position_proposal w (ib_generated_at_ms (dr_intent_batch d)) x) (in_risk_level (fst (snd x))) \<noteq> None
         then None else case pd_verdict (decision_at d ctx x) of Denied r \<Rightarrow> Some r | Approved \<Rightarrow> None, True))
       (positions (dr_intent_batch d))"
  unfolding replay_records_def run_lifecycle_flat
proof (rule map_state_map_snd)
  fix s x assume "x \<in> set (positions (dr_intent_batch d))"
  then obtain io i jo a where x: "x = (io, i, jo, a)"
    and m: "(io, i, jo, a) \<in> set (positions (dr_intent_batch d))" by (rule positions_cases)
  let ?v = "spec_verdict default_policy_config (for_route (dr_route d)) (Some (known_from_context ctx)) i jo"
  let ?p = "position_proposal w (ib_generated_at_ms (dr_intent_batch d)) x"
  have a: "a = in_suggested_actions i ! jo" using m by (simp add: positions_mem)
  have valid: "validate_schema ?p (in_risk_level i) = None" if "?v = Approved"
    using that by (rule approved_schema_valid) (simp_all add: x a position_proposal_def proposal_of_def)
  have "map_option pd_verdict (batch_decisions default_policy_config (dr_intent_batch d) (for_route (dr_route d)) ctx
      (co_intent_ordinal (ap_coord ?p), co_action_ordinal (ap_coord ?p))) = Some ?v"
    using batch_decisions_exact [OF m small] by (simp add: x position_proposal_def proposal_of_def)
  note facts = offline_record_facts [where p = ?p and v = ?v and risk = "in_risk_level i"
      and ds = "batch_decisions default_policy_config (dr_intent_batch d) (for_route (dr_route d)) ctx", OF this valid]
  have parts: "fst (snd x) = i" "fst x = io" "co_intent_ordinal (ap_coord ?p) = of_nat io"
      "approved_decision (decision_at d ctx x) = (?v = Approved)" "pd_verdict (decision_at d ctx x) = ?v"
    by (simp_all add: x decision_at_def approved_decision_def position_proposal_def proposal_of_def)
  show "record_facts (snd (process_action offline_execute (batch_decisions default_policy_config (dr_intent_batch d)
      (for_route (dr_route d)) ctx) (dr_route d) (dr_error d) (cs_source_tier (ctx_summary ctx))
      (in_risk_level (fst (snd x))) (ib_generated_at_ms (dr_intent_batch d)) s ?p)) =
    (of_nat (fst x), approved_decision (decision_at d ctx x),
       if validate_schema ?p (in_risk_level (fst (snd x))) \<noteq> None then None
       else case pd_verdict (decision_at d ctx x) of Denied r \<Rightarrow> Some r | Approved \<Rightarrow> None, True)"
    unfolding parts by (rule facts [unfolded parts])
qed

section \<open>The two stages compared\<close>

lemma records_match_decisions:
  assumes "small_batch (dr_intent_batch d)"
  shows "map (\<lambda>r. (co_intent_ordinal (ar_coord r), authorized_record r)) (replay_records w ctx d) =
     map (\<lambda>x. (pd_intent_ordinal x, approved_decision x)) (replay_decisions ctx d)"
proof -
  have "map (\<lambda>(k, a, z). (k, a)) (map record_facts (replay_records w ctx d)) =
      map (\<lambda>x. (pd_intent_ordinal x, approved_decision x)) (replay_decisions ctx d)"
    unfolding replay_records_facts [OF assms] replay_decisions_positions
    by (simp add: decision_at_def case_prod_unfold)
  then show ?thesis by (simp add: record_facts_def comp_def)
qed

definition facts_reasons :: "u32 \<times> bool \<times> denial_reason option \<times> bool \<Rightarrow> denial_reason list" where
  "facts_reasons f = (case fst (snd (snd f)) of Some x \<Rightarrow> [x] | None \<Rightarrow> [])"

lemma record_reasons_facts: "record_reasons rs = concat (map facts_reasons (map record_facts rs))"
  unfolding record_reasons_def map_map
  by (rule arg_cong [where f = concat], rule map_cong) (auto simp: facts_reasons_def record_facts_def)

lemma record_reasons_decisions:
  assumes "small_batch (dr_intent_batch d)" "valid_schemas w (dr_intent_batch d)"
  shows "record_reasons (replay_records w ctx d) = decision_reasons (replay_decisions ctx d)"
  unfolding record_reasons_facts replay_records_facts [OF assms(1)] replay_decisions_positions
    decision_reasons_def map_map
  by (rule arg_cong [where f = concat], rule map_cong)
     (use assms(2) in \<open>auto simp: valid_schemas_def facts_reasons_def split: policy_verdict.split\<close>)

lemma replay_records_final:
  assumes "small_batch (dr_intent_batch d)"
  shows "list_all (\<lambda>r. final_record r \<and> ar_terminal r \<noteq> Failed) (replay_records w ctx d)"
proof -
  have "list_all (\<lambda>(k, a, z, f). f) (map record_facts (replay_records w ctx d))"
    unfolding replay_records_facts [OF assms] by (simp add: list_all_iff)
  then show ?thesis by (simp add: list_all_iff record_facts_def)
qed

lemma length_filter_map_eq:
  "map f xs = map g ys \<Longrightarrow> length (filter (P \<circ> f) xs) = length (filter (P \<circ> g) ys)"
  by (metis filter_map length_map)

lemma authorized_counts:
  assumes "small_batch (dr_intent_batch d)"
  shows "length (filter authorized_record (replay_records w ctx d)) = length (filter approved_decision (replay_decisions ctx d))"
    "length (filter (\<lambda>r. \<not> authorized_record r) (replay_records w ctx d)) =
       length (filter (\<lambda>x. \<not> approved_decision x) (replay_decisions ctx d))"
  using length_filter_map_eq [OF records_match_decisions [OF assms], of snd w ctx]
    length_filter_map_eq [OF records_match_decisions [OF assms], of "\<lambda>x. \<not> snd x" w ctx]
  by (simp_all add: comp_def)

lemma intent_authorized_decisions:
  assumes "small_batch (dr_intent_batch d)"
  shows "intent_authorized (replay_records w ctx d) k \<longleftrightarrow>
     filter approved_decision (intent_decisions (replay_decisions ctx d) k) \<noteq> []"
proof -
  have "(of_nat k, True) \<in> set (map (\<lambda>r. (co_intent_ordinal (ar_coord r), authorized_record r)) (replay_records w ctx d))
      \<longleftrightarrow> (of_nat k, True) \<in> set (map (\<lambda>x. (pd_intent_ordinal x, approved_decision x)) (replay_decisions ctx d))"
    by (simp only: records_match_decisions [OF assms])
  then show ?thesis
    by (auto simp: intent_authorized_def authorized_record_def intent_decisions_def filter_empty_conv image_iff)
qed

lemma length_records:
  assumes "small_batch (dr_intent_batch d)"
  shows "length (replay_records w ctx d) = length (replay_decisions ctx d)"
  using arg_cong [OF records_match_decisions [OF assms, of w ctx], of length] by simp

lemma emit_records_summary: "rst_summary (foldl (\<lambda>st r. emit_rs (f r) st) st rs) = rst_summary st"
  by (induction rs arbitrary: st) (simp_all add: emit_rs_def)

lemma emit_rs_summary: "rst_summary (emit_rs v st) = rst_summary st"
  by (simp add: emit_rs_def)

lemma execute_stage_summary:
  "rst_summary (execute_stage E w ctx d st) =
     foldl count_audit_record (add_counts
       (length (filter (intent_authorized (replay_records w ctx d)) [0..<length (ib_intents (dr_intent_batch d))]))
       (length (filter (\<lambda>k. \<not> intent_authorized (replay_records w ctx d) k) [0..<length (ib_intents (dr_intent_batch d))]))
       0 0 [] (rst_summary st)) (replay_records w ctx d)"
  by (simp add: execute_stage_def Let_def emit_records_summary emit_rs_summary replay_records_def add_counts_def)

lemma stages_summaries:
  assumes small: "small_batch (dr_intent_batch d)"
  shows "rst_summary (execute_stage E w ctx d st) =
     (rst_summary (policy_stage E w ctx d st))
       \<lparr>rps_audit_records := rps_audit_records (rst_summary st) + of_nat (length (replay_records w ctx d)),
        rps_denial_counts := foldl (\<lambda>m r. count_denial r m) (rps_denial_counts (rst_summary st))
          (record_reasons (replay_records w ctx d))\<rparr>"
    "rps_denial_counts (rst_summary (policy_stage E w ctx d st)) =
       foldl (\<lambda>m r. count_denial r m) (rps_denial_counts (rst_summary st)) (decision_reasons (replay_decisions ctx d))"
proof -
  let ?rs = "replay_records w ctx d" and ?ds = "replay_decisions ctx d"
  let ?ks = "[0..<length (ib_intents (dr_intent_batch d))]"
  have final: "list_all final_record ?rs" "filter (\<lambda>r. ar_terminal r = Failed) ?rs = []"
    using replay_records_final [OF small, of w ctx] by (auto simp: list_all_iff filter_empty_conv)
  have p: "rst_summary (policy_stage E w ctx d st) =
      add_counts (length (filter (\<lambda>k. filter approved_decision (intent_decisions ?ds k) \<noteq> []) ?ks))
        (length (filter (\<lambda>k. filter approved_decision (intent_decisions ?ds k) = []) ?ks))
        (length (filter approved_decision ?ds)) (length (filter (\<lambda>x. \<not> approved_decision x) ?ds))
        (decision_reasons ?ds) (rst_summary st)"
    using rows_concat [OF small, of default_policy_config "for_route (dr_route d)" ctx]
    by (simp add: policy_stage_summary fold_count_intents replay_decisions_def filter_map comp_def)
  show "rst_summary (execute_stage E w ctx d st) =
     (rst_summary (policy_stage E w ctx d st))
       \<lparr>rps_audit_records := rps_audit_records (rst_summary st) + of_nat (length ?rs),
        rps_denial_counts := foldl (\<lambda>m r. count_denial r m) (rps_denial_counts (rst_summary st)) (record_reasons ?rs)\<rparr>"
    unfolding p execute_stage_summary fold_count_audit_record [OF final(1)] intent_authorized_decisions [OF small, abs_def]
    by (simp add: add_counts_def final(2) authorized_counts [OF small])
  show "rps_denial_counts (rst_summary (policy_stage E w ctx d st)) =
       foldl (\<lambda>m r. count_denial r m) (rps_denial_counts (rst_summary st)) (decision_reasons ?ds)"
    by (simp add: p add_counts_def)
qed

text \<open>C24: replaying to the policy stage predicts the execution. For one window and one decision (ordinals
  within 32 bits), running the actions over the offline adapter counts the same intents approved and
  rejected and the same actions authorised and denied as evaluating the policy alone, fails no action and
  adds one audit record per decision; and when no action of the batch has an invalid schema, the whole
  summary is the same up to the number of audit records, denials by reason included.\<close>

theorem policy_stage_predicts_execution:
  assumes "small_batch (dr_intent_batch d)"
  shows "let e = rst_summary (execute_stage E w ctx d st); p = rst_summary (policy_stage E w ctx d st) in
     e = p\<lparr>rps_audit_records := rps_audit_records (rst_summary st)
             + of_nat (length (evaluate_batch_with_context default_policy_config (dr_intent_batch d) (for_route (dr_route d)) ctx)),
           rps_denial_counts := rps_denial_counts e\<rparr>
     \<and> rps_actions_failed e = rps_actions_failed (rst_summary st)
     \<and> (valid_schemas w (dr_intent_batch d) \<longrightarrow> rps_denial_counts e = rps_denial_counts p)"
proof -
  have "rps_actions_failed (rst_summary (policy_stage E w ctx d st)) = rps_actions_failed (rst_summary st)"
    by (simp add: policy_stage_summary fold_count_intents add_counts_def)
  then show ?thesis
    using record_reasons_decisions [OF assms, of w ctx]
    unfolding Let_def stages_summaries [OF assms] length_records [OF assms] replay_decisions_def
    by simp
qed

section \<open>The counters account for the trace\<close>

text \<open>What a line is: blank, malformed, well-formed JSON without an event, or an event.\<close>

datatype line_kind = BlankLine | MalformedLine | NoEventLine | EventLine

definition line_kind_of :: "replay_env \<Rightarrow> string option \<Rightarrow> line_kind" where
  "line_kind_of E x =
     (let l = (case x of Some l \<Rightarrow> l | None \<Rightarrow> []) in
      if trim l = [] then BlankLine
      else case rpe_from_str E l of
        Inl e \<Rightarrow> MalformedLine
      | Inr v \<Rightarrow>
          (let raw = (case json_get ''rawEvent'' v of Some r \<Rightarrow> r | None \<Rightarrow> JNull) in
           if json_is_null raw then NoEventLine
           else case rpe_from_value E raw of Inl e \<Rightarrow> MalformedLine | Inr e \<Rightarrow> EventLine))"

definition count_kinds :: "replay_env \<Rightarrow> line_kind set \<Rightarrow> string option list \<Rightarrow> u64" where
  "count_kinds E K xs = of_nat (length (filter (\<lambda>x. line_kind_of E x \<in> K) xs))"

lemma count_kinds_Cons: "count_kinds E K (x # xs) = (if line_kind_of E x \<in> K then 1 else 0) + count_kinds E K xs"
  by (simp add: count_kinds_def)

lemma count_kinds_Nil: "count_kinds E K [] = 0"
  by (simp add: count_kinds_def)

text \<open>The counters after so many lines, skipped ones, parse errors and events.\<close>

definition accounted :: "stage \<Rightarrow> u64 \<Rightarrow> u64 \<Rightarrow> u64 \<Rightarrow> u64 \<Rightarrow> replay_summary \<Rightarrow> bool" where
  "accounted stage t a b c s \<longleftrightarrow>
     rps_lines_total s = t \<and> rps_lines_skipped_no_raw_event s = a \<and> rps_lines_parse_error s = b
     \<and> rps_events_ingested s = c
     \<and> (includes_stage stage StPolicy \<longrightarrow> rps_intents_total s = rps_intents_approved s + rps_intents_rejected s)
     \<and> (includes_stage stage StExecute \<longrightarrow> rps_audit_records s = rps_actions_authorized s + rps_actions_denied s)"

lemma offline_records_final: "list_all final_record (replay_records w ctx d)"
  unfolding list_all_iff
proof
  fix r assume "r \<in> set (replay_records w ctx d)"
  then have "finished_run (ar_transitions r) (ar_terminal r)"
    unfolding replay_records_def by (elim run_record_cases) (auto intro: process_action_finished)
  then show "final_record r"
    by (cases "ar_terminal r") (auto simp: finished_run_def final_record_def)
qed

lemma filter_compl_words: "of_nat (length (filter P xs)) + of_nat (length (filter (\<lambda>x. \<not> P x) xs)) = (of_nat (length xs) :: u64)"
  by (metis of_nat_add sum_length_filter_compl)

lemma accounted_execute:
  assumes "accounted stage t a b c s" "rst_summary st = s\<lparr>rps_intents_total := rps_intents_total s
      + of_nat (length (ib_intents (dr_intent_batch d)))\<rparr>"
  shows "accounted stage t a b c (rst_summary (execute_stage E w ctx d st))"
proof -
  let ?rs = "replay_records w ctx d" and ?ks = "[0..<length (ib_intents (dr_intent_batch d))]"
  show ?thesis
    using assms(1) filter_compl_words [of authorized_record ?rs] filter_compl_words [of "intent_authorized ?rs" ?ks]
    unfolding execute_stage_summary fold_count_audit_record [OF offline_records_final] assms(2)
    by (simp add: accounted_def add_counts_def algebra_simps)
qed

lemma accounted_policy:
  assumes "accounted stage t a b c s" "\<not> includes_stage stage StExecute" "rst_summary st = s\<lparr>rps_intents_total := rps_intents_total s
      + of_nat (length (ib_intents (dr_intent_batch d)))\<rparr>"
  shows "accounted stage t a b c (rst_summary (policy_stage E w ctx d st))"
proof -
  let ?ds = "map (intent_decisions (evaluate_batch_with_context default_policy_config (dr_intent_batch d)
      (for_route (dr_route d)) ctx)) [0..<length (ib_intents (dr_intent_batch d))]"
  show ?thesis
    using assms(1,2) filter_compl_words [of "\<lambda>ds. filter approved_decision ds \<noteq> []" ?ds]
    unfolding policy_stage_summary fold_count_intents assms(3)
    by (simp add: accounted_def add_counts_def algebra_simps)
qed

lemma accounted_window:
  assumes "accounted stage t a b c (rst_summary st)"
  shows "accounted stage t a b c (rst_summary (replay_window E rt stage idx w ctx st))"
proof -
  obtain router d where r: "router_evaluate_context rt (rpe_times E idx) ctx (rst_router st) = (router, d)"
    by fastforce
  let ?s = "(rst_summary st)\<lparr>rps_windows_closed := rps_windows_closed (rst_summary st) + 1\<rparr>"
  define st1 where "st1 = (if includes_stage stage StContext then emit_rs (context_record E ctx) (st\<lparr>rst_summary := ?s\<rparr>)
      else st\<lparr>rst_summary := ?s\<rparr>)"
  define st2 where "st2 = emit_rs (decision_record ctx d) (st1\<lparr>rst_router := router,
      rst_summary := (rst_summary st1)\<lparr>rps_intents_total := rps_intents_total (rst_summary st1)
        + of_nat (length (ib_intents (dr_intent_batch d)))\<rparr>\<rparr>)"
  have s: "accounted stage t a b c ?s" using assms by (simp add: accounted_def)
  have s1: "rst_summary st1 = ?s" by (simp add: st1_def emit_rs_summary)
  have router: "rst_router st1 = rst_router st" by (simp add: st1_def emit_rs_def)
  have s2: "rst_summary st2 = ?s\<lparr>rps_intents_total := rps_intents_total ?s + of_nat (length (ib_intents (dr_intent_batch d)))\<rparr>"
    by (simp add: st2_def emit_rs_summary s1)
  have "replay_window E rt stage idx w ctx st =
      (if \<not> includes_stage stage StDecision then st1 else if \<not> includes_stage stage StPolicy then st2
       else if includes_stage stage StExecute then execute_stage E w ctx d st2 else policy_stage E w ctx d st2)"
    unfolding replay_window_def Let_def st1_def [symmetric] router r prod.case st2_def [symmetric] by (rule refl)
  moreover have "accounted stage t a b c (rst_summary st2)" if "\<not> includes_stage stage StPolicy"
    using that s unfolding s2 by (cases stage) (simp_all add: accounted_def includes_stage_def)
  ultimately show ?thesis
    using accounted_execute [OF s s2, of E w ctx] accounted_policy [OF s _ s2, of E w ctx] s by (simp add: s1)
qed

lemma accounted_close:
  assumes "accounted stage t a b c (rst_summary (rl_state l))"
  shows "accounted stage t a b c (rst_summary (rl_state (close_if_expired E rt stage idx now agg l)))"
  using assms by (auto simp: close_if_expired_def split: prod.splits option.splits intro: accounted_window)

lemma accounted_ingest:
  assumes "accounted stage t a b c (rst_summary (rl_state l))" "ingest_line E rt ws stage n v r l = Inr l'"
  shows "accounted stage t a b (c + 1) (rst_summary (rl_state l'))"
proof -
  let ?now = "env_captured_at_ms (replay_envelope v r)"
  from assms(2) obtain ing where ing: "ingress_accept (replay_envelope v r) = Inr ing"
    by (auto simp: ingest_line_def Let_def split: sum.splits)
  define st where "st = (rl_state l)\<lparr>rst_summary := (rst_summary (rl_state l))
      \<lparr>rps_events_ingested := rps_events_ingested (rst_summary (rl_state l)) + 1\<rparr>\<rparr>"
  have st: "accounted stage t a b (c + 1) (rst_summary st)"
    using assms(1) by (simp add: accounted_def st_def)
  have "\<exists>v st' agg l1. (st' = st \<or> st' = emit_rs v st)
      \<and> rl_state l1 = st' \<and> rst_summary (rl_state l') = rst_summary (rl_state (close_if_expired E rt stage n ?now agg l1))"
  proof -
    define st' where "st' = (if includes_stage stage StIngest then emit_rs (json_obj
       [(''stage'', JString ''ingest''), (''line'', json_u64 (of_nat n)),
        (''source_tier'', JString (debug_source_tier (ing_source_tier ing))),
        (''raw_event_kind'', JString (replay_event_kind (ing_raw_event ing)))]) st else st)"
    define l1 where "l1 = l\<lparr>rl_last_captured_at_ms := max (rl_last_captured_at_ms l) ?now, rl_state := st'\<rparr>"
    define agg where "agg = (case rl_aggregator l of Some a \<Rightarrow> a | None \<Rightarrow> new_window_aggregator ws ?now)"
    have "rst_summary (rl_state l') = rst_summary (rl_state (close_if_expired E rt stage n ?now agg l1))"
      using assms(2)
      by (auto simp: ingest_line_def Let_def ing emit_rs_summary l1_def agg_def st'_def st_def
          split: if_splits)
    moreover have "rl_state l1 = st'" by (simp add: l1_def)
    moreover have "\<exists>v. st' = st \<or> st' = emit_rs v st" by (auto simp: st'_def)
    ultimately show ?thesis by blast
  qed
  then show ?thesis using accounted_close st by (metis emit_rs_summary)
qed

lemma accounted_line:
  assumes "accounted stage t a b c (rst_summary (rl_state l))" "replay_line E rt ws stage n x l = Inr l'"
  shows "accounted stage (t + count_kinds E (- {BlankLine}) [x]) (a + count_kinds E {NoEventLine} [x])
    (b + count_kinds E {MalformedLine} [x]) (c + count_kinds E {EventLine} [x]) (rst_summary (rl_state l'))"
proof -
  let ?s = "rst_summary (rl_state l)"
  let ?l = "l\<lparr>rl_state := (rl_state l)\<lparr>rst_summary := ?s\<lparr>rps_lines_total := rps_lines_total ?s + 1\<rparr>\<rparr>\<rparr>"
  have one: "accounted stage (t + 1) a b c (rst_summary (rl_state ?l))"
    using assms(1) by (simp add: accounted_def)
  have err: "accounted stage (t + 1) a (b + 1) c (rst_summary (rl_state (parse_error n e ?l)))" for e
    using one by (simp add: parse_error_def Let_def emit_rs_summary accounted_def)
  obtain y where x: "x = Some y" using assms(2) by (cases x) (auto simp: replay_line_def)
  let ?raw = "\<lambda>v. case json_get ''rawEvent'' v of Some r \<Rightarrow> r | None \<Rightarrow> JNull"
  consider (blank) "trim y = []"
    | (bad) e where "trim y \<noteq> []" "rpe_from_str E y = Inl e"
    | (no_event) v where "trim y \<noteq> []" "rpe_from_str E y = Inr v" "json_is_null (?raw v)"
    | (no_shape) v e where "trim y \<noteq> []" "rpe_from_str E y = Inr v" "\<not> json_is_null (?raw v)" "rpe_from_value E (?raw v) = Inl e"
    | (event) v r where "trim y \<noteq> []" "rpe_from_str E y = Inr v" "\<not> json_is_null (?raw v)" "rpe_from_value E (?raw v) = Inr r"
    by (metis sum.exhaust)
  then show ?thesis
  proof cases
    case blank
    then show ?thesis using assms by (simp add: replay_line_def x count_kinds_def line_kind_of_def)
  next
    case bad
    with err [of "''invalid JSON: '' @ e"] assms(2) show ?thesis
      by (simp add: replay_line_def Let_def x count_kinds_def line_kind_of_def)
  next
    case no_event
    with one assms(2) show ?thesis
      by (auto simp: replay_line_def Let_def x count_kinds_def line_kind_of_def accounted_def)
  next
    case no_shape
    with err [of "''rawEvent does not match RawEvent shape: '' @ e"] assms(2) show ?thesis
      by (simp add: replay_line_def Let_def x count_kinds_def line_kind_of_def)
  next
    case event
    then have "ingest_line E rt ws stage n v r ?l = Inr l'"
      using assms(2) by (simp add: replay_line_def Let_def x)
    from accounted_ingest [OF one this] event show ?thesis
      by (simp add: Let_def x count_kinds_def line_kind_of_def)
  qed
qed

lemma accounted_lines:
  "replay_lines E rt ws stage n xs l = Inr l' \<Longrightarrow> accounted stage t a b c (rst_summary (rl_state l)) \<Longrightarrow>
     accounted stage (t + count_kinds E (- {BlankLine}) xs) (a + count_kinds E {NoEventLine} xs)
       (b + count_kinds E {MalformedLine} xs) (c + count_kinds E {EventLine} xs) (rst_summary (rl_state l'))"
proof (induction E rt ws stage n xs l arbitrary: t a b c rule: replay_lines.induct)
  case (2 E rt ws stage n x xs l)
  from 2(2) obtain l1 where l1: "replay_line E rt ws stage n x l = Inr l1" "em_failed (rst_emitter (rl_state l1)) = None"
      "replay_lines E rt ws stage (Suc n) xs l1 = Inr l'"
    by (auto split: sum.splits option.splits)
  from 2(1) [OF l1(1,2,3) accounted_line [OF 2(3) l1(1)]] show ?case
    by (simp add: count_kinds_Cons count_kinds_Nil add.assoc)
qed (simp add: count_kinds_Nil)

section \<open>What the sinks see\<close>

text \<open>The replay touches its emitter by \<open>emit\<close> alone, and nothing it computes depends on it: a relation between
  two emitters that \<open>emit\<close> preserves is preserved by the replay of every line and window.\<close>

definition states_rel :: "(emitter \<Rightarrow> emitter \<Rightarrow> bool) \<Rightarrow> 'w replay_state \<Rightarrow> 'w replay_state \<Rightarrow> bool" where
  "states_rel R st st' \<longleftrightarrow> rst_summary st = rst_summary st' \<and> rst_router st = rst_router st'
     \<and> R (rst_emitter st) (rst_emitter st')"

definition loops_rel :: "(emitter \<Rightarrow> emitter \<Rightarrow> bool) \<Rightarrow> 'w replay_loop \<Rightarrow> 'w replay_loop \<Rightarrow> bool" where
  "loops_rel R l l' \<longleftrightarrow> states_rel R (rl_state l) (rl_state l') \<and> rl_aggregator l = rl_aggregator l'
     \<and> rl_last_captured_at_ms l = rl_last_captured_at_ms l' \<and> rl_window_ordinal l = rl_window_ordinal l'"

lemma states_rel_update:
  "states_rel R st st' \<Longrightarrow> states_rel R (st\<lparr>rst_summary := s\<rparr>) (st'\<lparr>rst_summary := s\<rparr>)"
  "states_rel R st st' \<Longrightarrow> states_rel R (st\<lparr>rst_router := r\<rparr>) (st'\<lparr>rst_router := r\<rparr>)"
  by (simp_all add: states_rel_def)

lemma states_rel_same: "states_rel R st st' \<Longrightarrow> rst_summary st' = rst_summary st \<and> rst_router st' = rst_router st"
  by (simp add: states_rel_def)

lemma states_rel_fold:
  "(\<And>x s s'. states_rel R s s' \<Longrightarrow> states_rel R (f s x) (f s' x)) \<Longrightarrow> states_rel R st st'
     \<Longrightarrow> states_rel R (foldl f st xs) (foldl f st' xs)"
  by (induction xs arbitrary: st st') simp_all

locale emission =
  fixes R :: "emitter \<Rightarrow> emitter \<Rightarrow> bool"
  assumes emit: "R em em' \<Longrightarrow> R (emit v em) (emit v em')"
begin

lemma emit_rs: "states_rel R st st' \<Longrightarrow> states_rel R (emit_rs v st) (emit_rs v st')"
  by (simp add: states_rel_def emit_rs_def emit)

lemma execute: "states_rel R st st' \<Longrightarrow> states_rel R (execute_stage E w ctx d st) (execute_stage E w ctx d st')"
  unfolding execute_stage_def Let_def
  by (intro states_rel_fold emit_rs) (auto simp: states_rel_same intro: states_rel_update)

lemma policy: "states_rel R st st' \<Longrightarrow> states_rel R (policy_stage E w ctx d st) (policy_stage E w ctx d st')"
  unfolding policy_stage_def Let_def
  by (intro states_rel_fold) (auto simp: states_rel_same intro!: emit_rs intro: states_rel_update)

lemma window:
  assumes "states_rel R st st'"
  shows "states_rel R (replay_window E rt stage idx w ctx st) (replay_window E rt stage idx w ctx st')"
proof -
  let ?up = "\<lambda>st. st\<lparr>rst_summary := (rst_summary st)\<lparr>rps_windows_closed := rps_windows_closed (rst_summary st) + 1\<rparr>\<rparr>"
  let ?ctx = "\<lambda>st. if includes_stage stage StContext then emit_rs (context_record E ctx) (?up st) else ?up st"
  have c: "states_rel R (?ctx st) (?ctx st')"
    using assms by (auto simp: states_rel_same intro!: emit_rs intro: states_rel_update)
  obtain router d where r: "router_evaluate_context rt (rpe_times E idx) ctx (rst_router (?ctx st)) = (router, d)" by fastforce
  then have r': "router_evaluate_context rt (rpe_times E idx) ctx (rst_router (?ctx st')) = (router, d)"
    using states_rel_same [OF c] by simp
  let ?dec = "\<lambda>st1. emit_rs (decision_record ctx d) (st1\<lparr>rst_router := router,
      rst_summary := (rst_summary st1)\<lparr>rps_intents_total := rps_intents_total (rst_summary st1)
        + of_nat (length (ib_intents (dr_intent_batch d)))\<rparr>\<rparr>)"
  have "states_rel R (?dec s) (?dec s')" if "states_rel R s s'" for s s'
    using that by (intro emit_rs) (simp add: states_rel_def)
  with c have d: "states_rel R (?dec (?ctx st)) (?dec (?ctx st'))" by blast
  have "replay_window E rt stage idx w ctx st = (if \<not> includes_stage stage StDecision then ?ctx st
      else if \<not> includes_stage stage StPolicy then ?dec (?ctx st)
      else if includes_stage stage StExecute then execute_stage E w ctx d (?dec (?ctx st)) else policy_stage E w ctx d (?dec (?ctx st)))"
    unfolding replay_window_def Let_def r prod.case by (rule refl)
  moreover have "replay_window E rt stage idx w ctx st' = (if \<not> includes_stage stage StDecision then ?ctx st'
      else if \<not> includes_stage stage StPolicy then ?dec (?ctx st')
      else if includes_stage stage StExecute then execute_stage E w ctx d (?dec (?ctx st')) else policy_stage E w ctx d (?dec (?ctx st')))"
    unfolding replay_window_def Let_def r' prod.case by (rule refl)
  ultimately show ?thesis using c d execute [OF d] policy [OF d] by (simp only: split: if_split) blast
qed

lemma close:
  "loops_rel R l l' \<Longrightarrow> loops_rel R (close_if_expired E rt stage idx now agg l) (close_if_expired E rt stage idx now agg l')"
  by (auto simp: close_if_expired_def loops_rel_def window split: prod.split option.split)

lemma flush: "loops_rel R l l' \<Longrightarrow> states_rel R (flush_window E rt stage l) (flush_window E rt stage l')"
  by (auto simp: flush_window_def loops_rel_def window split: option.split)

lemma ingest:
  assumes "loops_rel R l l'"
  shows "rel_sum (=) (loops_rel R) (ingest_line E rt ws stage n v r l) (ingest_line E rt ws stage n v r l')"
proof (cases "ingress_accept (replay_envelope v r)")
  case (Inr ing)
  let ?now = "env_captured_at_ms (replay_envelope v r)"
  let ?in = "\<lambda>st. st\<lparr>rst_summary := (rst_summary st)\<lparr>rps_events_ingested := rps_events_ingested (rst_summary st) + 1\<rparr>\<rparr>"
  let ?st = "\<lambda>st. if includes_stage stage StIngest then emit_rs (json_obj
       [(''stage'', JString ''ingest''), (''line'', json_u64 (of_nat n)),
        (''source_tier'', JString (debug_source_tier (ing_source_tier ing))),
        (''raw_event_kind'', JString (replay_event_kind (ing_raw_event ing)))]) (?in st) else ?in st"
  let ?agg = "\<lambda>l. case rl_aggregator l of Some a \<Rightarrow> a | None \<Rightarrow> new_window_aggregator ws ?now"
  let ?l2 = "\<lambda>l. close_if_expired E rt stage n ?now (?agg l)
      (l\<lparr>rl_last_captured_at_ms := max (rl_last_captured_at_ms l) ?now, rl_state := ?st (rl_state l)\<rparr>)"
  have "states_rel R (?st (rl_state l)) (?st (rl_state l'))"
    using assms by (auto simp: loops_rel_def states_rel_same intro!: emit_rs intro: states_rel_update)
  with assms have "loops_rel R (l\<lparr>rl_last_captured_at_ms := max (rl_last_captured_at_ms l) ?now, rl_state := ?st (rl_state l)\<rparr>)
      (l'\<lparr>rl_last_captured_at_ms := max (rl_last_captured_at_ms l') ?now, rl_state := ?st (rl_state l')\<rparr>)"
    by (simp add: loops_rel_def)
  moreover have "?agg l = ?agg l'" using assms by (simp add: loops_rel_def)
  ultimately have l2: "loops_rel R (?l2 l) (?l2 l')" by (simp only: close)
  have "ingest_line E rt ws stage n v r l = Inr (if \<not> includes_stage stage StSanitize then ?l2 l else
      (let ev = sanitize_with_tier (rpe_lowercase E) (rpe_event_id E n) (ing_raw_event ing) (ing_source_tier ing);
           l3 = (?l2 l)\<lparr>rl_state := emit_rs (json_obj [(''stage'', JString ''sanitize''), (''line'', json_u64 (of_nat n)),
                      (''sanitized'', rpe_ser_event E ev)]) (rl_state (?l2 l))\<rparr> in
       if includes_stage stage StContext then l3\<lparr>rl_aggregator := map_option (wa_push ev) (rl_aggregator l3)\<rparr> else l3))" for l
    by (simp add: ingest_line_def Inr Let_def)
  with l2 show ?thesis by (auto simp: Let_def loops_rel_def intro: emit_rs)
qed (simp add: ingest_line_def Let_def)

lemma line:
  assumes "loops_rel R l l'"
  shows "rel_sum (=) (loops_rel R) (replay_line E rt ws stage n x l) (replay_line E rt ws stage n x l')"
proof -
  let ?up = "\<lambda>l. l\<lparr>rl_state := (rl_state l)\<lparr>rst_summary := (rst_summary (rl_state l))
      \<lparr>rps_lines_total := rps_lines_total (rst_summary (rl_state l)) + 1\<rparr>\<rparr>\<rparr>"
  have up: "loops_rel R (?up l) (?up l')"
    using assms by (simp add: loops_rel_def states_rel_def)
  have err: "loops_rel R (parse_error n e (?up l)) (parse_error n e (?up l'))" for e
    using assms by (auto simp: parse_error_def Let_def loops_rel_def states_rel_def emit_rs_def intro: emit)
  show ?thesis
    unfolding replay_line_def Let_def
    using assms ingest [OF up] err
    by (simp split: option.split sum.split) (simp add: loops_rel_def states_rel_def)
qed

end

text \<open>Until a write fails the audit stream holds the projection of every record written.\<close>

definition audit_ok :: "emitter \<Rightarrow> bool" where
  "audit_ok em \<longleftrightarrow> (em_failed em = None \<longrightarrow> em_audit em = map canonicalize (em_writer em))"

lemmas emit_defs = emit_def write_record_def write_audit_def Let_def

interpretation au: emission "\<lambda>em em'. em = em' \<and> audit_ok em"
  by unfold_locales (auto simp: audit_ok_def emit_defs)

text \<open>Nothing written is taken back.\<close>

interpretation gr: emission "\<lambda>em em'. em = em' \<and> k \<le> length (em_writer em)" for k
  by unfold_locales (auto simp: emit_defs)

text \<open>A run with any sinks beside the run whose sinks take everything: until the first record a sink refuses, both have
  written the same.\<close>

definition working_sinks :: sinks where
  "working_sinks = \<lparr>sk_writer_takes = (\<lambda>n. True), sk_audit_takes = (\<lambda>n. True)\<rparr>"

definition refusal :: "sinks \<Rightarrow> nat \<Rightarrow> sink_error option" where
  "refusal sk n =
     (if \<not> sk_writer_takes sk n then Some (WriterFailed n)
      else if \<not> sk_audit_takes sk n then Some (AuditFailed n) else None)"

fun first_refusal :: "sinks \<Rightarrow> nat \<Rightarrow> sink_error option" where
  "first_refusal sk 0 = None"
| "first_refusal sk (Suc n) = (case first_refusal sk n of Some e \<Rightarrow> Some e | None \<Rightarrow> refusal sk n)"

lemma first_refusal_mono: "first_refusal sk n = Some e \<Longrightarrow> n \<le> m \<Longrightarrow> first_refusal sk m = Some e"
  by (induction m) (auto simp: le_Suc_eq)

lemma first_refusal_real: "first_refusal sk n = Some e \<Longrightarrow> \<exists>k < n. refusal sk k = Some e"
  by (induction n) (auto split: option.splits intro: less_SucI)

definition follows :: "sinks \<Rightarrow> emitter \<Rightarrow> emitter \<Rightarrow> bool" where
  "follows sk em em' \<longleftrightarrow> em_sinks em' = working_sinks \<and> em_failed em' = None
     \<and> length (em_audit em') = length (em_writer em')
     \<and> em_failed em = first_refusal sk (length (em_writer em'))
     \<and> (em_failed em = None \<longrightarrow> em = em'\<lparr>em_sinks := sk\<rparr>)"

interpretation fo: emission "follows sk" for sk
  by unfold_locales
    (auto simp: follows_def emit_defs working_sinks_def refusal_def split: option.splits)

lemma working_takes: "sk_writer_takes working_sinks n" "sk_audit_takes working_sinks n"
  by (simp_all add: working_sinks_def)

lemma follows_start: "loops_rel (follows sk) (replay_start w sk) (replay_start w working_sinks)"
  by (simp add: loops_rel_def states_rel_def replay_start_def follows_def emitter_new_def)

interpretation wk: emission "\<lambda>em em'. em = em' \<and> em_failed em = None \<and> em_sinks em = working_sinks"
  by unfold_locales (auto simp: emit_defs working_sinks_def)

abbreviation working_loop :: "'w replay_loop \<Rightarrow> bool" where
  "working_loop l \<equiv> em_failed (rst_emitter (rl_state l)) = None \<and> em_sinks (rst_emitter (rl_state l)) = working_sinks"

lemma loops_rel_refl: "loops_rel (\<lambda>em em'. em = em' \<and> P em) l l \<longleftrightarrow> P (rst_emitter (rl_state l))"
  by (simp add: loops_rel_def states_rel_def)

lemma loops_relD: "loops_rel (\<lambda>em em'. em = em' \<and> P em) l l' \<Longrightarrow> P (rst_emitter (rl_state l'))"
  by (auto simp: loops_rel_def states_rel_def)

lemma audit_ok_lines:
  "replay_lines E rt ws stage n xs l = Inr l' \<Longrightarrow> audit_ok (rst_emitter (rl_state l)) \<Longrightarrow> audit_ok (rst_emitter (rl_state l'))"
proof (induction E rt ws stage n xs l rule: replay_lines.induct)
  case (2 E rt ws stage n x xs l)
  from 2(2) obtain l1 where l1: "replay_line E rt ws stage n x l = Inr l1" "em_failed (rst_emitter (rl_state l1)) = None"
      "replay_lines E rt ws stage (Suc n) xs l1 = Inr l'"
    by (auto split: sum.splits option.splits)
  have "audit_ok (rst_emitter (rl_state l1))"
    using au.line [of l l E rt ws stage n x] 2(3) l1(1) by (auto simp: loops_rel_refl)
  from 2(1) [OF l1 this] show ?case .
qed simp

lemma lines_grow:
  "replay_lines E rt ws stage n xs l = Inr l' \<Longrightarrow> k \<le> length (em_writer (rst_emitter (rl_state l)))
     \<Longrightarrow> k \<le> length (em_writer (rst_emitter (rl_state l')))"
proof (induction E rt ws stage n xs l rule: replay_lines.induct)
  case (2 E rt ws stage n x xs l)
  from 2(2) obtain l1 where l1: "replay_line E rt ws stage n x l = Inr l1" "em_failed (rst_emitter (rl_state l1)) = None"
      "replay_lines E rt ws stage (Suc n) xs l1 = Inr l'"
    by (auto split: sum.splits option.splits)
  have "k \<le> length (em_writer (rst_emitter (rl_state l1)))"
    using gr.line [of k l l E rt ws stage n x] 2(3) l1(1) by (auto simp: loops_rel_refl)
  from 2(1) [OF l1 this] show ?case .
qed simp

lemma ingest_line_returns: "\<exists>l'. ingest_line E rt ws stage n v r l = Inr l'"
  by (simp add: ingest_line_def Let_def ingress_accept_def replay_envelope_def SUPPORTED_COLLECTOR_SCHEMA_def)

lemma replay_line_returns: "\<exists>l'. replay_line E rt ws stage n (Some x) l = Inr l'"
  using ingest_line_returns by (auto simp: replay_line_def Let_def split: sum.split option.split)

lemma working_lines:
  assumes "working_loop l"
  shows "if None \<in> set xs then replay_lines E rt ws stage n xs l = Inl (ReadLineFailed (n + length (takeWhile (\<lambda>x. x \<noteq> None) xs)))
    else (\<exists>m. replay_lines E rt ws stage n xs l = Inr m \<and> working_loop m)"
  using assms
proof (induction E rt ws stage n xs l rule: replay_lines.induct)
  case (2 E rt ws stage n x xs l)
  show ?case
  proof (cases x)
    case None
    then show ?thesis by (simp add: replay_line_def)
  next
    case (Some y)
    obtain l1 where l1: "replay_line E rt ws stage n x l = Inr l1"
      using replay_line_returns [of E rt ws stage n y l] Some by blast
    have w: "working_loop l1"
      using wk.line [of l l E rt ws stage n x] 2(2) l1 by (auto simp: loops_rel_refl)
    from 2(1) [OF l1 _ w] l1 w Some show ?thesis by simp
  qed
qed simp

lemma lines_follow:
  "loops_rel (follows sk) l l' \<Longrightarrow> em_failed (rst_emitter (rl_state l)) = None
   \<Longrightarrow> replay_lines E rt ws stage n xs l' = Inr m' \<Longrightarrow>
   (case first_refusal sk (length (em_writer (rst_emitter (rl_state m')))) of
      None \<Rightarrow> \<exists>m. replay_lines E rt ws stage n xs l = Inr m \<and> loops_rel (follows sk) m m'
    | Some e \<Rightarrow> replay_lines E rt ws stage n xs l = Inl (SinkFailed e))"
proof (induction xs arbitrary: n l l')
  case Nil
  then have "first_refusal sk (length (em_writer (rst_emitter (rl_state m')))) = None"
    by (simp add: loops_rel_def states_rel_def follows_def)
  with Nil show ?case by simp
next
  case (Cons x xs)
  from Cons.prems(3) obtain l1' where l1': "replay_line E rt ws stage n x l' = Inr l1'"
      "replay_lines E rt ws stage (Suc n) xs l1' = Inr m'"
    by (auto split: sum.splits option.splits)
  with fo.line [OF Cons.prems(1), of E rt ws stage n x] obtain l1 where
    l1: "replay_line E rt ws stage n x l = Inr l1" "loops_rel (follows sk) l1 l1'"
    by (cases "replay_line E rt ws stage n x l") auto
  then have f: "em_failed (rst_emitter (rl_state l1)) = first_refusal sk (length (em_writer (rst_emitter (rl_state l1'))))"
    by (simp add: loops_rel_def states_rel_def follows_def)
  show ?case
  proof (cases "em_failed (rst_emitter (rl_state l1))")
    case None
    from Cons.IH [OF l1(2) None l1'(2)] show ?thesis by (simp add: l1(1) None split: option.splits)
  next
    case (Some e)
    with f lines_grow [OF l1'(2) order_refl] have "first_refusal sk (length (em_writer (rst_emitter (rl_state m')))) = Some e"
      by (metis first_refusal_mono)
    then show ?thesis using l1(1) Some by simp
  qed
qed

lemma unreadable_lines:
  "loops_rel (follows sk) l l' \<Longrightarrow> None \<in> set xs \<Longrightarrow>
   \<exists>e. replay_lines E rt ws stage n xs l = Inl e
     \<and> (e = ReadLineFailed (n + length (takeWhile (\<lambda>x. x \<noteq> None) xs)) \<or> (\<exists>k f. refusal sk k = Some f \<and> e = SinkFailed f))"
proof (induction xs arbitrary: n l l')
  case (Cons x xs)
  show ?case
  proof (cases x)
    case None
    then show ?thesis by (simp add: replay_line_def)
  next
    case (Some y)
    obtain l1' where l1': "replay_line E rt ws stage n x l' = Inr l1'"
      using replay_line_returns [of E rt ws stage n y l'] Some by blast
    with fo.line [OF Cons.prems(1), of E rt ws stage n x] obtain l1 where
      l1: "replay_line E rt ws stage n x l = Inr l1" "loops_rel (follows sk) l1 l1'"
      by (cases "replay_line E rt ws stage n x l") auto
    have m: "None \<in> set xs" using Cons.prems(2) Some by simp
    show ?thesis
    proof (cases "em_failed (rst_emitter (rl_state l1))")
      case None
      from Cons.IH [OF l1(2) m, of "Suc n"] show ?thesis using l1(1) None Some by simp
    next
      case (Some e)
      then have "first_refusal sk (length (em_writer (rst_emitter (rl_state l1')))) = Some e"
        using l1(2) by (simp add: loops_rel_def states_rel_def follows_def)
      from first_refusal_real [OF this] show ?thesis using l1(1) Some by auto
    qed
  qed
qed simp

lemma working_start: "working_loop (replay_start w working_sinks)"
  by (simp add: replay_start_def emitter_new_def)

text \<open>The run whose sinks take everything, and its end.\<close>

lemma working_flush: "working_loop l \<Longrightarrow> em_failed (rst_emitter (flush_window E rt stage l)) = None
    \<and> em_sinks (rst_emitter (flush_window E rt stage l)) = working_sinks"
  using wk.flush [of l l E rt stage] by (auto simp: loops_rel_refl states_rel_def)

lemma working_run_returns: "(\<exists>s em. run_with_audit E rt w working_sinks lines ws stage = Inr (s, em)) \<longleftrightarrow> None \<notin> set lines"
proof (cases "None \<in> set lines")
  case True
  with working_lines [OF working_start, of lines E rt ws stage 1] show ?thesis by (simp add: run_with_audit_def)
next
  case False
  with working_lines [OF working_start, of lines E rt ws stage 1 w] obtain m where
    m: "replay_lines E rt ws stage 1 lines (replay_start w working_sinks) = Inr m" "working_loop m" by auto
  from working_flush [OF m(2), of E rt stage] False show ?thesis
    by (simp add: run_with_audit_def m(1) [simplified] Let_def write_record_def working_takes)
qed

text \<open>C25: a replay that returns accounts for the whole trace. Its lines are counted as what they are: all that are
  not blank in the total, and each of them once more, as a line without an event, as a parse error (JSON or
  event malformed) or as an ingested event; from the policy stage on, every intent as approved or
  rejected; and at the execution stage every audit record as an authorised or a denied action (counters
  are 64-bit). The last record written is the summary, the audit stream is the canonical projection of
  every record before it, and the summary's hash is the hash of that stream.\<close>

theorem replay_accounts_for_trace:
  assumes "run_with_audit E rt w sk lines ws stage = Inr (s, em)"
  shows "rps_lines_total s = of_nat (length (filter (\<lambda>x. line_kind_of E x \<noteq> BlankLine) lines))
     \<and> rps_lines_skipped_no_raw_event s = of_nat (length (filter (\<lambda>x. line_kind_of E x = NoEventLine) lines))
     \<and> rps_lines_parse_error s = of_nat (length (filter (\<lambda>x. line_kind_of E x = MalformedLine) lines))
     \<and> rps_events_ingested s = of_nat (length (filter (\<lambda>x. line_kind_of E x = EventLine) lines))
     \<and> rps_lines_total s = rps_lines_skipped_no_raw_event s + rps_lines_parse_error s + rps_events_ingested s
     \<and> (includes_stage stage StPolicy \<longrightarrow> rps_intents_total s = rps_intents_approved s + rps_intents_rejected s)
     \<and> (includes_stage stage StExecute \<longrightarrow> rps_audit_records s = rps_actions_authorized s + rps_actions_denied s)
     \<and> (\<exists>records. em_writer em = records @ [json_obj [(''stage'', JString ''summary''),
           (''summary'', rpe_ser_replay_summary E s)]]
         \<and> em_audit em = map canonicalize records
         \<and> rps_audit_hash s = ''sha256:'' @ rpe_sha256_hex E
             (concat (map (\<lambda>v. rpe_to_vec E (canonicalize v) @ [CHR 0x0A]) records)))"
proof -
  have start: "accounted stage 0 0 0 0 (rst_summary (rl_state (replay_start w sk)))"
      "audit_ok (rst_emitter (rl_state (replay_start w sk)))"
    by (simp_all add: accounted_def empty_replay_summary_def audit_ok_def emitter_new_def replay_start_def)
  from assms obtain l where l: "replay_lines E rt ws stage 1 lines (replay_start w sk) = Inr l"
    by (auto simp: run_with_audit_def split: sum.splits)
  define st where "st = flush_window E rt stage l"
  have st: "accounted stage (count_kinds E (- {BlankLine}) lines) (count_kinds E {NoEventLine} lines)
      (count_kinds E {MalformedLine} lines) (count_kinds E {EventLine} lines) (rst_summary st)"
    using accounted_lines [OF l start(1)]
    by (auto simp: st_def flush_window_def intro: accounted_window split: option.splits)
  have ok: "audit_ok (rst_emitter st)"
    using au.flush [of l l E rt stage] audit_ok_lines [OF l start(2)] by (auto simp: loops_rel_refl states_rel_def st_def)
  define s' where "s' = (rst_summary st)\<lparr>rps_audit_hash := emitter_finalize (rpe_to_vec E) (rpe_sha256_hex E) (rst_emitter st)\<rparr>"
  have fin: "em_failed (rst_emitter st) = None" "em_failed em = None" "s = s'"
      "em = write_record (summary_record E s') (rst_emitter st)"
    using assms unfolding run_with_audit_def l sum.case Let_def st_def [symmetric] s'_def [symmetric]
    by (auto split: option.splits)
  let ?rs = "em_writer (rst_emitter st)"
  have em: "em_writer em = ?rs @ [summary_record E s]" "em_audit em = map canonicalize ?rs"
    using fin ok by (auto simp: write_record_def Let_def audit_ok_def split: if_splits)
  have hash: "rps_audit_hash s = ''sha256:'' @ rpe_sha256_hex E
      (concat (map (\<lambda>v. rpe_to_vec E (canonicalize v) @ [CHR 0x0A]) ?rs))"
    using ok fin(1) by (simp add: fin(3) s'_def emitter_finalize_def hashed_bytes_def audit_ok_def comp_def)
  have "count_kinds E (- {BlankLine}) lines = count_kinds E {NoEventLine} lines + count_kinds E {MalformedLine} lines
      + count_kinds E {EventLine} lines"
  proof (induction lines)
    case (Cons x xs)
    then show ?case by (cases "line_kind_of E x") (simp_all add: count_kinds_Cons)
  qed (simp add: count_kinds_Nil)
  moreover have "rps_lines_total s = rps_lines_total (rst_summary st)" "rps_events_ingested s = rps_events_ingested (rst_summary st)"
      "rps_lines_parse_error s = rps_lines_parse_error (rst_summary st)"
      "rps_lines_skipped_no_raw_event s = rps_lines_skipped_no_raw_event (rst_summary st)"
      "rps_intents_total s = rps_intents_total (rst_summary st)" "rps_intents_approved s = rps_intents_approved (rst_summary st)"
      "rps_intents_rejected s = rps_intents_rejected (rst_summary st)" "rps_audit_records s = rps_audit_records (rst_summary st)"
      "rps_actions_authorized s = rps_actions_authorized (rst_summary st)" "rps_actions_denied s = rps_actions_denied (rst_summary st)"
    by (simp_all add: fin(3) s'_def)
  ultimately show ?thesis
    using st em hash by (simp add: accounted_def count_kinds_def summary_record_def)
qed

text \<open>C26: an unreadable line and a failing write are all that ends a replay early. With sinks that take every record the
  replay returns exactly when every line can be read (\<open>None\<close> is a line that cannot), whatever the lines hold and
  whatever the stage, and else fails at the first line that cannot. With any other sinks
  and all lines readable it fails at the first record of that run that one of its sinks does not take, or at
  the summary if the writer does not take that; and when nothing is refused it returns the same summary and has written
  the same records. If a line cannot be read it fails there, or at a record that a sink refused.\<close>

theorem replay_returns:
  "case run_with_audit E rt w working_sinks lines ws stage of
     Inl e \<Rightarrow> None \<in> set lines \<and> e = ReadLineFailed (1 + length (takeWhile (\<lambda>x. x \<noteq> None) lines))
       \<and> (\<exists>e'. run_with_audit E rt w sk lines ws stage = Inl e'
            \<and> (e' = e \<or> (\<exists>k f. refusal sk k = Some f \<and> e' = SinkFailed f)))
   | Inr (s, em) \<Rightarrow> None \<notin> set lines
       \<and> run_with_audit E rt w sk lines ws stage =
           (case first_refusal sk (length (em_audit em)) of
              Some f \<Rightarrow> Inl (SinkFailed f)
            | None \<Rightarrow> if sk_writer_takes sk (length (em_audit em)) then Inr (s, em\<lparr>em_sinks := sk\<rparr>)
                      else Inl (SinkFailed (WriterFailed (length (em_audit em)))))"
proof (cases "None \<in> set lines")
  case True
  have w: "replay_lines E rt ws stage 1 lines (replay_start w working_sinks)
      = Inl (ReadLineFailed (1 + length (takeWhile (\<lambda>x. x \<noteq> None) lines)))"
    using working_lines [OF working_start, of lines E rt ws stage 1 w] True by simp
  have wr: "run_with_audit E rt w working_sinks lines ws stage = Inl (ReadLineFailed (1 + length (takeWhile (\<lambda>x. x \<noteq> None) lines)))"
    unfolding run_with_audit_def w by simp
  from unreadable_lines [where sk = sk and E = E and rt = rt and ws = ws and stage = stage and n = 1, OF follows_start True, of w]
  obtain e where e: "replay_lines E rt ws stage 1 lines (replay_start w sk) = Inl e"
      "e = ReadLineFailed (1 + length (takeWhile (\<lambda>x. x \<noteq> None) lines)) \<or> (\<exists>k f. refusal sk k = Some f \<and> e = SinkFailed f)"
    by blast
  have "run_with_audit E rt w sk lines ws stage = Inl e" unfolding run_with_audit_def e(1) by simp
  with e(2) True show ?thesis unfolding wr by simp
next
  case False
  with working_lines [OF working_start, of lines E rt ws stage 1 w] obtain m' where
    m': "replay_lines E rt ws stage 1 lines (replay_start w working_sinks) = Inr m'" "working_loop m'" by auto
  define em where "em = rst_emitter (flush_window E rt stage m')"
  have em: "em_failed em = None" "em_sinks em = working_sinks"
    using working_flush [OF m'(2), of E rt stage] by (simp_all add: em_def)
  let ?n = "length (em_writer em)"
  have "audit_ok (rst_emitter (rl_state m'))"
    by (rule audit_ok_lines [OF m'(1)]) (simp add: replay_start_def emitter_new_def audit_ok_def)
  then have "audit_ok em" using au.flush [of m' m' E rt stage] by (auto simp: loops_rel_refl states_rel_def em_def)
  with em have len: "length (em_audit em) = ?n" by (simp add: audit_ok_def)
  define s where "s = (rst_summary (flush_window E rt stage m'))
      \<lparr>rps_audit_hash := emitter_finalize (rpe_to_vec E) (rpe_sha256_hex E) em\<rparr>"
  have wr: "run_with_audit E rt w working_sinks lines ws stage = Inr (s, em\<lparr>em_writer := em_writer em @ [summary_record E s]\<rparr>)"
    unfolding run_with_audit_def m'(1)
    by (simp add: Let_def em_def [symmetric] s_def [symmetric] em write_record_def working_takes)
  have run: "run_with_audit E rt w sk lines ws stage =
      (case first_refusal sk ?n of Some f \<Rightarrow> Inl (SinkFailed f)
       | None \<Rightarrow> if sk_writer_takes sk ?n then Inr (s, em\<lparr>em_sinks := sk, em_writer := em_writer em @ [summary_record E s]\<rparr>)
                 else Inl (SinkFailed (WriterFailed ?n)))"
  proof (cases "first_refusal sk (length (em_writer (rst_emitter (rl_state m'))))")
    case (Some f)
    have "length (em_writer (rst_emitter (rl_state m'))) \<le> ?n"
      using gr.flush [of "length (em_writer (rst_emitter (rl_state m')))" m' m' E rt stage]
      by (auto simp: loops_rel_refl states_rel_def em_def)
    with Some have "first_refusal sk ?n = Some f" by (rule first_refusal_mono)
    moreover have "replay_lines E rt ws stage 1 lines (replay_start w sk) = Inl (SinkFailed f)"
      using lines_follow [OF follows_start _ m'(1), of sk] Some by (simp add: replay_start_def emitter_new_def)
    ultimately show ?thesis by (simp add: run_with_audit_def)
  next
    case None
    with lines_follow [OF follows_start _ m'(1), of sk] obtain m where
      m: "replay_lines E rt ws stage 1 lines (replay_start w sk) = Inr m" "loops_rel (follows sk) m m'"
      by (auto simp: replay_start_def emitter_new_def)
    from fo.flush [OF m(2), of E rt stage] have f: "follows sk (rst_emitter (flush_window E rt stage m)) em"
        "rst_summary (flush_window E rt stage m) = rst_summary (flush_window E rt stage m')"
      by (simp_all add: states_rel_def em_def)
    show ?thesis
    proof (cases "first_refusal sk ?n")
      case (Some e)
      with f(1) have "em_failed (rst_emitter (flush_window E rt stage m)) = Some e" by (simp add: follows_def)
      then show ?thesis unfolding run_with_audit_def m(1) by (simp add: Let_def Some)
    next
      case None
      with f(1) have same: "rst_emitter (flush_window E rt stage m) = em\<lparr>em_sinks := sk\<rparr>" by (simp add: follows_def)
      have "emitter_finalize (rpe_to_vec E) (rpe_sha256_hex E) (em\<lparr>em_sinks := sk\<rparr>)
          = emitter_finalize (rpe_to_vec E) (rpe_sha256_hex E) em"
        by (simp add: emitter_finalize_def hashed_bytes_def)
      then show ?thesis
        unfolding run_with_audit_def m(1)
        by (simp add: Let_def same f(2) s_def [symmetric] em(1) write_record_def None)
    qed
  qed
  from False show ?thesis unfolding wr by (auto simp: run len split: option.split)
qed


section \<open>Concrete inputs\<close>

definition demo_replay_env :: replay_env where
  "demo_replay_env = \<lparr>rpe_lowercase = (\<lambda>s. s), rpe_file_order = rev,
     rpe_from_str = (\<lambda>s. if s = ''{'' then Inl ''eof''
        else Inr (JObject (if s = ''{}'' then [] else [(''rawEvent'', JString s)]))),
     rpe_from_value = (\<lambda>v. Inr (RawScreenState \<lparr>sse_timestamp_ms = 5, sse_state = Interactive\<rparr>)),
     rpe_event_id = show_nat, rpe_window_id = show_nat, rpe_times = demo_times,
     rpe_ser_event = (\<lambda>e. JString (se_event_id e)), rpe_ser_summary = (\<lambda>s. JNull),
     rpe_ser_record = (\<lambda>r. JString (ar_intent_id r)), rpe_ser_coord = (\<lambda>c. json_u64 (ucast (co_intent_ordinal c))),
     rpe_ser_state = (\<lambda>s. JNull), rpe_ser_outcome = (\<lambda>s. JNull), rpe_ser_action = (\<lambda>a. JNull),
     rpe_ser_reason = (\<lambda>r. JString (debug_denial_reason r)),
     rpe_ser_replay_summary = (\<lambda>s. json_u64 (rps_lines_total s)), rpe_to_vec = (\<lambda>v. ''v''), rpe_sha256_hex = (\<lambda>s. s)\<rparr>"

definition demo_replay_decision :: decision_backend_result where
  "demo_replay_decision = \<lparr>dr_route = LocalEvaluator,
     dr_intent_batch = demo_batch [demo_action PreWarmProcess (Some ''pkg:com.bank''), demo_action NoOp None],
     dr_rationale_tags = [], dr_latency_us = 0, dr_error = None\<rparr>"

definition demo_replay_state :: "unit replay_state" where
  "demo_replay_state = \<lparr>rst_summary = empty_replay_summary, rst_router = ((), []), rst_emitter = emitter_new working_sinks\<rparr>"

theorem policy_stage_predicts_execution_witness:
  "rps_denial_counts (rst_summary (execute_stage demo_replay_env 0 demo_context demo_replay_decision demo_replay_state)) =
   rps_denial_counts (rst_summary (policy_stage demo_replay_env 0 demo_context demo_replay_decision demo_replay_state))"
proof -
  have small: "small_batch (dr_intent_batch demo_replay_decision)"
    by (simp add: small_batch_def demo_replay_decision_def demo_batch_def demo_intent_def)
  have "valid_schemas 0 (dr_intent_batch demo_replay_decision)"
    by (simp add: valid_schemas_def positions_def demo_replay_decision_def demo_batch_def demo_intent_def
        position_proposal_def proposal_of_def validate_schema_def)
  with policy_stage_predicts_execution [OF small, of demo_replay_env 0 demo_context demo_replay_state]
  show ?thesis by (simp add: Let_def)
qed

theorem replay_accounts_for_trace_witness:
  "\<exists>s em. run_with_audit demo_replay_env demo_router demo_world working_sinks
       [Some ''{'', Some '' '', Some ''{}'', Some ''x''] 10 StExecute = Inr (s, em)
     \<and> rps_intents_total s = rps_intents_approved s + rps_intents_rejected s
     \<and> rps_audit_records s = rps_actions_authorized s + rps_actions_denied s"
proof -
  let ?run = "run_with_audit demo_replay_env demo_router demo_world working_sinks
       [Some ''{'', Some '' '', Some ''{}'', Some ''x''] 10 StExecute"
  have "\<exists>s em. ?run = Inr (s, em)" by (simp add: working_run_returns)
  then obtain s em where r: "?run = Inr (s, em)" by blast
  from replay_accounts_for_trace [OF r] r show ?thesis by (auto simp: includes_stage_def)
qed


end
