(* ===== verification/Next_App_Model.thy ===== *)
theory Next_App_Model
  imports Parsing Float BTree_Map
begin

text \<open>
  The next-app model of \<open>aios-agent/src/backends/predictive\<close>: its artifact (\<open>types.rs\<close>), the checks an
  artifact has to pass (\<open>predictor.rs\<close>), the nine component rankers and the three fusions of the ensemble
  (\<open>predictor.rs\<close>, \<open>ensemble.rs\<close>), and \<open>predictor_rank\<close>. The artifact's maps are \<open>BTreeMap\<close>s; indexing out of
  range, which panics, is \<open>None\<close>; \<open>f32::exp\<close> and \<open>f32::ln\<close>, whose precision Rust leaves open, are
  parameters. The sorts are by a total order as long as no score is a NaN; the panic the standard sort allows
  itself when one is, is left out.

  The lemmas: the order of the sorts; a predictor over a checked artifact never indexes out of range, and whatever the ranker, it
  returns apps of the vocabulary, each once, never the current one, and at least one when there is another.
\<close>

section \<open>Data (types.rs)\<close>

record app_score =
  as_app :: string
  as_score :: f32

record next_app_model_config =
  nc_horizon_secs :: u64
  nc_history_len :: usize

definition default_model_config :: next_app_model_config where
  "default_model_config = \<lparr>nc_horizon_secs = 30, nc_history_len = 5\<rparr>"

record training_summary =
  ts_examples :: usize
  ts_users :: usize
  ts_apps :: usize

record naive_bayes_model =
  nb_class_log_priors :: "f32 list"
  nb_unknown_feature_log_probs :: "f32 list"
  nb_feature_log_probs :: "(string, f32 list) btree_map"

type_synonym score_table = "(string, app_score list) btree_map"

record markov_model =
  mk_global_transitions :: score_table
  mk_user_transitions :: score_table
  mk_global_transitions_order2 :: score_table

record ensemble_combiner =
  ec_components :: "string list"
  ec_weights :: "f32 list"

definition empty_combiner :: ensemble_combiner where
  "empty_combiner = \<lparr>ec_components = [], ec_weights = []\<rparr>"

definition combiner_is_empty :: "ensemble_combiner \<Rightarrow> bool" where
  "combiner_is_empty c \<longleftrightarrow> ec_components c = [] \<or> length (ec_components c) \<noteq> length (ec_weights c)"

fun position_of :: "string \<Rightarrow> string list \<Rightarrow> nat option" where
  "position_of x [] = None"
| "position_of x (y # ys) = (if y = x then Some 0 else map_option Suc (position_of x ys))"

definition weight_of :: "ensemble_combiner \<Rightarrow> string \<Rightarrow> f32 option" where
  "weight_of c name = Option.bind (position_of name (ec_components c)) (\<lambda>i. nth_opt i (ec_weights c))"

record logistic_reranker =
  lr_feature_names :: "string list"
  lr_weights :: "f32 list"

definition empty_reranker :: logistic_reranker where
  "empty_reranker = \<lparr>lr_feature_names = [], lr_weights = []\<rparr>"

definition reranker_is_empty :: "logistic_reranker \<Rightarrow> bool" where
  "reranker_is_empty m \<longleftrightarrow> lr_feature_names m = [] \<or> length (lr_feature_names m) \<noteq> length (lr_weights m)"

record feature_lift_tree =
  ft_feature_key :: string
  ft_yes_scores :: "app_score list"

record feature_lift_model =
  fl_base_scores :: "f32 list"
  fl_trees :: "feature_lift_tree list"

record next_app_artifact =
  na_schema_version :: string
  na_model_id :: string
  na_dataset_id :: string
  na_trained_at_ms :: i64
  na_config :: next_app_model_config
  na_app_vocab :: "string list"
  na_global_popularity :: "app_score list"
  na_naive_bayes :: naive_bayes_model
  na_markov :: markov_model
  na_feature_lift :: feature_lift_model
  na_user_frequency :: score_table
  na_user_recency :: "(string, string) btree_map"
  na_markov_context :: score_table
  na_ensemble_combiner :: ensemble_combiner
  na_ensemble_logistic :: logistic_reranker
  na_training_summary :: training_summary

datatype next_app_algorithm = NaiveBayes | Markov | FeatureLift | Ensemble

record training_example =
  te_user_id :: string
  te_current_app :: string
  te_history :: "string list"
  te_hour_bucket :: u8
  te_weekday :: u8
  te_event_type :: string
  te_label_app :: string

record prediction_features =
  pf_user_id :: "string option"
  pf_current_app :: "string option"
  pf_history :: "string list"
  pf_hour_bucket :: "u8 option"
  pf_weekday :: "u8 option"
  pf_event_type :: "string option"

record next_app_predictor =
  np_artifact :: next_app_artifact
  np_app_index :: "(string, usize) btree_map"

definition NEXT_APP_SCHEMA :: string where "NEXT_APP_SCHEMA = ''dipecs.next_app_model.v1''"
definition PREDICTIVE_MODEL_NAME :: string where "PREDICTIVE_MODEL_NAME = ''predictive-local-v0.1''"
definition MAX_BACKEND_INTENTS :: usize where "MAX_BACKEND_INTENTS = 5"
definition MAX_TRAINED_FEATURES :: usize where "MAX_TRAINED_FEATURES = 128"

section \<open>Keys, features and small helpers\<close>

definition tab :: char where "tab = CHR 0x09"

definition tab_key :: "string \<Rightarrow> string \<Rightarrow> string" where
  "tab_key a b = a @ [tab] @ b"

definition user_transition_key :: "string \<Rightarrow> string \<Rightarrow> string" where
  "user_transition_key user_id current_app = tab_key user_id current_app"

definition order2_key :: "string \<Rightarrow> string \<Rightarrow> string" where
  "order2_key prev_app current_app = tab_key prev_app current_app"

definition show_u8 :: "u8 \<Rightarrow> string" where "show_u8 n = show_nat (unat n)"

definition features_for_example :: "training_example \<Rightarrow> prediction_features" where
  "features_for_example e =
     \<lparr>pf_user_id = Some (te_user_id e), pf_current_app = Some (te_current_app e), pf_history = te_history e,
      pf_hour_bucket = Some (te_hour_bucket e), pf_weekday = Some (te_weekday e),
      pf_event_type = Some (te_event_type e)\<rparr>"

definition opt_key :: "string \<Rightarrow> string option \<Rightarrow> string list" where
  "opt_key label x = (case x of Some v \<Rightarrow> [label @ v] | None \<Rightarrow> [])"

definition last_opt :: "'a list \<Rightarrow> 'a option" where
  "last_opt xs = (if xs = [] then None else Some (last xs))"

definition feature_keys :: "prediction_features \<Rightarrow> string list" where
  "feature_keys f =
     opt_key ''user='' (pf_user_id f) @ opt_key ''current='' (pf_current_app f)
     @ opt_key ''prev='' (last_opt (pf_history f))
     @ map (\<lambda>(i, app). ''hist'' @ show_nat i @ ''='' @ app) (enumerate 0 (take 3 (rev (pf_history f))))
     @ opt_key ''hour='' (map_option show_u8 (pf_hour_bucket f))
     @ opt_key ''weekday='' (map_option show_u8 (pf_weekday f))
     @ opt_key ''event='' (pf_event_type f)"

text \<open>\<open>a.cmp(b)\<close> is not \<open>Greater\<close>: descending score, then ascending app; a NaN ties with every score.\<close>

definition app_score_le :: "app_score \<Rightarrow> app_score \<Rightarrow> bool" where
  "app_score_le a b \<longleftrightarrow> fp_lt (as_score b) (as_score a)
     \<or> (fp_cmp_eq (as_score a) (as_score b) \<and> as_app a \<le> as_app b)"

abbreviation sort_scores :: "app_score list \<Rightarrow> app_score list" where
  "sort_scores \<equiv> sort_by app_score_le"

text \<open>Among scores that are numbers the comparator is a total preorder, as the standard sort requires. A NaN ties with
  two scores that differ, so with one it is not: the sort may then panic, which the model leaves out.\<close>

lemma app_score_le_total: "as_score a \<noteq> FNaN \<Longrightarrow> as_score b \<noteq> FNaN \<Longrightarrow> app_score_le a b \<or> app_score_le b a"
  using fp_lt_total [of "as_score a" "as_score b"] by (auto simp: app_score_le_def fp_cmp_eq_def)

lemma app_score_le_trans:
  assumes "as_score a \<noteq> FNaN" "as_score b \<noteq> FNaN" "as_score c \<noteq> FNaN" "app_score_le a b" "app_score_le b c"
  shows "app_score_le a c"
  using assms fp_lt_total [of "as_score a" "as_score b"] fp_lt_total [of "as_score b" "as_score c"]
  by (auto simp: app_score_le_def fp_cmp_eq_def dest: fp_lt_trans intro: order_trans)

lemma sort_scores_sorted: "\<forall>x \<in> set xs. as_score x \<noteq> FNaN \<Longrightarrow> sorted_wrt app_score_le (sort_scores xs)"
  by (rule sorted_sort_by_on [where S = "{x. as_score x \<noteq> FNaN}"]) (auto intro: app_score_le_trans dest: app_score_le_total)

lemma nan_score_breaks_order:
  "\<exists>a b c. app_score_le a b \<and> app_score_le b c \<and> \<not> app_score_le a c"
proof (intro exI conjI)
  let ?s = "\<lambda>x. \<lparr>as_app = ''a'', as_score = x\<rparr>"
  show "app_score_le (?s (FFin 1)) (?s FNaN)" "app_score_le (?s FNaN) (?s (FFin 2))"
    "\<not> app_score_le (?s (FFin 1)) (?s (FFin 2))"
    by (simp_all add: app_score_le_def fp_cmp_eq_def)
qed

abbreviation f32_of_nat :: "nat \<Rightarrow> f32" where
  "f32_of_nat n \<equiv> f32_lit (of_nat n)"


section \<open>Checking an artifact (predictor.rs)\<close>

text \<open>The first error of a sequence of checks.\<close>

fun first_error :: "string option list \<Rightarrow> string option" where
  "first_error [] = None"
| "first_error (None # es) = first_error es"
| "first_error (Some e # es) = Some e"

lemma first_error_None: "first_error es = None \<longleftrightarrow> (\<forall>e \<in> set es. e = None)"
  by (induction es rule: first_error.induct) auto

definition check :: "bool \<Rightarrow> string \<Rightarrow> string option" where
  "check bad msg = (if bad then Some msg else None)"

lemma check_None [simp]: "check bad msg = None \<longleftrightarrow> \<not> bad"
  by (simp add: check_def)

text \<open>A loop that checks each element against the ones before it.\<close>

definition check_each :: "('a list \<Rightarrow> 'a \<Rightarrow> string option) \<Rightarrow> 'a list \<Rightarrow> string option" where
  "check_each f xs = first_error (map (\<lambda>(i, x). f (take i xs) x) (enumerate 0 xs))"

definition validate_score_list :: "string \<Rightarrow> app_score list \<Rightarrow> string list \<Rightarrow> bool \<Rightarrow> string option" where
  "validate_score_list label scores vocab full = first_error
     [check (full \<and> length scores \<noteq> card (set vocab))
        (''artifact '' @ label @ '' must contain exactly one score per app_vocab entry''),
      check_each (\<lambda>seen s. first_error
        [check (as_app s \<notin> set vocab)
           (''artifact '' @ label @ '' references app `'' @ as_app s @ ''` outside app_vocab''),
         check (as_app s \<in> as_app ` set seen)
           (''artifact '' @ label @ '' contains duplicate score for app `'' @ as_app s @ ''`'')]) scores]"

definition ensemble_component_names :: "string list" where
  "ensemble_component_names = [''naive_bayes'', ''markov_order2'', ''markov'', ''markov_context'', ''feature_lift'',
     ''recency'', ''user_frequency'', ''user_recency'', ''popularity'']"

definition logistic_feature_names :: "string list" where
  "logistic_feature_names =
     concat (map (\<lambda>c. [c @ '':rank_rr'', c @ '':score'', c @ '':top1'']) ensemble_component_names)"

fun fp_is_finite :: "fp \<Rightarrow> bool" where
  "fp_is_finite (FFin x) = True"
| "fp_is_finite _ = False"

definition validate_combiner :: "ensemble_combiner \<Rightarrow> string option" where
  "validate_combiner c =
     (if ec_components c = [] \<and> ec_weights c = [] then None
      else first_error
        [check (ec_components c = [] \<or> ec_weights c = [] \<or> length (ec_components c) \<noteq> length (ec_weights c))
           ''artifact ensemble_combiner components and weights must be parallel vectors'',
         check_each (\<lambda>seen (name, w). first_error
           [check (name \<notin> set ensemble_component_names)
              (''artifact ensemble_combiner component `'' @ name @ ''` is unknown''),
            check (name \<in> fst ` set seen)
              (''artifact ensemble_combiner contains duplicate component `'' @ name @ ''`''),
            check (\<not> fp_is_finite w \<or> fp_lt w (FFin 0))
              (''artifact ensemble_combiner weight for `'' @ name @ ''` must be finite and non-negative'')])
           (zip (ec_components c) (ec_weights c))])"

definition validate_logistic :: "logistic_reranker \<Rightarrow> string option" where
  "validate_logistic m =
     (if lr_feature_names m = [] \<and> lr_weights m = [] then None
      else first_error
        [check (lr_feature_names m = [] \<or> lr_weights m = [] \<or> length (lr_feature_names m) \<noteq> length (lr_weights m))
           ''artifact ensemble_logistic feature_names and weights must be non-empty parallel vectors'',
         check (lr_feature_names m \<noteq> logistic_feature_names)
           ''artifact ensemble_logistic feature_names do not match runtime features'',
         check (length (lr_weights m) \<noteq> length logistic_feature_names)
           ''artifact ensemble_logistic weights length does not match feature_names''])"

text \<open>The current app of a key \<open>prefix<TAB>current\<close> (\<open>rsplit_once\<close>).\<close>

definition check_tab_key :: "string list \<Rightarrow> string \<Rightarrow> string \<Rightarrow> string \<Rightarrow> string \<Rightarrow> string option" where
  "check_tab_key vocab key_msg shape app_msg key = (case after_last tab key of
     None \<Rightarrow> Some (''artifact '' @ key_msg @ '' `'' @ key @ ''` is not '' @ shape @ ''<TAB>current_app'')
   | Some current \<Rightarrow> check (current \<notin> set vocab)
       (''artifact '' @ app_msg @ '' `'' @ current @ ''` is not in app_vocab''))"

definition check_vocab :: "next_app_artifact \<Rightarrow> string option" where
  "check_vocab a = (let vocab = na_app_vocab a; n = length vocab; nb = na_naive_bayes a; fl = na_feature_lift a in
     first_error
       [check (na_schema_version a \<noteq> NEXT_APP_SCHEMA)
          (''unsupported next-app artifact schema '' @ na_schema_version a @ ''; expected '' @ NEXT_APP_SCHEMA),
        check (n = 0) ''artifact app_vocab is empty'',
        check_each (\<lambda>seen app. check (app \<in> set seen)
          (''artifact app_vocab contains duplicate app `'' @ app @ ''`'')) vocab,
        check (length (nb_class_log_priors nb) \<noteq> n \<or> length (nb_unknown_feature_log_probs nb) \<noteq> n
            \<or> length (fl_base_scores fl) \<noteq> n \<or> list_ex (\<lambda>t. length (ft_yes_scores t) \<noteq> n) (fl_trees fl))
          ''artifact vector sizes do not match app_vocab'',
        check (list_ex (\<lambda>kv. length (snd kv) \<noteq> n) (nb_feature_log_probs nb))
          ''artifact naive_bayes feature_log_probs vector sizes do not match app_vocab''])"

definition check_tables :: "next_app_artifact \<Rightarrow> string option" where
  "check_tables a = (let vocab = na_app_vocab a; mk = na_markov a in first_error
     [validate_score_list ''global_popularity'' (na_global_popularity a) vocab True,
      first_error (map (\<lambda>(current, scores). first_error
        [check (current \<notin> set vocab)
           (''artifact markov global transition key `'' @ current @ ''` is not in app_vocab''),
         validate_score_list (''markov.global_transitions['' @ current @ '']'') scores vocab False])
        (mk_global_transitions mk)),
      first_error (map (\<lambda>(key, scores). first_error
        [check_tab_key vocab ''markov user transition key'' ''user_id'' ''markov user transition current app'' key,
         validate_score_list (''markov.user_transitions['' @ key @ '']'') scores vocab False])
        (mk_user_transitions mk)),
      first_error (map (\<lambda>(key, scores). first_error
        [check_tab_key vocab ''markov order2 key'' ''prev_app'' ''markov order2 current app'' key,
         validate_score_list (''markov.global_transitions_order2['' @ key @ '']'') scores vocab False])
        (mk_global_transitions_order2 mk)),
      first_error (map (\<lambda>t. validate_score_list (''feature_lift.tree['' @ ft_feature_key t @ ''].yes_scores'')
        (ft_yes_scores t) vocab True) (fl_trees (na_feature_lift a))),
      first_error (map (\<lambda>(key, scores). validate_score_list (''markov_context['' @ key @ '']'') scores vocab False)
        (na_markov_context a)),
      first_error (map (\<lambda>(user, scores). validate_score_list (''user_frequency['' @ user @ '']'') scores vocab False)
        (na_user_frequency a)),
      first_error (map (\<lambda>(key, app). first_error
        [check_tab_key vocab ''user_recency key'' ''user_id'' ''user_recency current app'' key,
         check (app \<notin> set vocab) (''artifact user_recency target app `'' @ app @ ''` is not in app_vocab'')])
        (na_user_recency a))])"

definition validate_artifact :: "next_app_artifact \<Rightarrow> string option" where
  "validate_artifact a = first_error
     [check_vocab a, check_tables a, validate_combiner (na_ensemble_combiner a), validate_logistic (na_ensemble_logistic a)]"

definition index_apps :: "string list \<Rightarrow> (string, usize) btree_map" where
  "index_apps vocab = foldl (\<lambda>m (i, app). btree_upsert app i (\<lambda>_. i) m) [] (enumerate 0 vocab)"

definition predictor_new :: "next_app_artifact \<Rightarrow> string + next_app_predictor" where
  "predictor_new a = (case validate_artifact a of
     Some e \<Rightarrow> Inl e
   | None \<Rightarrow> Inr \<lparr>np_artifact = a, np_app_index = index_apps (na_app_vocab a)\<rparr>)"

section \<open>Component rankers (predictor.rs)\<close>

record libm =
  m_exp :: "f32 \<Rightarrow> f32"
  m_ln :: "f32 \<Rightarrow> f32"

fun add_vec :: "f32 list \<Rightarrow> f32 list \<Rightarrow> f32 list" where
  "add_vec (t # ts) (v # vs) = fp_add fmt32 t v # add_vec ts vs"
| "add_vec ts vs = ts"

definition rank_from_logits :: "libm \<Rightarrow> string list \<Rightarrow> f32 list \<Rightarrow> app_score list" where
  "rank_from_logits M vocab logits =
     (let mx = foldl fp_max (FInf True) logits;
          ex = map (\<lambda>s. m_exp M (fp_sub fmt32 s mx)) logits;
          sum = foldl (fp_add fmt32) (FFin 0) ex in
      sort_scores (map (\<lambda>(app, v). \<lparr>as_app = app,
        as_score = (if fp_lt (FFin 0) sum then fp_div fmt32 v sum else FFin 0)\<rparr>) (zip vocab ex)))"

definition rank_naive_bayes :: "libm \<Rightarrow> next_app_artifact \<Rightarrow> prediction_features \<Rightarrow> app_score list" where
  "rank_naive_bayes M a f =
     (let nb = na_naive_bayes a;
          scores = foldl (\<lambda>scores key. case btree_get (nb_feature_log_probs nb) key of
              Some lp \<Rightarrow> add_vec scores lp
            | None \<Rightarrow> add_vec scores (nb_unknown_feature_log_probs nb)) (nb_class_log_priors nb) (feature_keys f) in
      rank_from_logits M (na_app_vocab a) scores)"

definition user_current_key :: "prediction_features \<Rightarrow> string option" where
  "user_current_key f = (case (pf_user_id f, pf_current_app f) of
     (Some u, Some c) \<Rightarrow> Some (user_transition_key u c) | _ \<Rightarrow> None)"

text \<open>The first table entry that exists.\<close>

fun first_some :: "'a option list \<Rightarrow> 'a option" where
  "first_some [] = None"
| "first_some (Some x # xs) = Some x"
| "first_some (None # xs) = first_some xs"

definition get_opt :: "('k, 'v) btree_map \<Rightarrow> 'k option \<Rightarrow> 'v option" where
  "get_opt m k = Option.bind k (btree_get m)"

definition rank_markov :: "next_app_artifact \<Rightarrow> prediction_features \<Rightarrow> app_score list" where
  "rank_markov a f = (let mk = na_markov a in
     case first_some [get_opt (mk_user_transitions mk) (user_current_key f),
          get_opt (mk_global_transitions mk) (pf_current_app f),
          get_opt (mk_global_transitions mk) (last_opt (pf_history f))] of
       Some s \<Rightarrow> s | None \<Rightarrow> na_global_popularity a)"

definition previous_feature_app :: "string list \<Rightarrow> string \<Rightarrow> string option" where
  "previous_feature_app history current = List.find (\<lambda>app. app \<noteq> current) (rev history)"

definition or_empty :: "'a list option \<Rightarrow> 'a list" where
  "or_empty x = (case x of Some s \<Rightarrow> s | None \<Rightarrow> [])"

definition rank_markov_order2 :: "next_app_artifact \<Rightarrow> prediction_features \<Rightarrow> app_score list" where
  "rank_markov_order2 a f = (case pf_current_app f of
     None \<Rightarrow> []
   | Some current \<Rightarrow> (case previous_feature_app (pf_history f) current of
       None \<Rightarrow> []
     | Some prev \<Rightarrow> or_empty (btree_get (mk_global_transitions_order2 (na_markov a)) (order2_key prev current))))"

definition rank_recency :: "next_app_artifact \<Rightarrow> prediction_features \<Rightarrow> app_score list" where
  "rank_recency a f = or_empty (get_opt (mk_user_transitions (na_markov a)) (user_current_key f))"

definition rank_user_frequency :: "next_app_artifact \<Rightarrow> prediction_features \<Rightarrow> app_score list" where
  "rank_user_frequency a f = or_empty (get_opt (na_user_frequency a) (pf_user_id f))"

definition rank_user_recency :: "next_app_artifact \<Rightarrow> prediction_features \<Rightarrow> app_score list" where
  "rank_user_recency a f = (case get_opt (na_user_recency a) (user_current_key f) of
     Some app \<Rightarrow> [\<lparr>as_app = app, as_score = FFin 1\<rparr>] | None \<Rightarrow> [])"

definition rank_popularity :: "next_app_artifact \<Rightarrow> prediction_features \<Rightarrow> app_score list" where
  "rank_popularity a f = na_global_popularity a"

type_synonym score_map = "(string, f32) btree_map"

definition add_score :: "string \<Rightarrow> f32 \<Rightarrow> score_map \<Rightarrow> score_map" where
  "add_score app x m = btree_upsert app (FFin 0) (\<lambda>v. fp_add fmt32 v x) m"

definition ranked_map :: "score_map \<Rightarrow> app_score list" where
  "ranked_map m = sort_scores (map (\<lambda>(app, s). \<lparr>as_app = app, as_score = s\<rparr>) m)"

definition rank_markov_context :: "next_app_artifact \<Rightarrow> prediction_features \<Rightarrow> app_score list" where
  "rank_markov_context a f = (case pf_current_app f of
     None \<Rightarrow> []
   | Some current \<Rightarrow>
       (let look = (\<lambda>v. get_opt (na_markov_context a) (map_option (\<lambda>n. tab_key current (show_u8 n)) v));
            hour = look (pf_hour_bucket f); weekday = look (pf_weekday f) in
        if hour = None \<and> weekday = None then []
        else ranked_map (foldl (\<lambda>m s. add_score (as_app s) (as_score s) m) [] (or_empty hour @ or_empty weekday))))"

text \<open>\<open>scores[*index] += x\<close>.\<close>

definition add_at :: "usize \<Rightarrow> f32 \<Rightarrow> f32 list \<Rightarrow> f32 list option" where
  "add_at i x scores = (if i < length scores then Some (scores[i := fp_add fmt32 (scores ! i) x]) else None)"

definition add_lift :: "(string, usize) btree_map \<Rightarrow> f32 list option \<Rightarrow> app_score \<Rightarrow> f32 list option" where
  "add_lift idx acc s = Option.bind acc (\<lambda>scores. case btree_get idx (as_app s) of
     Some i \<Rightarrow> add_at i (as_score s) scores | None \<Rightarrow> Some scores)"

definition rank_feature_lift :: "libm \<Rightarrow> next_app_predictor \<Rightarrow> prediction_features \<Rightarrow> app_score list option" where
  "rank_feature_lift M p f =
     (let a = np_artifact p; active = set (feature_keys f);
          trees = filter (\<lambda>t. ft_feature_key t \<in> active) (fl_trees (na_feature_lift a)) in
      map_option (rank_from_logits M (na_app_vocab a))
        (foldl (add_lift (np_app_index p)) (Some (fl_base_scores (na_feature_lift a)))
           (concat (map ft_yes_scores trees))))"

section \<open>The ensemble (ensemble.rs)\<close>

definition RRF_K :: f32 where "RRF_K = FFin 1"
definition MAGNITUDE_BLEND :: f32 where "MAGNITUDE_BLEND = f32_lit (5 / 10)"
definition LOGISTIC_FEATURES_PER_COMPONENT :: usize where "LOGISTIC_FEATURES_PER_COMPONENT = 3"

definition component_rankings :: "libm \<Rightarrow> next_app_predictor \<Rightarrow> prediction_features
    \<Rightarrow> (string \<times> app_score list) list option" where
  "component_rankings M p f = (let a = np_artifact p in
     map_option (\<lambda>lift. zip ensemble_component_names
       [rank_naive_bayes M a f, rank_markov_order2 a f, rank_markov a f, rank_markov_context a f, lift,
        rank_recency a f, rank_user_frequency a f, rank_user_recency a f, rank_popularity a f])
     (rank_feature_lift M p f))"

definition sigmoid :: "libm \<Rightarrow> f32 \<Rightarrow> f32" where
  "sigmoid M x =
     (if fp_le (FFin 0) x then fp_div fmt32 (FFin 1) (fp_add fmt32 (FFin 1) (m_exp M (fp_neg x)))
      else (let e = m_exp M x in fp_div fmt32 e (fp_add fmt32 (FFin 1) e)))"

definition dot :: "f32 list \<Rightarrow> f32 list \<Rightarrow> f32" where
  "dot ws row = foldl (fp_add fmt32) (FFin 0) (map (\<lambda>(w, v). fp_mul fmt32 w v) (zip ws row))"

definition reciprocal_rank :: "f32 \<Rightarrow> nat \<Rightarrow> f32" where
  "reciprocal_rank k rank = fp_div fmt32 (FFin 1) (fp_add fmt32 k (f32_of_nat rank))"

type_synonym feature_rows = "(string, f32 list) btree_map"

definition feature_row_update :: "nat \<Rightarrow> nat \<Rightarrow> f32 \<Rightarrow> f32 list \<Rightarrow> f32 list" where
  "feature_row_update offset rank score row =
     row[offset := reciprocal_rank (FFin 1) rank, offset + 1 := score,
         offset + 2 := (if rank = 0 then FFin 1 else FFin 0)]"

definition candidate_feature_rows :: "(string \<times> app_score list) list \<Rightarrow> string option \<Rightarrow> feature_rows" where
  "candidate_feature_rows rankings current =
     foldl (\<lambda>rows (ci, (_, scores)).
       foldl (\<lambda>rows (rank, s).
           if current = Some (as_app s) then rows
           else btree_upsert (as_app s) (replicate (length logistic_feature_names) (FFin 0))
             (feature_row_update (ci * LOGISTIC_FEATURES_PER_COMPONENT) rank (as_score s)) rows)
         rows (enumerate 0 scores)) [] (enumerate 0 rankings)"

definition rank_ensemble_logistic :: "libm \<Rightarrow> next_app_predictor \<Rightarrow> prediction_features \<Rightarrow> logistic_reranker
    \<Rightarrow> app_score list option" where
  "rank_ensemble_logistic M p f m =
     map_option (\<lambda>rankings. sort_scores (map (\<lambda>(app, row). \<lparr>as_app = app, as_score = sigmoid M (dot (lr_weights m) row)\<rparr>)
         (candidate_feature_rows rankings (pf_current_app f)))) (component_rankings M p f)"

definition add_weighted :: "f32 \<Rightarrow> score_map \<Rightarrow> app_score list \<Rightarrow> score_map" where
  "add_weighted w m scores = foldl (\<lambda>m s. add_score (as_app s) (fp_mul fmt32 w (as_score s)) m) m scores"

definition rank_ensemble_legacy :: "libm \<Rightarrow> next_app_predictor \<Rightarrow> prediction_features \<Rightarrow> app_score list option" where
  "rank_ensemble_legacy M p f = map_option (\<lambda>lift.
     ranked_map (add_weighted (f32_lit (30 / 100))
       (add_weighted (f32_lit (40 / 100))
         (add_weighted (f32_lit (30 / 100)) [] (rank_naive_bayes M (np_artifact p) f))
         (rank_markov (np_artifact p) f)) lift)) (rank_feature_lift M p f)"

definition rrf_contribution :: "f32 \<Rightarrow> nat \<Rightarrow> f32 \<Rightarrow> f32" where
  "rrf_contribution w rank score =
     fp_mul fmt32 w (fp_add fmt32 (reciprocal_rank RRF_K rank) (fp_mul fmt32 MAGNITUDE_BLEND score))"

definition add_ranking :: "f32 \<Rightarrow> score_map \<Rightarrow> app_score list \<Rightarrow> score_map" where
  "add_ranking w m scores =
     foldl (\<lambda>m (rank, s). add_score (as_app s) (rrf_contribution w rank (as_score s)) m) m (enumerate 0 scores)"

definition rank_ensemble_rrf :: "libm \<Rightarrow> next_app_predictor \<Rightarrow> prediction_features \<Rightarrow> ensemble_combiner
    \<Rightarrow> app_score list option" where
  "rank_ensemble_rrf M p f c = map_option (\<lambda>rankings.
     ranked_map (foldl (\<lambda>m (name, scores). case weight_of c name of
         None \<Rightarrow> m
       | Some w \<Rightarrow> if fp_eq w (FFin 0) then m else add_ranking w m scores) [] rankings)) (component_rankings M p f)"

definition rank_ensemble :: "libm \<Rightarrow> next_app_predictor \<Rightarrow> prediction_features \<Rightarrow> app_score list option" where
  "rank_ensemble M p f =
     (let a = np_artifact p in
      if \<not> reranker_is_empty (na_ensemble_logistic a) then rank_ensemble_logistic M p f (na_ensemble_logistic a)
      else if combiner_is_empty (na_ensemble_combiner a) then rank_ensemble_legacy M p f
      else rank_ensemble_rrf M p f (na_ensemble_combiner a))"

section \<open>Ranking (predictor.rs)\<close>

definition filter_current_app :: "string option \<Rightarrow> app_score list \<Rightarrow> app_score list" where
  "filter_current_app current scores = filter (\<lambda>s. current \<noteq> Some (as_app s)) scores"

fun rank_algorithm :: "libm \<Rightarrow> next_app_predictor \<Rightarrow> prediction_features \<Rightarrow> next_app_algorithm
    \<Rightarrow> app_score list option" where
  "rank_algorithm M p f NaiveBayes = Some (rank_naive_bayes M (np_artifact p) f)"
| "rank_algorithm M p f Markov = Some (rank_markov (np_artifact p) f)"
| "rank_algorithm M p f FeatureLift = rank_feature_lift M p f"
| "rank_algorithm M p f Ensemble = rank_ensemble M p f"

definition predictor_rank :: "libm \<Rightarrow> next_app_predictor \<Rightarrow> prediction_features \<Rightarrow> next_app_algorithm \<Rightarrow> usize
    \<Rightarrow> app_score list option" where
  "predictor_rank M p f algorithm k = map_option (\<lambda>scores.
     (let scores = filter_current_app (pf_current_app f) scores;
          scores = (if scores = [] then filter_current_app (pf_current_app f) (na_global_popularity (np_artifact p))
            else scores) in take k scores)) (rank_algorithm M p f algorithm)"

section \<open>What a checked artifact guarantees\<close>

definition scores_ok :: "string list \<Rightarrow> app_score list \<Rightarrow> bool" where
  "scores_ok vocab xs \<longleftrightarrow> distinct (map as_app xs) \<and> set (map as_app xs) \<subseteq> set vocab"

lemma check_each_None: "check_each f xs = None \<longleftrightarrow> (\<forall>i < length xs. f (take i xs) (xs ! i) = None)"
proof -
  have "set (enumerate 0 xs) = (\<lambda>i. (i, xs ! i)) ` {..<length xs}"
    by (auto simp: enum_simps image_iff)
  then show ?thesis by (auto simp: check_each_def first_error_None)
qed

lemma distinct_by_prefix: "distinct (map f xs) \<longleftrightarrow> (\<forall>i < length xs. f (xs ! i) \<notin> f ` set (take i xs))"
proof (induction xs rule: rev_induct)
  case (snoc x xs)
  have "(\<forall>i < length (xs @ [x]). f ((xs @ [x]) ! i) \<notin> f ` set (take i (xs @ [x]))) \<longleftrightarrow>
      (\<forall>i < length xs. f (xs ! i) \<notin> f ` set (take i xs)) \<and> f x \<notin> f ` set xs"
    by (auto simp: less_Suc_eq nth_append)
  with snoc show ?case by auto
qed simp

lemma validate_score_list_None:
  "validate_score_list label xs vocab full = None \<longleftrightarrow>
     scores_ok vocab xs \<and> (full \<longrightarrow> length xs = card (set vocab))"
proof -
  have "set (map as_app xs) \<subseteq> set vocab \<longleftrightarrow> (\<forall>i < length xs. as_app (xs ! i) \<in> set vocab)"
    by (simp add: all_set_conv_all_nth image_subset_iff)
  then show ?thesis
    by (auto simp: validate_score_list_def first_error_None check_each_None scores_ok_def distinct_by_prefix)
qed

lemma scores_ok_simps [simp]: "scores_ok vocab []"
  by (simp add: scores_ok_def)

lemma scores_ok_sort [simp]: "scores_ok vocab (sort_by le xs) = scores_ok vocab xs"
proof -
  have "mset (map as_app (sort_by le xs)) = mset (map as_app xs)" by simp
  then have "distinct (map as_app (sort_by le xs)) = distinct (map as_app xs)"
    by (rule mset_eq_imp_distinct_iff)
  then show ?thesis by (simp add: scores_ok_def)
qed

text \<open>An artifact that passes: every list it holds ranks apps of the vocabulary, each once.\<close>

definition table_ok :: "string list \<Rightarrow> score_table \<Rightarrow> bool" where
  "table_ok vocab t \<longleftrightarrow> (\<forall>(key, scores) \<in> set t. scores_ok vocab scores)"

lemma table_okD: "table_ok vocab t \<Longrightarrow> get_opt t k = Some s \<Longrightarrow> scores_ok vocab s"
  by (auto simp: table_ok_def get_opt_def btree_get_def dest: map_of_SomeD split: Option.bind_splits)

definition artifact_ok :: "next_app_artifact \<Rightarrow> bool" where
  "artifact_ok a \<longleftrightarrow> (let vocab = na_app_vocab a; mk = na_markov a in
     vocab \<noteq> [] \<and> distinct vocab
     \<and> length (nb_class_log_priors (na_naive_bayes a)) = length vocab
     \<and> length (fl_base_scores (na_feature_lift a)) = length vocab
     \<and> scores_ok vocab (na_global_popularity a) \<and> length (na_global_popularity a) = length vocab
     \<and> table_ok vocab (mk_global_transitions mk) \<and> table_ok vocab (mk_user_transitions mk)
     \<and> table_ok vocab (mk_global_transitions_order2 mk) \<and> table_ok vocab (na_markov_context a)
     \<and> table_ok vocab (na_user_frequency a)
     \<and> (\<forall>t \<in> set (fl_trees (na_feature_lift a)). scores_ok vocab (ft_yes_scores t))
     \<and> (\<forall>(key, app) \<in> set (na_user_recency a). app \<in> set vocab))"

lemma validated_artifact_ok:
  assumes "validate_artifact a = None"
  shows "artifact_ok a"
proof -
  from assms have v: "check_vocab a = None" and t: "check_tables a = None"
    by (simp_all add: validate_artifact_def first_error_None)
  from v have vocab: "distinct (na_app_vocab a)" "na_app_vocab a \<noteq> []"
    "length (nb_class_log_priors (na_naive_bayes a)) = length (na_app_vocab a)"
    "length (fl_base_scores (na_feature_lift a)) = length (na_app_vocab a)"
    using distinct_by_prefix [of "\<lambda>x. x" "na_app_vocab a"]
    by (auto simp: check_vocab_def Let_def first_error_None check_each_None)
  from t show ?thesis
    using vocab unfolding artifact_ok_def table_ok_def Let_def
    by (auto simp: check_tables_def Let_def first_error_None validate_score_list_None distinct_card)
qed

section \<open>Every ranker ranks the vocabulary\<close>

lemma scores_ok_or_empty: "(\<And>s. x = Some s \<Longrightarrow> scores_ok vocab s) \<Longrightarrow> scores_ok vocab (or_empty x)"
  by (auto simp: or_empty_def split: option.split)

lemma length_add_vec [simp]: "length (add_vec ts vs) = length ts"
  by (induction ts vs rule: add_vec.induct) auto

lemma scores_ok_zip:
  assumes "distinct vocab"
  shows "scores_ok vocab (map (\<lambda>(app, v). \<lparr>as_app = app, as_score = h v\<rparr>) (zip vocab ys))"
proof -
  have "map as_app (map (\<lambda>(app, v). \<lparr>as_app = app, as_score = h v\<rparr>) (zip vocab ys)) =
      take (min (length vocab) (length ys)) vocab"
    by (simp add: comp_def case_prod_unfold map_fst_zip_take)
  then show ?thesis using assms by (simp add: scores_ok_def set_take_subset del: map_map)
qed

lemma scores_ok_logits: "distinct vocab \<Longrightarrow> scores_ok vocab (rank_from_logits M vocab logits)"
  unfolding rank_from_logits_def Let_def scores_ok_sort by (rule scores_ok_zip)

lemma rank_naive_bayes_ok: "artifact_ok a \<Longrightarrow> scores_ok (na_app_vocab a) (rank_naive_bayes M a f)"
  by (simp add: rank_naive_bayes_def Let_def scores_ok_logits artifact_ok_def)

lemma first_some_Some: "first_some xs = Some s \<Longrightarrow> Some s \<in> set xs"
  by (induction xs rule: first_some.induct) auto

lemma rank_markov_ok: "artifact_ok a \<Longrightarrow> scores_ok (na_app_vocab a) (rank_markov a f)"
  by (auto simp: rank_markov_def Let_def artifact_ok_def dest!: first_some_Some
      dest: table_okD [OF _ sym] split: option.split)

lemma table_get_ok: "table_ok vocab t \<Longrightarrow> scores_ok vocab (or_empty (btree_get t k))"
  using table_okD [of vocab t "Some k"] by (intro scores_ok_or_empty) (simp add: get_opt_def)

lemma table_get_opt_ok: "table_ok vocab t \<Longrightarrow> scores_ok vocab (or_empty (get_opt t k))"
  using table_okD by (intro scores_ok_or_empty)

lemma table_rankers_ok:
  assumes "artifact_ok a"
  shows "scores_ok (na_app_vocab a) (rank_markov_order2 a f)" "scores_ok (na_app_vocab a) (rank_recency a f)"
    "scores_ok (na_app_vocab a) (rank_user_frequency a f)" "scores_ok (na_app_vocab a) (rank_popularity a f)"
  using assms
  by (auto simp: rank_markov_order2_def rank_recency_def rank_user_frequency_def rank_popularity_def artifact_ok_def
      table_get_ok table_get_opt_ok Let_def split: option.split)

lemma rank_user_recency_ok: "artifact_ok a \<Longrightarrow> scores_ok (na_app_vocab a) (rank_user_recency a f)"
  by (auto simp: rank_user_recency_def artifact_ok_def scores_ok_def get_opt_def btree_get_def Let_def
      dest!: map_of_SomeD split: option.split Option.bind_splits)

text \<open>A score map built by adding scores has the apps added, in order and each once.\<close>

definition map_ok :: "string list \<Rightarrow> (string, 'a) btree_map \<Rightarrow> bool" where
  "map_ok vocab m \<longleftrightarrow> btree_invar m \<and> fst ` set m \<subseteq> set vocab"

lemma map_ok_Nil [simp]: "map_ok vocab []"
  by (simp add: map_ok_def btree_invar_def)

lemma map_ok_upsert: "map_ok vocab m \<Longrightarrow> k \<in> set vocab \<Longrightarrow> map_ok vocab (btree_upsert k d g m)"
  by (simp add: map_ok_def btree_upsert_invar btree_upsert_keys)

lemma map_ok_foldl:
  assumes "\<And>m x. x \<in> set xs \<Longrightarrow> map_ok vocab m \<Longrightarrow> map_ok vocab (g m x)" "map_ok vocab m"
  shows "map_ok vocab (foldl g m xs)"
  using assms by (induction xs arbitrary: m) auto

lemma scores_ok_of_map:
  "map_ok vocab m \<Longrightarrow> scores_ok vocab (sort_scores (map (\<lambda>(app, v). \<lparr>as_app = app, as_score = h v\<rparr>) m))"
  unfolding scores_ok_sort
  by (auto simp: map_ok_def scores_ok_def comp_def case_prod_unfold dest: btree_invar_distinct)

lemma ranked_map_ok: "map_ok vocab m \<Longrightarrow> scores_ok vocab (ranked_map m)"
  unfolding ranked_map_def by (rule scores_ok_of_map)

lemma map_ok_add:
  assumes "set (map as_app scores) \<subseteq> set vocab" "map_ok vocab m"
  shows "map_ok vocab (foldl (\<lambda>m s. add_score (as_app s) (h s) m) m scores)"
  by (rule map_ok_foldl [OF _ assms(2)]) (use assms(1) in \<open>auto simp: add_score_def map_ok_upsert\<close>)

lemma rank_markov_context_ok:
  assumes "artifact_ok a"
  shows "scores_ok (na_app_vocab a) (rank_markov_context a f)"
proof -
  have "set (map as_app (or_empty (get_opt (na_markov_context a) k))) \<subseteq> set (na_app_vocab a)" for k
    using table_get_opt_ok [of "na_app_vocab a" "na_markov_context a" k] assms
    by (simp add: artifact_ok_def scores_ok_def Let_def)
  then have "scores_ok (na_app_vocab a) (ranked_map (foldl (\<lambda>m s. add_score (as_app s) (as_score s) m) []
      (or_empty (get_opt (na_markov_context a) h) @ or_empty (get_opt (na_markov_context a) w))))" for h w
    by (intro ranked_map_ok map_ok_add) auto
  then show ?thesis by (simp add: rank_markov_context_def Let_def split: option.split)
qed

lemma index_fold_get:
  assumes "btree_invar m" "btree_get (foldl (\<lambda>m (i, app). btree_upsert app i (\<lambda>_. i) m) m xs) app = Some i"
  shows "i \<in> set (map fst xs) \<or> btree_get m app = Some i"
  using assms
proof (induction xs arbitrary: m)
  case (Cons x xs)
  obtain n b where x: "x = (n, b)" by fastforce
  from Cons.IH [OF btree_upsert_invar [OF Cons.prems(1)]] Cons.prems(2)
  have "i \<in> set (map fst xs) \<or> btree_get (btree_upsert b n (\<lambda>_. n) m) app = Some i" by (simp add: x)
  then show ?case by (auto simp: x btree_upsert_get [OF Cons.prems(1)] split: if_splits)
qed simp

lemma index_apps_get: "btree_get (index_apps vocab) app = Some i \<Longrightarrow> i < length vocab"
  unfolding index_apps_def
  by (drule index_fold_get [OF btree_empty(1)]) (simp only: enumerate_fst btree_empty(2), simp)

text \<open>The index of a predictor over a checked artifact never leaves the score vector.\<close>

definition predictor_ok :: "next_app_predictor \<Rightarrow> bool" where
  "predictor_ok p \<longleftrightarrow> artifact_ok (np_artifact p) \<and> np_app_index p = index_apps (na_app_vocab (np_artifact p))"

lemma predictor_new_ok: "predictor_new a = Inr p \<Longrightarrow> predictor_ok p \<and> np_artifact p = a"
  by (auto simp: predictor_new_def predictor_ok_def validated_artifact_ok split: option.splits)

lemma add_lift_total:
  assumes "\<And>app i. btree_get idx app = Some i \<Longrightarrow> i < n" "length scores = n"
  shows "\<exists>r. foldl (add_lift idx) (Some scores) xs = Some r \<and> length r = n"
  using assms(2)
proof (induction xs arbitrary: scores)
  case (Cons x xs)
  have "\<exists>r. add_lift idx (Some scores) x = Some r \<and> length r = n"
    using Cons.prems assms(1) by (auto simp: add_lift_def add_at_def split: option.split)
  with Cons.IH show ?case by auto
qed simp

lemma rank_feature_lift_ok:
  assumes "predictor_ok p"
  shows "\<exists>r. rank_feature_lift M p f = Some r \<and> scores_ok (na_app_vocab (np_artifact p)) r"
proof -
  let ?a = "np_artifact p"
  have "length (fl_base_scores (na_feature_lift ?a)) = length (na_app_vocab ?a)" "distinct (na_app_vocab ?a)"
    using assms by (simp_all add: predictor_ok_def artifact_ok_def Let_def)
  moreover have "btree_get (np_app_index p) app = Some i \<Longrightarrow> i < length (na_app_vocab ?a)" for app i
    using assms index_apps_get by (simp add: predictor_ok_def)
  ultimately show ?thesis
    using add_lift_total [of "np_app_index p" "length (na_app_vocab ?a)" "fl_base_scores (na_feature_lift ?a)"]
    by (fastforce simp: rank_feature_lift_def Let_def scores_ok_logits)
qed

lemma component_rankings_ok:
  assumes "predictor_ok p"
  shows "\<exists>rs. component_rankings M p f = Some rs \<and> map fst rs = ensemble_component_names
     \<and> (\<forall>r \<in> set rs. scores_ok (na_app_vocab (np_artifact p)) (snd r))"
proof -
  obtain lift where lift: "rank_feature_lift M p f = Some lift" "scores_ok (na_app_vocab (np_artifact p)) lift"
    using rank_feature_lift_ok [OF assms] by blast
  have a: "artifact_ok (np_artifact p)" using assms by (simp add: predictor_ok_def)
  show ?thesis
    using lift(2) table_rankers_ok [OF a, of f] rank_markov_ok [OF a, of f] rank_naive_bayes_ok [OF a, of M f]
      rank_user_recency_ok [OF a, of f] rank_markov_context_ok [OF a, of f]
    by (simp add: component_rankings_def Let_def lift(1) ensemble_component_names_def)
qed

lemma enumerate_elem: "(i, x) \<in> set (enumerate n xs) \<Longrightarrow> x \<in> set xs"
  by (auto simp: enum_simps)

lemma add_ranking_ok:
  assumes "scores_ok vocab scores" "map_ok vocab m"
  shows "map_ok vocab (add_ranking w m scores)"
  unfolding add_ranking_def
  by (rule map_ok_foldl [OF _ assms(2)])
     (use assms(1) in \<open>auto simp: add_score_def scores_ok_def dest: enumerate_elem intro!: map_ok_upsert\<close>)

lemma add_weighted_ok: "scores_ok vocab scores \<Longrightarrow> map_ok vocab m \<Longrightarrow> map_ok vocab (add_weighted w m scores)"
  unfolding add_weighted_def by (rule map_ok_add) (auto simp: scores_ok_def)

lemma candidate_rows_ok:
  assumes "\<forall>r \<in> set rs. scores_ok vocab (snd r)"
  shows "map_ok vocab (candidate_feature_rows rs current)"
  unfolding candidate_feature_rows_def
  by (rule map_ok_foldl, unfold case_prod_unfold, rule map_ok_foldl)
     (use assms in \<open>fastforce simp: scores_ok_def dest: enumerate_elem intro!: map_ok_upsert\<close>)+

lemma rank_ensemble_ok:
  assumes "predictor_ok p"
  shows "\<exists>r. rank_ensemble M p f = Some r \<and> scores_ok (na_app_vocab (np_artifact p)) r"
proof -
  let ?v = "na_app_vocab (np_artifact p)"
  obtain lift where lift: "rank_feature_lift M p f = Some lift" "scores_ok ?v lift"
    using rank_feature_lift_ok [OF assms] by blast
  obtain rs where rs: "component_rankings M p f = Some rs" "\<forall>r \<in> set rs. scores_ok ?v (snd r)"
    using component_rankings_ok [OF assms] by blast
  have a: "artifact_ok (np_artifact p)" using assms by (simp add: predictor_ok_def)
  have "map_ok ?v (foldl (\<lambda>m (name, scores). case weight_of c name of None \<Rightarrow> m
       | Some w \<Rightarrow> if fp_eq w (FFin 0) then m else add_ranking w m scores) [] rs)" for c
    by (rule map_ok_foldl) (use rs(2) in \<open>auto intro!: add_ranking_ok split: option.split\<close>)
  then have "\<exists>r. rank_ensemble_rrf M p f c = Some r \<and> scores_ok ?v r" for c
    by (simp add: rank_ensemble_rrf_def rs(1) ranked_map_ok)
  moreover have "\<exists>r. rank_ensemble_legacy M p f = Some r \<and> scores_ok ?v r"
    by (simp add: rank_ensemble_legacy_def lift(1))
       (intro ranked_map_ok add_weighted_ok lift(2) rank_markov_ok rank_naive_bayes_ok a map_ok_Nil)
  moreover have "\<exists>r. rank_ensemble_logistic M p f m = Some r \<and> scores_ok ?v r" for m
    using scores_ok_of_map [OF candidate_rows_ok [OF rs(2)]] by (simp add: rank_ensemble_logistic_def rs(1))
  ultimately show ?thesis by (simp add: rank_ensemble_def Let_def)
qed

lemma rank_algorithm_ok:
  "predictor_ok p \<Longrightarrow> \<exists>r. rank_algorithm M p f alg = Some r \<and> scores_ok (na_app_vocab (np_artifact p)) r"
  by (cases alg)
     (auto simp: predictor_ok_def rank_naive_bayes_ok rank_markov_ok rank_feature_lift_ok rank_ensemble_ok)

lemma scores_ok_filter:
  "scores_ok vocab xs \<Longrightarrow> distinct (map as_app (filter_current_app c xs))
     \<and> set (map as_app (filter_current_app c xs)) \<subseteq> set vocab - set_option c"
  by (auto simp: scores_ok_def filter_current_app_def distinct_map inj_on_def)

lemma predictor_rank_ok:
  assumes "predictor_new a = Inr p"
  shows "\<exists>r. predictor_rank M p f algorithm k = Some r \<and> length r \<le> k \<and> distinct (map as_app r)
     \<and> set (map as_app r) \<subseteq> set (na_app_vocab a) - set_option (pf_current_app f)
     \<and> (0 < k \<and> set (na_app_vocab a) - set_option (pf_current_app f) \<noteq> {} \<longrightarrow> r \<noteq> [])"
proof -
  let ?v = "na_app_vocab a" and ?c = "pf_current_app f" and ?pop = "na_global_popularity a"
  from assms have p: "predictor_ok p" "np_artifact p = a" by (auto dest: predictor_new_ok)
  then have pop: "scores_ok ?v ?pop" "length ?pop = length ?v" "distinct ?v"
    by (simp_all add: predictor_ok_def artifact_ok_def Let_def)
  then have "card (set (map as_app ?pop)) = card (set ?v)"
    using distinct_card [of "map as_app ?pop"] by (simp add: scores_ok_def distinct_card)
  with pop(1) have full: "set (map as_app ?pop) = set ?v"
    by (intro card_subset_eq) (auto simp: scores_ok_def)
  obtain s where s: "rank_algorithm M p f algorithm = Some s" "scores_ok ?v s"
    using rank_algorithm_ok [OF p(1)] p(2) by blast
  define t where "t = (let x = filter_current_app ?c s in if x = [] then filter_current_app ?c ?pop else x)"
  have r: "predictor_rank M p f algorithm k = Some (take k t)"
    by (simp add: predictor_rank_def s(1) p(2) t_def Let_def)
  have t: "distinct (map as_app t)" "set (map as_app t) \<subseteq> set ?v - set_option ?c"
    using scores_ok_filter [OF s(2), of ?c] scores_ok_filter [OF pop(1), of ?c] by (auto simp: t_def Let_def)
  have "t \<noteq> []" if "set ?v - set_option ?c \<noteq> {}"
  proof -
    from that obtain x where "x \<in> set (map as_app ?pop)" "?c \<noteq> Some x" unfolding full by fastforce
    then have "filter_current_app ?c ?pop \<noteq> []" by (auto simp: filter_current_app_def filter_empty_conv)
    then show ?thesis by (simp add: t_def Let_def)
  qed
  with r t show ?thesis
    by (auto simp: take_map [symmetric] dest: in_set_takeD)
qed

text \<open>C15: a ranking stays inside the model. Over an artifact that passed the checks, with any algorithm and any
  features, \<open>predictor_rank\<close> never indexes out of range, and gives at most \<open>k\<close> apps of the vocabulary, each once
  and never the current app; and it gives at least one as long as one is asked for and the vocabulary has an app
  that is not the current one. Panics of the standard sort are excluded: the checks admit scores whose sums
  are not numbers, the comparator is then no total order (it is one on numbers), and \<open>sort_by\<close> may panic on
  it; the statement does not speak of a run that ends so.\<close>

theorem rank_within_vocabulary:
  assumes "predictor_new a = Inr p"
  shows "\<exists>r. predictor_rank M p f algorithm k = Some r \<and> length r \<le> k \<and> distinct (map as_app r)
     \<and> set (map as_app r) \<subseteq> set (na_app_vocab a) - set_option (pf_current_app f)
     \<and> (0 < k \<and> set (na_app_vocab a) - set_option (pf_current_app f) \<noteq> {} \<longrightarrow> r \<noteq> [])"
  using assms by (rule predictor_rank_ok)

end
