(* ===== verification/Next_App_Train.thy ===== *)
theory Next_App_Train
  imports Next_App_Model
begin

text \<open>
  Training the next-app model (\<open>aios-agent/src/backends/predictive/train.rs\<close>) and fitting its ensemble
  (\<open>ensemble.rs\<close>): one pass of counting over the examples, the tables and probabilities derived from the
  counts, the coordinate ascent over the fusion weights and the pairwise logistic reranker, both on a held-out
  slice. Counts are \<open>u32\<close>s. A list indexed here has the length its construction gives it: one weight and one
  ranking per component, one entry per feature of a row.

  The lemmas: what is counted is exactly the examples' transitions; the ascent never loses a hit; and a trained
  artifact passes every check the predictor makes, as long as no app name contains a tab.
\<close>

section \<open>Counting (train.rs)\<close>

type_synonym app_counts = "(string, u32) btree_map"
type_synonym count_table = "(string, app_counts) btree_map"

definition bump_count :: "string \<Rightarrow> string \<Rightarrow> count_table \<Rightarrow> count_table" where
  "bump_count k l t = btree_upsert k [] (btree_upsert l 0 (\<lambda>n. n + 1)) t"

text \<open>The elements of a \<open>BTreeSet\<close> after inserting a list.\<close>

definition btree_set :: "'a::linorder list \<Rightarrow> 'a list" where
  "btree_set xs = map fst (foldl (\<lambda>m x. btree_upsert x () (\<lambda>_. ()) m) [] xs)"

record train_state =
  tr_class_counts :: "u32 list"
  tr_feature_counts :: "(string, u32 list) btree_map"
  tr_feature_frequency :: app_counts
  tr_global :: count_table
  tr_user :: count_table
  tr_order2 :: count_table
  tr_temporal :: count_table
  tr_user_frequency :: count_table
  tr_user_recency :: "(string, string) btree_map"

definition empty_train_state :: "usize \<Rightarrow> train_state" where
  "empty_train_state classes =
     \<lparr>tr_class_counts = replicate classes 0, tr_feature_counts = [], tr_feature_frequency = [], tr_global = [],
      tr_user = [], tr_order2 = [], tr_temporal = [], tr_user_frequency = [], tr_user_recency = []\<rparr>"

definition inc_at :: "usize \<Rightarrow> u32 list \<Rightarrow> u32 list" where
  "inc_at i xs = xs[i := xs ! i + 1]"

definition training_features :: "training_example \<Rightarrow> string list" where
  "training_features e = feature_keys (features_for_example e)"

definition previous_app :: "training_example \<Rightarrow> string option" where
  "previous_app e = List.find (\<lambda>app. app \<noteq> te_current_app e) (rev (te_history e))"

definition count_feature :: "usize \<Rightarrow> usize \<Rightarrow> train_state \<Rightarrow> string \<Rightarrow> train_state" where
  "count_feature classes i st feature =
     st\<lparr>tr_feature_counts := btree_upsert feature (replicate classes 0) (inc_at i) (tr_feature_counts st),
        tr_feature_frequency := btree_upsert feature 0 (\<lambda>n. n + 1) (tr_feature_frequency st)\<rparr>"

definition train_step :: "(string, usize) btree_map \<Rightarrow> usize \<Rightarrow> train_state \<Rightarrow> training_example
    \<Rightarrow> string + train_state" where
  "train_step idx classes st e =
     (case btree_get idx (te_label_app e) of
        None \<Rightarrow> Inl (''label not in vocab: '' @ te_label_app e)
      | Some i \<Rightarrow>
          (let user = te_user_id e; current = te_current_app e; label = te_label_app e;
               st = st\<lparr>tr_class_counts := inc_at i (tr_class_counts st),
                  tr_user_frequency := bump_count user label (tr_user_frequency st),
                  tr_user_recency := btree_upsert (user_transition_key user current) label (\<lambda>_. label)
                    (tr_user_recency st)\<rparr>;
               st = foldl (count_feature classes i) st (training_features e);
               st = st\<lparr>tr_global := bump_count current label (tr_global st),
                  tr_user := bump_count (user_transition_key user current) label (tr_user st)\<rparr>;
               st = (case previous_app e of
                   Some prev \<Rightarrow> st\<lparr>tr_order2 := bump_count (order2_key prev current) label (tr_order2 st)\<rparr>
                 | None \<Rightarrow> st) in
           Inr (st\<lparr>tr_temporal :=
             bump_count (tab_key current (show_u8 (te_weekday e))) label
               (bump_count (tab_key current (show_u8 (te_hour_bucket e))) label (tr_temporal st))\<rparr>)))"

fun train_steps :: "(string, usize) btree_map \<Rightarrow> usize \<Rightarrow> train_state \<Rightarrow> training_example list
    \<Rightarrow> string + train_state" where
  "train_steps idx classes st [] = Inr st"
| "train_steps idx classes st (e # es) =
     (case train_step idx classes st e of Inl err \<Rightarrow> Inl err | Inr st \<Rightarrow> train_steps idx classes st es)"

section \<open>From counts to scores (train.rs)\<close>

abbreviation f32_of_u32 :: "u32 \<Rightarrow> f32" where
  "f32_of_u32 n \<equiv> f32_of_nat (unat n)"

definition smoothed :: "u32 \<Rightarrow> f32 \<Rightarrow> f32" where
  "smoothed c denom = fp_div fmt32 (fp_add fmt32 (f32_of_u32 c) (FFin 1)) denom"

definition counts_to_scores :: "u32 list \<Rightarrow> string list \<Rightarrow> app_score list" where
  "counts_to_scores counts vocab =
     (let denom = fp_add fmt32 (f32_of_u32 (sum_list counts)) (f32_of_nat (length vocab)) in
      sort_scores (map (\<lambda>(app, c). \<lparr>as_app = app, as_score = smoothed c denom\<rparr>) (zip vocab counts)))"

definition counts_to_log_lift_scores :: "libm \<Rightarrow> u32 list \<Rightarrow> u32 list \<Rightarrow> string list \<Rightarrow> app_score list" where
  "counts_to_log_lift_scores M feature_counts class_counts vocab =
     (let n = f32_of_nat (length vocab);
          feature_denom = fp_add fmt32 (f32_of_u32 (sum_list feature_counts)) n;
          class_denom = fp_add fmt32 (f32_of_u32 (sum_list class_counts)) n in
      sort_scores (map (\<lambda>(i, app). \<lparr>as_app = app,
        as_score = m_ln M (fp_div fmt32 (smoothed (feature_counts ! i) feature_denom)
          (smoothed (class_counts ! i) class_denom))\<rparr>) (enumerate 0 vocab)))"

definition table_scores :: "app_counts \<Rightarrow> app_score list" where
  "table_scores counts =
     (let total = sum_list (map snd counts) in
      sort_scores (map (\<lambda>(app, c). \<lparr>as_app = app,
        as_score = fp_div fmt32 (f32_of_u32 c) (f32_of_u32 (max total 1))\<rparr>) counts))"

definition transition_scores :: "count_table \<Rightarrow> score_table" where
  "transition_scores t = map (\<lambda>(k, counts). (k, table_scores counts)) t"

definition frequency_le :: "string \<times> u32 \<Rightarrow> string \<times> u32 \<Rightarrow> bool" where
  "frequency_le a b \<longleftrightarrow> snd b < snd a \<or> (snd a = snd b \<and> fst a \<le> fst b)"

definition train_trees :: "libm \<Rightarrow> string list \<Rightarrow> train_state \<Rightarrow> feature_lift_tree list" where
  "train_trees M vocab st =
     concat (map (\<lambda>(feature, _). case btree_get (tr_feature_counts st) feature of
         Some counts \<Rightarrow> [\<lparr>ft_feature_key = feature,
           ft_yes_scores = counts_to_log_lift_scores M counts (tr_class_counts st) vocab\<rparr>]
       | None \<Rightarrow> []) (take MAX_TRAINED_FEATURES (sort_by frequency_le (tr_feature_frequency st))))"

definition train_base_artifact :: "libm \<Rightarrow> string \<Rightarrow> next_app_model_config \<Rightarrow> training_example list
    \<Rightarrow> string + next_app_artifact" where
  "train_base_artifact M dataset_id config examples =
     (if examples = [] then Inl ''cannot train next-app model with zero examples''
      else
        (let vocab = btree_set (concat (map (\<lambda>e. [te_current_app e, te_label_app e]) examples));
             classes = length vocab in
         case train_steps (index_apps vocab) classes (empty_train_state classes) examples of
           Inl err \<Rightarrow> Inl err
         | Inr st \<Rightarrow>
             (let class_counts = tr_class_counts st;
                  priors = map (\<lambda>c. m_ln M (smoothed c (fp_add fmt32 (f32_of_nat (length examples))
                    (f32_of_nat classes)))) class_counts;
                  two = (\<lambda>c. fp_add fmt32 (f32_of_u32 c) (FFin 2)) in
              Inr \<lparr>na_schema_version = NEXT_APP_SCHEMA, na_model_id = PREDICTIVE_MODEL_NAME,
                na_dataset_id = dataset_id, na_trained_at_ms = 0, na_config = config, na_app_vocab = vocab,
                na_global_popularity = counts_to_scores class_counts vocab,
                na_naive_bayes = \<lparr>nb_class_log_priors = priors,
                  nb_unknown_feature_log_probs = map (\<lambda>c. m_ln M (fp_div fmt32 (FFin 1) (two c))) class_counts,
                  nb_feature_log_probs = map (\<lambda>(feature, counts). (feature,
                    map (\<lambda>(i, c). m_ln M (smoothed c (two (class_counts ! i)))) (enumerate 0 counts)))
                    (tr_feature_counts st)\<rparr>,
                na_markov = \<lparr>mk_global_transitions = transition_scores (tr_global st),
                  mk_user_transitions = transition_scores (tr_user st),
                  mk_global_transitions_order2 = transition_scores (tr_order2 st)\<rparr>,
                na_feature_lift = \<lparr>fl_base_scores = priors, fl_trees = train_trees M vocab st\<rparr>,
                na_user_frequency = transition_scores (tr_user_frequency st),
                na_user_recency = tr_user_recency st,
                na_markov_context = transition_scores (tr_temporal st),
                na_ensemble_combiner = empty_combiner, na_ensemble_logistic = empty_reranker,
                na_training_summary = \<lparr>ts_examples = length examples,
                  ts_users = length (btree_set (map te_user_id examples)), ts_apps = classes\<rparr>\<rparr>)))"

section \<open>What the counting pass produces\<close>

lemma btree_set_fold:
  "btree_invar m \<Longrightarrow> btree_invar (foldl (\<lambda>m x. btree_upsert x () (\<lambda>_. ()) m) m xs)
     \<and> fst ` set (foldl (\<lambda>m x. btree_upsert x () (\<lambda>_. ()) m) m xs) = fst ` set m \<union> set xs"
  by (induction xs arbitrary: m) (simp_all add: btree_upsert_invar btree_upsert_keys)

lemma btree_set_props: "set (btree_set xs) = set xs" "distinct (btree_set xs)" "sorted_wrt (<) (btree_set xs)"
proof -
  let ?m = "foldl (\<lambda>m x. btree_upsert x () (\<lambda>_. ()) m) [] xs"
  have m: "btree_invar ?m" "fst ` set ?m = set xs"
    using btree_set_fold [of "[]" xs] by (simp_all add: btree_empty)
  then show "set (btree_set xs) = set xs" "distinct (btree_set xs)" "sorted_wrt (<) (btree_set xs)"
    unfolding btree_set_def by (simp_all add: btree_invar_distinct) (simp add: btree_invar_def)
qed

text \<open>A well-formed table: ordered keys, and counts of labels of the vocabulary.\<close>

definition count_table_ok :: "string set \<Rightarrow> string list \<Rightarrow> count_table \<Rightarrow> bool" where
  "count_table_ok ks vocab t \<longleftrightarrow> btree_invar t \<and> (\<forall>(k, m) \<in> set t. k \<in> ks \<and> map_ok vocab m)"

lemma set_btree_upsert: "x \<in> set (btree_upsert k d f m) \<Longrightarrow> x \<in> set m \<or> x = (k, f d) \<or> (\<exists>v. (k, v) \<in> set m \<and> x = (k, f v))"
  by (induction k d f m rule: btree_upsert.induct) (auto split: if_splits)

lemma count_table_ok_bump:
  assumes "count_table_ok ks vocab t" "k \<in> ks" "l \<in> set vocab"
  shows "count_table_ok ks vocab (bump_count k l t)"
  using assms
  by (auto simp: count_table_ok_def bump_count_def btree_upsert_invar intro!: map_ok_upsert dest!: set_btree_upsert)

lemma count_table_ok_Nil [simp]: "count_table_ok ks vocab []"
  by (simp add: count_table_ok_def btree_invar_def)

definition tab_keys :: "string set \<Rightarrow> string set" where
  "tab_keys cs = {tab_key u c | u c. c \<in> cs}"

definition train_inv :: "string list \<Rightarrow> string set \<Rightarrow> train_state \<Rightarrow> bool" where
  "train_inv vocab cs st \<longleftrightarrow>
     length (tr_class_counts st) = length vocab
     \<and> btree_invar (tr_feature_counts st)
     \<and> (\<forall>(k, v) \<in> set (tr_feature_counts st). length v = length vocab)
     \<and> count_table_ok cs vocab (tr_global st) \<and> count_table_ok (tab_keys cs) vocab (tr_user st)
     \<and> count_table_ok (tab_keys cs) vocab (tr_order2 st) \<and> count_table_ok UNIV vocab (tr_temporal st)
     \<and> count_table_ok UNIV vocab (tr_user_frequency st)
     \<and> (\<forall>(k, v) \<in> set (tr_user_recency st). k \<in> tab_keys cs \<and> v \<in> set vocab)"

lemma index_apps_total: "app \<in> set vocab \<Longrightarrow> \<exists>i. btree_get (index_apps vocab) app = Some i"
proof -
  have "btree_invar m \<Longrightarrow> app \<in> snd ` set xs \<or> btree_get m app \<noteq> None \<Longrightarrow>
      btree_get (foldl (\<lambda>m (i, app). btree_upsert app i (\<lambda>_. i) m) m xs) app \<noteq> None"
    for m :: "(string, usize) btree_map" and xs
  proof (induction xs arbitrary: m)
    case (Cons x xs)
    obtain n b where x: "x = (n, b)" by fastforce
    from Cons.IH [OF btree_upsert_invar [OF Cons.prems(1), of b n "\<lambda>_. n"]] Cons.prems(2) show ?case
      by (auto simp: x btree_upsert_get [OF Cons.prems(1)])
  qed simp
  from this [of "[]" "enumerate 0 vocab"] show "app \<in> set vocab \<Longrightarrow> ?thesis"
    by (auto simp: index_apps_def btree_empty simp flip: set_map)
qed

lemma train_inv_empty: "train_inv vocab cs (empty_train_state (length vocab))"
  by (simp add: train_inv_def empty_train_state_def btree_empty)

lemma length_inc_at [simp]: "length (inc_at i xs) = length xs"
  by (simp add: inc_at_def)

lemma train_inv_feature: "train_inv vocab cs st \<Longrightarrow> train_inv vocab cs (count_feature (length vocab) i st x)"
  by (auto simp: train_inv_def count_feature_def btree_upsert_invar dest!: set_btree_upsert)

lemma train_inv_features:
  "train_inv vocab cs st \<Longrightarrow> train_inv vocab cs (foldl (count_feature (length vocab) i) st xs)"
  by (induction xs arbitrary: st) (simp_all add: train_inv_feature)

lemma tab_keys_mem: "c \<in> cs \<Longrightarrow> user_transition_key u c \<in> tab_keys cs" "c \<in> cs \<Longrightarrow> order2_key u c \<in> tab_keys cs"
  by (auto simp: tab_keys_def user_transition_key_def order2_key_def)

lemma train_step_inv:
  assumes "train_inv vocab cs st" "te_current_app e \<in> cs" "te_label_app e \<in> set vocab"
  shows "\<exists>st'. train_step (index_apps vocab) (length vocab) st e = Inr st' \<and> train_inv vocab cs st'"
proof -
  obtain i where i: "btree_get (index_apps vocab) (te_label_app e) = Some i"
    using index_apps_total [OF assms(3)] by blast
  let ?l = "te_label_app e" and ?u = "te_user_id e" and ?c = "te_current_app e"
  define s1 where "s1 = st\<lparr>tr_class_counts := inc_at i (tr_class_counts st),
      tr_user_frequency := bump_count ?u ?l (tr_user_frequency st),
      tr_user_recency := btree_upsert (user_transition_key ?u ?c) ?l (\<lambda>_. ?l) (tr_user_recency st)\<rparr>"
  define s2 where "s2 = foldl (count_feature (length vocab) i) s1 (training_features e)"
  have "train_inv vocab cs s1"
    using assms tab_keys_mem(1) [OF assms(2)]
    by (auto simp: train_inv_def s1_def count_table_ok_bump dest!: set_btree_upsert)
  then have "train_inv vocab cs s2" unfolding s2_def by (rule train_inv_features)
  then have "train_inv vocab cs (s2\<lparr>tr_global := bump_count ?c ?l (tr_global s2),
      tr_user := bump_count (user_transition_key ?u ?c) ?l (tr_user s2)\<rparr>)" (is "train_inv _ _ ?s3")
    using assms tab_keys_mem(1) [OF assms(2)] by (simp add: train_inv_def count_table_ok_bump)
  then have "train_inv vocab cs (case previous_app e of
        Some prev \<Rightarrow> ?s3\<lparr>tr_order2 := bump_count (order2_key prev ?c) ?l (tr_order2 ?s3)\<rparr> | None \<Rightarrow> ?s3)"
    (is "train_inv _ _ ?s4")
    using assms tab_keys_mem(2) [OF assms(2)] by (simp add: train_inv_def count_table_ok_bump split: option.split)
  then have "train_inv vocab cs (?s4\<lparr>tr_temporal := bump_count (tab_key ?c (show_u8 (te_weekday e))) ?l
      (bump_count (tab_key ?c (show_u8 (te_hour_bucket e))) ?l (tr_temporal ?s4))\<rparr>)"
    using assms(3) by (simp add: train_inv_def count_table_ok_bump)
  then show ?thesis
    unfolding train_step_def i option.case Let_def s1_def [symmetric] s2_def [symmetric] by blast
qed

lemma train_steps_inv:
  "train_inv vocab cs st \<Longrightarrow> te_current_app ` set es \<subseteq> cs \<Longrightarrow> te_label_app ` set es \<subseteq> set vocab \<Longrightarrow>
     \<exists>st'. train_steps (index_apps vocab) (length vocab) st es = Inr st' \<and> train_inv vocab cs st'"
proof (induction es arbitrary: st)
  case (Cons e es)
  obtain st' where "train_step (index_apps vocab) (length vocab) st e = Inr st'" "train_inv vocab cs st'"
    using train_step_inv [OF Cons.prems(1), of e] Cons.prems(2,3) by auto
  with Cons show ?case by auto
qed simp

section \<open>A trained artifact passes the checks\<close>

lemma scores_ok_table: "map_ok vocab m \<Longrightarrow> scores_ok vocab (table_scores m)"
  unfolding table_scores_def Let_def by (rule scores_ok_of_map)

lemma transition_scores_ok:
  assumes "count_table_ok ks vocab t" "(k, s) \<in> set (transition_scores t)"
  shows "scores_ok vocab s \<and> k \<in> ks"
  using assms by (auto simp: transition_scores_def count_table_ok_def scores_ok_table)

lemma full_scores:
  assumes "distinct vocab" "map as_app xs = vocab"
  shows "scores_ok vocab xs \<and> length xs = length vocab"
  using assms by (auto simp: scores_ok_def)

lemma counts_to_scores_full:
  assumes "distinct vocab" "length counts = length vocab"
  shows "scores_ok vocab (counts_to_scores counts vocab) \<and> length (counts_to_scores counts vocab) = length vocab"
  unfolding counts_to_scores_def Let_def scores_ok_sort length_sort_by
  by (rule full_scores [OF assms(1)]) (simp add: comp_def case_prod_unfold map_fst_zip assms(2))

lemma log_lift_full:
  assumes "distinct vocab"
  shows "scores_ok vocab (counts_to_log_lift_scores M fc cc vocab) \<and> length (counts_to_log_lift_scores M fc cc vocab) = length vocab"
proof -
  have "map snd (enumerate 0 vocab) = vocab" by (simp add: enumerate_eq_zip)
  then show ?thesis
    unfolding counts_to_log_lift_scores_def Let_def scores_ok_sort length_sort_by
    by (intro full_scores [OF assms]) (simp add: comp_def case_prod_unfold)
qed

lemma tab_key_ok:
  assumes "key \<in> tab_keys cs" "cs \<subseteq> set vocab" "\<And>c. c \<in> cs \<Longrightarrow> tab \<notin> set c"
  shows "check_tab_key vocab x y z key = None"
proof -
  from assms(1) obtain u c where k: "key = u @ [tab] @ c" and c: "c \<in> cs" by (auto simp: tab_keys_def tab_key_def)
  have "after_last tab key = Some c"
    using assms(3) [OF c] by (simp add: k after_last_def takeWhile_append)
  with assms(2) c show ?thesis by (auto simp: check_tab_key_def)
qed

lemma base_artifact_valid:
  assumes "examples \<noteq> []" "\<And>e. e \<in> set examples \<Longrightarrow> tab \<notin> set (te_current_app e)"
  shows "\<exists>a. train_base_artifact M ds config examples = Inr a \<and> check_vocab a = None \<and> check_tables a = None
     \<and> na_app_vocab a = btree_set (concat (map (\<lambda>e. [te_current_app e, te_label_app e]) examples))"
proof -
  let ?v = "btree_set (concat (map (\<lambda>e. [te_current_app e, te_label_app e]) examples))"
  let ?cs = "te_current_app ` set examples"
  have v: "distinct ?v" "?cs \<subseteq> set ?v" "te_label_app ` set examples \<subseteq> set ?v" "?v \<noteq> []"
    using assms(1) by (auto simp: btree_set_props simp flip: set_empty)
  obtain st where st: "train_steps (index_apps ?v) (length ?v) (empty_train_state (length ?v)) examples = Inr st"
    and inv: "train_inv ?v ?cs st"
    using train_steps_inv [OF train_inv_empty subset_refl v(3)] by blast
  have len: "length (tr_class_counts st) = length ?v" using inv by (simp add: train_inv_def)
  have tabs: "check_tab_key ?v x y z key = None" if "key \<in> tab_keys ?cs" for x y z key
    by (rule tab_key_ok [OF that v(2)]) (use assms(2) in auto)
  have fc: "length y = length ?v" if "(k, y) \<in> set (tr_feature_counts st)" for k y
    using inv that by (auto simp: train_inv_def)
  obtain a where a: "train_base_artifact M ds config examples = Inr a"
    using assms(1) by (simp add: train_base_artifact_def Let_def st)
  have tables: "na_app_vocab a = ?v" "na_global_popularity a = counts_to_scores (tr_class_counts st) ?v"
    "mk_global_transitions (na_markov a) = transition_scores (tr_global st)"
    "mk_user_transitions (na_markov a) = transition_scores (tr_user st)"
    "mk_global_transitions_order2 (na_markov a) = transition_scores (tr_order2 st)"
    "na_markov_context a = transition_scores (tr_temporal st)"
    "na_user_frequency a = transition_scores (tr_user_frequency st)"
    "na_user_recency a = tr_user_recency st" "fl_trees (na_feature_lift a) = train_trees M ?v st"
    "na_schema_version a = NEXT_APP_SCHEMA"
    "length (nb_class_log_priors (na_naive_bayes a)) = length ?v"
    "length (nb_unknown_feature_log_probs (na_naive_bayes a)) = length ?v"
    "length (fl_base_scores (na_feature_lift a)) = length ?v"
    "\<forall>kv \<in> set (nb_feature_log_probs (na_naive_bayes a)). length (snd kv) = length ?v"
    using a assms(1) len
    by (auto simp: train_base_artifact_def Let_def st dest!: fc)
  have trees: "scores_ok ?v (ft_yes_scores t) \<and> length (ft_yes_scores t) = length ?v"
    if "t \<in> set (fl_trees (na_feature_lift a))" for t
    using that log_lift_full [OF v(1)] by (auto simp: tables train_trees_def split: option.splits)
  have "check_vocab a = None"
    using v(1,4) tables trees distinct_by_prefix [of "\<lambda>x. x" ?v]
    by (auto simp: check_vocab_def Let_def first_error_None check_each_None list_ex_iff)
  moreover have "check_tables a = None"
  proof -
    have rows: "scores_ok ?v s" if "\<exists>ks. count_table_ok ks ?v t" "(k, s) \<in> set (transition_scores t)" for t k s
      using that transition_scores_ok by blast
    have keys: "k \<in> ks" if "count_table_ok ks ?v t" "(k, s) \<in> set (transition_scores t)" for t k s ks
      using that transition_scores_ok by blast
    have ok: "count_table_ok ?cs ?v (tr_global st)" "count_table_ok (tab_keys ?cs) ?v (tr_user st)"
      "count_table_ok (tab_keys ?cs) ?v (tr_order2 st)" "count_table_ok UNIV ?v (tr_temporal st)"
      "count_table_ok UNIV ?v (tr_user_frequency st)"
      using inv by (simp_all add: train_inv_def)
    have recency: "k \<in> tab_keys ?cs \<and> y \<in> set ?v" if "(k, y) \<in> set (tr_user_recency st)" for k y
      using inv that by (auto simp: train_inv_def)
    have global: "k \<in> set ?v" if "(k, s) \<in> set (transition_scores (tr_global st))" for k s
      using keys [OF ok(1) that] v(2) by blast
    have card: "card (set ?v) = length ?v" using v(1) by (rule distinct_card)
    show ?thesis
      unfolding check_tables_def Let_def first_error_None tables
      using rows [OF exI [of _ ?cs], OF ok(1)] rows [OF exI, OF ok(2)] rows [OF exI, OF ok(3)]
        rows [OF exI, OF ok(4)] rows [OF exI, OF ok(5)] tabs [OF keys [OF ok(2)]] tabs [OF keys [OF ok(3)]]
        recency global trees [unfolded tables] counts_to_scores_full [OF v(1) len] tabs
      by (auto simp: validate_score_list_None first_error_None card)
  qed
  ultimately show ?thesis using a tables(1) by blast
qed

section \<open>Fitting the ensemble (ensemble.rs)\<close>

definition LOGISTIC_NEGATIVES_PER_COMPONENT :: usize where "LOGISTIC_NEGATIVES_PER_COMPONENT = 4"
definition LOGISTIC_EPOCHS :: usize where "LOGISTIC_EPOCHS = 5"
definition LOGISTIC_LR :: f32 where "LOGISTIC_LR = f32_lit (8 / 100)"
definition LOGISTIC_L2 :: f32 where "LOGISTIC_L2 = f32_lit (1 / 10000)"
definition MIN_LOGISTIC_CACHED_EXAMPLES :: usize where "MIN_LOGISTIC_CACHED_EXAMPLES = 20"
definition WEIGHT_GRID :: "f32 list" where
  "WEIGHT_GRID = map f32_lit [0, 5 / 100, 1 / 10, 2 / 10, 4 / 10, 8 / 10, 12 / 10, 16 / 10, 2, 3, 4, 6, 8, 12]"
definition MAX_ASCENT_SWEEPS :: usize where "MAX_ASCENT_SWEEPS = 6"
definition VAL_MODULUS :: usize where "VAL_MODULUS = 20"
definition VAL_CUTOFF :: usize where "VAL_CUTOFF = 3"

record cached_example =
  ce_label :: string
  ce_rankings :: "app_score list list"
  ce_rows :: feature_rows

definition cache_example :: "libm \<Rightarrow> next_app_predictor \<Rightarrow> training_example \<Rightarrow> cached_example list option" where
  "cache_example M p e = map_option (\<lambda>rankings.
     (let rows = candidate_feature_rows rankings (Some (te_current_app e)) in
      if btree_get rows (te_label_app e) = None then []
      else [\<lparr>ce_label = te_label_app e,
        ce_rankings = map (\<lambda>(_, scores). filter (\<lambda>s. as_app s \<noteq> te_current_app e) scores) rankings,
        ce_rows = rows\<rparr>])) (component_rankings M p (features_for_example e))"

definition cache_validation_examples :: "libm \<Rightarrow> next_app_predictor \<Rightarrow> training_example list
    \<Rightarrow> cached_example list option" where
  "cache_validation_examples M p examples =
     map_option concat (those (map (cache_example M p) (filter (\<lambda>e. te_label_app e \<noteq> te_current_app e) examples)))"

text \<open>\<open>max_by\<close> keeps the later of two equal elements; \<open>gt x y\<close> is "the comparator returns Greater".\<close>

fun max_by :: "('a \<Rightarrow> 'a \<Rightarrow> bool) \<Rightarrow> 'a list \<Rightarrow> 'a option" where
  "max_by gt [] = None"
| "max_by gt (x # xs) = Some (foldl (\<lambda>x y. if gt x y then x else y) x xs)"

definition top_gt :: "string \<times> f32 \<Rightarrow> string \<times> f32 \<Rightarrow> bool" where
  "top_gt a b \<longleftrightarrow> fp_lt (snd b) (snd a) \<or> (fp_cmp_eq (snd a) (snd b) \<and> fst a < fst b)"

definition weighted_scores :: "f32 list \<Rightarrow> cached_example \<Rightarrow> score_map" where
  "weighted_scores weights ex =
     foldl (\<lambda>m (ci, scores). let w = weights ! ci in if fp_eq w (FFin 0) then m else add_ranking w m scores)
       [] (enumerate 0 (ce_rankings ex))"

definition hit_rate :: "nat \<Rightarrow> nat \<Rightarrow> f64" where
  "hit_rate hits n = fp_div fmt64 (f64_lit (of_nat hits)) (f64_lit (of_nat n))"

definition weighted_hit_at_1 :: "cached_example list \<Rightarrow> f32 list \<Rightarrow> f64" where
  "weighted_hit_at_1 cached weights =
     hit_rate (length (filter (\<lambda>ex. map_option fst (max_by top_gt (weighted_scores weights ex)) = Some (ce_label ex)) cached))
       (max (length cached) 1)"

definition initial_weight :: "string \<Rightarrow> f32" where
  "initial_weight name = f32_lit
     (if name = ''markov_order2'' then 12 / 10 else if name = ''markov'' then 8 / 10
      else if name = ''markov_context'' then 5 / 10 else if name = ''recency'' then 45 / 100
      else if name = ''naive_bayes'' then 6 / 10 else if name = ''feature_lift'' then 3 / 10
      else if name = ''popularity'' then 5 / 100 else 2 / 10)"

definition try_candidate :: "cached_example list \<Rightarrow> f32 list \<Rightarrow> usize \<Rightarrow> f64 \<times> f32 \<times> bool \<Rightarrow> f32 \<Rightarrow> f64 \<times> f32 \<times> bool" where
  "try_candidate cached weights c = (\<lambda>(best_hit, best_w, improved) candidate.
     if fp_eq candidate (weights ! c) then (best_hit, best_w, improved)
     else (let hit = weighted_hit_at_1 cached (weights[c := candidate]) in
       if fp_lt best_hit hit then (hit, candidate, True) else (best_hit, best_w, improved)))"

definition ascend_component :: "cached_example list \<Rightarrow> f32 list \<times> f64 \<times> bool \<Rightarrow> usize \<Rightarrow> f32 list \<times> f64 \<times> bool" where
  "ascend_component cached = (\<lambda>(weights, best_hit, improved) c.
     let (best_hit, best_w, improved) = foldl (try_candidate cached weights c) (best_hit, weights ! c, improved) WEIGHT_GRID
     in (weights[c := best_w], best_hit, improved))"

fun ascend :: "cached_example list \<Rightarrow> nat \<Rightarrow> f32 list \<Rightarrow> f64 \<Rightarrow> f32 list" where
  "ascend cached 0 weights best_hit = weights"
| "ascend cached (Suc sweeps) weights best_hit =
     (let (weights, best_hit, improved) = foldl (ascend_component cached) (weights, best_hit, False) [0..<length weights]
      in if \<not> improved then weights else ascend cached sweeps weights best_hit)"

definition fit_rrf_combiner :: "cached_example list \<Rightarrow> ensemble_combiner" where
  "fit_rrf_combiner cached =
     (if cached = [] then empty_combiner
      else (let weights = map initial_weight ensemble_component_names in
        \<lparr>ec_components = ensemble_component_names,
         ec_weights = ascend cached MAX_ASCENT_SWEEPS weights (weighted_hit_at_1 cached weights)\<rparr>))"

definition hard_negatives :: "cached_example \<Rightarrow> string list" where
  "hard_negatives ex =
     (let apps = map as_app (concat (map (take LOGISTIC_NEGATIVES_PER_COMPONENT) (ce_rankings ex)));
          negatives = foldl push_new [] (filter (\<lambda>app. app \<noteq> ce_label ex) apps) in
      if negatives = [] then take 1 (filter (\<lambda>app. app \<noteq> ce_label ex) (map fst (ce_rows ex))) else negatives)"

definition dot_diff :: "f32 list \<Rightarrow> f32 list \<Rightarrow> f32 list \<Rightarrow> f32" where
  "dot_diff ws ps ns = dot ws (map (\<lambda>(p, n). fp_sub fmt32 p n) (zip ps ns))"

definition gradient_step :: "libm \<Rightarrow> f32 \<Rightarrow> f32 list \<Rightarrow> f32 list \<Rightarrow> f32 list \<Rightarrow> f32 list" where
  "gradient_step M lr ps ns ws =
     (let grad = fp_sub fmt32 (FFin 1) (sigmoid M (dot_diff ws ps ns)) in
      map (\<lambda>i. let w = ws ! i; diff = fp_sub fmt32 (ps ! i) (ns ! i) in
        if fp_eq diff (FFin 0) then w
        else fp_add fmt32 w (fp_mul fmt32 lr (fp_sub fmt32 (fp_mul fmt32 grad diff) (fp_mul fmt32 LOGISTIC_L2 w))))
        [0..<length ws])"

definition train_on_example :: "libm \<Rightarrow> f32 \<Rightarrow> f32 list \<times> usize \<Rightarrow> cached_example \<Rightarrow> f32 list \<times> usize" where
  "train_on_example M lr s ex = (case btree_get (ce_rows ex) (ce_label ex) of
     None \<Rightarrow> s
   | Some ps \<Rightarrow> foldl (\<lambda>(ws, updates) neg_app. case btree_get (ce_rows ex) neg_app of
         None \<Rightarrow> (ws, updates)
       | Some ns \<Rightarrow> (gradient_step M lr ps ns ws, updates + 1)) s (hard_negatives ex))"

definition learning_rate :: "nat \<Rightarrow> f32" where
  "learning_rate epoch = fp_div fmt32 LOGISTIC_LR
     (fp_add fmt32 (FFin 1) (fp_mul fmt32 (f32_of_nat epoch) (f32_lit (5 / 10))))"

definition fit_logistic_reranker :: "libm \<Rightarrow> cached_example list \<Rightarrow> logistic_reranker" where
  "fit_logistic_reranker M cached =
     (if length cached < MIN_LOGISTIC_CACHED_EXAMPLES then empty_reranker
      else
        (let (weights, updates) = foldl (\<lambda>s epoch. foldl (train_on_example M (learning_rate epoch)) s cached)
               (replicate (length logistic_feature_names) (FFin 0), 0) [0..<LOGISTIC_EPOCHS]
         in if updates = 0 then empty_reranker
            else \<lparr>lr_feature_names = logistic_feature_names, lr_weights = weights\<rparr>))"

definition row_gt :: "libm \<Rightarrow> f32 list \<Rightarrow> string \<times> f32 list \<Rightarrow> string \<times> f32 list \<Rightarrow> bool" where
  "row_gt M ws a b = top_gt (fst a, sigmoid M (dot ws (snd a))) (fst b, sigmoid M (dot ws (snd b)))"

definition logistic_hit_at_1 :: "libm \<Rightarrow> cached_example list \<Rightarrow> logistic_reranker \<Rightarrow> f64" where
  "logistic_hit_at_1 M cached m =
     (if cached = [] \<or> reranker_is_empty m then FFin 0
      else hit_rate (length (filter (\<lambda>ex. map_option fst (max_by (row_gt M (lr_weights m)) (ce_rows ex)) = Some (ce_label ex)) cached))
        (length cached))"

text \<open>Every other cached example, from position \<open>r\<close>.\<close>

definition half :: "nat \<Rightarrow> 'a list \<Rightarrow> 'a list" where
  "half r xs = map snd (filter (\<lambda>(i, _). i mod 2 = r) (enumerate 0 xs))"

definition fit_ensemble_models :: "libm \<Rightarrow> string \<Rightarrow> next_app_model_config \<Rightarrow> training_example list
    \<Rightarrow> (ensemble_combiner \<times> logistic_reranker) option" where
  "fit_ensemble_models M dataset_id config examples =
     (let is_val = (\<lambda>i. i mod VAL_MODULUS < VAL_CUTOFF);
          val_examples = map snd (filter (\<lambda>(i, _). is_val i) (enumerate 0 examples));
          fit_examples = map snd (filter (\<lambda>(i, _). \<not> is_val i) (enumerate 0 examples));
          none = Some (empty_combiner, empty_reranker) in
      if fit_examples = [] \<or> val_examples = [] then none
      else case train_base_artifact M dataset_id config fit_examples of
        Inl e \<Rightarrow> none
      | Inr fit_artifact \<Rightarrow> (case predictor_new fit_artifact of
          Inl e \<Rightarrow> none
        | Inr p \<Rightarrow> map_option (\<lambda>cached.
            (let rrf = fit_rrf_combiner cached;
                 logistic = fit_logistic_reranker M (half 0 cached);
                 gate = half 1 cached in
             (rrf, if \<not> reranker_is_empty logistic
                 \<and> (gate = [] \<or> fp_lt (logistic_hit_at_1 M gate logistic) (weighted_hit_at_1 gate (ec_weights rrf)))
               then empty_reranker else logistic)))
            (cache_validation_examples M p val_examples)))"

definition train_next_app_artifact :: "libm \<Rightarrow> string \<Rightarrow> next_app_model_config \<Rightarrow> training_example list
    \<Rightarrow> (string + next_app_artifact) option" where
  "train_next_app_artifact M dataset_id config examples =
     (case train_base_artifact M dataset_id config examples of
        Inl e \<Rightarrow> Some (Inl e)
      | Inr a \<Rightarrow> map_option (\<lambda>(rrf, logistic). Inr (a\<lparr>na_ensemble_combiner := rrf, na_ensemble_logistic := logistic\<rparr>))
          (fit_ensemble_models M dataset_id config examples))"

section \<open>The ascent\<close>

text \<open>The best hit rate is the one of the current weights, and never below the first.\<close>

definition at_least :: "f64 \<Rightarrow> f64 \<Rightarrow> bool" where
  "at_least h0 h \<longleftrightarrow> h = h0 \<or> fp_lt h0 h"

lemma at_least_trans: "at_least a b \<Longrightarrow> fp_lt b c \<Longrightarrow> at_least a c"
  by (auto simp: at_least_def intro: fp_lt_trans)

definition usable_weight :: "f32 \<Rightarrow> bool" where
  "usable_weight w \<longleftrightarrow> fp_is_finite w \<and> \<not> fp_lt w (FFin 0)"

lemma grid_usable: "list_all usable_weight WEIGHT_GRID"
  unfolding usable_weight_def by code_simp

lemma initial_usable: "list_all usable_weight (map initial_weight ensemble_component_names)"
  unfolding usable_weight_def by code_simp

lemma try_candidates:
  assumes "weighted_hit_at_1 cached (ws[c := w]) = best" "at_least h0 best" "usable_weight w"
    "list_all usable_weight grid" "foldl (try_candidate cached ws c) (best, w, imp) grid = (best', w', imp')"
  shows "weighted_hit_at_1 cached (ws[c := w']) = best' \<and> at_least h0 best' \<and> usable_weight w'"
  using assms
proof (induction grid arbitrary: best w imp)
  case (Cons g grid)
  obtain b1 w1 i1 where t: "try_candidate cached ws c (best, w, imp) g = (b1, w1, i1)" by (metis prod_cases3)
  then have "weighted_hit_at_1 cached (ws[c := w1]) = b1 \<and> at_least h0 b1 \<and> usable_weight w1"
    using Cons.prems(1-4) by (auto simp: try_candidate_def Let_def split: if_splits intro: at_least_trans)
  moreover have "list_all usable_weight grid"
    "foldl (try_candidate cached ws c) (b1, w1, i1) grid = (best', w', imp')"
    using Cons.prems(4,5) t by simp_all
  ultimately show ?case using Cons.IH [of w1 b1 i1] by blast
qed simp

definition ascent_inv :: "cached_example list \<Rightarrow> nat \<Rightarrow> f64 \<Rightarrow> f32 list \<Rightarrow> f64 \<Rightarrow> bool" where
  "ascent_inv cached n h0 ws best \<longleftrightarrow> length ws = n \<and> list_all usable_weight ws
     \<and> weighted_hit_at_1 cached ws = best \<and> at_least h0 best"

lemma ascend_components:
  assumes "ascent_inv cached n h0 ws best" "\<forall>c \<in> set cs. c < n"
    "foldl (ascend_component cached) (ws, best, imp) cs = (ws', best', imp')"
  shows "ascent_inv cached n h0 ws' best'"
  using assms
proof (induction cs arbitrary: ws best imp)
  case (Cons c cs)
  obtain b1 w1 i1 where f: "foldl (try_candidate cached ws c) (best, ws ! c, imp) WEIGHT_GRID = (b1, w1, i1)"
    by (metis prod_cases3)
  have c: "c < length ws" using Cons.prems(1,2) by (simp add: ascent_inv_def)
  then have "usable_weight (ws ! c)" using Cons.prems(1) by (simp add: ascent_inv_def list_all_length)
  with try_candidates [OF _ _ _ grid_usable f, of h0] Cons.prems(1)
  have w1: "weighted_hit_at_1 cached (ws[c := w1]) = b1" "at_least h0 b1" "usable_weight w1"
    by (auto simp: ascent_inv_def)
  have "list_all usable_weight (ws[c := w1])"
    using Cons.prems(1) w1(3) c by (auto simp: ascent_inv_def list_all_length nth_list_update)
  with w1 Cons.prems(1) have "ascent_inv cached n h0 (ws[c := w1]) b1" by (simp add: ascent_inv_def)
  moreover have "foldl (ascend_component cached) (ws[c := w1], b1, i1) cs = (ws', best', imp')"
    using Cons.prems(3) by (simp add: ascend_component_def f)
  ultimately show ?case using Cons.IH Cons.prems(2) by simp
qed simp

lemma ascend_inv:
  "ascent_inv cached n h0 ws best \<Longrightarrow> \<exists>best'. ascent_inv cached n h0 (ascend cached k ws best) best'"
proof (induction cached k ws best rule: ascend.induct)
  case (2 cached k ws best)
  obtain ws' b' i' where f: "foldl (ascend_component cached) (ws, best, False) [0..<length ws] = (ws', b', i')"
    by (metis prod_cases3)
  have "ascent_inv cached n h0 ws' b'"
    by (rule ascend_components [OF 2(2) _ f]) (use 2(2) in \<open>simp add: ascent_inv_def\<close>)
  with 2(1) [of "(ws', b', i')" ws' "(b', i')" b' i'] f show ?case by auto
qed auto

lemma fit_rrf_inv:
  assumes "cached \<noteq> []"
  shows "\<exists>best. ascent_inv cached (length ensemble_component_names)
     (weighted_hit_at_1 cached (map initial_weight ensemble_component_names))
     (ec_weights (fit_rrf_combiner cached)) best"
proof -
  let ?w = "map initial_weight ensemble_component_names"
  have "ascent_inv cached (length ensemble_component_names) (weighted_hit_at_1 cached ?w) ?w (weighted_hit_at_1 cached ?w)"
    by (simp add: ascent_inv_def at_least_def initial_usable)
  from ascend_inv [OF this] assms show ?thesis by (simp add: fit_rrf_combiner_def Let_def)
qed

text \<open>C22: fitting the fusion weights never loses accuracy on the examples it is fitted on. The coordinate
  ascent ends after at most six sweeps with one finite, non-negative weight per component, and the share of
  validation examples whose label the fused ranking puts first is that of the initial weights or higher.\<close>

theorem ascent_never_loses:
  assumes "cached \<noteq> []"
  shows "let start = weighted_hit_at_1 cached (map initial_weight ensemble_component_names);
      ws = ec_weights (fit_rrf_combiner cached) in
    length ws = length ensemble_component_names
    \<and> (\<forall>w \<in> set ws. fp_is_finite w \<and> \<not> fp_lt w (FFin 0))
    \<and> (weighted_hit_at_1 cached ws = start \<or> fp_lt start (weighted_hit_at_1 cached ws))"
  using fit_rrf_inv [OF assms]
  by (auto simp: ascent_inv_def at_least_def usable_weight_def list_all_iff Let_def)

section \<open>A trained artifact loads\<close>

lemma distinct_component_names: "distinct ensemble_component_names"
  by (simp add: ensemble_component_names_def)

lemma combiner_valid: "validate_combiner (fit_rrf_combiner cached) = None"
proof (cases "cached = []")
  case True
  then show ?thesis by (simp add: fit_rrf_combiner_def empty_combiner_def validate_combiner_def)
next
  case False
  let ?c = "fit_rrf_combiner cached"
  have names: "ec_components ?c = ensemble_component_names" "ensemble_component_names \<noteq> []"
    using False by (simp_all add: fit_rrf_combiner_def Let_def ensemble_component_names_def)
  obtain best where inv: "ascent_inv cached (length ensemble_component_names)
     (weighted_hit_at_1 cached (map initial_weight ensemble_component_names)) (ec_weights ?c) best"
    using fit_rrf_inv [OF False] by blast
  then have len: "length (ec_weights ?c) = length ensemble_component_names"
    and use: "\<And>i. i < length ensemble_component_names \<Longrightarrow> usable_weight (ec_weights ?c ! i)"
    by (auto simp: ascent_inv_def list_all_length)
  have fresh: "ensemble_component_names ! i \<notin> fst ` set (take i (zip ensemble_component_names (ec_weights ?c)))"
    if "i < length ensemble_component_names" for i
    using that distinct_by_prefix [of fst "zip ensemble_component_names (ec_weights ?c)"] distinct_component_names len
    by (auto simp: map_fst_zip)
  show ?thesis
    unfolding validate_combiner_def names
    using len use fresh names(2)
    by (auto simp: first_error_None check_each_None usable_weight_def split: prod.splits)
qed

lemma length_gradient_step [simp]: "length (gradient_step M lr ps ns ws) = length ws"
  by (simp add: gradient_step_def Let_def)

lemma train_on_example_length: "length (fst (train_on_example M lr s ex)) = length (fst s)"
proof -
  have "length (fst (foldl (\<lambda>(ws, updates) neg_app. case btree_get (ce_rows ex) neg_app of
         None \<Rightarrow> (ws, updates)
       | Some ns \<Rightarrow> (gradient_step M lr ps ns ws, updates + 1)) s xs)) = length (fst s)" for ps xs
    by (induction xs arbitrary: s) (auto split: option.split)
  then show ?thesis by (simp add: train_on_example_def split: option.split)
qed

lemma logistic_valid: "validate_logistic (fit_logistic_reranker M cached) = None"
proof -
  have inner: "length (fst (foldl (train_on_example M lr) s xs)) = length (fst s)" for lr s xs
    by (induction xs arbitrary: s) (simp_all add: train_on_example_length)
  have "length (fst (foldl (\<lambda>s epoch. foldl (train_on_example M (learning_rate epoch)) s cached) s es)) = length (fst s)" for s es
    by (induction es arbitrary: s) (simp_all add: inner)
  from this [of "(replicate (length logistic_feature_names) (FFin 0), 0)" "[0..<LOGISTIC_EPOCHS]"]
  show ?thesis
    by (auto simp: fit_logistic_reranker_def validate_logistic_def empty_reranker_def first_error_None Let_def
        logistic_feature_names_def ensemble_component_names_def split: prod.splits)
qed

lemma those_total: "(\<And>x. x \<in> set xs \<Longrightarrow> x \<noteq> None) \<Longrightarrow> those xs \<noteq> None"
proof (induction xs)
  case (Cons x xs)
  from Cons.prems [of x] obtain y where "x = Some y" by auto
  with Cons show ?case by auto
qed simp

lemma cache_total:
  assumes "predictor_ok p"
  shows "\<exists>cached. cache_validation_examples M p es = Some cached"
proof -
  have "cache_example M p e \<noteq> None" for e
    using component_rankings_ok [OF assms, of M "features_for_example e"] by (auto simp: cache_example_def)
  then have "those (map (cache_example M p) xs) \<noteq> None" for xs by (intro those_total) auto
  then show ?thesis by (auto simp: cache_validation_examples_def)
qed

lemma fit_ensemble_valid:
  "\<exists>rrf logistic. fit_ensemble_models M ds config es = Some (rrf, logistic)
     \<and> validate_combiner rrf = None \<and> validate_logistic logistic = None"
proof -
  have empty: "validate_combiner empty_combiner = None" "validate_logistic empty_reranker = None"
    by (simp_all add: validate_combiner_def validate_logistic_def empty_combiner_def empty_reranker_def)
  define fit_examples where "fit_examples = map snd (filter (\<lambda>(i, _). \<not> i mod VAL_MODULUS < VAL_CUTOFF) (enumerate 0 es))"
  define val_examples where "val_examples = map snd (filter (\<lambda>(i, _). i mod VAL_MODULUS < VAL_CUTOFF) (enumerate 0 es))"
  note eq = fit_ensemble_models_def [of M ds config es, unfolded Let_def,
      folded fit_examples_def val_examples_def, unfolded Let_def]
  show ?thesis
  proof (cases "\<exists>a p. train_base_artifact M ds config fit_examples = Inr a \<and> predictor_new a = Inr p
      \<and> fit_examples \<noteq> [] \<and> val_examples \<noteq> []")
    case True
    then obtain a p where p: "train_base_artifact M ds config fit_examples = Inr a" "predictor_new a = Inr p"
      "fit_examples \<noteq> []" "val_examples \<noteq> []" by blast
    obtain cached where "cache_validation_examples M p val_examples = Some cached"
      using cache_total predictor_new_ok [OF p(2)] by blast
    with p empty(2) combiner_valid [of cached] logistic_valid [of M "half 0 cached"] show ?thesis
      by (simp add: eq)
  next
    case False
    then have "fit_ensemble_models M ds config es = Some (empty_combiner, empty_reranker)"
      by (auto simp: eq split: sum.split)
    with empty show ?thesis by simp
  qed
qed

lemma trained_predictor:
  assumes "examples \<noteq> []" "\<And>e. e \<in> set examples \<Longrightarrow> tab \<notin> set (te_current_app e)"
  shows "\<exists>a p. train_next_app_artifact M ds config examples = Some (Inr a) \<and> predictor_new a = Inr p
     \<and> set (na_app_vocab a) = te_current_app ` set examples \<union> te_label_app ` set examples"
proof -
  obtain a where a: "train_base_artifact M ds config examples = Inr a" "check_vocab a = None" "check_tables a = None"
    "na_app_vocab a = btree_set (concat (map (\<lambda>e. [te_current_app e, te_label_app e]) examples))"
    using base_artifact_valid [OF assms] by blast
  obtain rrf logistic where fit: "fit_ensemble_models M ds config examples = Some (rrf, logistic)"
    "validate_combiner rrf = None" "validate_logistic logistic = None"
    using fit_ensemble_valid by blast
  let ?a = "a\<lparr>na_ensemble_combiner := rrf, na_ensemble_logistic := logistic\<rparr>"
  have "check_vocab ?a = check_vocab a" "check_tables ?a = check_tables a"
    by (simp_all add: check_vocab_def check_tables_def)
  with a fit have "validate_artifact ?a = None" by (simp add: validate_artifact_def first_error_None)
  then have "\<exists>p. predictor_new ?a = Inr p" by (simp add: predictor_new_def)
  moreover have "train_next_app_artifact M ds config examples = Some (Inr ?a)"
    by (simp add: train_next_app_artifact_def a(1) fit(1))
  moreover have "set (na_app_vocab ?a) = te_current_app ` set examples \<union> te_label_app ` set examples"
    by (auto simp: a(4) btree_set_props)
  ultimately show ?thesis by blast
qed

text \<open>C13: what training writes, the predictor loads. From any non-empty list of examples whose current apps
  contain no tab, training returns an artifact without an internal error, with exactly the examples' apps as
  its vocabulary, and the artifact passes every check: \<open>predictor_new\<close> accepts it.\<close>

theorem trained_artifact_loads:
  assumes "examples \<noteq> []" "\<And>e. e \<in> set examples \<Longrightarrow> tab \<notin> set (te_current_app e)"
  shows "\<exists>a p. train_next_app_artifact M ds config examples = Some (Inr a) \<and> predictor_new a = Inr p
     \<and> set (na_app_vocab a) = te_current_app ` set examples \<union> te_label_app ` set examples"
  using assms by (rule trained_predictor)

section \<open>The tables are the empirical distributions\<close>

type_synonym app_pair = "string \<times> string"

definition count_pairs :: "app_pair list \<Rightarrow> count_table" where
  "count_pairs ps = foldl (\<lambda>t (k, l). bump_count k l t) [] ps"

definition from_key :: "app_pair list \<Rightarrow> string \<Rightarrow> nat" where
  "from_key ps k = length (filter (\<lambda>p. fst p = k) ps)"

definition counts_of :: "app_pair list \<Rightarrow> string \<Rightarrow> app_counts \<Rightarrow> bool" where
  "counts_of ps k m \<longleftrightarrow> k \<in> fst ` set ps \<and> btree_invar m \<and> sum_list (map snd m) = of_nat (from_key ps k)
     \<and> (\<forall>l. btree_get m l = (if (k, l) \<in> set ps then Some (of_nat (count_list ps (k, l))) else None))"

lemma sum_upsert: "sum_list (map snd (btree_upsert k 0 (\<lambda>n. n + 1) m)) = sum_list (map snd m) + (1 :: u32)"
  by (induction m) auto

lemma counts_of_bump:
  assumes "counts_of ps k m"
  shows "counts_of (ps @ [(k, l)]) k (btree_upsert l 0 (\<lambda>n. n + 1) m)"
  using assms
  by (auto simp: counts_of_def btree_upsert_invar btree_upsert_get sum_upsert from_key_def count_list_0_iff)

lemma counts_of_new: "k \<notin> fst ` set ps \<Longrightarrow> counts_of (ps @ [(k, l)]) k [(l, 1)]"
proof -
  assume new: "k \<notin> fst ` set ps"
  then have "count_list ps (k, l) = 0" by (force simp: count_list_0_iff)
  moreover have "filter (\<lambda>p. fst p = k) ps = []" "(k, x) \<notin> set ps" for x
    using new by (force simp: filter_empty_conv)+
  ultimately show "counts_of (ps @ [(k, l)]) k [(l, 1)]"
    by (auto simp: counts_of_def from_key_def btree_invar_def btree_get_def)
qed

lemma counts_of_other: "k' \<noteq> k \<Longrightarrow> counts_of (ps @ [(k, l)]) k' m = counts_of ps k' m"
  by (auto simp: counts_of_def from_key_def)

lemma count_pairs_get:
  "btree_invar (count_pairs ps) \<and>
   (case btree_get (count_pairs ps) k of None \<Rightarrow> k \<notin> fst ` set ps | Some m \<Rightarrow> counts_of ps k m)"
proof (induction ps arbitrary: k rule: rev_induct)
  case Nil
  then show ?case by (simp add: count_pairs_def btree_empty)
next
  case (snoc p ps)
  obtain k' l where p: "p = (k', l)" by fastforce
  have inv: "btree_invar (count_pairs ps)" using snoc.IH by blast
  have t: "count_pairs (ps @ [p]) = bump_count k' l (count_pairs ps)" by (simp add: count_pairs_def p)
  have inv': "btree_invar (count_pairs (ps @ [p]))" unfolding t bump_count_def by (rule btree_upsert_invar [OF inv])
  have get: "btree_get (count_pairs (ps @ [p])) k = (if k = k'
      then Some (btree_upsert l 0 (\<lambda>n. n + 1) (case btree_get (count_pairs ps) k' of Some m \<Rightarrow> m | None \<Rightarrow> []))
      else btree_get (count_pairs ps) k)"
    unfolding t bump_count_def btree_upsert_get [OF inv] by simp
  show ?case
  proof (cases "k = k'")
    case True
    show ?thesis
      using snoc.IH [of k'] inv' [unfolded p] counts_of_bump [of ps k' _ l] counts_of_new [of k' ps l]
      unfolding True p by (cases "btree_get (count_pairs ps) k'") (auto simp: get [unfolded True p])
  next
    case False
    then show ?thesis
      using snoc.IH [of k] inv' [unfolded p] counts_of_other [OF False, of ps l]
      unfolding p by (cases "btree_get (count_pairs ps) k") (auto simp: get [unfolded p])
  qed
qed

text \<open>A table that gives every key the relative frequencies of its labels, and nothing else.\<close>

definition empirical :: "app_pair list \<Rightarrow> score_table \<Rightarrow> bool" where
  "empirical ps t \<longleftrightarrow> (\<forall>k. case btree_get t k of
     None \<Rightarrow> k \<notin> fst ` set ps
   | Some s \<Rightarrow> k \<in> fst ` set ps \<and> distinct (map as_app s)
       \<and> set s = {\<lparr>as_app = l, as_score = fp_div fmt32 (f32_of_nat (count_list ps (k, l))) (f32_of_nat (from_key ps k))\<rparr>
                  | l. (k, l) \<in> set ps})"

lemma empiricalD:
  assumes "empirical ps t" "k \<in> fst ` set ps"
  shows "\<exists>s. btree_get t k = Some s
     \<and> set s = {\<lparr>as_app = l, as_score = fp_div fmt32 (f32_of_nat (count_list ps (k, l))) (f32_of_nat (from_key ps k))\<rparr>
                | l. (k, l) \<in> set ps}"
  using assms spec [OF assms(1) [unfolded empirical_def], of k] by (cases "btree_get t k") auto

lemma transition_scores_get: "btree_get (transition_scores t) k = map_option table_scores (btree_get t k)"
  by (induction t) (auto simp: transition_scores_def btree_get_def)

lemma table_scores_exact:
  assumes "counts_of ps k m" "length ps < 2 ^ 32"
  shows "set (table_scores m) = {\<lparr>as_app = l, as_score = fp_div fmt32 (f32_of_nat (count_list ps (k, l)))
      (f32_of_nat (from_key ps k))\<rparr> | l. (k, l) \<in> set ps}"
proof -
  have small: "unat (of_nat n :: u32) = n" if "n \<le> length ps" for n
    using that assms(2) by (simp add: unat_of_nat)
  have key: "from_key ps k \<le> length ps" "0 < from_key ps k"
    using assms(1) by (auto simp: from_key_def counts_of_def filter_empty_conv)
  have total: "unat (max (sum_list (map snd m)) 1) = from_key ps k"
  proof -
    have "unat (sum_list (map snd m)) = from_key ps k"
      using assms(1) small [OF key(1)] by (simp add: counts_of_def)
    moreover from this have "1 \<le> sum_list (map snd m)" using key(2) by (simp add: word_le_nat_alt)
    ultimately show ?thesis by (simp add: max_def)
  qed
  have mem: "(l, n) \<in> set m \<longleftrightarrow> (k, l) \<in> set ps \<and> n = of_nat (count_list ps (k, l))" for l n
    using assms(1) bt.entries_lookup [of m l n] by (auto simp: counts_of_def)
  have cnt: "unat (of_nat (count_list ps (k, l)) :: u32) = count_list ps (k, l)" for l
    by (rule small) (simp add: count_le_length)
  have "(case x of (app, c) \<Rightarrow> \<lparr>as_app = app,
        as_score = fp_div fmt32 (f32_of_u32 c) (f32_of_u32 (max (sum_list (map snd m)) 1))\<rparr>) =
      \<lparr>as_app = fst x, as_score = fp_div fmt32 (f32_of_nat (count_list ps (k, fst x))) (f32_of_nat (from_key ps k))\<rparr>"
    if "x \<in> set m" for x
  proof -
    obtain l c where x: "x = (l, c)" by fastforce
    with that mem have "unat c = count_list ps (k, l)" using cnt by simp
    then show ?thesis unfolding x prod.case fst_conv total by (simp only:)
  qed
  then have "set (table_scores m) = (\<lambda>x. \<lparr>as_app = fst x, as_score = fp_div fmt32
      (f32_of_nat (count_list ps (k, fst x))) (f32_of_nat (from_key ps k))\<rparr>) ` set m"
    unfolding table_scores_def Let_def set_sort_by set_map by (rule image_cong [OF refl])
  also have "\<dots> = (\<lambda>l. \<lparr>as_app = l, as_score = fp_div fmt32
      (f32_of_nat (count_list ps (k, l))) (f32_of_nat (from_key ps k))\<rparr>) ` (fst ` set m)"
    by (simp only: image_image)
  also have "fst ` set m = {l. (k, l) \<in> set ps}" using mem by force
  finally show ?thesis by auto
qed

lemma empirical_pairs:
  assumes "length ps < 2 ^ 32"
  shows "empirical ps (transition_scores (count_pairs ps))"
  unfolding empirical_def
proof
  fix k
  show "case btree_get (transition_scores (count_pairs ps)) k of
     None \<Rightarrow> k \<notin> fst ` set ps
   | Some s \<Rightarrow> k \<in> fst ` set ps \<and> distinct (map as_app s)
       \<and> set s = {\<lparr>as_app = l, as_score = fp_div fmt32 (f32_of_nat (count_list ps (k, l))) (f32_of_nat (from_key ps k))\<rparr>
                  | l. (k, l) \<in> set ps}"
  proof (cases "btree_get (count_pairs ps) k")
    case None
    then show ?thesis using count_pairs_get [of ps k] by (simp add: transition_scores_get)
  next
    case (Some m)
    then have m: "counts_of ps k m" using count_pairs_get [of ps k] by simp
    then have "map_ok (map fst m) m" by (simp add: map_ok_def counts_of_def)
    from scores_ok_table [OF this] have "distinct (map as_app (table_scores m))" by (simp add: scores_ok_def)
    with Some m table_scores_exact [OF m assms] show ?thesis
      by (simp add: transition_scores_get counts_of_def)
  qed
qed

text \<open>The transitions each table counts.\<close>

definition global_pairs :: "training_example list \<Rightarrow> app_pair list" where
  "global_pairs es = map (\<lambda>e. (te_current_app e, te_label_app e)) es"

definition user_pairs :: "training_example list \<Rightarrow> app_pair list" where
  "user_pairs es = map (\<lambda>e. (user_transition_key (te_user_id e) (te_current_app e), te_label_app e)) es"

definition order2_pairs :: "training_example list \<Rightarrow> app_pair list" where
  "order2_pairs es = concat (map (\<lambda>e. case previous_app e of
     Some prev \<Rightarrow> [(order2_key prev (te_current_app e), te_label_app e)] | None \<Rightarrow> []) es)"

definition frequency_pairs :: "training_example list \<Rightarrow> app_pair list" where
  "frequency_pairs es = map (\<lambda>e. (te_user_id e, te_label_app e)) es"

definition tables_count :: "training_example list \<Rightarrow> train_state \<Rightarrow> bool" where
  "tables_count es st \<longleftrightarrow> tr_global st = count_pairs (global_pairs es) \<and> tr_user st = count_pairs (user_pairs es)
     \<and> tr_order2 st = count_pairs (order2_pairs es) \<and> tr_user_frequency st = count_pairs (frequency_pairs es)"

lemma count_features_tables:
  "tr_global (foldl (count_feature n i) st xs) = tr_global st \<and> tr_user (foldl (count_feature n i) st xs) = tr_user st
   \<and> tr_order2 (foldl (count_feature n i) st xs) = tr_order2 st
   \<and> tr_user_frequency (foldl (count_feature n i) st xs) = tr_user_frequency st"
  by (induction xs arbitrary: st) (simp_all add: count_feature_def)

lemma train_step_tables:
  assumes "tables_count es st" "train_step idx n st e = Inr st'"
  shows "tables_count (es @ [e]) st'"
  using assms
  by (auto simp: train_step_def tables_count_def Let_def global_pairs_def user_pairs_def order2_pairs_def
      frequency_pairs_def count_pairs_def count_features_tables split: option.splits)

lemma train_steps_tables:
  "train_steps idx n st es = Inr st' \<Longrightarrow> tables_count done st \<Longrightarrow> tables_count (done @ es) st'"
proof (induction es arbitrary: st "done")
  case (Cons e es)
  then obtain s1 where s1: "train_step idx n st e = Inr s1" "train_steps idx n s1 es = Inr st'"
    by (auto split: sum.splits)
  from Cons.IH [OF s1(2) train_step_tables [OF Cons.prems(2) s1(1)]] show ?case by simp
qed simp

text \<open>C14: the transition tables of a trained model are the empirical distributions of its examples. The
  global, the per-user and the order-2 Markov table and the per-user frequency table have exactly the keys that
  occur, and under each key every label that followed it, once, with its count divided by the key's count
  (rounded to \<open>f32\<close>; fewer than \<open>2 ^ 32\<close> examples).\<close>

theorem trained_tables_are_empirical:
  assumes "train_base_artifact M ds config examples = Inr a" "length examples < 2 ^ 32"
  shows "empirical (global_pairs examples) (mk_global_transitions (na_markov a))
     \<and> empirical (user_pairs examples) (mk_user_transitions (na_markov a))
     \<and> empirical (order2_pairs examples) (mk_global_transitions_order2 (na_markov a))
     \<and> empirical (frequency_pairs examples) (na_user_frequency a)"
proof -
  let ?v = "btree_set (concat (map (\<lambda>e. [te_current_app e, te_label_app e]) examples))"
  from assms(1) obtain st where st: "train_steps (index_apps ?v) (length ?v) (empty_train_state (length ?v)) examples = Inr st"
    and a: "mk_global_transitions (na_markov a) = transition_scores (tr_global st)"
      "mk_user_transitions (na_markov a) = transition_scores (tr_user st)"
      "mk_global_transitions_order2 (na_markov a) = transition_scores (tr_order2 st)"
      "na_user_frequency a = transition_scores (tr_user_frequency st)"
    by (auto simp: train_base_artifact_def Let_def split: if_splits sum.splits)
  have "tables_count examples st"
    using train_steps_tables [OF st, of "[]"]
    by (simp add: tables_count_def empty_train_state_def count_pairs_def global_pairs_def user_pairs_def
        order2_pairs_def frequency_pairs_def)
  moreover have "length (order2_pairs es) \<le> length es" for es
    by (induction es) (auto simp: order2_pairs_def split: option.split)
  then have "length (order2_pairs examples) < 2 ^ 32" using assms(2) le_less_trans by blast
  ultimately show ?thesis
    using assms(2)
    by (simp add: a tables_count_def empirical_pairs global_pairs_def user_pairs_def frequency_pairs_def)
qed

section \<open>Concrete inputs\<close>

definition demo_example :: "string \<Rightarrow> string \<Rightarrow> training_example" where
  "demo_example c l = \<lparr>te_user_id = ''u'', te_current_app = c, te_history = [''x'', c], te_hour_bucket = 9,
     te_weekday = 3, te_event_type = ''app_transition'', te_label_app = l\<rparr>"

definition demo_examples :: "training_example list" where
  "demo_examples = [demo_example ''a'' ''b'', demo_example ''b'' ''a'', demo_example ''a'' ''c'',
     demo_example ''c'' ''a'', demo_example ''a'' ''b'']"

definition demo_libm :: libm where
  "demo_libm = \<lparr>m_exp = (\<lambda>x. FFin 1), m_ln = (\<lambda>x. fp_sub fmt32 x (FFin 1))\<rparr>"

lemma demo_examples_tabs: "e \<in> set demo_examples \<Longrightarrow> tab \<notin> set (te_current_app e)"
  by (auto simp: demo_examples_def demo_example_def tab_def)

lemma demo_examples_nonempty: "demo_examples \<noteq> []"
  by (simp add: demo_examples_def)

theorem trained_artifact_loads_witness:
  "\<exists>a p. train_next_app_artifact demo_libm ''d'' default_model_config demo_examples = Some (Inr a)
     \<and> predictor_new a = Inr p \<and> set (na_app_vocab a) = {''a'', ''b'', ''c''}"
proof -
  have "te_current_app ` set demo_examples \<union> te_label_app ` set demo_examples = {''a'', ''b'', ''c''}"
    by (auto simp: demo_examples_def demo_example_def)
  then show ?thesis using trained_artifact_loads [OF demo_examples_nonempty demo_examples_tabs] by metis
qed

theorem trained_tables_are_empirical_witness:
  "\<exists>a s. train_base_artifact demo_libm ''d'' default_model_config demo_examples = Inr a
     \<and> btree_get (mk_global_transitions (na_markov a)) ''a'' = Some s
     \<and> \<lparr>as_app = ''b'', as_score = fp_div fmt32 (FFin 2) (FFin 3)\<rparr> \<in> set s"
proof -
  obtain a where a: "train_base_artifact demo_libm ''d'' default_model_config demo_examples = Inr a"
    using base_artifact_valid [OF demo_examples_nonempty demo_examples_tabs] by blast
  have "length demo_examples < 2 ^ 32" by (simp add: demo_examples_def)
  from trained_tables_are_empirical [OF a this]
  have e: "empirical (global_pairs demo_examples) (mk_global_transitions (na_markov a))" by blast
  have n: "count_list (global_pairs demo_examples) (''a'', ''b'') = 2" "from_key (global_pairs demo_examples) ''a'' = 3"
    "(''a'', ''b'') \<in> set (global_pairs demo_examples)" "''a'' \<in> fst ` set (global_pairs demo_examples)"
    by (simp_all add: global_pairs_def demo_examples_def demo_example_def from_key_def)
  have f: "f32_of_nat 2 = FFin 2" "f32_of_nat 3 = FFin 3" by code_simp+
  obtain s where s: "btree_get (mk_global_transitions (na_markov a)) ''a'' = Some s"
    and "set s = {\<lparr>as_app = l, as_score = fp_div fmt32 (f32_of_nat (count_list (global_pairs demo_examples) (''a'', l)))
      (f32_of_nat (from_key (global_pairs demo_examples) ''a''))\<rparr> | l. (''a'', l) \<in> set (global_pairs demo_examples)}"
    using empiricalD [OF e n(4)] by blast
  then have "\<lparr>as_app = ''b'', as_score = fp_div fmt32 (f32_of_nat 2) (f32_of_nat 3)\<rparr> \<in> set s"
    using n by (auto intro: exI [of _ "''b''"])
  with a s f show ?thesis by (simp only:) blast
qed

definition demo_cached :: "cached_example list" where
  "demo_cached = [\<lparr>ce_label = ''b'', ce_rankings = replicate 9 [\<lparr>as_app = ''b'', as_score = FFin 1\<rparr>],
     ce_rows = [(''b'', [])]\<rparr>]"

theorem ascent_never_loses_witness:
  "length (ec_weights (fit_rrf_combiner demo_cached)) = 9"
  using ascent_never_loses [of demo_cached] by (simp add: demo_cached_def Let_def ensemble_component_names_def)

theorem rank_within_vocabulary_witness:
  "\<exists>a p r. predictor_new a = Inr p
     \<and> predictor_rank demo_libm p (features_for_example (demo_example ''a'' ''b'')) Ensemble 5 = Some r
     \<and> r \<noteq> [] \<and> ''a'' \<notin> set (map as_app r)"
proof -
  obtain a p where p: "predictor_new a = Inr p"
    and v: "set (na_app_vocab a) = te_current_app ` set demo_examples \<union> te_label_app ` set demo_examples"
    using trained_predictor [OF demo_examples_nonempty demo_examples_tabs] by blast
  have "pf_current_app (features_for_example (demo_example ''a'' ''b'')) = Some ''a''"
    by (simp add: features_for_example_def demo_example_def)
  moreover have "''b'' \<in> set (na_app_vocab a)" unfolding v by (simp add: demo_examples_def demo_example_def)
  ultimately show ?thesis
    using p rank_within_vocabulary [OF p, of demo_libm "features_for_example (demo_example ''a'' ''b'')" Ensemble 5]
    by fastforce
qed

end
