(* ===== verification/Predictive_Backend.thy ===== *)
theory Predictive_Backend
  imports Next_App_Train Rule_Based
begin

text \<open>
  The predictive local backend (\<open>aios-agent/src/backends/predictive/backend.rs\<close>): the features of a model
  input, the mapping of a ranked app to an intent, and the backend itself over a loaded predictor. Opening
  and parsing the artifact file is a parameter. \<open>predictive_try\<close> is the code with one of its panics, an
  index out of range in the ranker, as \<open>None\<close> (the other, the standard sort's on scores that are not numbers,
  is left out, see \<open>sort_by\<close>); it never happens over a loaded predictor, and
  \<open>predictive_evaluate\<close> is the backend function it computes.

  It interprets \<open>confined_backend\<close>, and the default policy approves everything it proposes.
\<close>

section \<open>Features\<close>

definition hour_bucket :: "i64 \<Rightarrow> u8" where
  "hour_bucket t = (let seconds = t div 1000 in of_int ((seconds div 3600) mod 24))"

definition weekday_of :: "i64 \<Rightarrow> u8" where
  "weekday_of t = (let days = t div 86400000 in of_int ((days + 4) mod 7))"

fun foreground_package :: "sanitized_event_type \<Rightarrow> string option" where
  "foreground_package (SeAppTransition p a Foreground) = Some p"
| "foreground_package t = None"

definition latest_foreground_app :: "structured_context \<Rightarrow> string option" where
  "latest_foreground_app ctx = first_some (map (\<lambda>e. foreground_package (se_event_type e)) (rev (ctx_events ctx)))"

fun event_type_name :: "sanitized_event_type \<Rightarrow> string" where
  "event_type_name (SeAppTransition _ _ _) = ''app_transition''"
| "event_type_name (SeNotification _ _ _ _ _ _ _ _) = ''notification''"
| "event_type_name (SeFileActivity _ _ _ _) = ''file_activity''"
| "event_type_name (SeScreen _) = ''screen''"
| "event_type_name (SeSystemStatus _ _ _ _ _ _) = ''system_status''"
| "event_type_name (SeProcessResource _ _ _ _ _ _) = ''process_resource''"
| "event_type_name (SeInterAppInteraction _ _ _) = ''inter_app''"

definition features_from_model_input :: "model_input \<Rightarrow> prediction_features" where
  "features_from_model_input mi =
     (let ctx = mi_current_context mi;
          current = (case latest_foreground_app ctx of
            Some a \<Rightarrow> Some a | None \<Rightarrow> last_opt (cs_foreground_apps (ctx_summary ctx)));
          history = rev (take 5 (concat (map (\<lambda>r. rev (rd_foreground_apps r)) (rev (mi_recent_feedback mi))))) in
      \<lparr>pf_user_id = ubp_user_id (mi_behavior_profile mi), pf_current_app = current, pf_history = history,
       pf_hour_bucket = Some (hour_bucket (ctx_window_end_ms ctx)),
       pf_weekday = Some (weekday_of (ctx_window_end_ms ctx)),
       pf_event_type = map_option (\<lambda>e. event_type_name (se_event_type e)) (last_opt (ctx_events ctx))\<rparr>)"

fun context_package :: "sanitized_event_type \<Rightarrow> string list" where
  "context_package (SeAppTransition p _ _) = [p]"
| "context_package (SeNotification p _ _ _ _ _ _ _) = [p]"
| "context_package (SeProcessResource _ (Some p) _ _ _ _) = [p]"
| "context_package _ = []"

definition known_packages :: "structured_context \<Rightarrow> string set" where
  "known_packages ctx = set (cs_foreground_apps (ctx_summary ctx) @ cs_notified_apps (ctx_summary ctx)
     @ concat (map (\<lambda>e. (case se_app_package e of Some p \<Rightarrow> [p] | None \<Rightarrow> [])
         @ context_package (se_event_type e)) (ctx_events ctx)))"

section \<open>Intents\<close>

definition POLICY_CONFIDENCE_FLOOR :: f32 where "POLICY_CONFIDENCE_FLOOR = f32_lit (30 / 100)"

definition prediction_to_intent :: "string set \<Rightarrow> app_score \<Rightarrow> intent" where
  "prediction_to_intent known s =
     (let app = as_app s; in_context = app \<in> known in
      \<lparr>in_intent_id = [],
       in_intent_type = (if in_context then SwitchToApp app else OpenApp app),
       in_confidence = fp_clamp POLICY_CONFIDENCE_FLOOR (f32_lit (99 / 100)) (as_score s),
       in_risk_level = RiskLow,
       in_suggested_actions =
         [\<lparr>sa_action_type = (if in_context then PreWarmProcess else KeepAlive),
           sa_target = Some (if in_context then ''pkg:'' @ app else ''work:collector_heartbeat''),
           sa_urgency = Immediate\<rparr>],
       in_rationale_tags = [''predictive:next_app'',
         if in_context then ''predictive:target_in_context''
         else ''predictive:target_not_in_context_safe_keepalive'']\<rparr>)"

definition no_prediction_intent :: intent where
  "no_prediction_intent = rule_intent Idle (f32_lit (50 / 100)) NoOp None IdleTime ''predictive:idle_no_prediction''"

definition predicted_intents :: "structured_context \<Rightarrow> app_score list \<Rightarrow> intent list" where
  "predicted_intents ctx predictions =
     (let intents = map (prediction_to_intent (known_packages ctx)) predictions in
      if intents = [] then [no_prediction_intent] else intents)"

section \<open>The backend\<close>

definition predictive_result :: "backend_world \<Rightarrow> model_input \<Rightarrow> app_score list
    \<Rightarrow> backend_world \<times> decision_backend_result" where
  "predictive_result w mi predictions =
     (let ctx = mi_current_context mi;
          intents = predicted_intents ctx predictions; numbered = number_intents w intents in
      (draw (length intents) w,
       \<lparr>dr_route = LocalEvaluator,
        dr_intent_batch = \<lparr>ib_window_id = ctx_window_id ctx, ib_intents = numbered,
          ib_generated_at_ms = ctx_window_end_ms ctx, ib_model = PREDICTIVE_MODEL_NAME\<rparr>,
        dr_rationale_tags = concat (map in_rationale_tags numbered),
        dr_latency_us = bw_latency_us w (bw_calls w), dr_error = None\<rparr>))"

definition predictive_try :: "libm \<Rightarrow> next_app_predictor \<Rightarrow> backend_world \<Rightarrow> model_input
    \<Rightarrow> (backend_world \<times> decision_backend_result) option" where
  "predictive_try M p w mi =
     map_option (predictive_result w mi)
       (predictor_rank M p (features_from_model_input mi) Ensemble MAX_BACKEND_INTENTS)"

definition predictive_evaluate :: "libm \<Rightarrow> next_app_predictor \<Rightarrow> backend_world backend" where
  "predictive_evaluate M p w mi = predictive_result w mi
     (or_empty (predictor_rank M p (features_from_model_input mi) Ensemble MAX_BACKEND_INTENTS))"

text \<open>\<open>PredictiveLocalBackend::from_path\<close>: the file's artifact, or why it cannot be opened or parsed.\<close>

definition predictive_from_path :: "libm \<Rightarrow> (string \<Rightarrow> string + next_app_artifact) \<Rightarrow> string
    \<Rightarrow> string + backend_world backend" where
  "predictive_from_path M load path =
     (case load path of
        Inl e \<Rightarrow> Inl e
      | Inr a \<Rightarrow> (case predictor_new a of Inl e \<Rightarrow> Inl e | Inr p \<Rightarrow> Inr (predictive_evaluate M p)))"

section \<open>Its contract\<close>

lemma predictive_total:
  assumes "predictor_new a = Inr p"
  shows "\<exists>r. predictor_rank M p f Ensemble k = Some r \<and> length r \<le> k"
  using predictor_rank_ok [OF assms] by blast

lemma predictive_try_evaluate:
  assumes "predictor_new a = Inr p"
  shows "predictive_try M p w mi = Some (predictive_evaluate M p w mi)"
  using predictive_total [OF assms, of M "features_from_model_input mi" MAX_BACKEND_INTENTS]
  by (auto simp: predictive_try_def predictive_evaluate_def or_empty_def)

lemma predicted_intents_mem:
  "i \<in> set (predicted_intents ctx r) \<Longrightarrow>
     i = no_prediction_intent \<or> (\<exists>s \<in> set r. i = prediction_to_intent (known_packages ctx) s)"
  by (auto simp: predicted_intents_def Let_def split: if_splits)

lemma predicted_intents_allowed:
  assumes "i \<in> set (predicted_intents ctx r)"
  shows "in_risk_level i = RiskLow
     \<and> (\<forall>a \<in> set (in_suggested_actions i). sa_action_type a \<in> {NoOp, PreWarmProcess, KeepAlive})"
  using predicted_intents_mem [OF assms]
  by (auto simp: no_prediction_intent_def prediction_to_intent_def Let_def split: if_splits)

interpretation predictive: confined_backend "predictive_evaluate M p" LocalEvaluator for M p
proof unfold_locales
  fix w :: backend_world and mi
  show "within_capability (for_route LocalEvaluator) (dr_intent_batch (snd (predictive_evaluate M p w mi)))"
    by (rule within_capability_numbered [where js = "predicted_intents (mi_current_context mi)
          (or_empty (predictor_rank M p (features_from_model_input mi) Ensemble MAX_BACKEND_INTENTS))"])
       (auto simp: predictive_evaluate_def predictive_result_def Let_def allows_action_def
         dest!: predicted_intents_allowed)
qed (simp_all add: predictive_evaluate_def predictive_result_def stamped_def Let_def)

lemma known_observed: "app \<in> known_packages ctx \<Longrightarrow> observed ctx app"
proof -
  have "app \<in> set (context_package t) \<Longrightarrow> event_type_package t = Some app" for t
    by (cases t rule: context_package.cases) auto
  then show "app \<in> known_packages ctx \<Longrightarrow> observed ctx app"
    by (fastforce simp: known_packages_def observed_def split: option.splits)
qed

lemma clamped_above_floor:
  "\<not> fp_lt (fp_clamp POLICY_CONFIDENCE_FLOOR (f32_lit (99 / 100)) x) (f32_lit (3 / 10))"
proof -
  have lits: "\<not> fp_lt POLICY_CONFIDENCE_FLOOR (f32_lit (3 / 10))" "\<not> fp_lt (f32_lit (99 / 100)) (f32_lit (3 / 10))"
    "f32_lit (3 / 10) = POLICY_CONFIDENCE_FLOOR"
    unfolding POLICY_CONFIDENCE_FLOOR_def by code_simp+
  then show ?thesis
    unfolding fp_clamp_def Let_def by auto
qed

lemma predicted_intent_approved:
  assumes "i \<in> set (predicted_intents ctx r)"
  shows "spec_verdict default_policy_config (for_route LocalEvaluator) (Some (known_from_context ctx)) (i\<lparr>in_intent_id := x\<rparr>) 0
    = Approved"
  using predicted_intents_mem [OF assms]
proof
  assume "i = no_prediction_intent"
  then show ?thesis
    by (intro approvable_intent) (auto simp: no_prediction_intent_def allows_action_def)
next
  assume "\<exists>s \<in> set r. i = prediction_to_intent (known_packages ctx) s"
  then obtain s where i: "i = prediction_to_intent (known_packages ctx) s" by blast
  show ?thesis
  proof (cases "as_app s \<in> known_packages ctx")
    case True
    then have "check_target PreWarmProcess (Some (''pkg:'' @ as_app s)) (known_from_context ctx) = None"
      using known_observed [OF True] by (simp add: is_allowed_prewarm_target_def starts_with_def strip_prefix_def)
    with True i show ?thesis
      by (intro approvable_intent) (auto simp: prediction_to_intent_def Let_def clamped_above_floor allows_action_def)
  next
    case False
    have "check_target KeepAlive (Some ''work:collector_heartbeat'') (known_from_context ctx) = None"
      by (simp add: is_allowed_low_risk_target_def starts_with_def)
    with False i show ?thesis
      by (intro approvable_intent) (auto simp: prediction_to_intent_def Let_def clamped_above_floor allows_action_def)
  qed
qed

section \<open>Properties\<close>

text \<open>C12: the predictive backend and the policy agree. Over an artifact that passed the checks, whatever
  the window, the profile and the feedback, the ranker never indexes out of range and the backend gives between
  one and five intents; the default policy approves every action of them; and every app an intent names is one
  of the model's vocabulary and not the app in the foreground. Panics of the standard sort are excluded: the checks do not
  ask the scores to be finite, and on scores that are not numbers the comparator of the ranker's sort is no total order,
  so \<open>sort_by\<close> may panic; the statement does not speak of a run that ends so.\<close>

theorem predictive_always_approved:
  assumes "predictor_new a = Inr p"
  shows "\<exists>w' res. predictive_try M p w mi = Some (w', res)
     \<and> 1 \<le> length (ib_intents (dr_intent_batch res)) \<and> length (ib_intents (dr_intent_batch res)) \<le> 5
     \<and> (\<forall>d \<in> set (evaluate_batch_with_context default_policy_config (dr_intent_batch res)
            (for_route (dr_route res)) (mi_current_context mi)). pd_verdict d = Approved)
     \<and> (\<forall>i \<in> set (ib_intents (dr_intent_batch res)). \<forall>app.
          in_intent_type i = SwitchToApp app \<or> in_intent_type i = OpenApp app \<longrightarrow>
          app \<in> set (na_app_vocab a) \<and> pf_current_app (features_from_model_input mi) \<noteq> Some app)"
proof -
  let ?ctx = "mi_current_context mi" and ?f = "features_from_model_input mi"
  obtain r where r: "predictor_rank M p ?f Ensemble MAX_BACKEND_INTENTS = Some r" "length r \<le> MAX_BACKEND_INTENTS"
    "set (map as_app r) \<subseteq> set (na_app_vocab a) - set_option (pf_current_app ?f)"
    using predictor_rank_ok [OF assms, of M ?f Ensemble MAX_BACKEND_INTENTS] by blast
  define res where "res = snd (predictive_result w mi r)"
  have tried: "predictive_try M p w mi = Some (fst (predictive_result w mi r), res)"
    by (simp add: predictive_try_def r(1) res_def)
  have intents: "ib_intents (dr_intent_batch res) = number_intents w (predicted_intents ?ctx r)"
    and route: "dr_route res = LocalEvaluator"
    by (simp_all add: res_def predictive_result_def Let_def)
  have len: "1 \<le> length (predicted_intents ?ctx r)" "length (predicted_intents ?ctx r) \<le> 5"
    using r(2) by (auto simp: predicted_intents_def Let_def MAX_BACKEND_INTENTS_def Suc_le_eq)
  have approved: "pd_verdict d = Approved"
    if d: "d \<in> set (evaluate_batch_with_context default_policy_config (dr_intent_batch res) (for_route LocalEvaluator) ?ctx)" for d
  proof -
    from d obtain io i jo b where pos: "(io, i, jo, b) \<in> set (positions (dr_intent_batch res))"
      and v: "pd_verdict d = spec_verdict default_policy_config (for_route LocalEvaluator) (Some (known_from_context ?ctx)) i jo"
      by (auto simp: batch_decisions_mem)
    then have "i \<in> set (number_intents w (predicted_intents ?ctx r))" and jo: "jo < length (in_suggested_actions i)"
      by (auto simp: positions_mem intents [symmetric])
    then obtain j x where j: "j \<in> set (predicted_intents ?ctx r)" "i = j\<lparr>in_intent_id := x\<rparr>"
      by (auto dest: number_intents_mem)
    have "length (in_suggested_actions j) = 1"
      using predicted_intents_mem [OF j(1)] by (auto simp: no_prediction_intent_def prediction_to_intent_def Let_def)
    with jo j(2) have "jo = 0" by simp
    with v predicted_intent_approved [OF j(1)] j(2) show ?thesis by simp
  qed
  have named: "app \<in> set (na_app_vocab a) \<and> pf_current_app ?f \<noteq> Some app"
    if "i \<in> set (number_intents w (predicted_intents ?ctx r))"
      "in_intent_type i = SwitchToApp app \<or> in_intent_type i = OpenApp app" for i app
  proof -
    from that(1) obtain j x where j: "j \<in> set (predicted_intents ?ctx r)" "i = j\<lparr>in_intent_id := x\<rparr>"
      by (auto dest: number_intents_mem)
    with predicted_intents_mem [OF j(1)] that(2) have "app \<in> set (map as_app r)"
      by (auto simp: no_prediction_intent_def prediction_to_intent_def Let_def split: if_splits)
    with r(3) show ?thesis by auto
  qed
  show ?thesis using tried len approved named by (simp add: intents route)
qed

theorem predictive_always_approved_witness:
  "\<exists>a p w' res. predictor_new a = Inr p
     \<and> predictive_try demo_libm p demo_world (current_only demo_rule_context) = Some (w', res)
     \<and> 1 \<le> length (ib_intents (dr_intent_batch res))
     \<and> pf_current_app (features_from_model_input (current_only demo_rule_context)) = Some ''com.mail''"
proof -
  obtain a p where p: "predictor_new a = Inr p"
    using trained_predictor [OF demo_examples_nonempty demo_examples_tabs] by blast
  have "pf_current_app (features_from_model_input (current_only demo_rule_context)) = Some ''com.mail''"
    by (simp add: features_from_model_input_def current_only_def demo_rule_context_def latest_foreground_app_def
        demo_foreground_event_def Let_def)
  with p predictive_always_approved [OF p, of demo_libm demo_world "current_only demo_rule_context"]
  show ?thesis by blast
qed

end
