(* ===== verification/Next_App_Data.thy ===== *)
theory Next_App_Data
  imports Predictive_Backend Parsing Json_Value
    "HOL-Library.Signed_Division" "HOL-Library.Product_Lexorder"
begin

unbundle bit_operations_syntax

text \<open>
  The offline dataset of the next-app model (\<open>aios-cli/src/next_app/loader.rs\<close> and \<open>split.rs\<close>): reading
  LSApp records from CSV, TSV and JSONL files, their timestamps, the training examples a user's records give,
  and the two train/test splits.

  A file is its lines, \<open>None\<close> for one that cannot be read; a directory is its entries in the order the system
  lists them. The JSON parser, the rendering of a float and the Unicode lower-casing tables are parameters.
  The lemmas show that the date formula numbers the days of the Gregorian calendar, that examples never look
  ahead of their label, and that the splits do not leak.
\<close>

section \<open>Records and errors\<close>

record lsapp_record =
  la_user_id :: string
  la_session_id :: string
  la_timestamp_ms :: i64
  la_app_name :: string
  la_event_type :: string
  la_ordinal :: usize

datatype load_error =
    TooFewRecords
  | ReadDirFailed string
  | DirEntryFailed
  | OpenFailed string
  | ReadLineFailed
  | PlainJsonUnsupported string
  | JsonLineInvalid string nat
  | MissingColumn "string list"
  | TimestampMsInvalid string nat
  | TimestampInvalid string nat

record loader_env =
  ld_lowercase :: "string \<Rightarrow> string"
  ld_from_str :: "string \<Rightarrow> string + json"
  ld_show_float :: "f64 \<Rightarrow> string"

text \<open>What a path names: a file with its lines (or none, when it cannot be opened), or a directory.\<close>

datatype data_node =
    DataFile string "string option list option"
  | DataDir string "data_node option list option"

section \<open>Timestamps\<close>

definition parse_i64 :: "string \<Rightarrow> i64 option" where
  "parse_i64 s =
     (case s of
        CHR ''-'' # ds \<Rightarrow>
          (if ds = [] then None
           else case parse_digits 0 ds of None \<Rightarrow> None
                | Some n \<Rightarrow> if n \<le> 2 ^ 63 then Some (- int n) else None)
      | _ \<Rightarrow> map_option int (parse_uint (2 ^ 63) s))"

text \<open>The day number of a civil date; \<open>sdiv\<close> is the division of \<open>i64\<close>, towards zero.\<close>

definition civil_days :: "int \<Rightarrow> int \<Rightarrow> int \<Rightarrow> int" where
  "civil_days year month day =
     (let (y, m) = (if month \<le> 2 then (year - 1, month + 12) else (year, month));
          era = (if 0 \<le> y then y else y - 399) sdiv 400;
          yoe = y - era * 400;
          doy = (153 * (m - 3) + 2) sdiv 5 + day - 1;
          doe = yoe * 365 + yoe sdiv 4 - yoe sdiv 100 + doy
      in era * 146097 + doe - 719468)"

definition date_fields :: "string \<Rightarrow> (int \<times> int \<times> int) option" where
  "date_fields s = (case split_char (CHR ''-'') s of
     ys # ms # ds # _ \<Rightarrow> (case (parse_i32 ys, parse_u32 ms, parse_u32 ds) of
        (Some y, Some m, Some d) \<Rightarrow> if m = 0 \<or> 12 < m \<or> d = 0 \<or> 31 < d then None else Some (y, uint m, uint d)
      | _ \<Rightarrow> None)
   | _ \<Rightarrow> None)"

definition time_fields :: "string \<Rightarrow> (int \<times> int \<times> int) option" where
  "time_fields s = (case split_char (CHR '':'') (hd (split_char (CHR ''.'') s)) of
     hs # mins # rest \<Rightarrow>
       (case (parse_u32 hs, parse_u32 mins, parse_u32 (case rest of [] \<Rightarrow> ''0'' | secs # _ \<Rightarrow> secs)) of
        (Some h, Some m, Some sec) \<Rightarrow>
          if 23 < h \<or> 59 < m \<or> 59 < sec then None else Some (uint h, uint m, uint sec)
      | _ \<Rightarrow> None)
   | _ \<Rightarrow> None)"

definition split_datetime :: "string \<Rightarrow> (string \<times> string) option" where
  "split_datetime s = (case split_once (CHR ''T'') s of
     Some parts \<Rightarrow> Some parts
   | None \<Rightarrow> split_once (CHR '' '') s)"

definition parse_iso_datetime_ms :: "string \<Rightarrow> i64 option" where
  "parse_iso_datetime_ms s = (case split_datetime s of
     None \<Rightarrow> None
   | Some (date, time) \<Rightarrow> (case (date_fields date, time_fields time) of
        (Some (y, mo, d), Some (h, mi, sec)) \<Rightarrow>
          Some (i64_wrap ((civil_days y mo d * 86400 + h * 3600 + mi * 60 + sec) * 1000))
      | _ \<Rightarrow> None))"

definition MS_THRESHOLD :: i64 where "MS_THRESHOLD = 1000000000000"

definition parse_timestamp_ms :: "string \<Rightarrow> i64 option" where
  "parse_timestamp_ms raw = (let trimmed = trim raw in
     case parse_iso_datetime_ms trimmed of
       Some ms \<Rightarrow> Some ms
     | None \<Rightarrow> map_option (\<lambda>v. if MS_THRESHOLD \<le> v then v else i64_wrap (v * 1000)) (parse_i64 trimmed))"

section \<open>Rows\<close>

text \<open>A row is the lookup of the first of several column names it has.\<close>

type_synonym row = "string list \<Rightarrow> string option"

definition delimited_row :: "string list \<Rightarrow> string list \<Rightarrow> row" where
  "delimited_row headers values candidates =
     first_some (map (\<lambda>c. Option.bind (position_of c headers) (\<lambda>i. nth_opt i values)) candidates)"

fun json_field :: "loader_env \<Rightarrow> json \<Rightarrow> string option" where
  "json_field E (JString s) = Some s"
| "json_field E (JNumber (PosInt n)) = Some (show_nat (unat n))"
| "json_field E (JNumber (NegInt n)) = Some (show_int n)"
| "json_field E (JNumber (NumFloat x)) = Some (ld_show_float E x)"
| "json_field E _ = None"

definition json_row :: "loader_env \<Rightarrow> json \<Rightarrow> row" where
  "json_row E v candidates = first_some (map (\<lambda>c. Option.bind (json_get c v) (json_field E)) candidates)"

definition required :: "row \<Rightarrow> string list \<Rightarrow> load_error + string" where
  "required row candidates = (case row candidates of
     Some v \<Rightarrow> if trim v = [] then Inl (MissingColumn candidates) else Inr v
   | None \<Rightarrow> Inl (MissingColumn candidates))"

definition parse_record_timestamp :: "row \<Rightarrow> usize \<Rightarrow> load_error + i64" where
  "parse_record_timestamp row ordinal = (case row [''timestamp_ms''] of
     Some v \<Rightarrow> (case parse_i64 (trim v) of
        Some ms \<Rightarrow> Inr ms | None \<Rightarrow> Inl (TimestampMsInvalid v (ordinal + 1)))
   | None \<Rightarrow> (case row [''timestamp'', ''time'', ''ts''] of
        Some v \<Rightarrow> (case parse_timestamp_ms v of
           Some ms \<Rightarrow> Inr ms | None \<Rightarrow> Inl (TimestampInvalid v (ordinal + 1)))
      | None \<Rightarrow> Inr (i64_wrap (int ordinal * 1000))))"

fun text_or :: "string \<Rightarrow> string option \<Rightarrow> string" where
  "text_or d None = d"
| "text_or d (Some v) = v"

definition record_from_map :: "row \<Rightarrow> usize \<Rightarrow> load_error + lsapp_record" where
  "record_from_map row ordinal =
     (case required row [''user_id'', ''userid'', ''user'', ''uid''] of
        Inl e \<Rightarrow> Inl e
      | Inr user \<Rightarrow> (case required row [''app_name'', ''appname'', ''app'', ''package'', ''package_name''] of
           Inl e \<Rightarrow> Inl e
         | Inr app \<Rightarrow> (case parse_record_timestamp row ordinal of
              Inl e \<Rightarrow> Inl e
            | Inr ms \<Rightarrow> Inr \<lparr>la_user_id = user,
                la_session_id = text_or ''default'' (row [''session_id'', ''sessionid'', ''session'']),
                la_timestamp_ms = ms, la_app_name = app,
                la_event_type = text_or ''app_usage'' (row [''event_type'', ''event'', ''type'']),
                la_ordinal = ordinal\<rparr>)))"

section \<open>Files\<close>

fun split_fields :: "char \<Rightarrow> bool \<Rightarrow> string \<Rightarrow> string \<Rightarrow> string list" where
  "split_fields d quoted cur [] = [trim cur]"
| "split_fields d quoted cur (c # cs) =
     (if c = CHR 0x22 \<and> quoted \<and> cs \<noteq> [] \<and> hd cs = CHR 0x22
        then split_fields d quoted (cur @ [CHR 0x22]) (tl cs)
      else if c = CHR 0x22 then split_fields d (\<not> quoted) cur cs
      else if c = d \<and> \<not> quoted then trim cur # split_fields d quoted [] cs
      else split_fields d quoted (cur @ [c]) cs)"

definition split_delimited :: "string \<Rightarrow> char \<Rightarrow> string list" where
  "split_delimited line d = split_fields d False [] line"

fun read_rows :: "(string \<Rightarrow> usize \<Rightarrow> load_error + lsapp_record) \<Rightarrow> usize \<Rightarrow> string option list
    \<Rightarrow> load_error + lsapp_record list" where
  "read_rows parse ordinal [] = Inr []"
| "read_rows parse ordinal (None # lines) = Inl ReadLineFailed"
| "read_rows parse ordinal (Some line # lines) =
     (if trim line = [] then read_rows parse (ordinal + 1) lines
      else case parse line ordinal of
        Inl e \<Rightarrow> Inl e
      | Inr r \<Rightarrow> map_sum id (Cons r) (read_rows parse (ordinal + 1) lines))"

definition load_jsonl :: "loader_env \<Rightarrow> string \<Rightarrow> string option list \<Rightarrow> load_error + lsapp_record list" where
  "load_jsonl E path lines = read_rows (\<lambda>line ordinal. case ld_from_str E line of
     Inl e \<Rightarrow> Inl (JsonLineInvalid path (ordinal + 1))
   | Inr v \<Rightarrow> record_from_map (json_row E v) ordinal) 0 lines"

definition load_delimited :: "loader_env \<Rightarrow> string option list \<Rightarrow> load_error + lsapp_record list" where
  "load_delimited E lines = (case lines of
     [] \<Rightarrow> Inr []
   | None # _ \<Rightarrow> Inl ReadLineFailed
   | Some header # rest \<Rightarrow>
       (let d = (if tab \<in> set header then tab else CHR '','');
            headers = map (to_lowercase (ld_lowercase E)) (split_delimited header d)
        in read_rows (\<lambda>line ordinal. record_from_map (delimited_row headers (split_delimited line d)) ordinal) 0 rest))"

definition load_record_file :: "loader_env \<Rightarrow> string \<Rightarrow> string option list option \<Rightarrow> load_error + lsapp_record list" where
  "load_record_file E path content =
     (if path_extension path = Some ''json'' then Inl (PlainJsonUnsupported path)
      else case content of
        None \<Rightarrow> Inl (OpenFailed path)
      | Some lines \<Rightarrow> if path_extension path = Some ''jsonl'' then load_jsonl E path lines
                      else load_delimited E lines)"

type_synonym data_file = "string \<times> string option list option"

fun collect_entry :: "data_node option \<Rightarrow> load_error + data_file list"
  and collect_dir :: "string \<Rightarrow> data_node option list option \<Rightarrow> load_error + data_file list"
  and collect_entries :: "data_node option list \<Rightarrow> load_error + data_file list" where
  "collect_entry None = Inl DirEntryFailed"
| "collect_entry (Some (DataFile p c)) =
     Inr (if path_extension p \<in> {Some ''csv'', Some ''tsv'', Some ''jsonl''} then [(p, c)] else [])"
| "collect_entry (Some (DataDir p es)) = collect_dir p es"
| "collect_dir p None = Inl (ReadDirFailed p)"
| "collect_dir p (Some es) = collect_entries es"
| "collect_entries [] = Inr []"
| "collect_entries (e # es) = (case collect_entry e of
     Inl x \<Rightarrow> Inl x
   | Inr fs \<Rightarrow> map_sum id (append fs) (collect_entries es))"

fun collect_input_files :: "data_node \<Rightarrow> load_error + data_file list" where
  "collect_input_files (DataFile p c) = Inr [(p, c)]"
| "collect_input_files (DataDir p es) = collect_dir p es"

fun load_files :: "loader_env \<Rightarrow> data_file list \<Rightarrow> load_error + lsapp_record list" where
  "load_files E [] = Inr []"
| "load_files E ((p, c) # fs) = (case load_record_file E p c of
     Inl e \<Rightarrow> Inl e
   | Inr rs \<Rightarrow> map_sum id (append rs) (load_files E fs))"

definition load_records :: "loader_env \<Rightarrow> data_node \<Rightarrow> load_error + lsapp_record list" where
  "load_records E node = (case collect_input_files node of Inl e \<Rightarrow> Inl e | Inr fs \<Rightarrow> load_files E fs)"

section \<open>Examples\<close>

text \<open>The clock features of a record: this file has its own copies of the backend's two functions.\<close>

definition record_hour :: "i64 \<Rightarrow> u8" where
  "record_hour t = (let seconds = t div 1000 in of_int ((seconds div 3600) mod 24))"

definition record_weekday :: "i64 \<Rightarrow> u8" where
  "record_weekday t = (let days = t div 86400000 in of_int ((days + 4) mod 7))"

definition push_history :: "string list \<Rightarrow> string \<Rightarrow> usize \<Rightarrow> string list" where
  "push_history history app n = (let h = history @ [app] in drop (length h - n) h)"

definition session_start_times :: "lsapp_record list \<Rightarrow> (string, i64) btree_map" where
  "session_start_times rs =
     foldl (\<lambda>m r. btree_upsert (la_session_id r) (la_timestamp_ms r) (\<lambda>t. min t (la_timestamp_ms r)) m) [] rs"

definition record_key :: "(string, i64) btree_map \<Rightarrow> lsapp_record \<Rightarrow> i64 \<times> string \<times> i64 \<times> usize" where
  "record_key starts r = (the (btree_get starts (la_session_id r)), la_session_id r, la_timestamp_ms r, la_ordinal r)"

definition sort_records :: "lsapp_record list \<Rightarrow> lsapp_record list" where
  "sort_records rs = (let starts = session_start_times rs in
     sort_by (\<lambda>a b. record_key starts a \<le> record_key starts b) rs)"

definition within_horizon :: "u64 \<Rightarrow> lsapp_record \<Rightarrow> lsapp_record \<Rightarrow> bool" where
  "within_horizon secs r c \<longleftrightarrow>
     i64_wrap (la_timestamp_ms c - la_timestamp_ms r) \<le> i64_wrap (u64_as_i64 secs * 1000)"

text \<open>The first record of another app after a record, in its session and within the horizon.\<close>

definition next_label_record :: "u64 \<Rightarrow> lsapp_record \<Rightarrow> lsapp_record list \<Rightarrow> lsapp_record option" where
  "next_label_record secs r rest =
     find (\<lambda>c. la_app_name c \<noteq> la_app_name r)
       (takeWhile (within_horizon secs r) (takeWhile (\<lambda>c. la_session_id c = la_session_id r) rest))"

definition record_example :: "string \<Rightarrow> string list \<Rightarrow> lsapp_record \<Rightarrow> lsapp_record \<Rightarrow> training_example" where
  "record_example user history r label =
     \<lparr>te_user_id = user, te_current_app = la_app_name r, te_history = history,
      te_hour_bucket = record_hour (la_timestamp_ms r), te_weekday = record_weekday (la_timestamp_ms r),
      te_event_type = la_event_type r, te_label_app = la_app_name label\<rparr>"

fun user_examples :: "string \<Rightarrow> u64 \<Rightarrow> usize \<Rightarrow> string list \<Rightarrow> lsapp_record list \<Rightarrow> training_example list" where
  "user_examples user secs n history (r # c # rest) =
     (case next_label_record secs r (c # rest) of
        None \<Rightarrow> []
      | Some label \<Rightarrow> if la_app_name r \<noteq> la_app_name label then [record_example user history r label] else [])
     @ user_examples user secs n (push_history history (la_app_name r) n) (c # rest)"
| "user_examples user secs n history rs = []"

text \<open>\<open>entry(key).text_or().push(x)\<close> over a list: the elements of each key, in order.\<close>

definition group_by :: "('a \<Rightarrow> string) \<Rightarrow> 'a list \<Rightarrow> (string, 'a list) btree_map" where
  "group_by key xs = foldl (\<lambda>m x. btree_upsert (key x) [] (\<lambda>ys. ys @ [x]) m) [] xs"

definition records_by_user :: "lsapp_record list \<Rightarrow> (string, lsapp_record list) btree_map" where
  "records_by_user rs = group_by la_user_id rs"

definition examples_of :: "lsapp_record list \<Rightarrow> u64 \<Rightarrow> usize \<Rightarrow> training_example list" where
  "examples_of rs secs n =
     concat (map (\<lambda>(user, us). user_examples user secs n [] (sort_records us)) (records_by_user rs))"

definition load_examples :: "loader_env \<Rightarrow> data_node \<Rightarrow> u64 \<Rightarrow> usize \<Rightarrow> load_error + training_example list" where
  "load_examples E node secs n = (case load_records E node of
     Inl e \<Rightarrow> Inl e
   | Inr rs \<Rightarrow> if length rs < 2 then Inl TooFewRecords else Inr (examples_of rs secs n))"

section \<open>Splits (split.rs)\<close>

datatype next_app_split = Standard | ColdStart

text \<open>\<open>((n as f32) * 0.8).floor() as usize\<close>.\<close>

fun floor_as_usize :: "f32 \<Rightarrow> usize" where
  "floor_as_usize (FFin x) = nat (min \<lfloor>x\<rfloor> (2 ^ 64 - 1))"
| "floor_as_usize (FInf s) = (if s then 0 else 2 ^ 64 - 1)"
| "floor_as_usize FNaN = 0"

definition split_cutoff :: "usize \<Rightarrow> usize" where
  "split_cutoff n = floor_as_usize (fp_mul fmt32 (f32_of_nat n) (f32_lit (8 / 10)))"

text \<open>How many of \<open>n\<close> go to training: \<open>cutoff.max(1)\<close>.\<close>

definition train_size :: "usize \<Rightarrow> usize" where
  "train_size n = max (split_cutoff n) 1"

definition examples_by_user :: "training_example list \<Rightarrow> (string, training_example list) btree_map" where
  "examples_by_user es = group_by te_user_id es"

definition split_standard :: "training_example list \<Rightarrow> training_example list \<times> training_example list" where
  "split_standard es =
     foldl (\<lambda>(train, test) (user, us). let k = train_size (length us) in
         (train @ take k us, test @ drop k us)) ([], []) (examples_by_user es)"

definition FNV_OFFSET :: u64 where "FNV_OFFSET = 14695981039346656037"
definition FNV_PRIME :: u64 where "FNV_PRIME = 1099511628211"
definition SPLIT_SEED :: string where "SPLIT_SEED = ''dipecs-next-app-cold-start-v1''"

definition fnv_step :: "u64 \<Rightarrow> u8 \<Rightarrow> u64" where
  "fnv_step h b = (h XOR ucast b) * FNV_PRIME"

definition stable_user_split_hash :: "string \<Rightarrow> u64" where
  "stable_user_split_hash user =
     foldl fnv_step FNV_OFFSET (map of_char SPLIT_SEED @ [0] @ map of_char user)"

definition user_hash_key :: "string \<Rightarrow> u64 \<times> string" where
  "user_hash_key u = (stable_user_split_hash u, u)"

definition split_train_users :: "training_example list \<Rightarrow> string list" where
  "split_train_users es =
     (let users = btree_set (map te_user_id es) in
      take (train_size (length users)) (sort_by (\<lambda>a b. user_hash_key a \<le> user_hash_key b) users))"

definition split_cold_start :: "training_example list \<Rightarrow> training_example list \<times> training_example list" where
  "split_cold_start es = (let train_users = split_train_users es in
     (filter (\<lambda>e. te_user_id e \<in> set train_users) es, filter (\<lambda>e. te_user_id e \<notin> set train_users) es))"

fun split_examples :: "training_example list \<Rightarrow> next_app_split \<Rightarrow> training_example list \<times> training_example list" where
  "split_examples es Standard = split_standard es"
| "split_examples es ColdStart = split_cold_start es"

section \<open>The civil calendar\<close>

text \<open>The reference: leap years, the length of a month and the day after a date.\<close>

definition leap_year :: "int \<Rightarrow> bool" where
  "leap_year y \<longleftrightarrow> 4 dvd y \<and> (\<not> 100 dvd y \<or> 400 dvd y)"

definition month_days :: "int \<Rightarrow> int \<Rightarrow> int" where
  "month_days y m = (if m = 2 then if leap_year y then 29 else 28 else if m \<in> {4, 6, 9, 11} then 30 else 31)"

definition civil_date :: "int \<times> int \<times> int \<Rightarrow> bool" where
  "civil_date = (\<lambda>(y, m, d). 1 \<le> m \<and> m \<le> 12 \<and> 1 \<le> d \<and> d \<le> month_days y m)"

fun next_day :: "int \<times> int \<times> int \<Rightarrow> int \<times> int \<times> int" where
  "next_day (y, m, d) =
     (if d < month_days y m then (y, m, d + 1) else if m < 12 then (y, m + 1, 1) else (y + 1, 1, 1))"

lemma sdiv_nonneg: "0 \<le> x \<Longrightarrow> 0 < k \<Longrightarrow> x sdiv k = x div (k :: int)"
  by (cases "x = 0") (simp_all add: signed_divide_int_def)

lemma sdiv_floor: "(if 0 \<le> y then y else y - 399) sdiv 400 = y div (400 :: int)"
proof (cases "0 \<le> y")
  case True
  then show ?thesis by (simp add: sdiv_nonneg)
next
  case False
  then have "(y - 399) sdiv 400 = - ((399 - y) div 400)" by (simp add: signed_divide_int_def)
  also have "\<dots> = y div 400"
  proof -
    have "399 - y = (399 - y mod 400) + (- (y div 400)) * 400" using div_mult_mod_eq [of y 400] by linarith
    then have "(399 - y) div 400 = (399 - y mod 400) div 400 + - (y div 400)" by (metis div_mult_self1 zero_neq_numeral add.commute)
    moreover have "(399 - y mod 400) div 400 = 0" by (intro div_pos_pos_trivial) auto
    ultimately show ?thesis by simp
  qed
  finally show ?thesis using False by simp
qed

lemma era_split:
  "(y - y div 400 * 400) * 365 + (y - y div 400 * 400) div 4 - (y - y div 400 * 400) div 100
      + y div 400 * 146097 = 365 * y + y div 4 - y div 100 + y div (400 :: int)"
proof -
  define q r where "q = y div 400" and "r = y - y div 400 * 400"
  then have y: "y = r + q * 400" by simp
  have "y div 4 = r div 4 + q * 100"
    using div_mult_self1 [of 4 r "q * 100"] by (simp add: y mult.assoc)
  moreover have "y div 100 = r div 100 + q * 4"
    using div_mult_self1 [of 100 r "q * 4"] by (simp add: y mult.assoc)
  ultimately show ?thesis unfolding q_def [symmetric] r_def [symmetric] by (simp add: y)
qed
text \<open>The formula without eras: years start in March.\<close>

definition march_days :: "int \<Rightarrow> int \<Rightarrow> int" where
  "march_days y m = 365 * y + y div 4 - y div 100 + y div 400 + (153 * (m - 3) + 2) div 5"

lemma civil_days_march:
  assumes "1 \<le> m" "m \<le> 12"
  shows "civil_days y m d = (if m \<le> 2 then march_days (y - 1) (m + 12) else march_days y m) + d - 719469"
proof -
  have r: "0 \<le> x - x div 400 * 400" for x :: int
    using pos_mod_sign [of 400 x] div_mult_mod_eq [of x 400] by linarith
  have one: "(let era = (if 0 \<le> x then x else x - 399) sdiv 400; yoe = x - era * 400;
          doy = (153 * (k - 3) + 2) sdiv 5 + d - 1; doe = yoe * 365 + yoe sdiv 4 - yoe sdiv 100 + doy
      in era * 146097 + doe - 719468) = march_days x k + d - 719469" if "3 \<le> k" for x k
    using era_split [of x] r [of x] that unfolding sdiv_floor Let_def march_days_def
    by (simp add: sdiv_nonneg)
  show ?thesis
  proof (cases "m \<le> 2")
    case True
    with one [of "m + 12" "y - 1"] assms show ?thesis
      by (simp only: civil_days_def if_True Let_def prod.case)
  next
    case False
    with one [of m y] show ?thesis
      by (simp only: civil_days_def if_False Let_def prod.case)
  qed
qed

lemma div_step:
  assumes "0 < (k :: int)"
  shows "y div k = (y - 1) div k + (if k dvd y then 1 else 0)"
proof (cases "k dvd y")
  case True
  then have "y - 1 = k * (y div k - 1) + (k - 1)" by (simp add: right_diff_distrib)
  then have "(y - 1) div k = y div k - 1" using assms int_div_pos_eq [of "y - 1" k "y div k - 1" "k - 1"] by simp
  with True show ?thesis by simp
next
  case False
  then have "y mod k \<noteq> 0" by (simp add: dvd_eq_mod_eq_0)
  moreover have "0 \<le> y mod k" "y mod k < k" using assms by simp_all
  ultimately have "1 \<le> y mod k" "y mod k < k" by linarith+
  moreover have "y - 1 = k * (y div k) + (y mod k - 1)" using mult_div_mod_eq [of k y] by linarith
  ultimately have "(y - 1) div k = y div k" using int_div_pos_eq [of "y - 1" k "y div k" "y mod k - 1"] by simp
  with False show ?thesis by simp
qed

lemma march_leap:
  "march_days y m = march_days (y - 1) m + (if leap_year y then 366 else 365)"
proof -
  have c: "400 dvd y \<Longrightarrow> 100 dvd y" "100 dvd y \<Longrightarrow> 4 dvd y"
    by (rule dvd_trans [of 100 400 y], simp_all) (rule dvd_trans [of 4 100 y], simp_all)
  have steps: "y div 4 = (y - 1) div 4 + (if 4 dvd y then 1 else 0)"
    "y div 100 = (y - 1) div 100 + (if 100 dvd y then 1 else 0)"
    "y div 400 = (y - 1) div 400 + (if 400 dvd y then 1 else 0)" by (rule div_step; simp)+
  show ?thesis
    using c unfolding march_days_def leap_year_def steps
    by (cases "4 dvd y"; cases "100 dvd y"; cases "400 dvd y") simp_all
qed

lemma civil_days_next:
  assumes "1 \<le> m" "m \<le> 12"
  shows "civil_days y m (d + 1) = civil_days y m d + 1"
    and "m < 12 \<Longrightarrow> civil_days y (m + 1) 1 = civil_days y m (month_days y m) + 1"
    and "civil_days (y + 1) 1 1 = civil_days y 12 31 + 1"
proof -
  show "civil_days y m (d + 1) = civil_days y m d + 1" using assms by (simp add: civil_days_march)
  show "civil_days (y + 1) 1 1 = civil_days y 12 31 + 1" by (simp add: civil_days_march march_days_def)
  assume "m < 12"
  with assms(1) have "m \<in> set [1..11]" by simp
  then consider "m = 1" | "m = 2" | "m = 3" | "m = 4" | "m = 5" | "m = 6" | "m = 7" | "m = 8" | "m = 9" | "m = 10" | "m = 11"
    by (simp add: upto.simps) blast
  then show "civil_days y (m + 1) 1 = civil_days y m (month_days y m) + 1"
  proof cases
    case 2
    then show ?thesis using march_leap [of y 3] by (simp add: civil_days_march month_days_def, simp add: march_days_def)
  qed (simp_all add: civil_days_march month_days_def march_days_def)
qed

text \<open>The formula numbers the days: the day after a date has the next number, and 1 January 1970 has 0.\<close>

lemma civil_days_step:
  assumes "civil_date (y, m, d)" "next_day (y, m, d) = (y', m', d')"
  shows "civil_days y' m' d' = civil_days y m d + 1" "civil_date (y', m', d')"
  using assms civil_days_next(1) [of m y d] civil_days_next(2) [of m y] civil_days_next(3) [of m y]
  by (auto simp: civil_date_def month_days_def split: if_splits)

lemma civil_days_epoch:
  assumes "(next_day ^^ n) (1970, 1, 1) = (y, m, d)"
  shows "civil_days y m d = int n \<and> civil_date (y, m, d)"
  using assms
proof (induction n arbitrary: y m d)
  case 0
  then have "y = 1970" "m = 1" "d = 1" by auto
  then show ?case by (simp add: civil_days_march march_days_def civil_date_def month_days_def)
next
  case (Suc n)
  obtain y0 m0 d0 where p: "(next_day ^^ n) (1970, 1, 1) = (y0, m0, d0)" by (metis prod_cases3)
  from Suc.prems p have "next_day (y0, m0, d0) = (y, m, d)" by simp
  with civil_days_step [of y0 m0 d0] Suc.IH [OF p] show ?case by simp
qed


section \<open>Timestamps in text\<close>

definition pad2 :: "nat \<Rightarrow> string" where
  "pad2 n = (if n < 10 then ''0'' else []) @ show_nat n"

definition iso_text :: "int \<times> int \<times> int \<Rightarrow> char \<Rightarrow> nat \<Rightarrow> nat \<Rightarrow> nat \<Rightarrow> string" where
  "iso_text = (\<lambda>(y, m, d) sep h mi sec.
     show_nat (nat y) @ ''-'' @ pad2 (nat m) @ ''-'' @ pad2 (nat d) @ [sep]
       @ pad2 h @ '':'' @ pad2 mi @ '':'' @ pad2 sec)"

lemma show_nat_digit: "c \<in> set (show_nat n) \<Longrightarrow> digit_of c \<noteq> None"
  using parse_show_nat_digits [of c n] by (auto simp: digit_of_show)

lemma pad2_digit: "c \<in> set (pad2 n) \<Longrightarrow> digit_of c \<noteq> None"
  by (auto simp: pad2_def digit_of_def dest: show_nat_digit split: if_splits)

lemma no_digit [simp]:
  "digit_of (CHR ''-'') = None" "digit_of (CHR '':'') = None" "digit_of (CHR ''T'') = None"
  "digit_of (CHR '' '') = None" "digit_of (CHR ''.'') = None" "digit_of (CHR ''+'') = None"
  by (simp_all add: digit_of_def)

lemma not_in_digits:
  "digit_of c = None \<Longrightarrow> c \<notin> set (show_nat n)" "digit_of c = None \<Longrightarrow> c \<notin> set (pad2 n)"
  using show_nat_digit pad2_digit by blast+

lemma parse_uint_pad2:
  assumes "n < bound"
  shows "parse_uint bound (pad2 n) = Some n"
proof (cases "n < 10")
  case True
  then have "parse_digits 0 (pad2 n) = Some n"
    using parse_digits_show [of n] by (simp add: pad2_def digit_of_def)
  with True assms show ?thesis by (simp add: parse_uint_def pad2_def)
qed (use assms in \<open>simp add: pad2_def parse_uint_show\<close>)

lemma parse_u32_pad2: "n < 100 \<Longrightarrow> parse_u32 (pad2 n) = Some (of_nat n)"
  by (simp add: parse_u32_def parse_uint_pad2)

lemma parse_i32_digits: "digit_of c \<noteq> None \<Longrightarrow> parse_i32 (c # cs) = map_option int (parse_uint (2 ^ 31) (c # cs))"
proof -
  assume "digit_of c \<noteq> None"
  then have "c \<noteq> CHR ''-''" using no_digit(1) by metis
  then show ?thesis unfolding parse_i32_def by (cases c) (auto split: bool.splits)
qed

lemma parse_i32_show: "n < 2 ^ 31 \<Longrightarrow> parse_i32 (show_nat n) = Some (int n)"
  using parse_i32_digits show_nat_digit [of _ n] show_nat_not_Nil [of n] parse_uint_show [of n "2 ^ 31"]
  by (cases "show_nat n") auto

lemma small_u32:
  assumes "k < 100"
  shows "uint (of_nat k :: u32) = int k" "(of_nat k :: u32) = 0 \<longleftrightarrow> k = 0" "(b :: u32) < of_nat k \<longleftrightarrow> unat b < k"
proof -
  have "unat (of_nat k :: u32) = k" using assms by (simp add: unat_of_nat)
  then show "uint (of_nat k :: u32) = int k" "(of_nat k :: u32) = 0 \<longleftrightarrow> k = 0" "b < of_nat k \<longleftrightarrow> unat b < k"
    by (simp_all add: uint_nat word_less_nat_alt unat_eq_0 [symmetric])
qed

lemma date_fields_text:
  assumes "1 \<le> m" "m \<le> 12" "1 \<le> d" "d \<le> 31" "0 \<le> y" "y \<le> 9999"
  shows "date_fields (show_nat (nat y) @ ''-'' @ pad2 (nat m) @ ''-'' @ pad2 (nat d)) = Some (y, m, d)"
proof -
  have "split_char (CHR ''-'') (show_nat (nat y) @ ''-'' @ pad2 (nat m) @ ''-'' @ pad2 (nat d))
      = [show_nat (nat y), pad2 (nat m), pad2 (nat d)]"
    by (simp add: split_char_append split_char_free not_in_digits)
  moreover from assms obtain m' d' where "m = int m'" "d = int d'" by (metis nonneg_int_cases order_trans zero_le_one)
  moreover have "parse_i32 (show_nat (nat y)) = Some y" using parse_i32_show [of "nat y"] assms by simp
  ultimately show ?thesis
    using assms by (simp add: date_fields_def parse_u32_pad2 small_u32)
qed

lemma time_fields_text:
  assumes "h < 24" "mi < 60" "sec < 60"
  shows "time_fields (pad2 h @ '':'' @ pad2 mi @ '':'' @ pad2 sec) = Some (int h, int mi, int sec)"
proof -
  have "split_char (CHR ''.'') (pad2 h @ '':'' @ pad2 mi @ '':'' @ pad2 sec) = [pad2 h @ '':'' @ pad2 mi @ '':'' @ pad2 sec]"
    by (rule split_char_free) (simp add: not_in_digits)
  moreover have "split_char (CHR '':'') (pad2 h @ '':'' @ pad2 mi @ '':'' @ pad2 sec) = [pad2 h, pad2 mi, pad2 sec]"
    by (simp add: split_char_append split_char_free not_in_digits)
  ultimately show ?thesis
    using assms by (simp add: time_fields_def parse_u32_pad2 small_u32)
qed

lemma split_datetime_text:
  assumes "sep \<in> {CHR ''T'', CHR '' ''}" "\<forall>c \<in> set date \<union> set time. c \<noteq> CHR ''T'' \<and> c \<noteq> CHR '' ''"
  shows "split_datetime (date @ sep # time) = Some (date, time)"
proof -
  have "takeWhile (\<lambda>x. x \<noteq> sep) (date @ sep # time) = date" "dropWhile (\<lambda>x. x \<noteq> sep) (date @ sep # time) = sep # time"
    using assms by (auto simp: takeWhile_append dropWhile_append)
  then have "split_once sep (date @ sep # time) = Some (date, time)" by (simp add: split_once_def)
  moreover have "split_once (CHR ''T'') (date @ sep # time) = None" if "sep = CHR '' ''"
    using that assms(2) by (auto simp: split_once_def)
  ultimately show ?thesis using assms(1) by (auto simp: split_datetime_def)
qed

lemma civil_days_bound:
  assumes "1 \<le> m" "m \<le> 12" "1 \<le> d" "d \<le> 31" "0 \<le> y" "y \<le> 9999"
  shows "civil_days y m d < 10 ^ 7"
proof -
  have bound: "march_days x k \<le> 367 * 9999 + 1000" if "- 1 \<le> x" "x \<le> 9999" "k \<le> 14" for x k
  proof -
    have "x div 4 \<le> 9999" "- x div 100 \<le> 1" "x div 400 \<le> 9999" using that by linarith+
    moreover have "(153 * (k - 3) + 2) div 5 \<le> 337" using zdiv_mono1 [of "153 * (k - 3) + 2" 1685 5] that by simp
    moreover have "- (x div 100) \<le> 1" using that by linarith
    ultimately show ?thesis using that unfolding march_days_def by linarith
  qed
  from bound [of y m] bound [of "y - 1" "m + 12"] assms show ?thesis
    by (cases "m \<le> 2") (simp_all add: civil_days_march)
qed

lemma parse_iso_text:
  assumes "1 \<le> m" "m \<le> 12" "1 \<le> d" "d \<le> 31" "0 \<le> y" "y \<le> 9999" "0 \<le> civil_days y m d" "h < 24" "mi < 60" "sec < 60"
    "sep \<in> {CHR ''T'', CHR '' ''}"
  shows "parse_iso_datetime_ms (iso_text (y, m, d) sep h mi sec)
    = Some ((civil_days y m d * 86400 + int h * 3600 + int mi * 60 + int sec) * 1000)"
proof -
  let ?date = "show_nat (nat y) @ ''-'' @ pad2 (nat m) @ ''-'' @ pad2 (nat d)"
  let ?time = "pad2 h @ '':'' @ pad2 mi @ '':'' @ pad2 sec"
  have "split_datetime (?date @ sep # ?time) = Some (?date, ?time)"
    by (rule split_datetime_text [OF assms(11)]) (auto simp: not_in_digits dest: not_in_digits [rotated])
  moreover have "iso_text (y, m, d) sep h mi sec = ?date @ sep # ?time" by (simp add: iso_text_def)
  moreover have "in_i64 ((civil_days y m d * 86400 + int h * 3600 + int mi * 60 + int sec) * 1000)"
    using assms civil_days_bound [OF assms(1-6)] by (simp add: in_i64_def i64_min_def i64_max_def)
  ultimately show ?thesis
    using date_fields_text [OF assms(1-6)] time_fields_text [OF assms(8-10)]
    by (simp add: parse_iso_datetime_ms_def i64_wrap_id)
qed

lemma next_day_year: "fst (next_day t) \<ge> fst t"
  by (cases t rule: next_day.cases) simp

lemma epoch_year: "1970 \<le> fst ((next_day ^^ n) (1970, 1, 1))"
  by (induction n) (auto intro: order_trans [OF _ next_day_year])

text \<open>C40: dates in the dataset mean what the calendar says. For the date \<open>n\<close> days after 1 January 1970 and
  any time of day, written \<open>YYYY-MM-DD HH:MM:SS\<close> with a space or a \<open>T\<close> (years up to 9999), the loader reads
  exactly the milliseconds since the epoch.\<close>

theorem iso_timestamps_follow_calendar:
  assumes "(next_day ^^ n) (1970, 1, 1) = (y, m, d)" "y \<le> 9999" "h < 24" "mi < 60" "sec < 60"
    "sep \<in> {CHR ''T'', CHR '' ''}"
  shows "parse_iso_datetime_ms (iso_text (y, m, d) sep h mi sec)
    = Some ((int n * 86400 + int h * 3600 + int mi * 60 + int sec) * 1000)"
proof -
  have "civil_days y m d = int n" "civil_date (y, m, d)" "0 \<le> y"
    using civil_days_epoch [OF assms(1)] epoch_year [of n] assms(1) by simp_all
  moreover from this have "1 \<le> m" "m \<le> 12" "1 \<le> d" "d \<le> 31"
    by (auto simp: civil_date_def month_days_def split: if_splits)
  ultimately show ?thesis using parse_iso_text [of m d y h mi sec sep] assms by simp
qed

theorem iso_timestamps_follow_calendar_witness:
  "parse_iso_datetime_ms ''1970-02-01 06:01:05'' = Some ((31 * 86400 + 6 * 3600 + 1 * 60 + 5) * 1000)"
proof -
  have "(next_day ^^ 31) (1970, 1, 1) = (1970, 2, 1)"
    by (simp add: numeral_eq_Suc month_days_def)
  note iso_timestamps_follow_calendar [OF this, of 6 1 5 "CHR '' ''"]
  moreover have "iso_text (1970, 2, 1) (CHR '' '') 6 1 5 = ''1970-02-01 06:01:05''" by code_simp
  ultimately show ?thesis by simp
qed

text \<open>A day the month does not have is not rejected: it is the day that many days into the month.\<close>

lemma impossible_date_accepted:
  "parse_iso_datetime_ms (iso_text (2018, 2, 31) (CHR '' '') 0 0 0) = parse_iso_datetime_ms (iso_text (2018, 3, 3) (CHR '' '') 0 0 0)"
  by (simp add: parse_iso_text civil_days_march march_days_def)

section \<open>Groups\<close>

lemma group_by_snoc: "group_by key (xs @ [x]) = btree_upsert (key x) [] (\<lambda>ys. ys @ [x]) (group_by key xs)"
  by (simp add: group_by_def)

lemma group_by_invar: "btree_invar (group_by key xs)"
  by (induction xs rule: rev_induct) (simp_all add: group_by_snoc btree_upsert_invar, simp add: group_by_def btree_empty)

lemma group_by_get:
  "btree_get (group_by key xs) k = (if k \<in> key ` set xs then Some (filter (\<lambda>x. key x = k) xs) else None)"
proof (induction xs rule: rev_induct)
  case Nil
  then show ?case by (simp add: group_by_def btree_empty)
next
  case (snoc x xs)
  have "filter (\<lambda>y. key y = key x) xs = []" if "key x \<notin> key ` set xs"
    by (metis (mono_tags, lifting) filter_empty_conv image_eqI that)
  with snoc show ?case by (auto simp: group_by_snoc btree_upsert_get group_by_invar)
qed

lemma group_by_mem: "(k, ys) \<in> set (group_by key xs) \<longleftrightarrow> k \<in> key ` set xs \<and> ys = filter (\<lambda>x. key x = k) xs"
  using bt.entries_lookup [OF group_by_invar, of k ys key xs] by (auto simp: group_by_get)

lemma group_by_distinct: "distinct (map fst (group_by key xs))"
  by (rule btree_invar_distinct [OF group_by_invar])

section \<open>Examples never look ahead\<close>

lemma record_clock: "record_hour = hour_bucket" "record_weekday = weekday_of"
  by (intro ext; simp add: record_hour_def hour_bucket_def record_weekday_def weekday_of_def)+

definition recent_apps :: "usize \<Rightarrow> lsapp_record list \<Rightarrow> string list" where
  "recent_apps n before = drop (length before - n) (map la_app_name before)"

lemma push_recent: "push_history (recent_apps n before) (la_app_name r) n = recent_apps n (before @ [r])"
  by (cases "n \<le> length before") (simp_all add: push_history_def recent_apps_def Let_def Suc_diff_le)

lemma next_label_sound:
  assumes "next_label_record secs r rest = Some label"
  shows "\<exists>same later. rest = same @ label # later \<and> la_app_name label \<noteq> la_app_name r
     \<and> (\<forall>c \<in> set same. la_app_name c = la_app_name r)
     \<and> (\<forall>c \<in> set (same @ [label]). la_session_id c = la_session_id r \<and> within_horizon secs r c)"
  using assms unfolding next_label_record_def
proof (induction rest)
  case (Cons c rest)
  show ?case
  proof (cases "la_app_name c = la_app_name r")
    case True
    with Cons obtain same later where s: "rest = same @ label # later" "la_app_name label \<noteq> la_app_name r"
      "\<forall>c \<in> set same. la_app_name c = la_app_name r"
      "\<forall>c \<in> set (same @ [label]). la_session_id c = la_session_id r \<and> within_horizon secs r c"
      by (auto split: if_splits)
    moreover have "la_session_id c = la_session_id r" "within_horizon secs r c"
      using Cons.prems by (auto split: if_splits)
    ultimately show ?thesis using True by (intro exI [of _ "c # same"] exI [of _ later]) auto
  next
    case False
    with Cons.prems show ?thesis
      by (intro exI [of _ "[]"] exI [of _ rest]) (auto split: if_splits)
  qed
qed simp

definition example_of :: "u64 \<Rightarrow> usize \<Rightarrow> lsapp_record list \<Rightarrow> training_example \<Rightarrow> bool" where
  "example_of secs n records e \<longleftrightarrow>
     (\<exists>before r same label later. records = before @ r # same @ label # later
        \<and> e = record_example (te_user_id e) (recent_apps n before) r label
        \<and> te_label_app e \<noteq> te_current_app e
        \<and> (\<forall>c \<in> set same. la_app_name c = la_app_name r)
        \<and> (\<forall>c \<in> set (same @ [label]). la_session_id c = la_session_id r \<and> within_horizon secs r c))"

lemma user_examples_sound:
  assumes "e \<in> set (user_examples user secs n (recent_apps n before) records)"
  shows "te_user_id e = user \<and> example_of secs n (before @ records) e"
  using assms
proof (induction user secs n "recent_apps n before" records arbitrary: before rule: user_examples.induct)
  case (1 user secs n r c rest)
  show ?case
  proof (cases "e \<in> set (user_examples user secs n (recent_apps n (before @ [r])) (c # rest))")
    case True
    then show ?thesis using "1.hyps" [of "before @ [r]"] by (simp add: push_recent)
  next
    case False
    with "1.prems" obtain label where l: "next_label_record secs r (c # rest) = Some label"
      "e = record_example user (recent_apps n before) r label"
      by (cases "next_label_record secs r (c # rest)") (auto simp: push_recent split: if_splits)
    obtain same later where "c # rest = same @ label # later" "la_app_name label \<noteq> la_app_name r"
      "\<forall>c \<in> set same. la_app_name c = la_app_name r"
      "\<forall>c \<in> set (same @ [label]). la_session_id c = la_session_id r \<and> within_horizon secs r c"
      using next_label_sound [OF l(1)] by blast
    with l(2) show ?thesis
      unfolding example_of_def record_example_def
      by (intro conjI exI [of _ before] exI [of _ r] exI [of _ same] exI [of _ label] exI [of _ later]) simp_all
  qed
qed auto

lemma examples_of_sound:
  assumes "e \<in> set (examples_of rs secs n)"
  shows "example_of secs n (sort_records (filter (\<lambda>r. la_user_id r = te_user_id e) rs)) e"
proof -
  from assms obtain user where "e \<in> set (user_examples user secs n (recent_apps n []) (sort_records (filter (\<lambda>r. la_user_id r = user) rs)))"
    by (auto simp: examples_of_def records_by_user_def group_by_mem recent_apps_def)
  from user_examples_sound [OF this] show ?thesis by simp
qed

lemma set_sort_records [simp]: "set (sort_records rs) = set rs"
  by (simp add: sort_records_def Let_def)

text \<open>When a record's session starts: the earliest of its records.\<close>

definition session_start :: "lsapp_record list \<Rightarrow> lsapp_record \<Rightarrow> i64" where
  "session_start rs r = Min (la_timestamp_ms ` {x \<in> set rs. la_session_id x = la_session_id r})"

lemma session_start_times_get:
  "btree_invar (session_start_times rs) \<and> btree_get (session_start_times rs) s =
     (if s \<in> la_session_id ` set rs then Some (Min (la_timestamp_ms ` {x \<in> set rs. la_session_id x = s})) else None)"
proof (induction rs arbitrary: s rule: rev_induct)
  case Nil
  then show ?case by (simp add: session_start_times_def btree_empty)
next
  case (snoc r rs)
  have step: "session_start_times (rs @ [r]) = btree_upsert (la_session_id r) (la_timestamp_ms r)
      (\<lambda>t. min t (la_timestamp_ms r)) (session_start_times rs)" by (simp add: session_start_times_def)
  have inv: "btree_invar (session_start_times rs)" using snoc by blast
  have set: "{x \<in> set (rs @ [r]). la_session_id x = s} =
      (if la_session_id r = s then insert r {x \<in> set rs. la_session_id x = s} else {x \<in> set rs. la_session_id x = s})"
    by auto
  have none: "s \<notin> la_session_id ` set rs \<Longrightarrow> {x \<in> set rs. la_session_id x = s} = {}" by auto
  have some: "s \<in> la_session_id ` set rs \<Longrightarrow> {x \<in> set rs. la_session_id x = s} \<noteq> {}" by auto
  show ?case
  proof (cases "s = la_session_id r")
    case True
    have "btree_get (session_start_times (rs @ [r])) s = Some (Min (la_timestamp_ms ` {x \<in> set (rs @ [r]). la_session_id x = s}))"
    proof (cases "s \<in> la_session_id ` set rs")
      case mem: True
      have "finite {x \<in> set rs. la_session_id x = s}" by simp
      with some [OF mem] mem snoc [of s] show ?thesis unfolding step set
        by (simp add: True btree_upsert_get inv min.commute)
    next
      case False
      with snoc [of s] show ?thesis unfolding step set
        by (simp add: True btree_upsert_get inv none [OF False, unfolded True])
    qed
    then show ?thesis using True by (simp add: step btree_upsert_invar inv)
  next
    case False
    then show ?thesis using snoc [of s] unfolding set by (simp add: step btree_upsert_invar btree_upsert_get inv)
  qed
qed

lemma record_key_start:
  assumes "r \<in> set rs"
  shows "record_key (session_start_times rs) r = (session_start rs r, la_session_id r, la_timestamp_ms r, la_ordinal r)"
  using assms session_start_times_get [of rs "la_session_id r"] by (simp add: record_key_def session_start_def)

lemma sort_records_sorted:
  "sorted (map (\<lambda>r. (session_start rs r, la_session_id r, la_timestamp_ms r, la_ordinal r)) (sort_records rs))"
proof -
  have "sorted_wrt (\<lambda>a b. record_key (session_start_times rs) a \<le> record_key (session_start_times rs) b) (sort_records rs)"
    unfolding sort_records_def Let_def by (rule sorted_sort_by) auto
  then show ?thesis unfolding sorted_map
    by (rule sorted_wrt_mono_rel [rotated]) (simp add: record_key_start)
qed

lemma session_start_cong: "set rs = set rs' \<Longrightarrow> session_start rs r = session_start rs' r"
  by (simp add: session_start_def)

lemma session_start_le: "x \<in> set rs \<Longrightarrow> la_session_id x = la_session_id r \<Longrightarrow> session_start rs r \<le> la_timestamp_ms x"
  by (simp add: session_start_def)

definition sessions_apart :: "lsapp_record list \<Rightarrow> bool" where
  "sessions_apart rs \<longleftrightarrow> (\<forall>x \<in> set rs. \<forall>y \<in> set rs.
     la_session_id x \<noteq> la_session_id y \<and> session_start rs x \<le> session_start rs y
       \<longrightarrow> la_timestamp_ms x \<le> session_start rs y)"

lemma sorted_records_apart:
  assumes "sorted (map (\<lambda>r. (session_start rs r, la_session_id r, la_timestamp_ms r, la_ordinal r)) rs)"
    and "rs = before @ r # rest" "b \<in> set before"
  shows "session_start rs b \<le> session_start rs r"
    and "la_session_id b = la_session_id r \<Longrightarrow> la_timestamp_ms b \<le> la_timestamp_ms r"
    and "sessions_apart rs \<Longrightarrow> la_timestamp_ms b \<le> la_timestamp_ms r"
proof -
  have k: "(session_start rs b, la_session_id b, la_timestamp_ms b, la_ordinal b) \<le>
      (session_start rs r, la_session_id r, la_timestamp_ms r, la_ordinal r)"
    (is "?P b r")
  proof -
    have "sorted_wrt ?P (before @ r # rest)"
      using arg_cong [OF assms(2), of "sorted_wrt ?P"] assms(1) unfolding sorted_map by (rule iffD1)
    then show ?thesis using assms(3) by (auto simp: sorted_wrt_append)
  qed
  then show start: "session_start rs b \<le> session_start rs r" by (auto simp: less_eq_prod_def)
  have same: "session_start rs b = session_start rs r" if "la_session_id b = la_session_id r"
    using that by (simp add: session_start_def)
  show t: "la_timestamp_ms b \<le> la_timestamp_ms r" if "la_session_id b = la_session_id r"
    using k that same [OF that] by auto
  show "la_timestamp_ms b \<le> la_timestamp_ms r" if "sessions_apart rs"
  proof (cases "la_session_id b = la_session_id r")
    case True
    then show ?thesis by (rule t)
  next
    case False
    have m: "b \<in> set rs" "r \<in> set rs" using assms(2,3) by auto
    with that False start have "la_timestamp_ms b \<le> session_start rs r" by (auto simp: sessions_apart_def)
    also have "\<dots> \<le> la_timestamp_ms r" using m by (intro session_start_le) simp_all
    finally show ?thesis .
  qed
qed

text \<open>C17: training examples never look ahead. The records of a user are read in the order of their session's
  start, then session, then time, then file position. Every example stands for one of them, \<open>r\<close>: its history is
  the apps of the (at most \<open>n\<close>) records right before \<open>r\<close> in that order, its label the first other app after it
  in the same session and within the horizon, which is not earlier than \<open>r\<close>, and its clock features are those the
  backend computes at prediction time. No session of the history started later than \<open>r\<close>'s; a history record of
  \<open>r\<close>'s own session is not later than \<open>r\<close>; and when the user's sessions do not overlap in time, no record of the
  history is later than \<open>r\<close>. (With overlapping sessions an earlier-started session may run on past \<open>r\<close>.)\<close>

theorem examples_never_look_ahead:
  assumes "load_examples E node secs n = Inr es" "e \<in> set es"
  shows "\<exists>rs records. load_records E node = Inr rs
     \<and> mset records = filter_mset (\<lambda>r. la_user_id r = te_user_id e) (mset rs)
     \<and> sorted (map (\<lambda>r. (session_start records r, la_session_id r, la_timestamp_ms r, la_ordinal r)) records)
     \<and> (\<exists>before r same label later. records = before @ r # same @ label # later
          \<and> (\<forall>c \<in> set same. la_app_name c = la_app_name r) \<and> la_app_name label \<noteq> la_app_name r
          \<and> (\<forall>c \<in> set (same @ [label]). la_session_id c = la_session_id r \<and> within_horizon secs r c)
          \<and> la_timestamp_ms r \<le> la_timestamp_ms label
          \<and> (\<forall>b \<in> set before. session_start records b \<le> session_start records r
               \<and> (la_session_id b = la_session_id r \<or> sessions_apart records \<longrightarrow> la_timestamp_ms b \<le> la_timestamp_ms r))
          \<and> e = \<lparr>te_user_id = te_user_id e, te_current_app = la_app_name r,
                te_history = drop (length before - n) (map la_app_name before),
                te_hour_bucket = hour_bucket (la_timestamp_ms r), te_weekday = weekday_of (la_timestamp_ms r),
                te_event_type = la_event_type r, te_label_app = la_app_name label\<rparr>)"
proof -
  from assms obtain rs where rs: "load_records E node = Inr rs" "e \<in> set (examples_of rs secs n)"
    by (auto simp: load_examples_def split: sum.splits if_splits)
  let ?records = "sort_records (filter (\<lambda>r. la_user_id r = te_user_id e) rs)"
  from examples_of_sound [OF rs(2)] obtain before r same label later
    where x: "?records = before @ r # same @ label # later"
      "e = record_example (te_user_id e) (recent_apps n before) r label" "te_label_app e \<noteq> te_current_app e"
      "\<forall>c \<in> set same. la_app_name c = la_app_name r"
      "\<forall>c \<in> set (same @ [label]). la_session_id c = la_session_id r \<and> within_horizon secs r c"
    unfolding example_of_def by blast
  have srt: "sorted (map (\<lambda>r. (session_start ?records r, la_session_id r, la_timestamp_ms r, la_ordinal r)) ?records)"
    using sort_records_sorted session_start_cong [OF set_sort_records] by simp
  have "te_label_app e = la_app_name label" "te_current_app e = la_app_name r"
    by (subst x(2), simp add: record_example_def)+
  with x(3) have "la_app_name label \<noteq> la_app_name r" by simp
  moreover have "mset ?records = filter_mset (\<lambda>r. la_user_id r = te_user_id e) (mset rs)"
    by (simp add: sort_records_def Let_def)
  moreover have "e = \<lparr>te_user_id = te_user_id e, te_current_app = la_app_name r,
                te_history = drop (length before - n) (map la_app_name before),
                te_hour_bucket = hour_bucket (la_timestamp_ms r), te_weekday = weekday_of (la_timestamp_ms r),
                te_event_type = la_event_type r, te_label_app = la_app_name label\<rparr>"
    using x(2) by (simp add: record_example_def recent_apps_def record_clock)
  moreover have "la_timestamp_ms r \<le> la_timestamp_ms label"
    using sorted_records_apart(2) [OF srt, of "before @ r # same" label later r] x(1,5) by simp
  moreover have "\<forall>b \<in> set before. session_start ?records b \<le> session_start ?records r
      \<and> (la_session_id b = la_session_id r \<or> sessions_apart ?records \<longrightarrow> la_timestamp_ms b \<le> la_timestamp_ms r)"
    using sorted_records_apart [OF srt x(1)] by blast
  ultimately show ?thesis using rs(1) x srt by blast
qed

section \<open>The splits do not leak\<close>

lemma split_fold:
  "foldl (\<lambda>(train, test) (user, us). let k = train_size (length us) in
       (train @ take k us, test @ drop k us)) (train, test) m =
     (train @ concat (map (\<lambda>(u, us). take (train_size (length us)) us) m),
      test @ concat (map (\<lambda>(u, us). drop (train_size (length us)) us) m))"
  by (induction m arbitrary: train test) (auto simp: Let_def)

lemma filter_concat_groups:
  assumes "distinct (map fst m)" "\<And>k us x. (k, us) \<in> set m \<Longrightarrow> x \<in> set (f us) \<Longrightarrow> te_user_id x = k"
  shows "filter (\<lambda>x. te_user_id x = u) (concat (map (\<lambda>(k, us). f us) m))
    = (case map_of m u of None \<Rightarrow> [] | Some us \<Rightarrow> f us)"
  using assms
proof (induction m)
  case Nil
  then show ?case by simp
next
  case (Cons kv m)
  obtain k us where kv: "kv = (k, us)" by (cases kv)
  have own: "x \<in> set (f us) \<Longrightarrow> te_user_id x = k" for x using Cons.prems(2) kv by auto
  have IH: "filter (\<lambda>x. te_user_id x = u) (concat (map (\<lambda>(k, us). f us) m)) = (case map_of m u of None \<Rightarrow> [] | Some us \<Rightarrow> f us)"
    using Cons.prems by (intro Cons.IH) auto
  show ?case
  proof (cases "u = k")
    case True
    then have "map_of m u = None" using Cons.prems(1) kv by (auto simp: map_of_eq_None_iff)
    moreover have "filter (\<lambda>x. te_user_id x = u) (f us) = f us" using own True by (intro filter_True) auto
    ultimately show ?thesis using IH kv True by simp
  next
    case False
    then have "filter (\<lambda>x. te_user_id x = u) (f us) = []" using own by (auto simp: filter_empty_conv)
    then show ?thesis using IH kv False by simp
  qed
qed

lemma standard_user:
  assumes "split_standard es = (train, test)"
  shows "filter (\<lambda>e. te_user_id e = u) train
      = take (train_size (length (filter (\<lambda>e. te_user_id e = u) es))) (filter (\<lambda>e. te_user_id e = u) es)"
    and "filter (\<lambda>e. te_user_id e = u) test
      = drop (train_size (length (filter (\<lambda>e. te_user_id e = u) es))) (filter (\<lambda>e. te_user_id e = u) es)"
proof -
  let ?m = "examples_by_user es"
  have m: "distinct (map fst ?m)" "\<And>k us x. (k, us) \<in> set ?m \<Longrightarrow> x \<in> set us \<Longrightarrow> te_user_id x = k"
    "map_of ?m u = (if u \<in> te_user_id ` set es then Some (filter (\<lambda>x. te_user_id x = u) es) else None)"
    using group_by_get [of te_user_id es u]
    by (auto simp: examples_by_user_def group_by_distinct group_by_mem btree_get_def)
  have none: "u \<notin> te_user_id ` set es \<Longrightarrow> filter (\<lambda>x. te_user_id x = u) es = []"
    by (metis (mono_tags, lifting) filter_empty_conv image_eqI)
  have f: "filter (\<lambda>x. te_user_id x = u) (concat (map (\<lambda>(k, us). g us) ?m)) = g (filter (\<lambda>x. te_user_id x = u) es)"
    if "\<And>us. set (g us) \<subseteq> set us" "g [] = []" for g
    by (rule HOL.trans [OF filter_concat_groups [OF m(1), of g u]])
       (use m(2) that in blast, use none that in \<open>simp add: m(3)\<close>)
  from assms have "train = concat (map (\<lambda>(k, us). take (train_size (length us)) us) ?m)"
    "test = concat (map (\<lambda>(k, us). drop (train_size (length us)) us) ?m)"
    by (simp_all add: split_standard_def split_fold)
  then show "filter (\<lambda>e. te_user_id e = u) train
      = take (train_size (length (filter (\<lambda>e. te_user_id e = u) es))) (filter (\<lambda>e. te_user_id e = u) es)"
    and "filter (\<lambda>e. te_user_id e = u) test
      = drop (train_size (length (filter (\<lambda>e. te_user_id e = u) es))) (filter (\<lambda>e. te_user_id e = u) es)"
    using f [of "\<lambda>us. take (train_size (length us)) us"] f [of "\<lambda>us. drop (train_size (length us)) us"]
    by (auto simp: set_take_subset set_drop_subset)
qed

lemma mset_by_user:
  assumes "\<And>u. filter_mset (\<lambda>e. te_user_id e = u) A = filter_mset (\<lambda>e. te_user_id e = u) B"
  shows "A = B"
proof (rule multiset_eqI)
  fix x
  have "count (filter_mset (\<lambda>e. te_user_id e = te_user_id x) A) x = count (filter_mset (\<lambda>e. te_user_id e = te_user_id x) B) x"
    by (simp add: assms)
  then show "count A x = count B x" by simp
qed

lemma split_parts:
  assumes "split_examples es kind = (train, test)"
  shows "mset train + mset test = mset es
     \<and> (case kind of
          Standard \<Rightarrow> \<forall>u. filter (\<lambda>e. te_user_id e = u) train @ filter (\<lambda>e. te_user_id e = u) test
                         = filter (\<lambda>e. te_user_id e = u) es
                       \<and> (u \<in> te_user_id ` set es \<longrightarrow> u \<in> te_user_id ` set train)
        | ColdStart \<Rightarrow> te_user_id ` set train \<inter> te_user_id ` set test = {} \<and> (es \<noteq> [] \<longrightarrow> train \<noteq> []))"
proof (cases kind)
  case Standard
  with assms have s: "split_standard es = (train, test)" by simp
  have parts: "filter (\<lambda>e. te_user_id e = u) train @ filter (\<lambda>e. te_user_id e = u) test = filter (\<lambda>e. te_user_id e = u) es" for u
    by (simp add: standard_user [OF s])
  have "filter_mset (\<lambda>e. te_user_id e = u) (mset train + mset test) = filter_mset (\<lambda>e. te_user_id e = u) (mset es)" for u
    using arg_cong [OF parts [of u], of mset] by simp
  then have "mset train + mset test = mset es" by (rule mset_by_user)
  moreover have "u \<in> te_user_id ` set train" if "u \<in> te_user_id ` set es" for u
  proof -
    from that have "filter (\<lambda>e. te_user_id e = u) es \<noteq> []" by (auto simp: filter_empty_conv)
    then have "filter (\<lambda>e. te_user_id e = u) train \<noteq> []" by (simp add: standard_user(1) [OF s] train_size_def)
    then show ?thesis by (auto simp: filter_empty_conv)
  qed
  ultimately show ?thesis using parts Standard by simp
next
  case ColdStart
  with assms have s: "train = filter (\<lambda>e. te_user_id e \<in> set (split_train_users es)) es"
    "test = filter (\<lambda>e. te_user_id e \<notin> set (split_train_users es)) es"
    by (auto simp: split_cold_start_def Let_def)
  have "train \<noteq> []" if "es \<noteq> []"
  proof -
    let ?us = "sort_by (\<lambda>a b. user_hash_key a \<le> user_hash_key b) (btree_set (map te_user_id es))"
    from that have "btree_set (map te_user_id es) \<noteq> []" using btree_set_props(1) [of "map te_user_id es"] by auto
    then have "?us \<noteq> []" by (metis length_0_conv length_sort_by)
    then have "split_train_users es \<noteq> []" by (simp add: split_train_users_def train_size_def Let_def)
    then obtain u where "u \<in> set (split_train_users es)" by (meson list.set_sel(1))
    moreover from this have "u \<in> te_user_id ` set es"
      by (auto simp: split_train_users_def Let_def btree_set_props dest!: in_set_takeD)
    ultimately show ?thesis by (auto simp: s(1) filter_empty_conv)
  qed
  with ColdStart show ?thesis by (auto simp: s multiset_partition [symmetric])
qed

text \<open>C18: the splits do not leak. Either way every example is in exactly one part. The standard split gives
  each user's first examples (at least one) to training and the rest to the test, in order; the cold-start
  split gives every user's examples, all of them, to one part.\<close>

theorem split_without_leakage:
  assumes "split_examples es kind = (train, test)"
  shows "mset train + mset test = mset es
     \<and> (case kind of
          Standard \<Rightarrow> \<forall>u. filter (\<lambda>e. te_user_id e = u) train @ filter (\<lambda>e. te_user_id e = u) test
                         = filter (\<lambda>e. te_user_id e = u) es
                       \<and> (u \<in> te_user_id ` set es \<longrightarrow> u \<in> te_user_id ` set train)
        | ColdStart \<Rightarrow> te_user_id ` set train \<inter> te_user_id ` set test = {} \<and> (es \<noteq> [] \<longrightarrow> train \<noteq> []))"
  using assms by (rule split_parts)

section \<open>Concrete inputs\<close>

definition demo_loader_env :: loader_env where
  "demo_loader_env = \<lparr>ld_lowercase = id, ld_from_str = (\<lambda>s. Inl ''eof''), ld_show_float = (\<lambda>x. '''')\<rparr>"

definition demo_dataset :: data_node where
  "demo_dataset = DataFile ''d.csv'' (Some [Some ''user,app'', Some ''u,a'', Some ''u,a'', Some ''u,b''])"


lemmas trim_eval = trim_def utf8_width_def utf8_decode_def is_whitespace_def

lemma demo_cells:
  "split_delimited ''user,app'' (CHR '','') = [''user'', ''app'']"
  "split_delimited ''u,a'' (CHR '','') = [''u'', ''a'']"
  "split_delimited ''u,b'' (CHR '','') = [''u'', ''b'']"
  "trim ''u,a'' = ''u,a''" "trim ''u,b'' = ''u,b''" "trim ''u'' = ''u''" "trim ''a'' = ''a''" "trim ''b'' = ''b''"
  by (simp_all add: split_delimited_def trim_eval)

definition demo_row :: "string \<Rightarrow> usize \<Rightarrow> lsapp_record" where
  "demo_row app k = \<lparr>la_user_id = ''u'', la_session_id = ''default'', la_timestamp_ms = int k * 1000,
     la_app_name = app, la_event_type = ''app_usage'', la_ordinal = k\<rparr>"

lemma demo_row_record:
  assumes "app = ''a'' \<or> app = ''b''" "k < 3"
  shows "record_from_map (delimited_row [''user'', ''app''] [''u'', app]) k = Inr (demo_row app k)"
  using assms by (auto simp: record_from_map_def required_def delimited_row_def parse_record_timestamp_def demo_cells
      nth_opt_def demo_row_def i64_wrap_id in_i64_def i64_min_def i64_max_def)

lemma demo_records:
  "load_records demo_loader_env demo_dataset = Inr [demo_row ''a'' 0, demo_row ''a'' 1, demo_row ''b'' 2]"
proof -
  have "path_extension ''d.csv'' = Some ''csv''" by code_simp
  moreover have "to_lowercase id ''user'' = ''user''" "to_lowercase id ''app'' = ''app''" by code_simp+
  ultimately show ?thesis
    by (simp add: load_records_def demo_dataset_def load_record_file_def load_delimited_def demo_loader_env_def tab_def
        demo_cells demo_row_record numeral_2_eq_2)
qed

lemma demo_examples_of:
  "examples_of [demo_row ''a'' 0, demo_row ''a'' 1, demo_row ''b'' 2] 30 5 =
     [record_example ''u'' [] (demo_row ''a'' 0) (demo_row ''b'' 2),
      record_example ''u'' [''a''] (demo_row ''a'' 1) (demo_row ''b'' 2)]"
  by code_simp

lemma demo_loaded:
  "load_examples demo_loader_env demo_dataset 30 5 = Inr
     [record_example ''u'' [] (demo_row ''a'' 0) (demo_row ''b'' 2),
      record_example ''u'' [''a''] (demo_row ''a'' 1) (demo_row ''b'' 2)]"
  using demo_examples_of by (simp add: load_examples_def demo_records)

theorem examples_never_look_ahead_witness:
  "\<exists>records before r. mset records = {# demo_row ''a'' 0, demo_row ''a'' 1, demo_row ''b'' 2 #}
     \<and> take (Suc (length before)) records = before @ [r] \<and> la_app_name r = ''a'' \<and> map la_app_name before = [''a'']"
proof -
  let ?e = "record_example ''u'' [''a''] (demo_row ''a'' 1) (demo_row ''b'' 2)"
  obtain records before r same label later where x:
      "mset records = filter_mset (\<lambda>r. la_user_id r = te_user_id ?e) (mset [demo_row ''a'' 0, demo_row ''a'' 1, demo_row ''b'' 2])"
      "records = before @ r # same @ label # later"
      "?e = \<lparr>te_user_id = te_user_id ?e, te_current_app = la_app_name r,
                te_history = drop (length before - 5) (map la_app_name before),
                te_hour_bucket = hour_bucket (la_timestamp_ms r), te_weekday = weekday_of (la_timestamp_ms r),
                te_event_type = la_event_type r, te_label_app = la_app_name label\<rparr>"
    using examples_never_look_ahead [OF demo_loaded, of ?e] by (auto simp: demo_records)
  have m: "mset records = {# demo_row ''a'' 0, demo_row ''a'' 1, demo_row ''b'' 2 #}"
    using x(1) by (simp add: record_example_def demo_row_def)
  then have "length records = 3" by (metis size_mset size_add_mset size_empty numeral_3_eq_3)
  with x(2) have "length before \<le> 5" by simp
  with x(3) have "map la_app_name before = [''a'']" "la_app_name r = ''a''"
    by (auto simp: record_example_def demo_row_def)
  with m x(2) show ?thesis by (intro exI [of _ records] exI [of _ before] exI [of _ r]) simp
qed

text \<open>Two overlapping sessions: the second one's example has the first one's last app, which was used later
  than the example and its label, in its history.\<close>

definition overlap_row :: "string \<Rightarrow> i64 \<Rightarrow> string \<Rightarrow> nat \<Rightarrow> lsapp_record" where
  "overlap_row sess t app k = \<lparr>la_user_id = ''u'', la_session_id = sess, la_timestamp_ms = t, la_app_name = app,
     la_event_type = ''app_usage'', la_ordinal = k\<rparr>"

lemma overlapping_sessions_look_ahead:
  "te_history (last (examples_of [overlap_row ''1'' 0 ''a'' 0, overlap_row ''2'' 50 ''c'' 1, overlap_row ''2'' 60 ''d'' 2,
     overlap_row ''1'' 100 ''b'' 3] 30 5)) = [''a'', ''b'']"
  by code_simp

theorem split_without_leakage_witness:
  "fst (split_cold_start demo_examples) \<noteq> []
     \<and> mset (fst (split_standard demo_examples)) + mset (snd (split_standard demo_examples)) = mset demo_examples"
  using split_without_leakage [of demo_examples ColdStart "fst (split_cold_start demo_examples)" "snd (split_cold_start demo_examples)"]
    split_without_leakage [of demo_examples Standard "fst (split_standard demo_examples)" "snd (split_standard demo_examples)"]
    demo_examples_nonempty by simp

text \<open>The hash order of the repository's own example puts user \<open>u3\<close> in the test part.\<close>

lemma cold_start_order:
  "map te_user_id (snd (split_cold_start (map (\<lambda>u. demo_example ''a'' ''b''\<lparr>te_user_id := u\<rparr>)
     [''u0'', ''u1'', ''u2'', ''u3'', ''u4'']))) = [''u3'']"
  by code_simp

end
