(* ===== verification/Next_App_Baselines.thy ===== *)
theory Next_App_Baselines
  imports Next_App_Data
begin

text \<open>
  The baselines the next-app model is compared with (\<open>aios-cli/src/next_app/\<close>): popularity and per-user
  frequency (\<open>baselines.rs\<close>), the strong baseline (\<open>strong_baseline/\<close>: Markov chains, frequency, recency and
  a context naive Bayes) and the adaptive one on top of it (\<open>adaptive_baseline/\<close>: an order-3 Markov chain with
  backoff and a temporal one).

  A \<open>HashMap\<close> is its sorted entries: the code only looks entries up, or sorts all of them by a total order,
  so its iteration order is not observable (\<open>rank_counts_order\<close>). \<open>ln\<close> on \<open>f64\<close> is a parameter.
\<close>

section \<open>Counting and ranking (markov.rs, baselines.rs)\<close>

text \<open>\<open>*map.entry(app).or_default() += 1\<close>, and the same one level down.\<close>

definition count_app :: "string \<Rightarrow> app_counts \<Rightarrow> app_counts" where
  "count_app app m = btree_upsert app 0 (\<lambda>n. n + 1) m"

definition count_under :: "'k::linorder \<Rightarrow> string \<Rightarrow> ('k, app_counts) btree_map \<Rightarrow> ('k, app_counts) btree_map" where
  "count_under k app t = btree_upsert k [] (count_app app) t"

definition rank_counts :: "app_counts \<Rightarrow> string list" where
  "rank_counts counts = map fst (sort_by frequency_le counts)"

definition rank_tables :: "('k, app_counts) btree_map \<Rightarrow> ('k, string list) btree_map" where
  "rank_tables t = map (\<lambda>(k, counts). (k, rank_counts counts)) t"

definition label_counts :: "training_example list \<Rightarrow> app_counts" where
  "label_counts es = foldl (\<lambda>m e. count_app (te_label_app e) m) [] es"

definition label_tables :: "(training_example \<Rightarrow> 'k::linorder option) \<Rightarrow> training_example list
    \<Rightarrow> ('k, app_counts) btree_map" where
  "label_tables key es =
     foldl (\<lambda>t e. case key e of None \<Rightarrow> t | Some k \<Rightarrow> count_under k (te_label_app e) t) [] es"

record baseline_tables =
  bl_global_popularity :: "string list"
  bl_user_frequency :: "(string, string list) btree_map"

definition baseline_from_training :: "training_example list \<Rightarrow> baseline_tables" where
  "baseline_from_training es =
     \<lparr>bl_global_popularity = rank_counts (label_counts es),
      bl_user_frequency = rank_tables (label_tables (\<lambda>e. Some (te_user_id e)) es)\<rparr>"

definition mfu :: "baseline_tables \<Rightarrow> string \<Rightarrow> string list" where
  "mfu t user = take 5 (case btree_get (bl_user_frequency t) user of
     Some ranked \<Rightarrow> ranked | None \<Rightarrow> bl_global_popularity t)"

section \<open>Context naive Bayes (bayes.rs)\<close>

record context_bayes =
  cb_class_counts :: app_counts
  cb_feature_counts :: count_table
  cb_class_feature_totals :: app_counts
  cb_vocabulary :: "string list"
  cb_total_examples :: u32

definition empty_bayes :: context_bayes where
  "empty_bayes = \<lparr>cb_class_counts = [], cb_feature_counts = [], cb_class_feature_totals = [], cb_vocabulary = [],
     cb_total_examples = 0\<rparr>"

definition bayes_feature :: "string \<Rightarrow> context_bayes \<Rightarrow> string \<Rightarrow> context_bayes" where
  "bayes_feature cls b feature =
     b\<lparr>cb_vocabulary := push_new (cb_vocabulary b) feature,
       cb_feature_counts := count_under cls feature (cb_feature_counts b),
       cb_class_feature_totals := count_app cls (cb_class_feature_totals b)\<rparr>"

definition bayes_observe :: "context_bayes \<Rightarrow> string \<Rightarrow> string list \<Rightarrow> context_bayes" where
  "bayes_observe b cls features =
     foldl (bayes_feature cls)
       (b\<lparr>cb_class_counts := count_app cls (cb_class_counts b), cb_total_examples := cb_total_examples b + 1\<rparr>) features"

abbreviation f64_of_nat :: "nat \<Rightarrow> f64" where
  "f64_of_nat n \<equiv> f64_lit (of_nat n)"

definition or_zero :: "u32 option \<Rightarrow> nat" where
  "or_zero n = (case n of Some k \<Rightarrow> unat k | None \<Rightarrow> 0)"

definition bayes_score :: "(f64 \<Rightarrow> f64) \<Rightarrow> context_bayes \<Rightarrow> string list \<Rightarrow> string \<Rightarrow> f64" where
  "bayes_score ln64 b features cls =
     (let class_space = f64_of_nat (max (length (cb_class_counts b)) 1);
          vocabulary_size = f64_of_nat (max (length (cb_vocabulary b)) 1);
          class_count = f64_of_nat (or_zero (btree_get (cb_class_counts b) cls));
          prior = ln64 (fp_div fmt64 (fp_add fmt64 class_count (FFin 1))
            (fp_add fmt64 (f64_of_nat (unat (cb_total_examples b))) class_space));
          feature_total = f64_of_nat (or_zero (btree_get (cb_class_feature_totals b) cls));
          occurrences = (\<lambda>f. f64_of_nat (or_zero (Option.bind (btree_get (cb_feature_counts b) cls) (\<lambda>m. btree_get m f))))
      in foldl (\<lambda>s f. if f \<notin> set (cb_vocabulary b) then s
            else fp_add fmt64 s (ln64 (fp_div fmt64 (fp_add fmt64 (occurrences f) (FFin 1))
              (fp_add fmt64 feature_total vocabulary_size)))) prior features)"

text \<open>\<open>total_cmp\<close> descending, then the app: a NaN is above every number.\<close>

definition total_le :: "f64 \<Rightarrow> f64 \<Rightarrow> bool" where
  "total_le a b \<longleftrightarrow> b = FNaN \<or> fp_le a b"

definition bayes_le :: "string \<times> f64 \<Rightarrow> string \<times> f64 \<Rightarrow> bool" where
  "bayes_le a b \<longleftrightarrow> total_le (snd b) (snd a) \<and> (total_le (snd a) (snd b) \<longrightarrow> fst a \<le> fst b)"

definition bayes_rank :: "(f64 \<Rightarrow> f64) \<Rightarrow> context_bayes \<Rightarrow> string list \<Rightarrow> string list" where
  "bayes_rank ln64 b features =
     (if cb_total_examples b = 0 then []
      else map fst (sort_by bayes_le (map (\<lambda>(cls, _). (cls, bayes_score ln64 b features cls)) (cb_class_counts b))))"

section \<open>The strong baseline (strong_baseline/mod.rs)\<close>

definition history_keys :: "string list \<Rightarrow> string list" where
  "history_keys history = map (\<lambda>(i, app). ''hist'' @ show_nat i @ ''='' @ app) (enumerate 0 (take 3 (rev history)))"

definition context_features :: "training_example \<Rightarrow> string list" where
  "context_features e =
     [''current='' @ te_current_app e] @ opt_key ''prev='' (previous_app e) @ history_keys (te_history e)
     @ [''hour='' @ show_u8 (te_hour_bucket e), ''weekday='' @ show_u8 (te_weekday e), ''event='' @ te_event_type e]"

record strong_baseline =
  sb_global_popularity :: "string list"
  sb_user_frequency :: "(string, string list) btree_map"
  sb_markov :: "(string \<times> string, u32) btree_map"
  sb_markov_totals :: app_counts
  sb_markov_rankings :: "(string, string list) btree_map"
  sb_markov_order2_rankings :: "(string \<times> string, string list) btree_map"
  sb_recency :: "(string \<times> string, string) btree_map"
  sb_bayes :: context_bayes

definition count_key :: "'k::linorder \<Rightarrow> ('k, u32) btree_map \<Rightarrow> ('k, u32) btree_map" where
  "count_key k m = btree_upsert k 0 (\<lambda>n. n + 1) m"

definition insert_at :: "'k::linorder \<Rightarrow> 'v \<Rightarrow> ('k, 'v) btree_map \<Rightarrow> ('k, 'v) btree_map" where
  "insert_at k v m = btree_upsert k v (\<lambda>_. v) m"

definition rank_markov_counts :: "(string \<times> string, u32) btree_map \<Rightarrow> (string, string list) btree_map" where
  "rank_markov_counts markov =
     rank_tables (foldl (\<lambda>g ((current, nxt), n). btree_upsert current [] (insert_at nxt n) g) [] markov)"

definition rank_order2_counts :: "(string \<times> string \<times> string, u32) btree_map
    \<Rightarrow> (string \<times> string, string list) btree_map" where
  "rank_order2_counts markov =
     rank_tables (foldl (\<lambda>g ((prev, current, nxt), n). btree_upsert (prev, current) [] (insert_at nxt n) g) [] markov)"

definition strong_from_training :: "training_example list \<Rightarrow> strong_baseline" where
  "strong_from_training es =
     (let markov = foldl (\<lambda>m e. count_key (te_current_app e, te_label_app e) m) [] es;
          markov_order2 = foldl (\<lambda>m e. case previous_app e of
              None \<Rightarrow> m | Some prev \<Rightarrow> count_key (prev, te_current_app e, te_label_app e) m) [] es
      in \<lparr>sb_global_popularity = rank_counts (label_counts es),
          sb_user_frequency = rank_tables (label_tables (\<lambda>e. Some (te_user_id e)) es),
          sb_markov = markov,
          sb_markov_totals = foldl (\<lambda>m e. count_app (te_current_app e) m) [] es,
          sb_markov_rankings = rank_markov_counts markov,
          sb_markov_order2_rankings = rank_order2_counts markov_order2,
          sb_recency = foldl (\<lambda>m e. insert_at (te_user_id e, te_current_app e) (te_label_app e) m) [] es,
          sb_bayes = foldl (\<lambda>b e. bayes_observe b (te_label_app e) (context_features e)) empty_bayes es\<rparr>)"

definition push_candidate :: "string \<Rightarrow> string list \<Rightarrow> string \<Rightarrow> string list" where
  "push_candidate current candidates app =
     (if app = current \<or> app \<in> set candidates then candidates else candidates @ [app])"

text \<open>\<open>w / (1.0 + pos as f32)\<close>, and adding it when the app is ranked.\<close>

definition rank_weight :: "f32 \<Rightarrow> nat \<Rightarrow> f32" where
  "rank_weight w pos = fp_div fmt32 w (fp_add fmt32 (FFin 1) (f32_of_nat pos))"

definition add_rank :: "f32 \<Rightarrow> string \<Rightarrow> string list \<Rightarrow> f32 \<Rightarrow> f32" where
  "add_rank w app ranked score = (case position_of app ranked of
     Some pos \<Rightarrow> fp_add fmt32 score (rank_weight w pos) | None \<Rightarrow> score)"

definition add_markov :: "strong_baseline \<Rightarrow> string \<Rightarrow> string \<Rightarrow> f32 \<Rightarrow> f32" where
  "add_markov b current app score =
     (case (btree_get (sb_markov b) (current, app), btree_get (sb_markov_totals b) current) of
        (Some n, Some leaving) \<Rightarrow> if 0 < leaving
          then fp_add fmt32 score (fp_div fmt32 (fp_mul fmt32 (f32_lit (8 / 10)) (f32_of_u32 n)) (f32_of_u32 leaving))
          else score
      | _ \<Rightarrow> score)"

definition score_candidate :: "strong_baseline \<Rightarrow> string \<Rightarrow> string \<Rightarrow> string list \<Rightarrow> string list \<Rightarrow> string \<Rightarrow> app_score" where
  "score_candidate b user current order2 bayes app =
     (let s = add_rank (f32_lit (12 / 10)) app order2 (FFin 0);
          s = add_markov b current app s;
          s = add_rank (f32_lit (45 / 100)) app (or_empty (btree_get (sb_user_frequency b) user)) s;
          s = add_rank (f32_lit (6 / 10)) app bayes s;
          s = (if btree_get (sb_recency b) (user, current) = Some app then fp_add fmt32 s (f32_lit (25 / 100)) else s);
          s = add_rank (f32_lit (5 / 100)) app (sb_global_popularity b) s
      in \<lparr>as_app = app, as_score = s\<rparr>)"

definition opt_list :: "'a option \<Rightarrow> 'a list" where
  "opt_list x = (case x of Some v \<Rightarrow> [v] | None \<Rightarrow> [])"

definition predict_with_context :: "(f64 \<Rightarrow> f64) \<Rightarrow> strong_baseline \<Rightarrow> string \<Rightarrow> string \<Rightarrow> string option
    \<Rightarrow> string list \<Rightarrow> usize \<Rightarrow> string list" where
  "predict_with_context ln64 b user current previous features k =
     (if k = 0 then []
      else let order2 = or_empty (Option.bind previous (\<lambda>p. btree_get (sb_markov_order2_rankings b) (p, current)));
               bayes = bayes_rank ln64 (sb_bayes b) features;
               candidates = foldl (push_candidate current) []
                 (order2 @ or_empty (btree_get (sb_markov_rankings b) current)
                   @ or_empty (btree_get (sb_user_frequency b) user)
                   @ opt_list (btree_get (sb_recency b) (user, current)) @ bayes @ sb_global_popularity b)
           in take k (map as_app (sort_scores (map (score_candidate b user current order2 bayes) candidates))))"

definition strong_predict :: "(f64 \<Rightarrow> f64) \<Rightarrow> strong_baseline \<Rightarrow> training_example \<Rightarrow> usize \<Rightarrow> string list" where
  "strong_predict ln64 b e k =
     predict_with_context ln64 b (te_user_id e) (te_current_app e) (previous_app e) (context_features e) k"

section \<open>The order-3 chain (markov3.rs)\<close>

record markov3 =
  m3_rankings :: "(string \<times> string \<times> string, string list) btree_map"
  m3_order2_rankings :: "(string \<times> string, string list) btree_map"
  m3_order1_rankings :: "(string, string list) btree_map"
  m3_popularity :: "string list"

definition find_second_prev :: "string list \<Rightarrow> string \<Rightarrow> string \<Rightarrow> string option" where
  "find_second_prev history current prev1 = List.find (\<lambda>app. app \<noteq> current \<and> app \<noteq> prev1) (rev history)"

definition order2_context :: "string list \<Rightarrow> string \<Rightarrow> (string \<times> string) option" where
  "order2_context history current =
     map_option (\<lambda>p1. (p1, current)) (previous_feature_app history current)"

definition order3_context :: "string list \<Rightarrow> string \<Rightarrow> (string \<times> string \<times> string) option" where
  "order3_context history current = Option.bind (previous_feature_app history current) (\<lambda>p1.
     map_option (\<lambda>p2. (p2, p1, current)) (find_second_prev history current p1))"

definition markov3_from_training :: "training_example list \<Rightarrow> markov3" where
  "markov3_from_training es =
     \<lparr>m3_rankings = rank_tables (label_tables (\<lambda>e. order3_context (te_history e) (te_current_app e)) es),
      m3_order2_rankings = rank_tables (label_tables (\<lambda>e. order2_context (te_history e) (te_current_app e)) es),
      m3_order1_rankings = rank_tables (label_tables (\<lambda>e. Some (te_current_app e)) es),
      m3_popularity = rank_counts (label_counts es)\<rparr>"

definition others :: "string \<Rightarrow> usize \<Rightarrow> string list \<Rightarrow> string list" where
  "others current k ranked = take k (filter (\<lambda>a. a \<noteq> current) ranked)"

text \<open>The first non-empty list of the backoff chain.\<close>

fun first_nonempty :: "'a list list \<Rightarrow> 'a list" where
  "first_nonempty [] = []"
| "first_nonempty (xs # xss) = (if xs \<noteq> [] then xs else first_nonempty xss)"

definition markov3_predict :: "markov3 \<Rightarrow> string \<Rightarrow> string list \<Rightarrow> usize \<Rightarrow> string list" where
  "markov3_predict m current history k = first_nonempty
     [others current k (or_empty (get_opt (m3_rankings m) (order3_context history current))),
      others current k (or_empty (get_opt (m3_order2_rankings m) (order2_context history current))),
      others current k (or_empty (btree_get (m3_order1_rankings m) current)),
      others current k (m3_popularity m)]"

section \<open>The temporal chain (time_markov.rs)\<close>

record time_markov =
  tm_global :: "(string, string list) btree_map"
  tm_hour :: "(string, string list) btree_map"
  tm_weekday :: "(string, string list) btree_map"
  tm_popularity :: "string list"
  tm_blend_weight :: f32

definition hour_key :: "string \<Rightarrow> u8 \<Rightarrow> string" where
  "hour_key current h = tab_key current (show_u8 h)"

definition top_app :: "'k \<Rightarrow> ('k, app_counts) btree_map \<Rightarrow> string option" where
  "top_app k t = Option.bind (btree_get t k) (\<lambda>counts. case rank_counts counts of [] \<Rightarrow> None | a # _ \<Rightarrow> Some a)"

text \<open>One example of the slice the blend weight is chosen on: temporal hits and misses.\<close>

definition blend_step :: "(string, app_counts) btree_map \<Rightarrow> count_table \<Rightarrow> u32 \<times> u32 \<Rightarrow> training_example \<Rightarrow> u32 \<times> u32" where
  "blend_step hours global hm e =
     (case (top_app (hour_key (te_current_app e) (te_hour_bucket e)) hours, top_app (te_current_app e) global) of
        (Some h, Some g) \<Rightarrow> if h = te_label_app e then (fst hm + 1, snd hm)
          else if g = te_label_app e then (fst hm, snd hm + 1) else hm
      | _ \<Rightarrow> hm)"

definition blend_weight :: "u32 \<times> u32 \<Rightarrow> f32" where
  "blend_weight hm = (let n = fst hm + snd hm in
     if 0 < n then fp_clamp (f32_lit (1 / 10)) (f32_lit (9 / 10)) (fp_div fmt32 (f32_of_u32 (fst hm)) (f32_of_u32 n))
     else f32_lit (3 / 10))"

definition time_markov_from_training :: "training_example list \<Rightarrow> time_markov" where
  "time_markov_from_training es =
     (let global = label_tables (\<lambda>e. Some (te_current_app e)) es;
          hours = label_tables (\<lambda>e. Some (hour_key (te_current_app e) (te_hour_bucket e))) es;
          weekdays = label_tables (\<lambda>e. Some (hour_key (te_current_app e) (te_weekday e))) es
      in \<lparr>tm_global = rank_tables global, tm_hour = rank_tables hours, tm_weekday = rank_tables weekdays,
          tm_popularity = rank_counts (label_counts es),
          tm_blend_weight = blend_weight (foldl (blend_step hours global) (0, 0) (take (length es div 10) es))\<rparr>)"

definition add_chain :: "f32 \<Rightarrow> string \<Rightarrow> string list \<Rightarrow> score_map \<Rightarrow> score_map" where
  "add_chain w current ranked m =
     foldl (\<lambda>m (pos, app). if app = current then m else add_score app (rank_weight w pos) m) m (enumerate 0 ranked)"

definition time_markov_predict :: "time_markov \<Rightarrow> string \<Rightarrow> u8 \<Rightarrow> u8 \<Rightarrow> usize \<Rightarrow> string list" where
  "time_markov_predict t current hour weekday k =
     (let w = tm_blend_weight t; half_w = fp_mul fmt32 w (f32_lit (5 / 10));
          m = add_chain (fp_sub fmt32 (FFin 1) w) current (or_empty (btree_get (tm_global t) current)) [];
          m = add_chain half_w current (or_empty (btree_get (tm_hour t) (hour_key current hour))) m;
          m = add_chain half_w current (or_empty (btree_get (tm_weekday t) (hour_key current weekday))) m;
          m = add_chain (f32_lit (1 / 100)) current (tm_popularity t) m
      in take k (map as_app (ranked_map m)))"

section \<open>The adaptive baseline (adaptive_baseline/mod.rs)\<close>

record adaptive_baseline =
  ab_strong :: strong_baseline
  ab_markov3 :: markov3
  ab_time_markov :: time_markov
  ab_popularity :: "string list"

definition adaptive_from_training :: "training_example list \<Rightarrow> adaptive_baseline" where
  "adaptive_from_training es =
     \<lparr>ab_strong = strong_from_training es, ab_markov3 = markov3_from_training es,
      ab_time_markov = time_markov_from_training es, ab_popularity = rank_counts (label_counts es)\<rparr>"

definition adaptive_score :: "string list \<Rightarrow> string list \<Rightarrow> string list \<Rightarrow> string list \<Rightarrow> string \<Rightarrow> app_score" where
  "adaptive_score strong m3 time popularity app =
     (let s = add_rank (FFin 1) app strong (FFin 0);
          s = add_rank (f32_lit (8 / 10)) app m3 s;
          s = add_rank (f32_lit (6 / 10)) app time s;
          s = add_rank (f32_lit (1 / 100)) app popularity s
      in \<lparr>as_app = app, as_score = s\<rparr>)"

text \<open>\<open>top_k * 2\<close> is a \<open>usize\<close> product, which wraps in a release build.\<close>

definition adaptive_predict :: "(f64 \<Rightarrow> f64) \<Rightarrow> adaptive_baseline \<Rightarrow> training_example \<Rightarrow> usize \<Rightarrow> string list" where
  "adaptive_predict ln64 b e k =
     (if k = 0 then []
      else let current = te_current_app e;
               twice = k * 2 mod 2 ^ 64;
               strong = strong_predict ln64 (ab_strong b) e twice;
               m3 = markov3_predict (ab_markov3 b) current (te_history e) twice;
               time = time_markov_predict (ab_time_markov b) current (te_hour_bucket e) (te_weekday e) twice;
               candidates = foldl (push_candidate current) [] (strong @ m3 @ time)
           in take k (filter (\<lambda>a. a \<noteq> current)
                (map as_app (sort_scores (map (adaptive_score strong m3 time (ab_popularity b)) candidates)))))"

section \<open>Ranking does not depend on the iteration order\<close>

lemma rank_counts_order:
  assumes "mset entries = mset counts" "distinct (map fst counts)"
  shows "map fst (sort_by frequency_le entries) = rank_counts counts"
proof -
  have "sort_by frequency_le entries = sort_by frequency_le counts"
  proof (rule sort_by_perm_unique_on [OF assms(1)])
    have s: "set entries = set counts" using assms(1) by (metis set_mset_mset)
    fix a b assume "a \<in> set entries" "b \<in> set entries" "frequency_le a b" "frequency_le b a"
    then show "a = b"
      using assms(2) unfolding s by (auto simp: frequency_le_def prod_eq_iff)
  qed (auto simp: frequency_le_def)
  then show ?thesis by (simp add: rank_counts_def)
qed

section \<open>Every prediction was a label\<close>

lemma count_app_keys [simp]: "fst ` set (count_app app m) = insert app (fst ` set m)"
  by (simp add: count_app_def btree_upsert_keys)

lemma set_rank_counts [simp]: "set (rank_counts c) = fst ` set c"
  by (simp add: rank_counts_def)

lemma label_counts_snoc: "label_counts (es @ [e]) = count_app (te_label_app e) (label_counts es)"
  by (simp add: label_counts_def)

lemma label_counts_keys: "fst ` set (label_counts es) = te_label_app ` set es"
  by (induction es rule: rev_induct) (simp_all add: label_counts_snoc, simp add: label_counts_def)

definition keys_within :: "string set \<Rightarrow> ('k, (string \<times> 'v) list) btree_map \<Rightarrow> bool" where
  "keys_within L t \<longleftrightarrow> (\<forall>k c. (k, c) \<in> set t \<longrightarrow> fst ` set c \<subseteq> L)"

lemma keys_within_upsert:
  assumes t: "keys_within L t" and f: "\<And>c. fst ` set c \<subseteq> L \<Longrightarrow> fst ` set (f c) \<subseteq> L"
  shows "keys_within L (btree_upsert k [] f t)"
  unfolding keys_within_def
proof (intro allI impI)
  fix k' c assume "(k', c) \<in> set (btree_upsert k [] f t)"
  then consider "(k', c) \<in> set t" | "c = f []" | v where "(k, v) \<in> set t" "c = f v"
    by (auto dest: set_btree_upsert)
  then show "fst ` set c \<subseteq> L"
    using t f [of "[]"] by cases (auto simp: keys_within_def intro!: f)
qed

lemma keys_within_fold:
  assumes "keys_within L t" "\<And>t x. x \<in> set xs \<Longrightarrow> keys_within L t \<Longrightarrow> keys_within L (g t x)"
  shows "keys_within L (foldl g t xs)"
  using assms by (induction xs arbitrary: t) auto

lemma keys_within_Nil [simp]: "keys_within L []"
  by (simp add: keys_within_def)

lemma label_tables_keys:
  fixes key :: "training_example \<Rightarrow> 'k::linorder option"
  shows "keys_within (te_label_app ` set es) (label_tables key es)"
  unfolding label_tables_def
proof (rule keys_within_fold)
  fix t :: "('k, app_counts) btree_map" and e assume "e \<in> set es" "keys_within (te_label_app ` set es) t"
  then show "keys_within (te_label_app ` set es)
      (case key e of None \<Rightarrow> t | Some k \<Rightarrow> count_under k (te_label_app e) t)"
    by (cases "key e") (simp_all add: count_under_def keys_within_upsert)
qed simp

lemma rank_tables_get:
  assumes "keys_within L t"
  shows "set (or_empty (btree_get (rank_tables t) k)) \<subseteq> L"
proof -
  have "btree_get (rank_tables t) k = map_option rank_counts (btree_get t k)"
    by (induction t) (auto simp: rank_tables_def btree_get_def)
  with assms show ?thesis
    by (cases "btree_get t k") (auto simp: or_empty_def keys_within_def btree_get_def dest!: map_of_SomeD)
qed

lemma fold_keys:
  assumes "fst ` set m \<subseteq> K" "\<And>m e. e \<in> set es \<Longrightarrow> fst ` set m \<subseteq> K \<Longrightarrow> fst ` set (g m e) \<subseteq> K"
  shows "fst ` set (foldl g m es) \<subseteq> K"
  using assms by (induction es arbitrary: m) auto

lemma fold_values:
  assumes "snd ` set m \<subseteq> K" "\<And>m e. e \<in> set es \<Longrightarrow> snd ` set m \<subseteq> K \<Longrightarrow> snd ` set (g m e) \<subseteq> K"
  shows "snd ` set (foldl g m es) \<subseteq> K"
  using assms by (induction es arbitrary: m) auto

lemma insert_at_values: "snd ` set (insert_at k v m) \<subseteq> insert v (snd ` set m)"
  by (auto simp: insert_at_def dest!: set_btree_upsert)

lemma count_key_keys [simp]: "fst ` set (count_key k m) = insert k (fst ` set m)"
  by (simp add: count_key_def btree_upsert_keys)

lemma insert_at_keys [simp]: "fst ` set (insert_at k v m) = insert k (fst ` set m)"
  by (simp add: insert_at_def btree_upsert_keys)

lemma rank_markov_get:
  assumes "\<And>c n. (c, n) \<in> fst ` set markov \<Longrightarrow> n \<in> L"
  shows "set (or_empty (btree_get (rank_markov_counts markov) k)) \<subseteq> L"
  unfolding rank_markov_counts_def
proof (rule rank_tables_get, rule keys_within_fold)
  fix t :: "(string, app_counts) btree_map" and x :: "(string \<times> string) \<times> u32"
  assume x: "x \<in> set markov" "keys_within L t"
  obtain c n v where e: "x = ((c, n), v)" by (metis prod.collapse)
  with x(1) have "n \<in> L" by (intro assms) force
  with x(2) show "keys_within L ((\<lambda>((c, n), v). btree_upsert c [] (insert_at n v) t) x)"
    by (simp add: e keys_within_upsert)
qed simp

lemma rank_order2_get:
  assumes "\<And>p c n. (p, c, n) \<in> fst ` set markov \<Longrightarrow> n \<in> L"
  shows "set (or_empty (btree_get (rank_order2_counts markov) k)) \<subseteq> L"
  unfolding rank_order2_counts_def
proof (rule rank_tables_get, rule keys_within_fold)
  fix t :: "(string \<times> string, app_counts) btree_map" and x :: "(string \<times> string \<times> string) \<times> u32"
  assume x: "x \<in> set markov" "keys_within L t"
  obtain p c n v where e: "x = ((p, c, n), v)" by (metis prod.collapse)
  with x(1) have "n \<in> L" by (intro assms) force
  with x(2) show "keys_within L ((\<lambda>((p, c, n), v). btree_upsert (p, c) [] (insert_at n v) t) x)"
    by (simp add: e keys_within_upsert)
qed simp

lemma bayes_observe_classes: "cb_class_counts (bayes_observe b cls fs) = count_app cls (cb_class_counts b)"
proof -
  have "cb_class_counts (foldl (bayes_feature cls) b fs) = cb_class_counts b" for b
    by (induction fs arbitrary: b) (simp_all add: bayes_feature_def)
  then show ?thesis by (simp add: bayes_observe_def)
qed

lemma bayes_classes: "fst ` set (cb_class_counts (foldl (\<lambda>b e. bayes_observe b (te_label_app e) (context_features e)) b es))
    = fst ` set (cb_class_counts b) \<union> te_label_app ` set es"
  by (induction es arbitrary: b) (auto simp: bayes_observe_classes)

lemma bayes_rank_labels: "set (bayes_rank ln64 b fs) \<subseteq> fst ` set (cb_class_counts b)"
  by (simp add: bayes_rank_def image_image case_prod_unfold)

lemma push_candidates: "set (foldl (push_candidate current) cs xs) = set cs \<union> (set xs - {current})"
  "distinct cs \<Longrightarrow> distinct (foldl (push_candidate current) cs xs)"
  by (induction xs arbitrary: cs) (auto simp: push_candidate_def)

lemma scored_apps:
  assumes "\<And>a. as_app (score a) = a"
  shows "mset (map as_app (sort_scores (map score cs))) = mset cs"
proof -
  have "mset (map as_app (sort_scores (map score cs))) = image_mset as_app (mset (map score cs))"
    by (metis mset_map mset_sort_by)
  also have "\<dots> = mset cs" by (simp add: multiset.map_comp comp_def assms)
  finally show ?thesis .
qed

text \<open>What a ranker's answer is: at most \<open>k\<close> labels other than the current app, each once, and some if there are any.\<close>

definition sound_prediction :: "training_example list \<Rightarrow> string \<Rightarrow> usize \<Rightarrow> string list \<Rightarrow> bool" where
  "sound_prediction es current k p \<longleftrightarrow> length p \<le> k \<and> distinct p \<and> set p \<subseteq> te_label_app ` set es - {current}
     \<and> (p = [] \<longleftrightarrow> k = 0 \<or> te_label_app ` set es \<subseteq> {current})"

lemma sound_take:
  assumes "mset apps = mset cs" "distinct cs" "set cs = te_label_app ` set es - {current}"
  shows "sound_prediction es current k (take k apps)"
proof -
  have "distinct apps" "set apps = te_label_app ` set es - {current}"
    using assms by (metis mset_eq_imp_distinct_iff, metis set_mset_mset)
  moreover have "take k apps = [] \<longleftrightarrow> k = 0 \<or> apps = []" by (cases k; cases apps) simp_all
  moreover have "apps = [] \<longleftrightarrow> te_label_app ` set es - {current} = {}" using calculation(2) by (metis set_empty)
  ultimately show ?thesis
    using set_take_subset [of k apps] by (auto simp: sound_prediction_def)
qed

lemma sound_scored:
  assumes "\<And>a. as_app (score a) = a" "distinct cs" "set cs = te_label_app ` set es - {current}"
  shows "sound_prediction es current k (take k (map as_app (sort_scores (map score cs))))"
  using scored_apps [OF assms(1)] assms(2,3) by (rule sound_take)

lemma strong_tables:
  fixes es
  defines "b \<equiv> strong_from_training es" and "L \<equiv> te_label_app ` set es"
  shows "set (sb_global_popularity b) = L" "set (or_empty (btree_get (sb_user_frequency b) u)) \<subseteq> L"
    "set (or_empty (btree_get (sb_markov_rankings b) x)) \<subseteq> L"
    "set (or_empty (btree_get (sb_markov_order2_rankings b) y)) \<subseteq> L"
    "set (opt_list (btree_get (sb_recency b) z)) \<subseteq> L"
    "set (bayes_rank ln64 (sb_bayes b) fs) \<subseteq> L"
proof -
  note sel = b_def strong_from_training_def Let_def strong_baseline.select_convs
  show "set (sb_global_popularity b) = L"
    by (simp add: b_def L_def strong_from_training_def Let_def label_counts_keys)
  show "set (or_empty (btree_get (sb_user_frequency b) u)) \<subseteq> L"
    unfolding sel L_def by (intro rank_tables_get label_tables_keys)
  have "fst ` set (foldl (\<lambda>m e. count_key (te_current_app e, te_label_app e) m) [] es) \<subseteq> UNIV \<times> L"
    by (rule fold_keys) (auto simp: L_def)
  then show "set (or_empty (btree_get (sb_markov_rankings b) x)) \<subseteq> L"
    unfolding sel by (intro rank_markov_get) auto
  have "fst ` set (foldl (\<lambda>m e. case previous_app e of None \<Rightarrow> m
        | Some prev \<Rightarrow> count_key (prev, te_current_app e, te_label_app e) m) [] es) \<subseteq> UNIV \<times> UNIV \<times> L"
    by (rule fold_keys) (auto simp: L_def split: option.splits)
  then show "set (or_empty (btree_get (sb_markov_order2_rankings b) y)) \<subseteq> L"
    unfolding sel by (intro rank_order2_get) auto
  have "snd ` set (foldl (\<lambda>m e. insert_at (te_user_id e, te_current_app e) (te_label_app e) m) [] es) \<subseteq> L"
  proof (rule fold_values)
    fix m :: "((string \<times> string) \<times> string) list" and e assume "e \<in> set es" "snd ` set m \<subseteq> L"
    then have "insert (te_label_app e) (snd ` set m) \<subseteq> L" by (simp add: L_def)
    with insert_at_values show "snd ` set (insert_at (te_user_id e, te_current_app e) (te_label_app e) m) \<subseteq> L"
      by (rule subset_trans)
  qed simp
  then have "v \<in> L" if "btree_get (sb_recency b) z = Some v" for v
    using that unfolding sel btree_get_def by (force dest!: map_of_SomeD)
  then show "set (opt_list (btree_get (sb_recency b) z)) \<subseteq> L"
    by (auto simp: opt_list_def split: option.splits)
  show "set (bayes_rank ln64 (sb_bayes b) fs) \<subseteq> L"
    using bayes_rank_labels [of ln64 "sb_bayes b" fs] bayes_classes [of empty_bayes es]
    by (simp add: sel L_def empty_bayes_def)
qed

lemma strong_sound: "sound_prediction es (te_current_app e) k (strong_predict ln64 (strong_from_training es) e k)"
proof (cases "k = 0")
  case True
  then show ?thesis by (simp add: strong_predict_def predict_with_context_def sound_prediction_def)
next
  case False
  let ?b = "strong_from_training es" and ?c = "te_current_app e"
  define order2 where "order2 = or_empty (Option.bind (previous_app e) (\<lambda>p. btree_get (sb_markov_order2_rankings ?b) (p, ?c)))"
  define bayes where "bayes = bayes_rank ln64 (sb_bayes ?b) (context_features e)"
  define cs where "cs = foldl (push_candidate ?c) []
      (order2 @ or_empty (btree_get (sb_markov_rankings ?b) ?c) @ or_empty (btree_get (sb_user_frequency ?b) (te_user_id e))
        @ opt_list (btree_get (sb_recency ?b) (te_user_id e, ?c)) @ bayes @ sb_global_popularity ?b)"
  have "set order2 \<subseteq> te_label_app ` set es"
    using strong_tables(4) [where es = es] by (cases "previous_app e") (auto simp: order2_def or_empty_def)
  then have "set cs = te_label_app ` set es - {?c}"
    using strong_tables [where es = es] unfolding cs_def push_candidates(1) bayes_def by (simp add: Un_absorb1 le_supI subset_antisym)
  moreover have "distinct cs" unfolding cs_def by (simp add: push_candidates(2))
  moreover have "strong_predict ln64 ?b e k
      = take k (map as_app (sort_scores (map (score_candidate ?b (te_user_id e) ?c order2 bayes) cs)))"
    using False by (simp add: strong_predict_def predict_with_context_def Let_def order2_def bayes_def cs_def)
  ultimately show ?thesis
    using sound_scored [of "score_candidate ?b (te_user_id e) ?c order2 bayes" cs es ?c k]
    by (simp only:) (simp add: score_candidate_def Let_def)
qed
lemma first_nonempty_mem: "set (first_nonempty xss) \<subseteq> \<Union> (set ` set xss)"
  by (induction xss) auto

lemma others_within: "set r \<subseteq> L \<Longrightarrow> set (others current k r) \<subseteq> L - {current}"
  using set_take_subset [of k "filter (\<lambda>a. a \<noteq> current) r"] by (auto simp: others_def)

lemma markov3_labels:
  "set (markov3_predict (markov3_from_training es) current history k) \<subseteq> te_label_app ` set es - {current}"
proof -
  let ?m = "markov3_from_training es" and ?L = "te_label_app ` set es"
  have opt: "set (or_empty (get_opt (rank_tables t) k)) \<subseteq> ?L" if "keys_within ?L t" for k and t :: "('k, app_counts) btree_map"
    using rank_tables_get [OF that] by (cases k) (auto simp: get_opt_def or_empty_def)
  have "set (or_empty (get_opt (m3_rankings ?m) x)) \<subseteq> ?L" "set (or_empty (get_opt (m3_order2_rankings ?m) y)) \<subseteq> ?L"
    "set (or_empty (btree_get (m3_order1_rankings ?m) z)) \<subseteq> ?L" "set (m3_popularity ?m) \<subseteq> ?L" for x y z
    by (simp_all add: markov3_from_training_def label_counts_keys opt rank_tables_get label_tables_keys)
  note this [THEN others_within]
  then show ?thesis
    unfolding markov3_predict_def by (intro subset_trans [OF first_nonempty_mem]) (simp add: le_supI)
qed

lemma add_chain_keys:
  "fst ` set (add_chain w current ranked m) = fst ` set m \<union> (set ranked - {current})"
proof -
  have "fst ` set (foldl (\<lambda>m (pos, app). if app = current then m else add_score app (rank_weight w pos) m) m (enumerate n ranked))
      = fst ` set m \<union> (set ranked - {current})" for n
    by (induction ranked arbitrary: n m) (auto simp: add_score_def btree_upsert_keys)
  then show ?thesis by (simp add: add_chain_def)
qed

lemma time_markov_labels:
  "set (time_markov_predict (time_markov_from_training es) current hour weekday k) \<subseteq> te_label_app ` set es - {current}"
proof -
  let ?t = "time_markov_from_training es" and ?L = "te_label_app ` set es"
  have tables: "set (or_empty (btree_get (tm_global ?t) x)) \<subseteq> ?L" "set (or_empty (btree_get (tm_hour ?t) x)) \<subseteq> ?L"
    "set (or_empty (btree_get (tm_weekday ?t) x)) \<subseteq> ?L" "set (tm_popularity ?t) \<subseteq> ?L" for x
    by (simp_all add: time_markov_from_training_def Let_def rank_tables_get label_tables_keys label_counts_keys)
  have "set (map as_app (ranked_map m)) = fst ` set m" for m
    by (auto simp: ranked_map_def image_image case_prod_unfold)
  then show ?thesis
    unfolding time_markov_predict_def Let_def
    using tables(1) [of current] tables(2) [of "hour_key current hour"] tables(3) [of "hour_key current weekday"] tables(4)
    by (intro subset_trans [OF set_take_subset]) (simp only: add_chain_keys, simp, blast)
qed

lemma markov3_none [simp]: "markov3_predict m current history 0 = []"
  by (simp add: markov3_predict_def others_def)

lemma time_markov_none [simp]: "time_markov_predict t current hour weekday 0 = []"
  by (simp add: time_markov_predict_def Let_def)

lemma twice_wraps: "k * 2 mod 2 ^ 64 = 0 \<longleftrightarrow> k mod 2 ^ 63 = (0::nat)"
proof -
  have "k * 2 mod 2 ^ 64 = (k mod 2 ^ 63) * 2" using mult_mod_left [of k "2 ^ 63" 2] by simp
  then show ?thesis by simp
qed

text \<open>With the product wrapped to 0 no inner prediction has a candidate.\<close>

lemma adaptive_wrapped: "k mod 2 ^ 63 = 0 \<Longrightarrow> adaptive_predict ln64 b e k = []"
  using twice_wraps [of k] by (simp add: adaptive_predict_def strong_predict_def predict_with_context_def Let_def sort_by_def)

lemma adaptive_sound:
  assumes "k mod 2 ^ 63 \<noteq> 0"
  shows "sound_prediction es (te_current_app e) k (adaptive_predict ln64 (adaptive_from_training es) e k)"
proof -
  have False: "k \<noteq> 0" "k * 2 mod 2 ^ 64 \<noteq> 0" using assms twice_wraps [of k] by auto
  let ?b = "adaptive_from_training es" and ?c = "te_current_app e" and ?L = "te_label_app ` set es"
  define twice where "twice = k * 2 mod 2 ^ 64"
  define strong where "strong = strong_predict ln64 (ab_strong ?b) e twice"
  define m3 where "m3 = markov3_predict (ab_markov3 ?b) ?c (te_history e) twice"
  define time where "time = time_markov_predict (ab_time_markov ?b) ?c (te_hour_bucket e) (te_weekday e) twice"
  define cs where "cs = foldl (push_candidate ?c) [] (strong @ m3 @ time)"
  define apps where "apps = map as_app (sort_scores (map (adaptive_score strong m3 time (ab_popularity ?b)) cs))"
  have s: "sound_prediction es ?c twice strong" "set m3 \<subseteq> ?L - {?c}" "set time \<subseteq> ?L - {?c}"
    unfolding strong_def m3_def time_def adaptive_from_training_def adaptive_baseline.select_convs
    by (rule strong_sound markov3_labels time_markov_labels)+
  have "set cs = set (strong @ m3 @ time) - {?c}" "distinct cs" by (auto simp: cs_def push_candidates)
  moreover have "set strong \<subseteq> ?L - {?c}" "strong = [] \<longleftrightarrow> ?L \<subseteq> {?c}"
    using s(1) False(2) by (simp_all add: sound_prediction_def twice_def)
  ultimately have cs: "set cs \<subseteq> ?L - {?c}" "distinct cs" "set strong \<subseteq> set cs" "strong = [] \<longleftrightarrow> ?L \<subseteq> {?c}"
    using s(2,3) by auto
  then have "cs = [] \<longleftrightarrow> ?L \<subseteq> {?c}" by (cases strong; cases cs) auto
  note cs = cs this
  have m: "mset apps = mset cs" unfolding apps_def
    by (rule scored_apps) (simp add: adaptive_score_def Let_def)
  then have apps: "set apps = set cs" "distinct apps" "apps = [] \<longleftrightarrow> cs = []"
    using cs(2) by (metis set_mset_mset, metis mset_eq_imp_distinct_iff, metis mset_zero_iff)
  then have "filter (\<lambda>a. a \<noteq> ?c) apps = apps" using cs(1) by (intro filter_True) auto
  then have p: "adaptive_predict ln64 ?b e k = take k apps"
    using False(1) by (simp add: adaptive_predict_def Let_def strong_def m3_def time_def cs_def apps_def twice_def)
  have "take k apps = [] \<longleftrightarrow> apps = []" using False(1) by simp
  with apps cs(1,5) have "take k apps = [] \<longleftrightarrow> ?L \<subseteq> {?c}" "set (take k apps) \<subseteq> ?L - {?c}"
    using set_take_subset [of k apps] by simp_all
  with apps(2) False(1) show ?thesis by (simp add: p sound_prediction_def)
qed

text \<open>C39: the baselines only ever predict what they were trained on. Whatever the training examples and the
  query, the strong and the adaptive baseline return at most \<open>k\<close> apps, each once, all of them labels of the
  training set and none of them the current app. The strong baseline returns nothing only when \<open>k\<close> is 0 or
  training saw no other label; so does the adaptive one, except that it doubles \<open>k\<close> in 64 bits, which wraps:
  it returns nothing exactly when \<open>k\<close> is a multiple of \<open>2 ^ 63\<close> or training saw no other label.\<close>

theorem baselines_predict_soundly:
  "let candidates = te_label_app ` set es - {te_current_app e};
       strong = strong_predict ln64 (strong_from_training es) e k;
       adaptive = adaptive_predict ln64 (adaptive_from_training es) e k
   in length strong \<le> k \<and> distinct strong \<and> set strong \<subseteq> candidates \<and> (strong = [] \<longleftrightarrow> k = 0 \<or> candidates = {})
     \<and> length adaptive \<le> k \<and> distinct adaptive \<and> set adaptive \<subseteq> candidates
     \<and> (adaptive = [] \<longleftrightarrow> k mod 2 ^ 63 = 0 \<or> candidates = {})"
proof (cases "k mod 2 ^ 63 = 0")
  case True
  then show ?thesis using strong_sound [of es e k ln64] by (simp add: Let_def sound_prediction_def adaptive_wrapped)
next
  case False
  then have "k \<noteq> 0" by auto
  with False strong_sound [of es e k ln64] adaptive_sound [OF False, of es e ln64]
  show ?thesis by (simp add: Let_def sound_prediction_def)
qed

section \<open>The held-out slice is not held out\<close>

lemma label_tables_get:
  fixes key :: "training_example \<Rightarrow> 'k::linorder option"
  defines "own \<equiv> \<lambda>es k. filter (\<lambda>e. key e = Some k) es"
  shows "btree_invar (label_tables key es) \<and>
    btree_get (label_tables key es) k = (if own es k = [] then None else Some (label_counts (own es k)))"
proof (induction es arbitrary: k rule: rev_induct)
  case Nil
  then show ?case by (simp add: label_tables_def own_def btree_empty)
next
  case (snoc e es)
  have step: "label_tables key (es @ [e])
      = (case key e of None \<Rightarrow> label_tables key es | Some k \<Rightarrow> count_under k (te_label_app e) (label_tables key es))"
    by (cases "key e") (simp_all add: label_tables_def)
  show ?case
  proof (cases "key e")
    case None
    with snoc show ?thesis by (simp add: step own_def)
  next
    case (Some k')
    have "label_counts [] = []" by (simp add: label_counts_def)
    with snoc Some show ?thesis
      by (auto simp: step own_def count_under_def btree_upsert_invar btree_upsert_get label_counts_snoc)
  qed
qed

lemma u32_ratio_one:
  assumes "0 < n" "n < 2 ^ 32"
  shows "fp_div fmt32 (f32_of_nat n) (f32_of_nat n) = FFin 1"
proof -
  have "fp_round 24 (- 149) 1 = 1" "fp_round 24 (- 149) (2 ^ 32) = 2 ^ 32" by code_simp+
  moreover have "fp_round 24 (- 149) 1 \<le> fp_round 24 (- 149) (of_nat n)" using assms by (intro fp_round_mono) simp_all
  moreover have "(of_nat n :: rat) \<le> of_nat (2 ^ 32)" using assms(2) by (simp only: of_nat_le_iff)
  then have "fp_round 24 (- 149) (of_nat n) \<le> fp_round 24 (- 149) (2 ^ 32)" by (intro fp_round_mono) simp_all
  ultimately have r: "1 \<le> fp_round 24 (- 149) (of_nat n)" "fp_round 24 (- 149) (of_nat n) \<le> 2 ^ 32" by simp_all
  have "(2 :: rat) ^ 32 < 2 ^ 128" by simp
  with r have "\<not> 2 ^ 128 \<le> \<bar>fp_round 24 (- 149) (of_nat n)\<bar>" by linarith
  moreover have "fp_of_rat fmt32 1 = FFin 1" by code_simp
  ultimately show ?thesis using r by (simp add: fp_of_rat_def fmt32_def Let_def)
qed

definition hour_context :: "training_example \<Rightarrow> string" where
  "hour_context e = hour_key (te_current_app e) (te_hour_bucket e)"

lemma blend_hits:
  assumes "\<And>e. e \<in> set part \<Longrightarrow> top_app (hour_context e) hours = Some (te_label_app e) \<and> top_app (te_current_app e) global \<noteq> None"
  shows "foldl (blend_step hours global) (h, m) part = (h + of_nat (length part), m)"
  using assms by (induction part arbitrary: h) (auto simp: blend_step_def hour_context_def split: option.splits)

text \<open>The slice the blend weight is tuned on is not held out. The source says it uses a held-out 10% slice,
  but the tables it scores are counted over all the examples, the slice included: when each context of the
  slice occurs once in the data, the temporal table predicts every label of the slice from that very example,
  and the weight is the maximal 0.9 whatever the labels are.\<close>

theorem held_out_slice_is_trained_on:
  assumes "\<And>e. e \<in> set (take (length es div 10) es) \<Longrightarrow> filter (\<lambda>x. hour_context x = hour_context e) es = [e]"
    and "10 \<le> length es" "length es < 2 ^ 32"
  shows "tm_blend_weight (time_markov_from_training es) = f32_lit (9 / 10)"
proof -
  let ?slice = "take (length es div 10) es"
  let ?hours = "label_tables (\<lambda>e. Some (hour_context e)) es" and ?global = "label_tables (\<lambda>e. Some (te_current_app e)) es"
  have "top_app (hour_context e) ?hours = Some (te_label_app e) \<and> top_app (te_current_app e) ?global \<noteq> None" if e: "e \<in> set ?slice" for e
  proof -
    have "e \<in> set es" using e by (rule in_set_takeD)
    then have "filter (\<lambda>x. te_current_app x = te_current_app e) es \<noteq> []" by (auto simp: filter_empty_conv)
    moreover have "set (rank_counts (label_counts xs)) \<noteq> {}" if "xs \<noteq> []" for xs
      using that by (simp add: label_counts_keys)
    moreover have "rank_counts (label_counts [e]) = [te_label_app e]"
      by (simp add: label_counts_def count_app_def rank_counts_def sort_by_def)
    ultimately show ?thesis
      using assms(1) [OF e]
      by (auto simp: top_app_def label_tables_get split: list.splits simp del: set_rank_counts)
  qed
  then have "foldl (blend_step ?hours ?global) (0, 0) ?slice = (of_nat (length es div 10), 0)"
    using blend_hits [of ?slice ?hours ?global 0 0] by simp
  then have w: "tm_blend_weight (time_markov_from_training es) = blend_weight (of_nat (length es div 10), 0)"
    by (simp add: time_markov_from_training_def Let_def hour_context_def)
  have n: "0 < length es div 10" "length es div 10 < 2 ^ 32" using assms(2,3) by linarith+
  then have u: "unat (of_nat (length es div 10) :: u32) = length es div 10" by (simp add: unat_of_nat)
  with n have "(0 :: u32) < of_nat (length es div 10)" by (simp add: word_less_nat_alt)
  moreover have "fp_clamp (f32_lit (1 / 10)) (f32_lit (9 / 10)) (FFin 1) = f32_lit (9 / 10)" by code_simp
  ultimately show ?thesis
    using u32_ratio_one [OF n] by (simp add: w blend_weight_def u)
qed

theorem held_out_slice_is_trained_on_witness:
  "tm_blend_weight (time_markov_from_training
     (map (\<lambda>h. demo_example ''a'' ''b''\<lparr>te_hour_bucket := h\<rparr>) [0, 1, 2, 3, 4, 5, 6, 7, 8, 9])) = f32_lit (9 / 10)"
proof (rule held_out_slice_is_trained_on)
  let ?es = "map (\<lambda>h. demo_example ''a'' ''b''\<lparr>te_hour_bucket := h\<rparr>) [0, 1, 2, 3, 4, 5, 6, 7, 8, 9]"
  fix e assume "e \<in> set (take (length ?es div 10) ?es)"
  then have "e = demo_example ''a'' ''b''\<lparr>te_hour_bucket := 0\<rparr>" by simp
  then show "filter (\<lambda>x. hour_context x = hour_context e) ?es = [e]"
    by (simp only:) code_simp
qed simp_all

end
