(* ===== verification/Next_App_Eval.thy ===== *)
theory Next_App_Eval
  imports Next_App_Baselines
begin

text \<open>
  Evaluation of the next-app model (\<open>aios-cli/src/next_app/\<close>): the metrics of a ranker (\<open>metrics.rs\<close>), the
  net benefit of prewarming (\<open>net_benefit.rs\<close>), and the two commands \<open>train\<close> and \<open>evaluate\<close> (\<open>mod.rs\<close>), which
  put the loader, the splits, training, the predictor and the baselines together.

  A ranker that panics is \<open>None\<close>. The artifact and the report are the values the commands write; creating
  directories and files is not modelled.
\<close>

section \<open>Metrics (metrics.rs)\<close>

record user_accum =
  ua_examples :: usize
  ua_hit1 :: usize

record metrics_accum =
  ma_examples :: usize
  ma_predicted :: usize
  ma_hit1 :: usize
  ma_hit3 :: usize
  ma_hit5 :: usize
  ma_mrr5 :: f32
  ma_per_user :: "(string, user_accum) btree_map"

definition empty_metrics :: metrics_accum where
  "empty_metrics = \<lparr>ma_examples = 0, ma_predicted = 0, ma_hit1 = 0, ma_hit3 = 0, ma_hit5 = 0, ma_mrr5 = FFin 0,
     ma_per_user = []\<rparr>"

record metrics_report =
  mr_examples :: usize
  mr_predicted :: usize
  mr_hit_rate_at_1_pct :: f32
  mr_hit_rate_at_3_pct :: f32
  mr_hit_rate_at_5_pct :: f32
  mr_mean_reciprocal_rank_at_5 :: f32
  mr_prediction_coverage_pct :: f32
  mr_macro_hit_rate_at_1_pct :: f32

definition round3 :: "f32 \<Rightarrow> f32" where
  "round3 v = fp_div fmt32 (fp_round_int (fp_mul fmt32 v (FFin 1000))) (FFin 1000)"

definition pct :: "usize \<Rightarrow> f32 \<Rightarrow> f32" where
  "pct n denom = round3 (fp_mul fmt32 (fp_div fmt32 (f32_of_nat n) denom) (FFin 100))"

definition label_rank :: "training_example \<Rightarrow> string list \<Rightarrow> nat option" where
  "label_rank e predictions = map_option Suc (position_of (te_label_app e) (take 5 predictions))"

definition count_if :: "bool \<Rightarrow> nat \<Rightarrow> nat" where
  "count_if b n = (if b then n + 1 else n)"

definition user_step :: "bool \<Rightarrow> user_accum \<Rightarrow> user_accum" where
  "user_step hit u = \<lparr>ua_examples = ua_examples u + 1, ua_hit1 = count_if hit (ua_hit1 u)\<rparr>"

definition metrics_step :: "metrics_accum \<Rightarrow> training_example \<Rightarrow> string list \<Rightarrow> metrics_accum" where
  "metrics_step a e predictions =
     (let r = label_rank e predictions in
      \<lparr>ma_examples = ma_examples a + 1,
       ma_predicted = count_if (predictions \<noteq> []) (ma_predicted a),
       ma_hit1 = count_if (r = Some 1) (ma_hit1 a),
       ma_hit3 = count_if (case r of Some k \<Rightarrow> k \<le> 3 | None \<Rightarrow> False) (ma_hit3 a),
       ma_hit5 = count_if (r \<noteq> None) (ma_hit5 a),
       ma_mrr5 = (case r of Some k \<Rightarrow> fp_add fmt32 (ma_mrr5 a) (fp_div fmt32 (FFin 1) (f32_of_nat k)) | None \<Rightarrow> ma_mrr5 a),
       ma_per_user = btree_upsert (te_user_id e) \<lparr>ua_examples = 0, ua_hit1 = 0\<rparr> (user_step (r = Some 1)) (ma_per_user a)\<rparr>)"

definition into_report :: "metrics_accum \<Rightarrow> metrics_report" where
  "into_report a =
     (let denom = f32_of_nat (max (ma_examples a) 1);
          macro = (if ma_per_user a = [] then FFin 0
            else fp_mul fmt32 (fp_div fmt32
              (foldl (fp_add fmt32) (FFin 0) (map (\<lambda>(_, u). fp_div fmt32 (f32_of_nat (ua_hit1 u))
                 (f32_of_nat (max (ua_examples u) 1))) (ma_per_user a)))
              (f32_of_nat (length (ma_per_user a)))) (FFin 100))
      in \<lparr>mr_examples = ma_examples a, mr_predicted = ma_predicted a,
          mr_hit_rate_at_1_pct = pct (ma_hit1 a) denom, mr_hit_rate_at_3_pct = pct (ma_hit3 a) denom,
          mr_hit_rate_at_5_pct = pct (ma_hit5 a) denom,
          mr_mean_reciprocal_rank_at_5 = round3 (fp_div fmt32 (ma_mrr5 a) denom),
          mr_prediction_coverage_pct = pct (ma_predicted a) denom, mr_macro_hit_rate_at_1_pct = round3 macro\<rparr>)"

fun run_ranker :: "(training_example \<Rightarrow> string list option) \<Rightarrow> metrics_accum \<Rightarrow> training_example list \<Rightarrow> metrics_accum option" where
  "run_ranker ranker a [] = Some a"
| "run_ranker ranker a (e # es) = (case ranker e of
     None \<Rightarrow> None
   | Some predictions \<Rightarrow> run_ranker ranker (metrics_step a e predictions) es)"

definition evaluate_ranker :: "training_example list \<Rightarrow> (training_example \<Rightarrow> string list option) \<Rightarrow> metrics_report option" where
  "evaluate_ranker es ranker = map_option into_report (run_ranker ranker empty_metrics es)"

section \<open>Net benefit (net_benefit.rs)\<close>

record measurement_source =
  ms_kind :: string
  ms_path :: string
  ms_field :: "string option"
  ms_note :: "string option"

record measured_value =
  mv_mean_ms :: f64
  mv_p95_ms :: "f64 option"
  mv_samples :: usize
  mv_source :: measurement_source

record net_benefit_inputs =
  ni_hit_rate_at_1_pct :: f32
  ni_prewarm_saved_ms :: f64
  ni_prewarm_wasted_ms :: f64
  ni_control_plane_ms :: f64

record measured_inputs =
  mm_hit_rate_at_1_pct :: f32
  mm_prewarm_saved :: measured_value
  mm_prewarm_wasted :: measured_value
  mm_control_plane :: measured_value

record net_benefit_trace =
  nt_source :: string
  nt_split :: string
  nt_examples :: usize

record control_plane_measurements =
  cm_dipecs :: measured_value
  cm_strong_baseline :: measured_value

record prewarm_measurements =
  pm_prewarm_saved :: measured_value
  pm_wasted_prewarm :: measured_value
  pm_control_plane :: control_plane_measurements

record prewarm_fixture =
  fx_schema_version :: string
  fx_dataset_id :: string
  fx_action :: string
  fx_status :: string
  fx_trace :: net_benefit_trace
  fx_measurements :: prewarm_measurements

record fixture_build_inputs =
  fb_dataset_id :: string
  fb_status :: string
  fb_trace :: net_benefit_trace
  fb_prewarm_saved :: measured_value
  fb_wasted_prewarm :: measured_value
  fb_dipecs_control_plane :: measured_value
  fb_strong_control_plane :: measured_value

record net_benefit_report =
  nr_net_benefit_ms :: f64
  nr_gross_saved_ms :: f64
  nr_gross_wasted_ms :: f64
  nr_control_plane_cost_ms :: f64

definition PREWARM_SCHEMA :: string where "PREWARM_SCHEMA = ''dipecs.action_net_benefit.prewarm.v1''"

definition validate_source :: "string \<Rightarrow> measurement_source \<Rightarrow> string option" where
  "validate_source name s = first_error
     [check (trim (ms_kind s) = []) (name @ ''.source.kind must be non-empty''),
      check (trim (ms_path s) = []) (name @ ''.source.path must be non-empty''),
      check (str_contains (to_ascii_lowercase (ms_kind s)) ''placeholder''
          \<or> str_contains (to_ascii_lowercase (ms_kind s)) ''synthetic_constant'')
        (name @ ''.source.kind must not be a placeholder'')]"

definition bad_ms :: "f64 \<Rightarrow> bool" where
  "bad_ms x \<longleftrightarrow> \<not> fp_is_finite x \<or> fp_lt x (FFin 0)"

definition validate_measured :: "string \<Rightarrow> measured_value \<Rightarrow> string option" where
  "validate_measured name v = first_error
     [check (bad_ms (mv_mean_ms v)) (name @ ''.mean_ms must be a finite non-negative value''),
      check (case mv_p95_ms v of Some p \<Rightarrow> bad_ms p | None \<Rightarrow> False) (name @ ''.p95_ms must be a finite non-negative value''),
      check (mv_samples v = 0) (name @ ''.samples must be greater than zero''),
      validate_source name (mv_source v)]"

definition validate_fixture :: "prewarm_fixture \<Rightarrow> string option" where
  "validate_fixture f =
     (let t = fx_trace f; m = fx_measurements f in first_error
     [check (fx_schema_version f \<noteq> PREWARM_SCHEMA)
        (''schema_version must be '' @ PREWARM_SCHEMA @ '', got '' @ fx_schema_version f),
      check (fx_action f \<noteq> ''PreWarmProcess'') (''action must be PreWarmProcess, got '' @ fx_action f),
      check (trim (fx_dataset_id f) = []) ''dataset_id must be non-empty'',
      check (str_contains (to_ascii_lowercase (fx_status f)) ''placeholder'')
        ''status must not mark the fixture as placeholder'',
      check (trim (nt_source t) = []) ''trace.source must be non-empty'',
      check (trim (nt_split t) = []) ''trace.split must be non-empty'',
      check (nt_examples t = 0) ''trace.examples must be greater than zero'',
      validate_measured ''measurements.prewarm_saved'' (pm_prewarm_saved m),
      validate_measured ''measurements.wasted_prewarm'' (pm_wasted_prewarm m),
      validate_measured ''measurements.control_plane.dipecs'' (cm_dipecs (pm_control_plane m)),
      validate_measured ''measurements.control_plane.strong_baseline'' (cm_strong_baseline (pm_control_plane m))])"

definition dipecs_inputs :: "prewarm_fixture \<Rightarrow> f32 \<Rightarrow> measured_inputs" where
  "dipecs_inputs f hit = (let m = fx_measurements f in
     \<lparr>mm_hit_rate_at_1_pct = hit, mm_prewarm_saved = pm_prewarm_saved m, mm_prewarm_wasted = pm_wasted_prewarm m,
      mm_control_plane = cm_dipecs (pm_control_plane m)\<rparr>)"

definition strong_baseline_inputs :: "prewarm_fixture \<Rightarrow> f32 \<Rightarrow> measured_inputs" where
  "strong_baseline_inputs f hit = (let m = fx_measurements f in
     \<lparr>mm_hit_rate_at_1_pct = hit, mm_prewarm_saved = pm_prewarm_saved m, mm_prewarm_wasted = pm_wasted_prewarm m,
      mm_control_plane = cm_strong_baseline (pm_control_plane m)\<rparr>)"

definition build_fixture :: "fixture_build_inputs \<Rightarrow> string + prewarm_fixture" where
  "build_fixture i =
     (let f = \<lparr>fx_schema_version = PREWARM_SCHEMA, fx_dataset_id = fb_dataset_id i, fx_action = ''PreWarmProcess'',
           fx_status = fb_status i, fx_trace = fb_trace i,
           fx_measurements = \<lparr>pm_prewarm_saved = fb_prewarm_saved i, pm_wasted_prewarm = fb_wasted_prewarm i,
             pm_control_plane = \<lparr>cm_dipecs = fb_dipecs_control_plane i, cm_strong_baseline = fb_strong_control_plane i\<rparr>\<rparr>\<rparr>
      in case validate_fixture f of Some e \<Rightarrow> Inl e | None \<Rightarrow> Inr f)"

definition inputs_of_measured :: "measured_inputs \<Rightarrow> net_benefit_inputs" where
  "inputs_of_measured i = \<lparr>ni_hit_rate_at_1_pct = mm_hit_rate_at_1_pct i, ni_prewarm_saved_ms = mv_mean_ms (mm_prewarm_saved i),
     ni_prewarm_wasted_ms = mv_mean_ms (mm_prewarm_wasted i), ni_control_plane_ms = mv_mean_ms (mm_control_plane i)\<rparr>"

definition placeholder_inputs :: "f32 \<Rightarrow> f64 \<Rightarrow> net_benefit_inputs" where
  "placeholder_inputs hit saved = \<lparr>ni_hit_rate_at_1_pct = hit, ni_prewarm_saved_ms = saved,
     ni_prewarm_wasted_ms = FFin 12, ni_control_plane_ms = FFin 0\<rparr>"

text \<open>\<open>as f64\<close> of an \<open>f32\<close> is exact.\<close>

definition compute_net_benefit :: "net_benefit_inputs \<Rightarrow> usize \<Rightarrow> net_benefit_report" where
  "compute_net_benefit i examples =
     (let n = f64_of_nat examples; hit = ni_hit_rate_at_1_pct i;
          saved = fp_div fmt64 (fp_mul fmt64 (fp_mul fmt64 n hit) (ni_prewarm_saved_ms i)) (FFin 100);
          wasted = fp_mul fmt64 (fp_mul fmt64 n (fp_sub fmt64 (FFin 1) (fp_div fmt64 hit (FFin 100)))) (ni_prewarm_wasted_ms i);
          control = fp_mul fmt64 n (ni_control_plane_ms i)
      in \<lparr>nr_net_benefit_ms = fp_sub fmt64 (fp_sub fmt64 saved wasted) control,
          nr_gross_saved_ms = saved, nr_gross_wasted_ms = wasted, nr_control_plane_cost_ms = control\<rparr>)"

definition compute_measured_net_benefit :: "measured_inputs \<Rightarrow> usize \<Rightarrow> string + net_benefit_report" where
  "compute_measured_net_benefit i examples =
     (case first_error [validate_measured ''prewarm_saved_ms'' (mm_prewarm_saved i),
        validate_measured ''prewarm_wasted_ms'' (mm_prewarm_wasted i),
        validate_measured ''control_plane_ms'' (mm_control_plane i)] of
        Some e \<Rightarrow> Inl e
      | None \<Rightarrow> Inr (compute_net_benefit (inputs_of_measured i) examples))"

section \<open>The commands (mod.rs)\<close>

record train_options =
  to_input :: data_node
  to_horizon_secs :: u64
  to_history_len :: usize
  to_split :: next_app_split

record eval_options =
  eo_input :: data_node
  eo_artifact :: "string + next_app_artifact"
  eo_horizon_secs :: u64
  eo_history_len :: usize
  eo_split :: next_app_split

record eval_report =
  er_schema_version :: string
  er_dataset :: string
  er_split :: string
  er_artifact_model_id :: string
  er_artifact_dataset_id :: string
  er_total_examples :: usize
  er_train_examples :: usize
  er_test_examples :: usize
  er_metrics :: "(string, metrics_report) btree_map"

datatype command_error =
    LoadFailed load_error
  | TrainFailed string
  | ArtifactUnreadable string
  | ArtifactRejected string
  | EmptyTestSplit

text \<open>The artifact \<open>train\<close> writes; \<open>None\<close> would be a panic.\<close>

definition train_command :: "loader_env \<Rightarrow> libm \<Rightarrow> train_options \<Rightarrow> (command_error + next_app_artifact) option" where
  "train_command E M opts =
     (case load_examples E (to_input opts) (to_horizon_secs opts) (to_history_len opts) of
        Inl e \<Rightarrow> Some (Inl (LoadFailed e))
      | Inr es \<Rightarrow> map_option (map_sum TrainFailed id)
          (train_next_app_artifact M ''lsapp''
            \<lparr>nc_horizon_secs = to_horizon_secs opts, nc_history_len = to_history_len opts\<rparr>
            (fst (split_examples es (to_split opts)))))"

fun debug_split :: "next_app_split \<Rightarrow> string" where
  "debug_split Standard = ''Standard''"
| "debug_split ColdStart = ''ColdStart''"

definition model_ranker :: "libm \<Rightarrow> next_app_predictor \<Rightarrow> next_app_algorithm \<Rightarrow> training_example \<Rightarrow> string list option" where
  "model_ranker M p algorithm e = map_option (map as_app) (predictor_rank M p (features_for_example e) algorithm 5)"

definition last_used :: "training_example \<Rightarrow> string list" where
  "last_used e = opt_list (last_opt (te_history e))"

text \<open>The rankers of a report, by the key they are reported under.\<close>

definition report_rankers :: "libm \<Rightarrow> (f64 \<Rightarrow> f64) \<Rightarrow> next_app_predictor \<Rightarrow> training_example list
    \<Rightarrow> (string \<times> (training_example \<Rightarrow> string list option)) list" where
  "report_rankers M ln64 p train =
     (let baseline = baseline_from_training train; strong = strong_from_training train;
          adaptive = adaptive_from_training train in
      [(''global_popularity'', \<lambda>e. Some (take 5 (bl_global_popularity baseline))),
       (''mfu'', \<lambda>e. Some (mfu baseline (te_user_id e))),
       (''mru'', \<lambda>e. Some (last_used e)),
       (''naive_bayes'', model_ranker M p NaiveBayes),
       (''markov'', model_ranker M p Markov),
       (''xgboost'', model_ranker M p FeatureLift),
       (''ensemble'', model_ranker M p Ensemble),
       (''strong_predictive'', \<lambda>e. Some (strong_predict ln64 strong e 5)),
       (''adaptive_predictive'', \<lambda>e. Some (adaptive_predict ln64 adaptive e 5))])"

fun evaluate_all :: "training_example list \<Rightarrow> (string, metrics_report) btree_map
    \<Rightarrow> (string \<times> (training_example \<Rightarrow> string list option)) list \<Rightarrow> (string, metrics_report) btree_map option" where
  "evaluate_all test m [] = Some m"
| "evaluate_all test m ((name, ranker) # rs) = (case evaluate_ranker test ranker of
     None \<Rightarrow> None
   | Some r \<Rightarrow> evaluate_all test (insert_at name r m) rs)"

definition evaluate_command :: "loader_env \<Rightarrow> libm \<Rightarrow> (f64 \<Rightarrow> f64) \<Rightarrow> eval_options
    \<Rightarrow> (command_error + eval_report) option" where
  "evaluate_command E M ln64 opts =
     (case eo_artifact opts of
        Inl e \<Rightarrow> Some (Inl (ArtifactUnreadable e))
      | Inr a \<Rightarrow> (case predictor_new a of
           Inl e \<Rightarrow> Some (Inl (ArtifactRejected e))
         | Inr p \<Rightarrow> (case load_examples E (eo_input opts) (eo_horizon_secs opts) (eo_history_len opts) of
              Inl e \<Rightarrow> Some (Inl (LoadFailed e))
            | Inr es \<Rightarrow> (let (train, test) = split_examples es (eo_split opts) in
                if test = [] then Some (Inl EmptyTestSplit)
                else map_option (\<lambda>metrics. Inr
                  \<lparr>er_schema_version = ''dipecs.next_app_eval.v1'', er_dataset = ''Lsapp'',
                   er_split = debug_split (eo_split opts), er_artifact_model_id = na_model_id a,
                   er_artifact_dataset_id = na_dataset_id a, er_total_examples = length es,
                   er_train_examples = length train, er_test_examples = length test, er_metrics = metrics\<rparr>)
                  (evaluate_all test [] (report_rankers M ln64 p train))))))"

section \<open>What a report counts\<close>

lemma position_of_take: "x \<in> set (take k xs) \<longleftrightarrow> (\<exists>i < k. position_of x xs = Some i)"
proof (induction xs arbitrary: k)
  case (Cons y ys)
  show ?case by (cases k) (auto simp: Cons split: option.splits)
qed simp

lemma label_rank_hits:
  "label_rank e p = Some (Suc 0) \<longleftrightarrow> te_label_app e \<in> set (take 1 p)"
  "(case label_rank e p of Some k \<Rightarrow> k \<le> 3 | None \<Rightarrow> False) \<longleftrightarrow> te_label_app e \<in> set (take 3 p)"
  "label_rank e p \<noteq> None \<longleftrightarrow> te_label_app e \<in> set (take 5 p)"
proof -
  have t: "te_label_app e \<in> set (take k p) \<longleftrightarrow> (\<exists>i < k. position_of (te_label_app e) (take 5 p) = Some i)" if "k \<le> 5" for k
    using position_of_take [of "te_label_app e" k "take 5 p"] that by (simp add: min_def)
  have "position_of (te_label_app e) (take 5 p) = Some i \<Longrightarrow> i < 5" for i
    using position_of_take [of "te_label_app e" "Suc i" "take 5 p"] position_of_take [of "te_label_app e" "min 5 (Suc i)" p] t [of 5]
      position_of_take [of "te_label_app e" 5 "take 5 p"] by auto
  then show "label_rank e p \<noteq> None \<longleftrightarrow> te_label_app e \<in> set (take 5 p)" using t [of 5] by (auto simp: label_rank_def)
  show "label_rank e p = Some (Suc 0) \<longleftrightarrow> te_label_app e \<in> set (take 1 p)"
    using t [of 1] by (auto simp: label_rank_def)
  show "(case label_rank e p of Some k \<Rightarrow> k \<le> 3 | None \<Rightarrow> False) \<longleftrightarrow> te_label_app e \<in> set (take 3 p)"
    using t [of 3] by (auto simp: label_rank_def less_Suc_eq_le numeral_3_eq_3 split: option.splits)
qed

definition hits :: "(training_example \<Rightarrow> string list) \<Rightarrow> nat \<Rightarrow> training_example list \<Rightarrow> nat" where
  "hits f k es = length (filter (\<lambda>e. te_label_app e \<in> set (take k (f e))) es)"

definition answered :: "(training_example \<Rightarrow> string list) \<Rightarrow> training_example list \<Rightarrow> nat" where
  "answered f es = length (filter (\<lambda>e. f e \<noteq> []) es)"

lemma run_ranker_counts:
  "\<exists>a'. run_ranker (\<lambda>e. Some (f e)) a es = Some a' \<and> ma_examples a' = ma_examples a + length es
     \<and> ma_predicted a' = ma_predicted a + answered f es \<and> ma_hit1 a' = ma_hit1 a + hits f 1 es
     \<and> ma_hit3 a' = ma_hit3 a + hits f 3 es \<and> ma_hit5 a' = ma_hit5 a + hits f 5 es"
proof (induction es arbitrary: a)
  case (Cons e es)
  obtain a' where a': "run_ranker (\<lambda>e. Some (f e)) (metrics_step a e (f e)) es = Some a'"
    "ma_examples a' = ma_examples (metrics_step a e (f e)) + length es"
    "ma_predicted a' = ma_predicted (metrics_step a e (f e)) + answered f es"
    "ma_hit1 a' = ma_hit1 (metrics_step a e (f e)) + hits f 1 es"
    "ma_hit3 a' = ma_hit3 (metrics_step a e (f e)) + hits f 3 es"
    "ma_hit5 a' = ma_hit5 (metrics_step a e (f e)) + hits f 5 es"
    using Cons.IH [of "metrics_step a e (f e)"] by blast
  have "ma_examples (metrics_step a e (f e)) = ma_examples a + 1"
    "ma_predicted (metrics_step a e (f e)) = ma_predicted a + answered f [e]"
    "ma_hit1 (metrics_step a e (f e)) = ma_hit1 a + hits f 1 [e]"
    "ma_hit3 (metrics_step a e (f e)) = ma_hit3 a + hits f 3 [e]"
    "ma_hit5 (metrics_step a e (f e)) = ma_hit5 a + hits f 5 [e]"
    using label_rank_hits [of e "f e"] unfolding metrics_step_def Let_def
    by (simp_all add: count_if_def answered_def hits_def)
  moreover have "answered f (e # es) = answered f [e] + answered f es" "hits f k (e # es) = hits f k [e] + hits f k es" for k
    by (simp_all add: answered_def hits_def)
  ultimately show ?case using a' by simp
qed (simp add: answered_def hits_def)

lemma evaluate_ranker_counts:
  "\<exists>r. evaluate_ranker es (\<lambda>e. Some (f e)) = Some r \<and> mr_examples r = length es \<and> mr_predicted r = answered f es
     \<and> mr_hit_rate_at_1_pct r = pct (hits f 1 es) (f32_of_nat (max (length es) 1))
     \<and> mr_hit_rate_at_3_pct r = pct (hits f 3 es) (f32_of_nat (max (length es) 1))
     \<and> mr_hit_rate_at_5_pct r = pct (hits f 5 es) (f32_of_nat (max (length es) 1))
     \<and> mr_prediction_coverage_pct r = pct (answered f es) (f32_of_nat (max (length es) 1))"
proof -
  obtain a where a: "run_ranker (\<lambda>e. Some (f e)) empty_metrics es = Some a" "ma_examples a = length es"
    "ma_predicted a = answered f es" "ma_hit1 a = hits f 1 es" "ma_hit3 a = hits f 3 es" "ma_hit5 a = hits f 5 es"
    using run_ranker_counts [of f empty_metrics es] by (auto simp: empty_metrics_def)
  then have "evaluate_ranker es (\<lambda>e. Some (f e)) = Some (into_report a)" by (simp add: evaluate_ranker_def)
  with a(2-) show ?thesis by (simp add: into_report_def Let_def)
qed

lemma hits_bounds: "hits f 1 es \<le> hits f 3 es" "hits f 3 es \<le> hits f 5 es" "hits f 5 es \<le> answered f es" "answered f es \<le> length es"
proof -
  have m: "length (filter P es) \<le> length (filter Q es)" if "\<And>e. P e \<Longrightarrow> Q e" for P Q
    using that by (induction es) auto
  have "x \<in> set (take 1 ys) \<Longrightarrow> x \<in> set (take 3 ys)" "x \<in> set (take 3 ys) \<Longrightarrow> x \<in> set (take 5 ys)" for x :: string and ys
    using set_take_subset_set_take [of 1 3 ys] set_take_subset_set_take [of 3 5 ys] by auto
  then show "hits f 1 es \<le> hits f 3 es" "hits f 3 es \<le> hits f 5 es" unfolding hits_def by (blast intro!: m)+
  show "hits f 5 es \<le> answered f es" unfolding hits_def answered_def by (rule m) auto
  show "answered f es \<le> length es" by (simp add: answered_def)
qed

section \<open>Percentages stay in range\<close>

abbreviation rnd :: "rat \<Rightarrow> rat" where
  "rnd \<equiv> fp_round 24 (- 149)"

lemma rnd_fix: "rnd 0 = 0" "rnd 1 = 1" "rnd 100 = 100" "rnd 100000 = 100000" "rnd 18446744073709551616 = 18446744073709551616"
  by code_simp+

lemma rnd_mono: "x \<le> y \<Longrightarrow> rnd x \<le> rnd y"
  by (rule fp_round_mono) simp_all

lemma f32_rnd: "0 \<le> x \<Longrightarrow> x \<le> 2 ^ 64 \<Longrightarrow> fp_of_rat fmt32 x = FFin (rnd x)"
proof -
  assume "0 \<le> x" "x \<le> 2 ^ 64"
  then have "0 \<le> rnd x" "rnd x \<le> 2 ^ 64"
    using rnd_mono [of 0 x] rnd_mono [of x "2 ^ 64"] rnd_fix(1,5) by simp_all
  moreover have "(2 :: rat) ^ 64 < 2 ^ 128" by simp
  ultimately have "\<not> 2 ^ 128 \<le> \<bar>rnd x\<bar>" by linarith
  then show ?thesis by (simp add: fp_of_rat_def fmt32_def Let_def)
qed

text \<open>The stages of a percentage: the ratio, times 100, and its rounding to three decimals.\<close>

definition share :: "nat \<Rightarrow> nat \<Rightarrow> rat" where
  "share n d = rnd (rnd (of_nat n) / rnd (of_nat d))"

definition thousandths :: "rat \<Rightarrow> rat" where
  "thousandths x = of_int \<lfloor>rnd (rnd (x * 100) * 1000) + 1 / 2\<rfloor>"

lemma share_bounds:
  assumes "n \<le> m" "m \<le> d" "0 < d" "d < 2 ^ 64"
  shows "0 \<le> share n d" "share n d \<le> share m d" "share m d \<le> 1"
    "fp_div fmt32 (f32_of_nat m) (f32_of_nat d) = FFin (share m d)"
proof -
  have nmd: "0 \<le> rnd (of_nat n)" "rnd (of_nat n) \<le> rnd (of_nat m)" "rnd (of_nat m) \<le> rnd (of_nat d)" "1 \<le> rnd (of_nat d)"
    using rnd_mono [of 0 "of_nat n"] rnd_mono [of "of_nat n" "of_nat m"] rnd_mono [of "of_nat m" "of_nat d"]
      rnd_mono [of 1 "of_nat d"] assms by (simp_all add: rnd_fix Suc_le_eq)
  have q: "0 \<le> rnd (of_nat n) / rnd (of_nat d)" "rnd (of_nat n) / rnd (of_nat d) \<le> rnd (of_nat m) / rnd (of_nat d)"
    "rnd (of_nat m) / rnd (of_nat d) \<le> 1"
    using nmd by (simp_all add: divide_right_mono)
  show "0 \<le> share n d" "share n d \<le> share m d" "share m d \<le> 1"
    unfolding share_def using rnd_mono [OF q(1)] rnd_mono [OF q(2)] rnd_mono [OF q(3)] by (simp_all add: rnd_fix)
  have "(of_nat d :: rat) \<le> of_nat (2 ^ 64)" "(of_nat m :: rat) \<le> of_nat (2 ^ 64)"
    using assms by (simp_all only: of_nat_le_iff)
  then have "f32_of_nat m = FFin (rnd (of_nat m))" "f32_of_nat d = FFin (rnd (of_nat d))" by (simp_all add: f32_rnd)
  moreover have "fp_of_rat fmt32 (rnd (of_nat m) / rnd (of_nat d)) = FFin (share m d)"
    unfolding share_def using q by (intro f32_rnd) (linarith, simp add: order_trans [OF q(3)])
  moreover have "rnd (of_nat d) \<noteq> 0" using nmd(4) by linarith
  ultimately show "fp_div fmt32 (f32_of_nat m) (f32_of_nat d) = FFin (share m d)" by simp
qed

lemma thousandths_bounds:
  assumes "0 \<le> x" "x \<le> y" "y \<le> 1"
  shows "0 \<le> thousandths x" "thousandths x \<le> thousandths y" "thousandths y \<le> 100000"
    "round3 (fp_mul fmt32 (FFin y) (FFin 100)) = FFin (rnd (thousandths y / 1000))"
proof -
  have h: "0 \<le> rnd (x * 100)" "rnd (x * 100) \<le> rnd (y * 100)" "rnd (y * 100) \<le> 100"
    using assms rnd_mono [of 0 "x * 100"] rnd_mono [of "x * 100" "y * 100"] rnd_mono [of "y * 100" 100] by (simp_all add: rnd_fix)
  then have k: "0 \<le> rnd (rnd (x * 100) * 1000)" "rnd (rnd (x * 100) * 1000) \<le> rnd (rnd (y * 100) * 1000)"
    "rnd (rnd (y * 100) * 1000) \<le> 100000"
    using rnd_mono [of 0 "rnd (x * 100) * 1000"] rnd_mono [of "rnd (x * 100) * 1000" "rnd (y * 100) * 1000"]
      rnd_mono [of "rnd (y * 100) * 1000" 100000] by (simp_all add: rnd_fix)
  have "0 \<le> \<lfloor>rnd (rnd (x * 100) * 1000) + 1 / 2\<rfloor>" using k(1) by simp
  moreover have "\<lfloor>rnd (rnd (x * 100) * 1000) + 1 / 2\<rfloor> \<le> \<lfloor>rnd (rnd (y * 100) * 1000) + 1 / 2\<rfloor>"
    using k(2) by (intro floor_mono) simp
  moreover have "\<lfloor>rnd (rnd (y * 100) * 1000) + 1 / 2\<rfloor> \<le> 100000" using k(3) by (simp add: floor_le_iff)
  ultimately show t: "0 \<le> thousandths x" "thousandths x \<le> thousandths y" "thousandths y \<le> 100000"
    by (simp_all add: thousandths_def)
  have big: "(100000 :: rat) \<le> 2 ^ 64" by simp
  have "\<not> rnd (rnd (y * 100) * 1000) < 0" "0 \<le> y * 100" "y * 100 \<le> 2 ^ 64" using k assms big by linarith+
  moreover have "0 \<le> rnd (y * 100) * 1000" "rnd (y * 100) * 1000 \<le> 2 ^ 64" using h big by linarith+
  moreover have "0 \<le> thousandths y / 1000" "thousandths y / 1000 \<le> 2 ^ 64" using t by simp_all
  ultimately show "round3 (fp_mul fmt32 (FFin y) (FFin 100)) = FFin (rnd (thousandths y / 1000))"
    by (simp add: round3_def f32_rnd thousandths_def)
qed

lemma pct_steps:
  assumes "n \<le> m" "m \<le> d" "0 < d" "d < 2 ^ 64"
  shows "fp_le (FFin 0) (pct n (f32_of_nat d))" "fp_le (pct n (f32_of_nat d)) (pct m (f32_of_nat d))"
    "fp_le (pct m (f32_of_nat d)) (FFin 100)"
proof -
  let ?t = "\<lambda>k. thousandths (share k d)"
  have p: "pct k (f32_of_nat d) = FFin (rnd (?t k / 1000))" if "k \<le> d" for k
    using share_bounds [of k k d] thousandths_bounds(4) [of "share k d" "share k d"] that assms(3,4) by (simp add: pct_def)
  have t: "0 \<le> ?t n" "?t n \<le> ?t m" "?t m \<le> 100000"
    using share_bounds [OF assms] thousandths_bounds [of "share n d" "share m d"] by simp_all
  then show "fp_le (FFin 0) (pct n (f32_of_nat d))" "fp_le (pct n (f32_of_nat d)) (pct m (f32_of_nat d))"
    "fp_le (pct m (f32_of_nat d)) (FFin 100)"
    using rnd_mono [of 0 "?t n / 1000"] rnd_mono [of "?t n / 1000" "?t m / 1000"] rnd_mono [of "?t m / 1000" 100] assms
    by (simp_all add: p rnd_fix)
qed

text \<open>C19: a report counts what it says, and its percentages are percentages. For any ranker that returns, the
  report counts every example, and the hits at 1, 3 and 5 are the examples whose label is among the first 1, 3
  and 5 predictions, each rendered by \<open>pct\<close>. In \<open>f32\<close>, rounding included, the rates stay in order and between 0
  and 100: hit@1 is at most hit@3, that at most hit@5, and that at most the coverage.\<close>

theorem report_rates_in_range:
  assumes "length es < 2 ^ 64"
  shows "\<exists>r. evaluate_ranker es (\<lambda>e. Some (f e)) = Some r
     \<and> mr_examples r = length es \<and> mr_predicted r = length (filter (\<lambda>e. f e \<noteq> []) es)
     \<and> (let rate = (\<lambda>k. pct (length (filter (\<lambda>e. te_label_app e \<in> set (take k (f e))) es)) (f32_of_nat (max (length es) 1)))
        in mr_hit_rate_at_1_pct r = rate 1 \<and> mr_hit_rate_at_3_pct r = rate 3 \<and> mr_hit_rate_at_5_pct r = rate 5)
     \<and> fp_le (FFin 0) (mr_hit_rate_at_1_pct r) \<and> fp_le (mr_hit_rate_at_1_pct r) (mr_hit_rate_at_3_pct r)
     \<and> fp_le (mr_hit_rate_at_3_pct r) (mr_hit_rate_at_5_pct r)
     \<and> fp_le (mr_hit_rate_at_5_pct r) (mr_prediction_coverage_pct r) \<and> fp_le (mr_prediction_coverage_pct r) (FFin 100)"
proof -
  obtain r where r: "evaluate_ranker es (\<lambda>e. Some (f e)) = Some r" "mr_examples r = length es" "mr_predicted r = answered f es"
     "mr_hit_rate_at_1_pct r = pct (hits f 1 es) (f32_of_nat (max (length es) 1))"
     "mr_hit_rate_at_3_pct r = pct (hits f 3 es) (f32_of_nat (max (length es) 1))"
     "mr_hit_rate_at_5_pct r = pct (hits f 5 es) (f32_of_nat (max (length es) 1))"
     "mr_prediction_coverage_pct r = pct (answered f es) (f32_of_nat (max (length es) 1))"
    using evaluate_ranker_counts by blast
  have d: "0 < max (length es) 1" "max (length es) 1 < 2 ^ 64" "length es \<le> max (length es) 1" using assms by simp_all
  note b = hits_bounds [of f es]
  have "fp_le (FFin 0) (mr_hit_rate_at_1_pct r)" "fp_le (mr_hit_rate_at_1_pct r) (mr_hit_rate_at_3_pct r)"
    "fp_le (mr_hit_rate_at_3_pct r) (mr_hit_rate_at_5_pct r)"
    "fp_le (mr_hit_rate_at_5_pct r) (mr_prediction_coverage_pct r)" "fp_le (mr_prediction_coverage_pct r) (FFin 100)"
    unfolding r(4-7)
    using pct_steps [OF b(1) _ d(1,2)] pct_steps [OF b(2) _ d(1,2)] pct_steps [OF b(3) _ d(1,2)]
      pct_steps(3) [OF b(4) _ d(1,2)] pct_steps(3) [OF order_refl _ d(1,2), of "answered f es"] b d(3) by simp_all
  then show ?thesis using r unfolding Let_def hits_def [symmetric] answered_def [symmetric] by blast
qed

section \<open>Training and evaluating\<close>

lemma evaluate_total:
  assumes "\<And>e. ranker e \<noteq> None"
  shows "\<exists>r. evaluate_ranker es ranker = Some r \<and> mr_examples r = length es"
proof -
  have "ranker = (\<lambda>e. Some (the (ranker e)))" using assms by auto
  with evaluate_ranker_counts [of es "\<lambda>e. the (ranker e)"] show ?thesis by auto
qed

lemma insert_at_mem: "x \<in> set (insert_at k v m) \<Longrightarrow> x = (k, v) \<or> x \<in> set m"
  by (induction k v "\<lambda>_ :: 'b. v" m rule: btree_upsert.induct) (auto simp: insert_at_def split: if_splits)

lemma evaluate_all_total:
  assumes "\<And>name ranker e. (name, ranker) \<in> set rs \<Longrightarrow> ranker e \<noteq> None"
    "\<And>name r. (name, r) \<in> set m \<Longrightarrow> mr_examples r = length es"
  shows "\<exists>m'. evaluate_all es m rs = Some m' \<and> fst ` set m' = fst ` set m \<union> fst ` set rs
     \<and> (\<forall>(name, r) \<in> set m'. mr_examples r = length es)"
  using assms
proof (induction rs arbitrary: m)
  case (Cons nr rs)
  obtain name ranker where nr: "nr = (name, ranker)" by (cases nr)
  obtain r where r: "evaluate_ranker es ranker = Some r" "mr_examples r = length es"
    using evaluate_total [of ranker es] Cons.prems(1) [of name ranker] nr by (metis list.set_intros(1))
  have "\<exists>m'. evaluate_all es (insert_at name r m) rs = Some m'
     \<and> fst ` set m' = fst ` set (insert_at name r m) \<union> fst ` set rs \<and> (\<forall>(name, r) \<in> set m'. mr_examples r = length es)"
    using Cons.prems r(2) by (intro Cons.IH) (auto dest: insert_at_mem)
  then show ?case using r(1) nr by (simp add: insert_at_def btree_upsert_keys)
qed auto

lemma report_rankers_total:
  assumes "predictor_new a = Inr p" "(name, ranker) \<in> set (report_rankers M ln64 p train)"
  shows "ranker e \<noteq> None"
proof -
  have "model_ranker M p algorithm e \<noteq> None" for algorithm
    using predictor_rank_ok [OF assms(1), of M "features_for_example e" algorithm 5] by (auto simp: model_ranker_def)
  with assms(2) show ?thesis by (auto simp: report_rankers_def Let_def)
qed

definition report_keys :: "string list" where
  "report_keys = [''global_popularity'', ''mfu'', ''mru'', ''naive_bayes'', ''markov'', ''xgboost'', ''ensemble'',
     ''strong_predictive'', ''adaptive_predictive'']"

lemma report_rankers_keys: "map fst (report_rankers M ln64 p train) = report_keys"
  by (simp add: report_rankers_def report_keys_def Let_def)

text \<open>C16: what \<open>train\<close> writes, \<open>evaluate\<close> can use. If the dataset gives at least one example and no current app
  holds a tab, training on it succeeds, and evaluating the artifact on the same dataset and split never panics:
  either every example went to training and the command says so, or it reports on the test part, the counts
  of the two parts adding up and every one of the nine rankers measured on every test example.\<close>

theorem train_then_evaluate:
  assumes "load_examples E input secs n = Inr es" "es \<noteq> []" "\<forall>e \<in> set es. tab \<notin> set (te_current_app e)"
  shows "\<exists>a. train_command E M \<lparr>to_input = input, to_horizon_secs = secs, to_history_len = n, to_split = kind\<rparr> = Some (Inr a)
     \<and> (\<exists>result. evaluate_command E M ln64 \<lparr>eo_input = input, eo_artifact = Inr a, eo_horizon_secs = secs,
           eo_history_len = n, eo_split = kind\<rparr> = Some result
         \<and> (case result of
              Inl e \<Rightarrow> e = EmptyTestSplit \<and> mset (fst (split_examples es kind)) = mset es
            | Inr report \<Rightarrow> er_test_examples report > 0 \<and> er_total_examples report = length es
                \<and> er_train_examples report + er_test_examples report = length es
                \<and> fst ` set (er_metrics report) = set report_keys
                \<and> (\<forall>(name, r) \<in> set (er_metrics report). mr_examples r = er_test_examples report)))"
proof -
  obtain train test where s: "split_examples es kind = (train, test)" by fastforce
  note parts = split_parts [OF s]
  have "train \<noteq> []"
  proof (cases kind)
    case Standard
    with assms(2) parts show ?thesis by (cases es) auto
  next
    case ColdStart
    with assms(2) parts show ?thesis by auto
  qed
  moreover have "set train \<subseteq> set es" using parts by (metis mset_subset_eq_add_left set_mset_mset set_mset_mono)
  ultimately obtain a p where a: "train_next_app_artifact M ''lsapp'' \<lparr>nc_horizon_secs = secs, nc_history_len = n\<rparr> train = Some (Inr a)"
    "predictor_new a = Inr p"
    using trained_predictor [of train M "''lsapp''" "\<lparr>nc_horizon_secs = secs, nc_history_len = n\<rparr>"] assms(3) by blast
  have len: "length train + length test = length es" using parts by (metis size_mset size_union)
  obtain m where m: "evaluate_all test [] (report_rankers M ln64 p train) = Some m" "fst ` set m = set report_keys"
    "\<forall>(name, r) \<in> set m. mr_examples r = length test"
    using evaluate_all_total [of "report_rankers M ln64 p train" "[]" test] report_rankers_total [OF a(2)]
      report_rankers_keys [of M ln64 p train, THEN arg_cong, of set] by auto
  have "train_command E M \<lparr>to_input = input, to_horizon_secs = secs, to_history_len = n, to_split = kind\<rparr> = Some (Inr a)"
    using assms(1) s a(1) by (simp add: train_command_def)
  moreover have "evaluate_command E M ln64 \<lparr>eo_input = input, eo_artifact = Inr a, eo_horizon_secs = secs, eo_history_len = n,
      eo_split = kind\<rparr> = Some (if test = [] then Inl EmptyTestSplit else Inr
        \<lparr>er_schema_version = ''dipecs.next_app_eval.v1'', er_dataset = ''Lsapp'', er_split = debug_split kind,
         er_artifact_model_id = na_model_id a, er_artifact_dataset_id = na_dataset_id a, er_total_examples = length es,
         er_train_examples = length train, er_test_examples = length test, er_metrics = m\<rparr>)"
    using assms(1) s a(2) m(1) by (simp add: evaluate_command_def)
  moreover have "test = [] \<Longrightarrow> mset (fst (split_examples es kind)) = mset es" using parts s by simp
  ultimately show ?thesis using len m(2,3) by (intro exI [of _ a] conjI) simp_all
qed

section \<open>Concrete inputs\<close>

lemma demo_loaded_tabs:
  "\<forall>e \<in> set [record_example ''u'' [] (demo_row ''a'' 0) (demo_row ''b'' 2),
      record_example ''u'' [''a''] (demo_row ''a'' 1) (demo_row ''b'' 2)]. tab \<notin> set (te_current_app e)"
  by (simp add: record_example_def demo_row_def tab_def)

theorem train_then_evaluate_witness:
  "\<exists>a. train_command demo_loader_env demo_libm \<lparr>to_input = demo_dataset, to_horizon_secs = 30, to_history_len = 5,
     to_split = Standard\<rparr> = Some (Inr a)"
  using train_then_evaluate [OF demo_loaded list.distinct(2) demo_loaded_tabs] by blast

theorem report_rates_in_range_witness:
  "\<exists>r. evaluate_ranker demo_examples (\<lambda>e. Some [''b'', ''c'']) = Some r \<and> mr_examples r = 5
     \<and> mr_hit_rate_at_1_pct r = FFin 40 \<and> fp_le (FFin 40) (mr_prediction_coverage_pct r)"
proof -
  have len: "length demo_examples = 5" by (simp add: demo_examples_def)
  then have "length demo_examples < 2 ^ 64" by simp
  moreover have "length (filter (\<lambda>e. te_label_app e \<in> set (take 1 [''b'', ''c''])) demo_examples) = 2"
    by (simp add: demo_examples_def demo_example_def)
  moreover have "pct 2 (f32_of_nat 5) = FFin 40" by code_simp
  ultimately obtain r where "evaluate_ranker demo_examples (\<lambda>e. Some [''b'', ''c'']) = Some r" "mr_examples r = 5"
      "mr_hit_rate_at_1_pct r = FFin 40" "fp_le (mr_hit_rate_at_1_pct r) (mr_hit_rate_at_3_pct r)"
      "fp_le (mr_hit_rate_at_3_pct r) (mr_hit_rate_at_5_pct r)"
      "fp_le (mr_hit_rate_at_5_pct r) (mr_prediction_coverage_pct r)"
    using report_rates_in_range [of demo_examples "\<lambda>e. [''b'', ''c'']"] len unfolding Let_def by auto
  then show ?thesis by (intro exI [of _ r]) (metis fp_le_trans)
qed

end
