(* ===== verification/Next_App_Benchmark.thy ===== *)
theory Next_App_Benchmark
  imports Next_App_Eval Replay Local_Evaluator Rule_Based
begin

text \<open>
  The synthetic next-app benchmark (\<open>aios-cli/src/benchmark_next_app/\<close>): the labels and the context of each
  labelled window (\<open>context_loader.rs\<close>), the twelve predictors behind the \<open>NextAppPredictor\<close> trait
  (\<open>predictor.rs\<close>, \<open>baselines/\<close>), the metrics (\<open>metrics.rs\<close>) and the runner (\<open>runner.rs\<close>).

  The trait object is a datatype with one constructor per implementation and its trained state. Parsing, the
  random generator with its shuffle, fresh ids and measured latencies are parameters. A \<open>HashMap\<close> is its
  sorted entries: the code looks entries up or sorts them by a total order. Logging and writing the report
  are not modelled.

  The lemmas show that every predictor ranks candidates only, and that a report accounts for every label.
\<close>

section \<open>Labels and reports (types.rs, report.rs)\<close>

record next_app_label =
  nl_dataset_id :: string
  nl_scenario :: string
  nl_window_start_ms :: i64
  nl_window_end_ms :: i64
  nl_prediction_horizon_ms :: i64
  nl_current_app :: string
  nl_observable_candidates :: "string list"
  nl_actual_next_app :: "string option"
  nl_eligible :: bool
  nl_excluded_reason :: "string option"

record scored_prediction =
  sp_package :: string
  sp_score :: f32

record prediction_result =
  pr_ranked :: "scored_prediction list"
  pr_latency_us :: u64
  pr_rationale_present :: bool

record benchmark_config =
  bc_window_secs :: u64
  bc_horizon_secs :: i64
  bc_label_definition :: string
  bc_eligibility_definition :: string
  bc_train_split :: f64

record exclusion_counts =
  ex_eligible :: usize
  ex_label_not_observable :: usize
  ex_no_future_switch :: usize

record latency_summary =
  ls_mean :: f64
  ls_p50 :: f64
  ls_p95 :: f64

record backend_metrics =
  bm_eligible_windows :: usize
  bm_predicted_windows :: usize
  bm_top1_hits :: usize
  bm_top3_hits :: usize
  bm_top1_accuracy_pct :: f64
  bm_top3_accuracy_pct :: f64
  bm_prediction_coverage_pct :: f64
  bm_conditional_top1_accuracy_pct :: f64
  bm_wrong_prediction_rate_pct :: f64
  bm_no_prediction_rate_pct :: f64
  bm_noop_windows :: usize
  bm_noop_rate_pct :: f64
  bm_mean_reciprocal_rank :: f64
  bm_macro_top1_accuracy_pct :: "f64 option"
  bm_macro_top3_accuracy_pct :: "f64 option"
  bm_rationale_coverage_pct :: f64
  bm_latency_us :: latency_summary

record scenario_report =
  sr_scenario :: string
  sr_windows :: usize
  sr_future_switch_windows :: usize
  sr_eligible_windows :: usize
  sr_train_windows :: usize
  sr_test_windows :: usize
  sr_exclusions :: exclusion_counts
  sr_backends :: "(string, backend_metrics) btree_map"

record benchmark_report =
  br_schema_version :: string
  br_dataset_id :: string
  br_source :: string
  br_evaluation_source :: string
  br_action_value_source :: string
  br_benefit_claim_policy :: string
  br_config :: benchmark_config
  br_inputs :: "string list"
  br_total_windows :: usize
  br_eligible_windows :: usize
  br_train_windows :: usize
  br_test_windows :: usize
  br_context_supported_switch_coverage_pct :: f64
  br_exclusions :: exclusion_counts
  br_aggregate :: "(string, backend_metrics) btree_map"
  br_scenarios :: "scenario_report list"
  br_limitations :: "string list"

definition BENCHMARK_SCHEMA :: string where "BENCHMARK_SCHEMA = ''dipecs.next_app_benchmark.v2''"

text \<open>What the code takes from elsewhere: \<open>serde_json\<close>, the Unicode tables, the iteration orders, fresh ids by
  trace and line, the generator of \<open>rand\<close>, and the latency measured for a scenario, predictor and window.\<close>

record 'r bench_env =
  be_lowercase :: "string \<Rightarrow> string"
  be_from_str :: "string \<Rightarrow> string + json"
  be_from_value :: "json \<Rightarrow> string + raw_event"
  be_label_of :: "string \<Rightarrow> string + next_app_label"
  be_event_id :: "string \<Rightarrow> nat \<Rightarrow> string"
  be_window_id :: "string \<Rightarrow> i64 \<Rightarrow> i64 \<Rightarrow> string"
  be_file_order :: file_order
  be_candidate_order :: candidate_order
  be_seeded :: "u64 \<Rightarrow> 'r"
  be_shuffle :: "'r \<Rightarrow> string list \<Rightarrow> 'r \<times> string list"
  be_latency_us :: "string \<Rightarrow> string \<Rightarrow> nat \<Rightarrow> u64"

datatype bench_error =
    BadTrainSplit f64
  | LabelsNotOpened
  | LabelLineUnread nat
  | LabelInvalid nat
  | InvalidInputPath string
  | TraceNotOpened string
  | TraceLineUnread string nat
  | TraceJsonInvalid string nat
  | TraceEventInvalid string nat
  | TraceRejected string nat collector_ingress_error
  | EmptyWindow string i64 i64
  | NoLabelsFor string
  | NoContextFor string i64 i64
  | TracesMissingFor "string list"

section \<open>Contexts of the labelled windows (context_loader.rs)\<close>

fun read_labels :: "'r bench_env \<Rightarrow> nat \<Rightarrow> string option list \<Rightarrow> bench_error + next_app_label list" where
  "read_labels E n [] = Inr []"
| "read_labels E n (None # lines) = Inl (LabelLineUnread n)"
| "read_labels E n (Some line # lines) =
     (if trim line = [] then read_labels E (Suc n) lines
      else case be_label_of E line of
        Inl e \<Rightarrow> Inl (LabelInvalid n)
      | Inr l \<Rightarrow> map_sum id (Cons l) (read_labels E (Suc n) lines))"

definition load_labels :: "'r bench_env \<Rightarrow> string option list option \<Rightarrow> bench_error + next_app_label list" where
  "load_labels E file = (case file of None \<Rightarrow> Inl LabelsNotOpened | Some lines \<Rightarrow> read_labels E 1 lines)"

definition extract_observable_candidates :: "structured_context \<Rightarrow> string \<Rightarrow> string list" where
  "extract_observable_candidates ctx current =
     foldl (push_candidate current) [] (cs_foreground_apps (ctx_summary ctx) @ cs_notified_apps (ctx_summary ctx))"

definition trace_envelope :: "json \<Rightarrow> raw_event \<Rightarrow> collector_envelope" where
  "trace_envelope v r =
     \<lparr>env_schema_version = ''dipecs.collector.v1'',
      env_source = text_or ''apps.android-collector.replay'' (Option.bind (json_get ''source'' v) json_as_str),
      env_source_tier = PublicApi,
      env_device_trace_id = Option.bind (json_get ''eventId'' v) json_as_str,
      env_captured_at_ms = (case Option.bind (json_get ''timestampMs'' v) json_as_i64 of Some t \<Rightarrow> t | None \<Rightarrow> 0),
      env_received_at_ms = None, env_raw_event = r\<rparr>"

definition sanitize_line :: "'r bench_env \<Rightarrow> string \<Rightarrow> nat \<Rightarrow> string \<Rightarrow> bench_error + sanitized_event list" where
  "sanitize_line E path n line = (case be_from_str E line of
     Inl e \<Rightarrow> Inl (TraceJsonInvalid path n)
   | Inr v \<Rightarrow> (let raw = (case json_get ''rawEvent'' v of Some r \<Rightarrow> r | None \<Rightarrow> JNull) in
       if json_is_null raw then Inr []
       else case be_from_value E raw of
         Inl e \<Rightarrow> Inl (TraceEventInvalid path n)
       | Inr r \<Rightarrow> (case ingress_accept (trace_envelope v r) of
           Inl e \<Rightarrow> Inl (TraceRejected path n e)
         | Inr i \<Rightarrow> Inr [sanitize_with_tier (be_lowercase E) (be_event_id E path n) (ing_raw_event i) (ing_source_tier i)])))"

fun sanitize_lines :: "'r bench_env \<Rightarrow> string \<Rightarrow> nat \<Rightarrow> string option list \<Rightarrow> bench_error + sanitized_event list" where
  "sanitize_lines E path n [] = Inr []"
| "sanitize_lines E path n (None # lines) = Inl (TraceLineUnread path n)"
| "sanitize_lines E path n (Some line # lines) =
     (if trim line = [] then sanitize_lines E path (Suc n) lines
      else case sanitize_line E path n line of
        Inl e \<Rightarrow> Inl e
      | Inr es \<Rightarrow> map_sum id (append es) (sanitize_lines E path (Suc n) lines))"

definition load_and_sanitize_trace :: "'r bench_env \<Rightarrow> string \<Rightarrow> string option list option
    \<Rightarrow> bench_error + sanitized_event list" where
  "load_and_sanitize_trace E path file =
     (case file of None \<Rightarrow> Inl (TraceNotOpened path) | Some lines \<Rightarrow> sanitize_lines E path 1 lines)"

definition build_context_for_label :: "'r bench_env \<Rightarrow> sanitized_event list \<Rightarrow> u64 \<Rightarrow> next_app_label
    \<Rightarrow> structured_context option" where
  "build_context_for_label E events secs l =
     (let t0 = nl_window_start_ms l; t1 = nl_window_end_ms l;
          agg = foldl (\<lambda>a e. if t0 \<le> se_timestamp_ms e \<and> se_timestamp_ms e < t1 then wa_push e a else a)
            (new_window_aggregator secs t0) events
      in snd (wa_close (be_file_order E) (be_window_id E (nl_scenario l) t0 t1) t1 agg))"

type_synonym window_key = "string \<times> i64 \<times> i64"
type_synonym contexts = "(window_key, structured_context) btree_map"

definition label_key :: "next_app_label \<Rightarrow> window_key" where
  "label_key l = (nl_scenario l, nl_window_start_ms l, nl_window_end_ms l)"

fun add_contexts :: "'r bench_env \<Rightarrow> sanitized_event list \<Rightarrow> u64 \<Rightarrow> next_app_label list \<Rightarrow> contexts
    \<Rightarrow> bench_error + contexts" where
  "add_contexts E events secs [] m = Inr m"
| "add_contexts E events secs (l # ls) m = (case build_context_for_label E events secs l of
     None \<Rightarrow> Inl (EmptyWindow (nl_scenario l) (nl_window_start_ms l) (nl_window_end_ms l))
   | Some ctx \<Rightarrow> add_contexts E events secs ls (insert_at (label_key l) ctx m))"

record trace_input =
  ti_scenario :: string
  ti_path :: string
  ti_lines :: "string option list option"

fun load_contexts_by_label :: "'r bench_env \<Rightarrow> next_app_label list \<Rightarrow> u64 \<Rightarrow> trace_input list \<Rightarrow> contexts
    \<Rightarrow> bench_error + contexts" where
  "load_contexts_by_label E labels secs [] m = Inr m"
| "load_contexts_by_label E labels secs (i # is) m =
     (case load_and_sanitize_trace E (ti_path i) (ti_lines i) of
        Inl e \<Rightarrow> Inl e
      | Inr events \<Rightarrow> (case add_contexts E events secs (filter (\<lambda>l. nl_scenario l = ti_scenario i) labels) m of
           Inl e \<Rightarrow> Inl e
         | Inr m' \<Rightarrow> load_contexts_by_label E labels secs is m'))"

section \<open>Ranking (simple.rs, frequency.rs, predictor.rs)\<close>

text \<open>\<open>cmp_score_desc(a, b).then_with(|| a.package.cmp(&b.package))\<close> is not \<open>Greater\<close>; a NaN ties.\<close>

definition prediction_le :: "scored_prediction \<Rightarrow> scored_prediction \<Rightarrow> bool" where
  "prediction_le a b \<longleftrightarrow> fp_lt (sp_score b) (sp_score a)
     \<or> (fp_cmp_eq (sp_score a) (sp_score b) \<and> sp_package a \<le> sp_package b)"

definition scored :: "(string \<Rightarrow> f32) \<Rightarrow> string list \<Rightarrow> scored_prediction list" where
  "scored score packages = map (\<lambda>p. \<lparr>sp_package = p, sp_score = score p\<rparr>) packages"

definition count_of :: "app_counts \<Rightarrow> string \<Rightarrow> f32" where
  "count_of counts p = f32_of_u32 (case btree_get counts p of Some n \<Rightarrow> n | None \<Rightarrow> 0)"

definition rank_by_counts :: "string list \<Rightarrow> app_counts \<Rightarrow> scored_prediction list" where
  "rank_by_counts candidates counts = sort_by prediction_le (scored (count_of counts) candidates)"

definition rank_by_probability :: "string list \<Rightarrow> app_counts \<Rightarrow> u32 \<Rightarrow> scored_prediction list" where
  "rank_by_probability candidates counts n = (let total_f = f32_of_u32 (max n 1) in
     sort_by prediction_le (scored (\<lambda>p. fp_div fmt32 (count_of counts p) total_f) candidates))"

fun intent_package :: "intent_type \<Rightarrow> string option" where
  "intent_package (OpenApp p) = Some p"
| "intent_package (SwitchToApp p) = Some p"
| "intent_package (CheckNotification p) = Some p"
| "intent_package _ = None"

definition best_confidence :: "(string, f32) btree_map \<Rightarrow> intent \<Rightarrow> (string, f32) btree_map" where
  "best_confidence m i = (case intent_package (in_intent_type i) of
     None \<Rightarrow> m
   | Some p \<Rightarrow> (case btree_get m p of
       Some s \<Rightarrow> insert_at p (fp_max s (in_confidence i)) m
     | None \<Rightarrow> insert_at p (in_confidence i) m))"

definition extract_ranked_apps :: "intent list \<Rightarrow> string list \<Rightarrow> scored_prediction list" where
  "extract_ranked_apps intents candidates =
     filter (\<lambda>p. sp_package p \<in> set candidates)
       (sort_by prediction_le (map (\<lambda>(p, s). \<lparr>sp_package = p, sp_score = s\<rparr>) (foldl best_confidence [] intents)))"

definition intents_result :: "intent list \<Rightarrow> u64 \<Rightarrow> string list \<Rightarrow> prediction_result" where
  "intents_result intents us candidates =
     \<lparr>pr_ranked = extract_ranked_apps intents candidates, pr_latency_us = us,
      pr_rationale_present = (\<exists>i \<in> set intents. in_rationale_tags i \<noteq> [])\<rparr>"

definition plain_result :: "scored_prediction list \<Rightarrow> u64 \<Rightarrow> prediction_result" where
  "plain_result ranked us = \<lparr>pr_ranked = ranked, pr_latency_us = us, pr_rationale_present = False\<rparr>"

section \<open>Context and notification baselines (context.rs, notification.rs)\<close>

text \<open>\<open>a.0.cmp(&b.0).then_with(|| b.1.cmp(&a.1))\<close> is \<open>Greater\<close>: later, or as late and an earlier name.\<close>

definition recent_gt :: "i64 \<times> string \<Rightarrow> i64 \<times> string \<Rightarrow> bool" where
  "recent_gt a b \<longleftrightarrow> fst b < fst a \<or> (fst a = fst b \<and> snd a < snd b)"

fun foreground_target :: "sanitized_event_type \<Rightarrow> string option" where
  "foreground_target (SeAppTransition p a Foreground) = Some p"
| "foreground_target _ = None"

fun notification_source :: "sanitized_event_type \<Rightarrow> string option" where
  "notification_source (SeNotification p c ch th xh hs og g) = Some p"
| "notification_source _ = None"

definition timed :: "(sanitized_event_type \<Rightarrow> string option) \<Rightarrow> structured_context \<Rightarrow> (i64 \<times> string) list" where
  "timed sel ctx = List.map_filter (\<lambda>e. map_option (Pair (se_timestamp_ms e)) (sel (se_event_type e))) (ctx_events ctx)"

definition last_non_current_foreground :: "structured_context \<Rightarrow> string \<Rightarrow> (i64 \<times> string) option" where
  "last_non_current_foreground ctx current =
     max_by recent_gt (filter (\<lambda>(_, p). p \<noteq> current) (timed foreground_target ctx))"

definition only_candidate :: "string list \<Rightarrow> (i64 \<times> string) option \<Rightarrow> scored_prediction list" where
  "only_candidate candidates found = (case found of
     Some (_, p) \<Rightarrow> if p \<in> set candidates then scored (\<lambda>_. FFin 1) [p] else []
   | None \<Rightarrow> [])"

definition last_foreground_ranked :: "structured_context \<Rightarrow> string \<Rightarrow> string list \<Rightarrow> scored_prediction list" where
  "last_foreground_ranked ctx current candidates = only_candidate candidates (last_non_current_foreground ctx current)"

definition recent_notification_ranked :: "structured_context \<Rightarrow> string list \<Rightarrow> scored_prediction list" where
  "recent_notification_ranked ctx candidates = only_candidate candidates (max_by recent_gt (timed notification_source ctx))"

definition is_priority_category :: "string option \<Rightarrow> bool" where
  "is_priority_category category = (case category of
     None \<Rightarrow> False
   | Some cat \<Rightarrow> to_ascii_lowercase cat \<in> {''alarm'', ''call'', ''event''})"

definition hint_score :: "semantic_hint \<Rightarrow> f32 \<Rightarrow> f32" where
  "hint_score h s = (if h \<in> {FileMention, ImageMention, LinkAttachment} then fp_add fmt32 s (FFin 2)
     else if h \<in> {UserMentioned, CalendarInvitation} then fp_add fmt32 s (FFin 1) else s)"

definition score_notification :: "string option \<Rightarrow> bool \<Rightarrow> semantic_hint list \<Rightarrow> bool \<Rightarrow> f32" where
  "score_notification category ongoing hints most_recent =
     (let s = (if ongoing then fp_add fmt32 (FFin 0) (FFin 3) else FFin 0);
          s = foldl (\<lambda>s h. hint_score h s) s hints;
          s = (if is_priority_category category then fp_add fmt32 s (FFin 1) else s)
      in if most_recent then fp_add fmt32 s (FFin 1) else s)"

definition add_notification :: "string list \<Rightarrow> i64 \<Rightarrow> (string, f32) btree_map \<times> (string, i64) btree_map
    \<Rightarrow> sanitized_event \<Rightarrow> (string, f32) btree_map \<times> (string, i64) btree_map" where
  "add_notification candidates max_ts m e = (case se_event_type e of
     SeNotification p c ch th xh hs og g \<Rightarrow>
       if p \<notin> set candidates then m
       else (btree_upsert p (FFin 0) (\<lambda>s. fp_add fmt32 s (score_notification c og hs (se_timestamp_ms e = max_ts))) (fst m),
             btree_upsert p (se_timestamp_ms e) (\<lambda>t. max t (se_timestamp_ms e)) (snd m))
   | _ \<Rightarrow> m)"

text \<open>Descending score, then the later notification, then the name.\<close>

definition priority_le :: "(string, i64) btree_map \<Rightarrow> scored_prediction \<Rightarrow> scored_prediction \<Rightarrow> bool" where
  "priority_le latest a b \<longleftrightarrow>
     (let t = \<lambda>p. (case btree_get latest (sp_package p) of Some x \<Rightarrow> x | None \<Rightarrow> i64_min)
      in fp_lt (sp_score b) (sp_score a)
         \<or> (fp_cmp_eq (sp_score a) (sp_score b) \<and> (t b < t a \<or> (t a = t b \<and> sp_package a \<le> sp_package b))))"

definition notification_priority_ranked :: "structured_context \<Rightarrow> string list \<Rightarrow> scored_prediction list" where
  "notification_priority_ranked ctx candidates =
     (let notifications = filter (\<lambda>e. notification_source (se_event_type e) \<noteq> None) (ctx_events ctx) in
      if notifications = [] then []
      else let max_ts = Max (set (map se_timestamp_ms notifications));
               (scores, latest) = foldl (add_notification candidates max_ts) ([], []) notifications
           in if scores = [] then []
              else sort_by (priority_le latest) (map (\<lambda>(p, s). \<lparr>sp_package = p, sp_score = s\<rparr>) scores))"

section \<open>The predictors\<close>

datatype 'r predictor =
    RuleBasedNextApp
  | LocalEvaluatorNextApp
  | AlwaysNoOp
  | RandomCandidate 'r
  | FirstCandidate
  | GlobalMajority app_counts
  | PerCurrentAppMajority count_table
  | MarkovChain count_table app_counts
  | RecentNotification
  | LastForeground
  | NotificationPriority
  | LastAppPrewarm

fun predictor_name :: "'r predictor \<Rightarrow> string" where
  "predictor_name RuleBasedNextApp = ''rule_based''"
| "predictor_name LocalEvaluatorNextApp = ''local_evaluator''"
| "predictor_name AlwaysNoOp = ''always_noop''"
| "predictor_name (RandomCandidate r) = ''random_candidate''"
| "predictor_name FirstCandidate = ''first_candidate''"
| "predictor_name (GlobalMajority c) = ''global_majority''"
| "predictor_name (PerCurrentAppMajority t) = ''per_current_app_majority''"
| "predictor_name (MarkovChain t n) = ''markov''"
| "predictor_name RecentNotification = ''recent_notification''"
| "predictor_name LastForeground = ''last_foreground''"
| "predictor_name NotificationPriority = ''notification_priority''"
| "predictor_name LastAppPrewarm = ''last_app_prewarm''"

definition observe_label :: "(string \<Rightarrow> string \<Rightarrow> 'a \<Rightarrow> 'a) \<Rightarrow> 'a \<Rightarrow> next_app_label \<Rightarrow> 'a" where
  "observe_label f a l = (case nl_actual_next_app l of None \<Rightarrow> a | Some app \<Rightarrow> f (nl_current_app l) app a)"

fun predictor_train :: "next_app_label list \<Rightarrow> 'r predictor \<Rightarrow> 'r predictor" where
  "predictor_train ls (GlobalMajority c) = GlobalMajority (foldl (observe_label (\<lambda>current app. count_app app)) c ls)"
| "predictor_train ls (PerCurrentAppMajority t) = PerCurrentAppMajority (foldl (observe_label count_under) t ls)"
| "predictor_train ls (MarkovChain t n) = MarkovChain (foldl (observe_label count_under) t ls)
     (foldl (observe_label (\<lambda>current app. count_app current)) n ls)"
| "predictor_train ls p = p"

fun predict :: "'r bench_env \<Rightarrow> u64 \<Rightarrow> structured_context \<Rightarrow> string \<Rightarrow> string list \<Rightarrow> 'r predictor
    \<Rightarrow> 'r predictor \<times> prediction_result" where
  "predict E us ctx current candidates RuleBasedNextApp =
     (RuleBasedNextApp, intents_result (generate_intents ctx) us candidates)"
| "predict E us ctx current candidates LocalEvaluatorNextApp =
     (LocalEvaluatorNextApp, intents_result (evaluate_local_intents (be_candidate_order E) ctx None []) us candidates)"
| "predict E us ctx current candidates AlwaysNoOp = (AlwaysNoOp, plain_result [] 0)"
| "predict E us ctx current candidates (RandomCandidate r) =
     (let (r', shuffled) = be_shuffle E r candidates
      in (RandomCandidate r', plain_result (scored (\<lambda>_. FFin 1) shuffled) us))"
| "predict E us ctx current candidates FirstCandidate =
     (FirstCandidate, plain_result (scored (\<lambda>_. FFin 1) (take 1 candidates)) us)"
| "predict E us ctx current candidates (GlobalMajority c) =
     (GlobalMajority c, plain_result (rank_by_counts candidates c) us)"
| "predict E us ctx current candidates (PerCurrentAppMajority t) =
     (PerCurrentAppMajority t, plain_result (case btree_get t current of
        Some counts \<Rightarrow> rank_by_counts candidates counts
      | None \<Rightarrow> scored (\<lambda>_. FFin 0) candidates) us)"
| "predict E us ctx current candidates (MarkovChain t n) =
     (MarkovChain t n, plain_result (case btree_get t current of
        Some counts \<Rightarrow> rank_by_probability candidates counts (case btree_get n current of Some k \<Rightarrow> k | None \<Rightarrow> 0)
      | None \<Rightarrow> scored (\<lambda>_. FFin 0) candidates) us)"
| "predict E us ctx current candidates RecentNotification =
     (RecentNotification, plain_result (recent_notification_ranked ctx candidates) us)"
| "predict E us ctx current candidates LastForeground =
     (LastForeground, plain_result (last_foreground_ranked ctx current candidates) us)"
| "predict E us ctx current candidates NotificationPriority =
     (NotificationPriority, plain_result (notification_priority_ranked ctx candidates) us)"
| "predict E us ctx current candidates LastAppPrewarm =
     (LastAppPrewarm, plain_result (last_foreground_ranked ctx current candidates) us)"

definition fresh_predictors :: "'r bench_env \<Rightarrow> 'r predictor list" where
  "fresh_predictors E =
     [RuleBasedNextApp, LocalEvaluatorNextApp, AlwaysNoOp, RandomCandidate (be_seeded E 42), FirstCandidate,
      GlobalMajority [], PerCurrentAppMajority [], MarkovChain [] [], RecentNotification, LastForeground,
      NotificationPriority, LastAppPrewarm]"

section \<open>Metrics (metrics.rs)\<close>

record prediction_record =
  pc_rank :: "usize option"
  pc_latency_us :: u64
  pc_noop :: bool
  pc_rationale_present :: bool

definition round3_f64 :: "f64 \<Rightarrow> f64" where
  "round3_f64 v = fp_div fmt64 (fp_round_int (fp_mul fmt64 v (FFin 1000))) (FFin 1000)"

definition pct_f64 :: "usize \<Rightarrow> usize \<Rightarrow> f64" where
  "pct_f64 part whole = (if whole = 0 then FFin 0
     else round3_f64 (fp_mul fmt64 (fp_div fmt64 (f64_of_nat part) (f64_of_nat whole)) (FFin 100)))"

definition sum_f64 :: "f64 list \<Rightarrow> f64" where
  "sum_f64 xs = foldl (fp_add fmt64) (FFin 0) xs"

definition percentile :: "u64 list \<Rightarrow> f64 \<Rightarrow> f64" where
  "percentile xs p =
     (let idx = floor_as_usize (fp_round_int (fp_mul fmt64 (fp_sub fmt64 (f64_of_nat (length xs)) (FFin 1)) p))
      in f64_of_nat (unat (xs ! min idx (length xs - 1))))"

definition latency_summary_of :: "u64 list \<Rightarrow> latency_summary" where
  "latency_summary_of latencies =
     (if latencies = [] then \<lparr>ls_mean = FFin 0, ls_p50 = FFin 0, ls_p95 = FFin 0\<rparr>
      else let xs = sort latencies;
               mean = fp_div fmt64 (sum_f64 (map (\<lambda>x. f64_of_nat (unat x)) xs)) (f64_of_nat (length xs))
           in \<lparr>ls_mean = round3_f64 mean, ls_p50 = percentile xs (f64_lit (5 / 10)),
               ls_p95 = percentile xs (f64_lit (95 / 100))\<rparr>)"

definition reciprocal :: "usize option \<Rightarrow> f64" where
  "reciprocal rank = (case rank of Some k \<Rightarrow> fp_div fmt64 (FFin 1) (f64_of_nat k) | None \<Rightarrow> FFin 0)"

definition rank_within :: "nat \<Rightarrow> prediction_record \<Rightarrow> bool" where
  "rank_within k r \<longleftrightarrow> (case pc_rank r of Some n \<Rightarrow> n \<le> k | None \<Rightarrow> False)"

definition compute_backend_metrics :: "prediction_record list \<Rightarrow> usize \<Rightarrow> backend_metrics" where
  "compute_backend_metrics rs eligible =
     (let predicted = length (filter (\<lambda>r. pc_rank r \<noteq> None) rs);
          top1 = length (filter (\<lambda>r. pc_rank r = Some 1) rs);
          top3 = length (filter (rank_within 3) rs);
          rr_sum = sum_f64 (map (\<lambda>r. reciprocal (pc_rank r)) rs);
          noop = length (filter pc_noop rs);
          rationale = length (filter pc_rationale_present rs)
      in \<lparr>bm_eligible_windows = eligible, bm_predicted_windows = predicted, bm_top1_hits = top1, bm_top3_hits = top3,
          bm_top1_accuracy_pct = pct_f64 top1 eligible, bm_top3_accuracy_pct = pct_f64 top3 eligible,
          bm_prediction_coverage_pct = pct_f64 predicted eligible,
          bm_conditional_top1_accuracy_pct = pct_f64 top1 predicted,
          bm_wrong_prediction_rate_pct = pct_f64 (predicted - top1) predicted,
          bm_no_prediction_rate_pct = pct_f64 (eligible - predicted) eligible,
          bm_noop_windows = noop, bm_noop_rate_pct = pct_f64 noop (length rs),
          bm_mean_reciprocal_rank = round3_f64 (fp_div fmt64 rr_sum (f64_of_nat (max eligible 1))),
          bm_macro_top1_accuracy_pct = None, bm_macro_top3_accuracy_pct = None,
          bm_rationale_coverage_pct = pct_f64 rationale (length rs),
          bm_latency_us = latency_summary_of (map pc_latency_us rs)\<rparr>)"

section \<open>The runner (runner.rs)\<close>

definition no_exclusions :: exclusion_counts where
  "no_exclusions = \<lparr>ex_eligible = 0, ex_label_not_observable = 0, ex_no_future_switch = 0\<rparr>"

definition count_exclusion :: "exclusion_counts \<Rightarrow> next_app_label \<Rightarrow> exclusion_counts" where
  "count_exclusion c l =
     (if nl_eligible l then c\<lparr>ex_eligible := ex_eligible c + 1\<rparr>
      else if nl_excluded_reason l = Some ''label_not_observable''
        then c\<lparr>ex_label_not_observable := ex_label_not_observable c + 1\<rparr>
      else if nl_excluded_reason l = Some ''no_future_switch''
        then c\<lparr>ex_no_future_switch := ex_no_future_switch c + 1\<rparr>
      else c)"

definition exclusions_of :: "next_app_label list \<Rightarrow> exclusion_counts" where
  "exclusions_of ls = foldl count_exclusion no_exclusions ls"

text \<open>\<open>Path::file_stem\<close> on a Unix path.\<close>

definition file_stem :: "string \<Rightarrow> string option" where
  "file_stem p = map_option (\<lambda>n. let before = rev (tl (dropWhile (\<lambda>c. c \<noteq> CHR ''.'') (rev n))) in
     if CHR ''.'' \<notin> set n \<or> before = [] then n else before) (path_file_name p)"

fun input_pairs :: "(string \<times> string option list option) list \<Rightarrow> bench_error + trace_input list" where
  "input_pairs [] = Inr []"
| "input_pairs ((p, lines) # is) = (case file_stem p of
     None \<Rightarrow> Inl (InvalidInputPath p)
   | Some s \<Rightarrow> map_sum id (Cons \<lparr>ti_scenario = s, ti_path = p, ti_lines = lines\<rparr>) (input_pairs is))"

fun fp_floor :: "fp \<Rightarrow> fp" where
  "fp_floor (FFin a) = FFin (of_int \<lfloor>a\<rfloor>)"
| "fp_floor x = x"

definition split_index :: "f64 \<Rightarrow> usize \<Rightarrow> usize" where
  "split_index train_split n =
     floor_as_usize (fp_min (fp_max (fp_floor (fp_mul fmt64 (f64_of_nat n) train_split)) (FFin 1)) (f64_of_nat (n - 1)))"

definition eligible_labels :: "next_app_label list \<Rightarrow> next_app_label list" where
  "eligible_labels ls = sort_by (\<lambda>a b. nl_window_start_ms a \<le> nl_window_start_ms b) (filter nl_eligible ls)"

definition record_of :: "next_app_label \<Rightarrow> prediction_result \<Rightarrow> prediction_record" where
  "record_of l r =
     \<lparr>pc_rank = Option.bind (nl_actual_next_app l) (\<lambda>app. map_option Suc (position_of app (map sp_package (pr_ranked r)))),
      pc_latency_us = pr_latency_us r, pc_noop = (pr_ranked r = []), pc_rationale_present = pr_rationale_present r\<rparr>"

text \<open>One predictor over the test windows; \<open>k\<close> numbers its calls.\<close>

fun evaluate_predictor :: "'r bench_env \<Rightarrow> contexts \<Rightarrow> string \<Rightarrow> nat \<Rightarrow> next_app_label list \<Rightarrow> 'r predictor
    \<Rightarrow> bench_error + prediction_record list" where
  "evaluate_predictor E contexts scenario k [] p = Inr []"
| "evaluate_predictor E contexts scenario k (l # ls) p = (case btree_get contexts (label_key l) of
     None \<Rightarrow> Inl (NoContextFor scenario (nl_window_start_ms l) (nl_window_end_ms l))
   | Some ctx \<Rightarrow>
       (let current = nl_current_app l; candidates = extract_observable_candidates ctx current;
            (p', r) = predict E (be_latency_us E scenario (predictor_name p) k) ctx current candidates p
        in map_sum id (Cons (record_of l r)) (evaluate_predictor E contexts scenario (Suc k) ls p')))"

type_synonym aggregate_records = "(string, prediction_record list) btree_map"

fun evaluate_predictors :: "'r bench_env \<Rightarrow> contexts \<Rightarrow> string \<Rightarrow> next_app_label list \<Rightarrow> 'r predictor list
    \<Rightarrow> (string, backend_metrics) btree_map \<times> aggregate_records
    \<Rightarrow> bench_error + (string, backend_metrics) btree_map \<times> aggregate_records" where
  "evaluate_predictors E contexts scenario test [] acc = Inr acc"
| "evaluate_predictors E contexts scenario test (p # ps) (metrics, records) =
     (case evaluate_predictor E contexts scenario 0 test p of
        Inl e \<Rightarrow> Inl e
      | Inr rs \<Rightarrow> evaluate_predictors E contexts scenario test ps
          (insert_at (predictor_name p) (compute_backend_metrics rs (length test)) metrics,
           btree_upsert (predictor_name p) [] (\<lambda>xs. xs @ rs) records))"

definition run_scenario :: "'r bench_env \<Rightarrow> contexts \<Rightarrow> f64 \<Rightarrow> string \<Rightarrow> next_app_label list \<Rightarrow> aggregate_records
    \<Rightarrow> bench_error + scenario_report \<times> aggregate_records" where
  "run_scenario E contexts train_split scenario labels records =
     (let eligible = eligible_labels labels; k = split_index train_split (length eligible);
          train = take k eligible; test = drop k eligible; ex = exclusions_of labels
      in case evaluate_predictors E contexts scenario test (map (predictor_train train) (fresh_predictors E)) ([], records) of
           Inl e \<Rightarrow> Inl e
         | Inr (metrics, records') \<Rightarrow> Inr
             (\<lparr>sr_scenario = scenario, sr_windows = length labels,
               sr_future_switch_windows = length labels - ex_no_future_switch ex,
               sr_eligible_windows = ex_eligible ex, sr_train_windows = length train, sr_test_windows = length test,
               sr_exclusions = ex, sr_backends = metrics\<rparr>, records'))"

definition labels_by_scenario :: "next_app_label list \<Rightarrow> (string, next_app_label list) btree_map" where
  "labels_by_scenario ls = group_by nl_scenario ls"

text \<open>\<open>by_scenario.remove\<close>: a scenario's labels serve one input only.\<close>

fun run_scenarios :: "'r bench_env \<Rightarrow> contexts \<Rightarrow> f64 \<Rightarrow> trace_input list \<Rightarrow> (string, next_app_label list) btree_map
    \<Rightarrow> scenario_report list \<Rightarrow> aggregate_records \<Rightarrow> bench_error + scenario_report list \<times> aggregate_records" where
  "run_scenarios E contexts train_split [] by_scenario reports records =
     (if by_scenario \<noteq> [] then Inl (TracesMissingFor (map fst by_scenario)) else Inr (reports, records))"
| "run_scenarios E contexts train_split (i # is) by_scenario reports records =
     (case btree_get by_scenario (ti_scenario i) of
        None \<Rightarrow> Inl (NoLabelsFor (ti_scenario i))
      | Some labels \<Rightarrow> (case run_scenario E contexts train_split (ti_scenario i) labels records of
           Inl e \<Rightarrow> Inl e
         | Inr (report, records') \<Rightarrow>
             run_scenarios E contexts train_split is (filter (\<lambda>(s, _). s \<noteq> ti_scenario i) by_scenario)
               (reports @ [report]) records'))"

text \<open>The latencies are collected apart from the records, in the same order: the summary is that of the records.\<close>

definition macro_average :: "(backend_metrics \<Rightarrow> f64) \<Rightarrow> string \<Rightarrow> scenario_report list \<Rightarrow> f64" where
  "macro_average rate name reports =
     (let values = List.map_filter (\<lambda>s. map_option rate (btree_get (sr_backends s) name))
            (filter (\<lambda>s. 0 < sr_test_windows s) reports)
      in round3_f64 (fp_div fmt64 (sum_f64 values) (f64_of_nat (max (length values) 1))))"

definition aggregate_metrics :: "scenario_report list \<Rightarrow> aggregate_records \<Rightarrow> (string, backend_metrics) btree_map" where
  "aggregate_metrics reports records = map (\<lambda>(name, rs). (name, (compute_backend_metrics rs (length rs))
     \<lparr>bm_macro_top1_accuracy_pct := Some (macro_average bm_top1_accuracy_pct name reports),
      bm_macro_top3_accuracy_pct := Some (macro_average bm_top3_accuracy_pct name reports)\<rparr>)) records"

record bench_options =
  bo_inputs :: "(string \<times> string option list option) list"
  bo_labels :: "string option list option"
  bo_train_split :: f64
  bo_window_secs :: u64

definition label_definition_text :: string where
  "label_definition_text = ''first foreground transition within the horizon whose package differs from the app current at window end''"

definition eligibility_definition_text :: string where
  "eligibility_definition_text = ''actual_next_app is present in the current window''
     @ CHR 0x27 # ''s foreground or notified app set after removing current_app''"

definition limitations_text :: "string list" where
  "limitations_text =
     [''All labels are derived from deterministic synthetic traces, not real-user behavior.'',
      ''Accuracy is reported only for context-supported switches; coverage reports how selective that cohort is.'',
      ''Latency is measured during this run and is not byte-deterministic across machines.'',
      ''Statistical baselines are trained on the per-scenario train split and evaluated on the held-out test split.'',
      ''This synthetic benchmark validates prediction-to-action mapping only; it does not import measured action-value data and must not be cited as measured device benefit.'']"

definition benchmark_report_of :: "bench_options \<Rightarrow> next_app_label list \<Rightarrow> scenario_report list \<Rightarrow> aggregate_records
    \<Rightarrow> benchmark_report" where
  "benchmark_report_of opts labels reports records =
     (let ex = exclusions_of labels; future = ex_eligible ex + ex_label_not_observable ex in
      \<lparr>br_schema_version = BENCHMARK_SCHEMA,
       br_dataset_id = (case labels of [] \<Rightarrow> [] | l # _ \<Rightarrow> nl_dataset_id l),
       br_source = ''synthetic'', br_evaluation_source = ''synthetic_trace'',
       br_action_value_source = ''synthetic_model_prediction_only'',
       br_benefit_claim_policy = ''no_measured_action_benefit_claim'',
       br_config = \<lparr>bc_window_secs = bo_window_secs opts,
         bc_horizon_secs = (case labels of [] \<Rightarrow> 30 | l # _ \<Rightarrow> nl_prediction_horizon_ms l sdiv 1000),
         bc_label_definition = label_definition_text, bc_eligibility_definition = eligibility_definition_text,
         bc_train_split = bo_train_split opts\<rparr>,
       br_inputs = map fst (bo_inputs opts), br_total_windows = length labels, br_eligible_windows = ex_eligible ex,
       br_train_windows = sum_list (map sr_train_windows reports), br_test_windows = sum_list (map sr_test_windows reports),
       br_context_supported_switch_coverage_pct = round3_f64
         (fp_mul fmt64 (fp_div fmt64 (f64_of_nat (ex_eligible ex)) (f64_of_nat (max future 1))) (FFin 100)),
       br_exclusions = ex, br_aggregate = aggregate_metrics reports records, br_scenarios = reports,
       br_limitations = limitations_text\<rparr>)"

definition run_benchmark :: "'r bench_env \<Rightarrow> bench_options \<Rightarrow> bench_error + benchmark_report" where
  "run_benchmark E opts =
     (if \<not> (fp_le (FFin 0) (bo_train_split opts) \<and> fp_lt (bo_train_split opts) (FFin 1))
      then Inl (BadTrainSplit (bo_train_split opts))
      else case load_labels E (bo_labels opts) of
        Inl e \<Rightarrow> Inl e
      | Inr labels \<Rightarrow> (case input_pairs (bo_inputs opts) of
           Inl e \<Rightarrow> Inl e
         | Inr inputs \<Rightarrow> (case load_contexts_by_label E labels (bo_window_secs opts) inputs [] of
              Inl e \<Rightarrow> Inl e
            | Inr contexts \<Rightarrow> (case run_scenarios E contexts (bo_train_split opts) inputs (labels_by_scenario labels) [] [] of
                 Inl e \<Rightarrow> Inl e
               | Inr (reports, records) \<Rightarrow> Inr (benchmark_report_of opts labels reports records)))))"

lemma map_sum_Inr: "map_sum id f x = Inr y \<longleftrightarrow> (\<exists>z. x = Inr z \<and> y = f z)"
  by (cases x) auto

section \<open>Predictors rank candidates only\<close>

text \<open>A ranking over some packages: each at most once.\<close>

definition ranks_over :: "string list \<Rightarrow> scored_prediction list \<Rightarrow> bool" where
  "ranks_over candidates ranked \<longleftrightarrow>
     distinct (map sp_package ranked) \<and> set (map sp_package ranked) \<subseteq> set candidates"

lemma ranks_over_perm: "mset (map sp_package xs) = mset (map sp_package ys) \<Longrightarrow> ranks_over cs xs = ranks_over cs ys"
  unfolding ranks_over_def by (metis mset_eq_imp_distinct_iff mset_eq_setD)

lemma ranks_over_sort [simp]: "ranks_over cs (sort_by le xs) = ranks_over cs xs"
  by (rule ranks_over_perm) simp

lemma packages_scored [simp]: "map sp_package (scored f ps) = ps"
  by (simp add: scored_def comp_def)

lemma ranks_over_scored: "distinct ps \<Longrightarrow> set ps \<subseteq> set cs \<Longrightarrow> ranks_over cs (scored f ps)"
  by (simp add: ranks_over_def)

lemma ranks_over_map_entries:
  "btree_invar m \<Longrightarrow> fst ` set m \<subseteq> set cs \<Longrightarrow> ranks_over cs (map (\<lambda>(p, s). \<lparr>sp_package = p, sp_score = s\<rparr>) m)"
proof -
  assume m: "btree_invar m" "fst ` set m \<subseteq> set cs"
  have "map sp_package (map (\<lambda>(p, s). \<lparr>sp_package = p, sp_score = s\<rparr>) m) = map fst m"
    by (simp add: comp_def split_def)
  with m(2) btree_invar_distinct [OF m(1)] show ?thesis unfolding ranks_over_def by (metis list.set_map)
qed

lemma best_confidence_invar: "btree_invar m \<Longrightarrow> btree_invar (foldl best_confidence m is)"
  by (induction "is" arbitrary: m) (auto simp: best_confidence_def insert_at_def btree_upsert_invar split: option.split)

lemma ranks_over_filter:
  assumes "distinct (map sp_package xs)"
  shows "ranks_over cs (filter (\<lambda>p. sp_package p \<in> set cs) xs)"
  using assms by (auto simp: ranks_over_def distinct_map inj_on_def)

lemma extract_ranks_over: "ranks_over cs (extract_ranked_apps intents cs)"
proof -
  let ?m = "foldl best_confidence [] intents"
  let ?xs = "map (\<lambda>(p, s). \<lparr>sp_package = p, sp_score = s\<rparr>) ?m"
  have "btree_invar ?m" by (simp add: best_confidence_invar btree_empty)
  then have "ranks_over (map fst ?m) ?xs" by (intro ranks_over_map_entries) auto
  then have "ranks_over (map fst ?m) (sort_by prediction_le ?xs)" by simp
  then show ?thesis unfolding extract_ranked_apps_def by (intro ranks_over_filter) (simp add: ranks_over_def)
qed

lemma only_candidate_ranks_over: "ranks_over cs (only_candidate cs found)"
  by (auto simp: only_candidate_def ranks_over_def scored_def split: option.split)

lemma add_notification_inv:
  assumes "btree_invar (fst m)" "fst ` set (fst m) \<subseteq> set cs"
  shows "btree_invar (fst (foldl (add_notification cs t) m es)) \<and> fst ` set (fst (foldl (add_notification cs t) m es)) \<subseteq> set cs"
  using assms
proof (induction es arbitrary: m)
  case (Cons e es)
  have "btree_invar (fst (add_notification cs t m e)) \<and> fst ` set (fst (add_notification cs t m e)) \<subseteq> set cs"
    using Cons.prems
    by (auto simp: add_notification_def btree_upsert_invar btree_upsert_keys split: sanitized_event_type.split)
  then show ?case using Cons.IH by simp
qed simp

lemma notification_priority_ranks_over: "ranks_over cs (notification_priority_ranked ctx cs)"
proof -
  have nil: "ranks_over cs []" by (simp add: ranks_over_def)
  let ?ns = "filter (\<lambda>e. notification_source (se_event_type e) \<noteq> None) (ctx_events ctx)"
  let ?t = "Max (set (map se_timestamp_ms ?ns))"
  obtain scores latest where f: "foldl (add_notification cs ?t) ([], []) ?ns = (scores, latest)" by fastforce
  have "btree_invar scores" "fst ` set scores \<subseteq> set cs"
    using add_notification_inv [of "([], [])" cs ?t ?ns] unfolding f by (simp_all add: btree_empty)
  then show ?thesis
    using nil f by (simp add: notification_priority_ranked_def Let_def ranks_over_map_entries)
qed

lemma rank_by_counts_ranks_over: "distinct cs \<Longrightarrow> ranks_over cs (rank_by_counts cs counts)"
  by (simp add: rank_by_counts_def ranks_over_scored)

lemma rank_by_probability_ranks_over: "distinct cs \<Longrightarrow> ranks_over cs (rank_by_probability cs counts n)"
  by (simp add: rank_by_probability_def Let_def ranks_over_scored)

definition shuffles :: "'r bench_env \<Rightarrow> bool" where
  "shuffles E \<longleftrightarrow> (\<forall>r xs. mset (snd (be_shuffle E r xs)) = mset xs)"

lemma predict_ranks_over:
  assumes "shuffles E" "distinct cs"
  shows "ranks_over cs (pr_ranked (snd (predict E us ctx current cs p)))"
proof (cases p)
  case (RandomCandidate r)
  obtain r' xs where x: "be_shuffle E r cs = (r', xs)" by fastforce
  then have "mset xs = mset cs" using assms(1) unfolding shuffles_def by (metis snd_conv)
  then have "distinct xs" "set xs = set cs" using assms(2) by (metis mset_eq_imp_distinct_iff, metis mset_eq_setD)
  then show ?thesis using RandomCandidate x by (simp add: plain_result_def ranks_over_scored)
next
  case FirstCandidate
  then show ?thesis using assms(2) by (cases cs) (simp_all add: plain_result_def ranks_over_def scored_def)
qed (use assms(2) in \<open>auto simp: intents_result_def plain_result_def extract_ranks_over ranks_over_scored
    rank_by_counts_ranks_over rank_by_probability_ranks_over only_candidate_ranks_over last_foreground_ranked_def
    recent_notification_ranked_def notification_priority_ranks_over ranks_over_def [of _ "[]"] split: option.split\<close>)

lemma predictor_name_predict [simp]: "predictor_name (fst (predict E us ctx current cs p)) = predictor_name p"
  by (cases p) (simp_all split: prod.split)

lemma candidates_props:
  "distinct (extract_observable_candidates ctx current)" "current \<notin> set (extract_observable_candidates ctx current)"
  "set (extract_observable_candidates ctx current)
    \<subseteq> set (cs_foreground_apps (ctx_summary ctx)) \<union> set (cs_notified_apps (ctx_summary ctx))"
proof -
  have "distinct (foldl (push_candidate current) acc xs) \<and> current \<notin> set (foldl (push_candidate current) acc xs)
      \<and> set (foldl (push_candidate current) acc xs) \<subseteq> set acc \<union> set xs"
    if "distinct acc" "current \<notin> set acc" for acc xs
    using that
  proof (induction xs arbitrary: acc)
    case (Cons x xs)
    have "distinct (push_candidate current acc x) \<and> current \<notin> set (push_candidate current acc x)
        \<and> set (push_candidate current acc x) \<subseteq> insert x (set acc)"
      using Cons.prems by (auto simp: push_candidate_def)
    with Cons.IH [of "push_candidate current acc x"] show ?case by auto
  qed simp
  from this [of "[]" "cs_foreground_apps (ctx_summary ctx) @ cs_notified_apps (ctx_summary ctx)"]
  show "distinct (extract_observable_candidates ctx current)" "current \<notin> set (extract_observable_candidates ctx current)"
    "set (extract_observable_candidates ctx current)
      \<subseteq> set (cs_foreground_apps (ctx_summary ctx)) \<union> set (cs_notified_apps (ctx_summary ctx))"
    by (simp_all add: extract_observable_candidates_def)
qed

lemma position_of_bounds: "position_of x xs = Some i \<Longrightarrow> i < length xs \<and> x \<in> set xs"
  using position_of_take [of x "Suc i" xs] by (induction xs arbitrary: i) (auto split: if_splits option.splits)

text \<open>What a record may say of a label, given the context the label was judged on.\<close>

definition honest_record :: "contexts \<Rightarrow> next_app_label \<Rightarrow> prediction_record \<Rightarrow> bool" where
  "honest_record contexts l r \<longleftrightarrow> (\<exists>ctx. btree_get contexts (label_key l) = Some ctx
     \<and> (\<forall>k. pc_rank r = Some k \<longrightarrow> \<not> pc_noop r \<and> 1 \<le> k
          \<and> k \<le> length (extract_observable_candidates ctx (nl_current_app l))
          \<and> (\<exists>app. nl_actual_next_app l = Some app \<and> app \<noteq> nl_current_app l
               \<and> app \<in> set (cs_foreground_apps (ctx_summary ctx)) \<union> set (cs_notified_apps (ctx_summary ctx)))))"

lemma record_honest:
  assumes "ranks_over (extract_observable_candidates ctx (nl_current_app l)) (pr_ranked r)"
    "btree_get contexts (label_key l) = Some ctx"
  shows "honest_record contexts l (record_of l r)"
proof -
  let ?cs = "extract_observable_candidates ctx (nl_current_app l)" and ?ps = "map sp_package (pr_ranked r)"
  have "length ?ps \<le> length ?cs"
    using assms(1) card_mono [of "set ?cs" "set ?ps"] distinct_card [of ?ps] card_length [of ?cs]
    unfolding ranks_over_def by simp
  moreover have "pr_ranked r \<noteq> [] \<and> 1 \<le> k \<and> k \<le> length ?ps \<and> app \<in> set ?ps"
    if "map_option Suc (position_of app ?ps) = Some k" for app k
    using that position_of_bounds [of app ?ps] by auto
  ultimately show ?thesis
    using assms candidates_props [where ctx = ctx and current = "nl_current_app l"]
    unfolding honest_record_def record_of_def ranks_over_def by (fastforce simp: bind_eq_Some_conv)
qed

lemma evaluate_predictor_honest:
  assumes "shuffles E" "evaluate_predictor E contexts scenario k ls p = Inr rs"
  shows "list_all2 (honest_record contexts) ls rs"
  using assms
proof (induction E contexts scenario k ls p arbitrary: rs rule: evaluate_predictor.induct)
  case (2 E contexts scenario k l ls p)
  obtain ctx where ctx: "btree_get contexts (label_key l) = Some ctx" using "2.prems"(2) by (auto split: option.splits)
  let ?current = "nl_current_app l" and ?us = "be_latency_us E scenario (predictor_name p) k"
  let ?cs = "extract_observable_candidates ctx ?current"
  obtain p' r where p: "predict E ?us ctx ?current ?cs p = (p', r)" by fastforce
  then obtain rest where rest: "evaluate_predictor E contexts scenario (Suc k) ls p' = Inr rest" "rs = record_of l r # rest"
    using "2.prems"(2) ctx by (auto simp: map_sum_Inr)
  have "ranks_over ?cs (pr_ranked r)"
    using predict_ranks_over [OF "2.prems"(1), of ?cs ?us ctx ?current p] candidates_props(1) p by simp
  then have "honest_record contexts l (record_of l r)" using ctx by (rule record_honest)
  moreover have "list_all2 (honest_record contexts) ls rest"
    using "2.IH" [OF ctx refl refl p [symmetric] refl "2.prems"(1) rest(1)] .
  ultimately show ?case by (simp add: rest(2))
qed simp

section \<open>Both parts of a split\<close>

lemma powi_nonpos: "s \<le> 0 \<Longrightarrow> (2 :: rat) powi s = 1 / 2 ^ nat (- s)"
  by (auto simp: power_int_def power_inverse inverse_eq_divide power_one_over)

lemma fp_round_small:
  assumes "n < 2 ^ 53"
  shows "fp_round 53 (- 1074) (of_nat n) = of_nat n"
proof (cases "n = 0")
  case False
  let ?x = "of_nat n :: rat" and ?s = "ulp_exp 53 (- 1074) (of_nat n)"
  from False have x: "?x \<noteq> 0" by simp
  have "(of_nat n :: rat) < of_nat (2 ^ 53)" using assms by (simp only: of_nat_less_iff)
  then have "(2 :: rat) powi ilog2 ?x < 2 powi 53" using ilog2_bounds [OF x] by simp
  then have "ilog2 ?x < 53" using power_int_increasing [of 53 "ilog2 ?x" "2 :: rat"] by (cases "ilog2 ?x < 53") auto
  then have s: "?s \<le> 0" by (simp add: ulp_exp_def)
  define k where "k = nat (- ?s)"
  have w: "(2 :: rat) powi ?s = 1 / 2 ^ k" unfolding k_def by (rule powi_nonpos [OF s])
  have "?x / 2 powi ?s = of_int (int n * 2 ^ k)" by (simp add: w)
  then have "round_even (?x / 2 powi ?s) = int n * 2 ^ k" by (simp only: round_even_of_int)
  then show ?thesis by (simp add: fp_round_def Let_def w)
qed simp

lemma f64_of_small: "n < 2 ^ 53 \<Longrightarrow> f64_of_nat n = FFin (of_nat n)"
proof -
  assume n: "n < 2 ^ 53"
  then have "(of_nat n :: rat) < of_nat (2 ^ 53)" by (simp only: of_nat_less_iff)
  moreover have "(of_nat (2 ^ 53) :: rat) \<le> 2 ^ 1024" by simp
  ultimately have "\<not> 2 ^ 1024 \<le> \<bar>of_nat n :: rat\<bar>" by linarith
  then show ?thesis using fp_round_small [OF n] by (simp add: fp_of_rat_def fmt64_def Let_def)
qed

lemma split_index_bounds:
  assumes "2 \<le> n" "n < 2 ^ 53"
  shows "0 < split_index ts n \<and> split_index ts n < n"
proof -
  let ?a = "fp_max (fp_floor (fp_mul fmt64 (f64_of_nat n) ts)) (FFin 1)"
  have m: "f64_of_nat (n - 1) = FFin (of_nat (n - 1))" using assms by (intro f64_of_small) simp
  have one: "(1 :: rat) \<le> of_nat (n - 1)" using assms(1) by simp
  have a: "?a = FInf False \<or> (\<exists>y. ?a = FFin y \<and> 1 \<le> y)"
    by (cases "fp_floor (fp_mul fmt64 (f64_of_nat n) ts)") (auto simp: fp_max_def)
  obtain z where z: "fp_min ?a (FFin (of_nat (n - 1))) = FFin z" "1 \<le> z" "z \<le> of_nat (n - 1)"
  proof (cases "?a = FInf False")
    case True
    with one that [of "of_nat (n - 1)"] show ?thesis by (simp add: fp_min_def)
  next
    case False
    with a obtain y where "?a = FFin y" "1 \<le> y" by blast
    with one that [of "min y (of_nat (n - 1))"] show ?thesis by (auto simp: fp_min_def)
  qed
  have "1 \<le> \<lfloor>z\<rfloor>" "\<lfloor>z\<rfloor> \<le> int (n - 1)"
    using floor_mono [OF z(2)] floor_mono [OF z(3)] by (simp_all only: floor_one floor_of_nat)
  moreover have "int (n - 1) < int n" "int n \<le> 2 ^ 64 - 1" using assms by simp_all
  moreover have "split_index ts n = nat (min \<lfloor>z\<rfloor> (2 ^ 64 - 1))" using z(1) by (simp only: split_index_def m floor_as_usize.simps)
  ultimately show ?thesis by linarith
qed

section \<open>A report accounts for every label\<close>

definition metrics_consistent :: "usize \<Rightarrow> backend_metrics \<Rightarrow> bool" where
  "metrics_consistent n m \<longleftrightarrow> bm_eligible_windows m = n \<and> bm_top1_hits m \<le> bm_top3_hits m
     \<and> bm_top3_hits m \<le> bm_predicted_windows m \<and> bm_predicted_windows m + bm_noop_windows m \<le> n"

definition records_sane :: "prediction_record list \<Rightarrow> bool" where
  "records_sane rs \<longleftrightarrow> (\<forall>r \<in> set rs. pc_noop r \<longrightarrow> pc_rank r = None)"

lemma records_sane_simps [simp]:
  "records_sane []" "records_sane (r # rs) \<longleftrightarrow> (pc_noop r \<longrightarrow> pc_rank r = None) \<and> records_sane rs"
  "records_sane (xs @ ys) \<longleftrightarrow> records_sane xs \<and> records_sane ys"
  by (auto simp: records_sane_def)

lemma metrics_consistent_compute:
  assumes "records_sane rs"
  shows "metrics_consistent (length rs) (compute_backend_metrics rs (length rs))"
proof -
  have m: "length (filter P rs) \<le> length (filter Q rs)" if "\<And>r. P r \<Longrightarrow> Q r" for P Q
    using that by (induction rs) auto
  have "length (filter (\<lambda>r. pc_rank r = Some 1) rs) \<le> length (filter (rank_within 3) rs)"
    "length (filter (rank_within 3) rs) \<le> length (filter (\<lambda>r. pc_rank r \<noteq> None) rs)"
    by (rule m; auto simp: rank_within_def split: option.splits)+
  moreover have "length (filter (\<lambda>r. pc_rank r \<noteq> None) rs) + length (filter pc_noop rs) \<le> length rs"
    using assms by (induction rs) auto
  ultimately show ?thesis by (simp add: metrics_consistent_def compute_backend_metrics_def Let_def)
qed

lemma record_of_sane: "pc_noop (record_of l r) \<Longrightarrow> pc_rank (record_of l r) = None"
  by (cases "nl_actual_next_app l") (simp_all add: record_of_def)

lemma btree_get_known: "k \<in> fst ` set m \<longleftrightarrow> (\<exists>v. btree_get m k = Some v)"
  by (metis btree_get_def map_of_eq_None_iff not_None_eq)

lemma evaluate_predictor_total:
  assumes "label_key ` set ls \<subseteq> fst ` set contexts"
  shows "\<exists>rs. evaluate_predictor E contexts scenario k ls p = Inr rs \<and> length rs = length ls \<and> records_sane rs"
  using assms
proof (induction ls arbitrary: k p)
  case (Cons l ls)
  then obtain ctx where "btree_get contexts (label_key l) = Some ctx" using btree_get_known [of "label_key l" contexts] by auto
  moreover obtain p' r where "predict E (be_latency_us E scenario (predictor_name p) k) ctx (nl_current_app l)
      (extract_observable_candidates ctx (nl_current_app l)) p = (p', r)" by fastforce
  moreover obtain rs where "evaluate_predictor E contexts scenario (Suc k) ls p' = Inr rs" "length rs = length ls" "records_sane rs"
    using Cons.IH [of "Suc k" p'] Cons.prems by (metis image_insert insert_subset list.simps(15))
  ultimately show ?case by (simp add: record_of_sane)
qed simp

definition records_count :: "aggregate_records \<Rightarrow> string \<Rightarrow> nat" where
  "records_count m k = (case btree_get m k of Some rs \<Rightarrow> length rs | None \<Rightarrow> 0)"

definition aggregate_ok :: "aggregate_records \<Rightarrow> bool" where
  "aggregate_ok m \<longleftrightarrow> btree_invar m \<and> (\<forall>(k, rs) \<in> set m. records_sane rs)"

lemma aggregate_upsert:
  assumes "aggregate_ok m" "records_sane rs"
  shows "aggregate_ok (btree_upsert k [] (\<lambda>xs. xs @ rs) m)"
    "records_count (btree_upsert k [] (\<lambda>xs. xs @ rs) m) k' = records_count m k' + (if k' = k then length rs else 0)"
proof -
  have "\<forall>(k', xs) \<in> set (btree_upsert k [] (\<lambda>xs. xs @ rs) m). records_sane xs"
    using assms(2) assms(1) [unfolded aggregate_ok_def, THEN conjunct2]
    by (induction k "[] :: prediction_record list" "\<lambda>xs. xs @ rs" m rule: btree_upsert.induct) auto
  then show "aggregate_ok (btree_upsert k [] (\<lambda>xs. xs @ rs) m)"
    using assms(1) by (simp add: aggregate_ok_def btree_upsert_invar)
  show "records_count (btree_upsert k [] (\<lambda>xs. xs @ rs) m) k' = records_count m k' + (if k' = k then length rs else 0)"
    using assms(1) by (simp add: records_count_def aggregate_ok_def btree_upsert_get split: option.split)
qed

lemma evaluate_predictors_total:
  assumes "label_key ` set test \<subseteq> fst ` set contexts" "distinct (map predictor_name ps)"
    "aggregate_ok records" "\<forall>(n, m) \<in> set metrics. metrics_consistent (length test) m"
  shows "\<exists>metrics' records'. evaluate_predictors E contexts scenario test ps (metrics, records) = Inr (metrics', records')
     \<and> fst ` set metrics' = fst ` set metrics \<union> predictor_name ` set ps
     \<and> (\<forall>(n, m) \<in> set metrics'. metrics_consistent (length test) m)
     \<and> aggregate_ok records' \<and> fst ` set records' = fst ` set records \<union> predictor_name ` set ps
     \<and> (\<forall>k. records_count records' k = records_count records k + (if k \<in> predictor_name ` set ps then length test else 0))"
  using assms(2-4)
proof (induction ps arbitrary: metrics records)
  case (Cons p ps)
  obtain rs where rs: "evaluate_predictor E contexts scenario 0 test p = Inr rs" "length rs = length test" "records_sane rs"
    using evaluate_predictor_total [OF assms(1)] by blast
  let ?metrics = "insert_at (predictor_name p) (compute_backend_metrics rs (length test)) metrics"
  let ?records = "btree_upsert (predictor_name p) [] (\<lambda>xs. xs @ rs) records"
  have c: "metrics_consistent (length test) (compute_backend_metrics rs (length test))"
    using metrics_consistent_compute [OF rs(3)] rs(2) by simp
  have "\<forall>(n, m) \<in> set ?metrics. metrics_consistent (length test) m"
    using Cons.prems(3) c by (auto dest: insert_at_mem)
  then obtain metrics' records' where r: "evaluate_predictors E contexts scenario test ps (?metrics, ?records) = Inr (metrics', records')"
     "fst ` set metrics' = fst ` set ?metrics \<union> predictor_name ` set ps"
     "\<forall>(n, m) \<in> set metrics'. metrics_consistent (length test) m"
     "aggregate_ok records'" "fst ` set records' = fst ` set ?records \<union> predictor_name ` set ps"
     "\<And>k. records_count records' k = records_count ?records k + (if k \<in> predictor_name ` set ps then length test else 0)"
    using Cons.IH [of ?records ?metrics] Cons.prems aggregate_upsert(1) [OF Cons.prems(2) rs(3)] by auto
  have "records_count records' k = records_count records k
      + (if k \<in> predictor_name ` set (p # ps) then length test else 0)" for k
    using r(6) [of k] Cons.prems(1) aggregate_upsert(2) [OF Cons.prems(2) rs(3)] rs(2) by auto
  then show ?case using r(1-5) rs(1) by (simp add: insert_at_def btree_upsert_keys)
qed simp

definition predictor_names :: "string list" where
  "predictor_names = [''rule_based'', ''local_evaluator'', ''always_noop'', ''random_candidate'', ''first_candidate'',
     ''global_majority'', ''per_current_app_majority'', ''markov'', ''recent_notification'', ''last_foreground'',
     ''notification_priority'', ''last_app_prewarm'']"

lemma predictor_name_train [simp]: "predictor_name (predictor_train ls p) = predictor_name p"
  by (cases p) simp_all

lemma fresh_names: "map predictor_name (map (predictor_train train) (fresh_predictors E)) = predictor_names"
  by (simp add: fresh_predictors_def predictor_names_def)

lemma distinct_names: "distinct predictor_names"
  by (simp add: predictor_names_def)

lemma exclusions_eligible: "ex_eligible (exclusions_of ls) = length (filter nl_eligible ls)"
proof -
  have "ex_eligible (foldl count_exclusion c ls) = ex_eligible c + length (filter nl_eligible ls)" for c
    by (induction ls arbitrary: c) (simp_all add: count_exclusion_def)
  then show ?thesis by (simp add: exclusions_of_def no_exclusions_def)
qed

definition scenario_accounted :: "f64 \<Rightarrow> next_app_label list \<Rightarrow> scenario_report \<Rightarrow> bool" where
  "scenario_accounted train_split ls r \<longleftrightarrow>
     (let n = length (filter nl_eligible ls) in
      sr_windows r = length ls \<and> sr_eligible_windows r = n
      \<and> sr_train_windows r = min n (split_index train_split n) \<and> sr_test_windows r = n - split_index train_split n
      \<and> fst ` set (sr_backends r) = set predictor_names
      \<and> (\<forall>(name, m) \<in> set (sr_backends r). metrics_consistent (sr_test_windows r) m))"

lemma run_scenario_total:
  assumes "label_key ` set ls \<subseteq> fst ` set contexts" "aggregate_ok records"
  shows "\<exists>r records'. run_scenario E contexts ts scenario ls records = Inr (r, records')
     \<and> sr_scenario r = scenario \<and> scenario_accounted ts ls r \<and> aggregate_ok records'
     \<and> fst ` set records' = fst ` set records \<union> set predictor_names
     \<and> (\<forall>k \<in> set predictor_names. records_count records' k = records_count records k + sr_test_windows r)"
proof -
  let ?el = "eligible_labels ls"
  let ?k = "split_index ts (length ?el)"
  let ?test = "drop ?k ?el" and ?ps = "map (predictor_train (take ?k ?el)) (fresh_predictors E)"
  have len: "length ?el = length (filter nl_eligible ls)" by (simp add: eligible_labels_def)
  have "set ?test \<subseteq> set ls" by (auto simp: eligible_labels_def dest: in_set_dropD)
  then have t: "label_key ` set ?test \<subseteq> fst ` set contexts" using assms(1) by blast
  have n: "map predictor_name ?ps = predictor_names" by (rule fresh_names)
  then have names: "distinct (map predictor_name ?ps)" "predictor_name ` set ?ps = set predictor_names"
    using distinct_names by (simp, metis image_set)
  obtain metrics' records' where e: "evaluate_predictors E contexts scenario ?test ?ps ([], records) = Inr (metrics', records')"
     "fst ` set metrics' = set predictor_names" "\<forall>(n, m) \<in> set metrics'. metrics_consistent (length ?test) m"
     "aggregate_ok records'" "fst ` set records' = fst ` set records \<union> set predictor_names"
     "\<And>k. records_count records' k = records_count records k + (if k \<in> set predictor_names then length ?test else 0)"
    using evaluate_predictors_total [OF t names(1) assms(2), of "[]" E scenario] unfolding names(2) by auto
  let ?r = "\<lparr>sr_scenario = scenario, sr_windows = length ls,
     sr_future_switch_windows = length ls - ex_no_future_switch (exclusions_of ls),
     sr_eligible_windows = ex_eligible (exclusions_of ls), sr_train_windows = length (take ?k ?el), sr_test_windows = length ?test,
     sr_exclusions = exclusions_of ls, sr_backends = metrics'\<rparr>"
  have "run_scenario E contexts ts scenario ls records = Inr (?r, records')"
    using e(1) by (simp add: run_scenario_def Let_def)
  moreover have "scenario_accounted ts ls ?r"
    using e(2,3) len by (simp add: scenario_accounted_def exclusions_eligible)
  ultimately show ?thesis using e(4-6) by auto
qed

lemma add_contexts_keys:
  "add_contexts E events secs ls m = Inr m' \<Longrightarrow> fst ` set m' = fst ` set m \<union> label_key ` set ls"
  by (induction E events secs ls m rule: add_contexts.induct)
    (auto simp: insert_at_def btree_upsert_keys split: option.splits)

lemma load_contexts_keys:
  "load_contexts_by_label E labels secs is m = Inr m' \<Longrightarrow>
     fst ` set m' = fst ` set m \<union> label_key ` {l \<in> set labels. nl_scenario l \<in> ti_scenario ` set is}"
proof (induction E labels secs "is" m rule: load_contexts_by_label.induct)
  case (2 E labels secs i "is" m)
  obtain events m1 where e: "load_and_sanitize_trace E (ti_path i) (ti_lines i) = Inr events"
    "add_contexts E events secs (filter (\<lambda>l. nl_scenario l = ti_scenario i) labels) m = Inr m1"
    "load_contexts_by_label E labels secs is m1 = Inr m'"
    using "2.prems" by (auto split: sum.splits)
  show ?case using "2.IH" [OF e(1-3)] add_contexts_keys [OF e(2)] by auto
qed simp

lemma sum_groups:
  assumes "finite A" "f ` set xs \<subseteq> A"
  shows "(\<Sum>k \<in> A. length (filter P (filter (\<lambda>x. f x = k) xs))) = length (filter P xs)"
  using assms
proof (induction xs)
  case (Cons x xs)
  have "(\<Sum>k \<in> A. length (filter P (filter (\<lambda>x. f x = k) (x # xs))))
      = (\<Sum>k \<in> A. (if k = f x then (if P x then 1 else 0) else 0) + length (filter P (filter (\<lambda>x. f x = k) xs)))"
    by (rule sum.cong) auto
  also have "\<dots> = (if P x then 1 else 0) + length (filter P xs)"
    using Cons by (simp add: sum.distrib sum.delta)
  finally show ?case by simp
qed simp

definition covers :: "trace_input list \<Rightarrow> string set \<Rightarrow> bool" where
  "covers is scenarios \<longleftrightarrow> distinct (map ti_scenario is) \<and> set (map ti_scenario is) = scenarios"

lemma btree_get_filter: "btree_get (filter (\<lambda>(s, _). s \<noteq> k) m) k' = (if k' = k then None else btree_get m k')"
  by (induction m) (auto simp: btree_get_def)

lemma run_scenarios_outcome:
  assumes "\<And>s ls. btree_get bs s = Some ls \<Longrightarrow> s \<in> ti_scenario ` set ins \<Longrightarrow> label_key ` set ls \<subseteq> fst ` set contexts"
    "aggregate_ok records"
  shows "case run_scenarios E contexts ts ins bs reports records of
      Inl e \<Rightarrow> \<not> covers ins (fst ` set bs)
    | Inr (reports', records') \<Rightarrow> covers ins (fst ` set bs)
        \<and> (\<exists>new. reports' = reports @ new
             \<and> list_all2 (\<lambda>i r. \<exists>ls. btree_get bs (ti_scenario i) = Some ls \<and> scenario_accounted ts ls r) ins new
             \<and> aggregate_ok records'
             \<and> fst ` set records' = fst ` set records \<union> (if ins = [] then {} else set predictor_names)
             \<and> (\<forall>k \<in> set predictor_names. records_count records' k = records_count records k + sum_list (map sr_test_windows new)))"
  using assms
proof (induction ins arbitrary: bs reports records)
  case Nil
  then show ?case by (auto simp: covers_def)
next
  case (Cons i ins)
  show ?case
  proof (cases "btree_get bs (ti_scenario i)")
    case None
    then have "ti_scenario i \<notin> fst ` set bs" using btree_get_known [of "ti_scenario i" bs] by simp
    then show ?thesis using None by (auto simp: covers_def)
  next
    case (Some ls)
    have "label_key ` set ls \<subseteq> fst ` set contexts" using Cons.prems(1) [OF Some] by simp
    from run_scenario_total [OF this Cons.prems(2)]
    obtain r records1 where r: "run_scenario E contexts ts (ti_scenario i) ls records = Inr (r, records1)"
        "scenario_accounted ts ls r" "aggregate_ok records1"
        "fst ` set records1 = fst ` set records \<union> set predictor_names"
        "\<forall>k \<in> set predictor_names. records_count records1 k = records_count records k + sr_test_windows r"
      by blast
    let ?bs = "filter (\<lambda>(s, _). s \<noteq> ti_scenario i) bs"
    have keys: "fst ` set ?bs = fst ` set bs - {ti_scenario i}" by force
    have in_bs: "ti_scenario i \<in> fst ` set bs" using Some btree_get_known [of "ti_scenario i" bs] by blast
    have cov: "covers (i # ins) (fst ` set bs) \<longleftrightarrow> covers ins (fst ` set ?bs)"
    proof -
      have "x \<notin> X \<and> insert x X = B \<longleftrightarrow> X = B - {x}" if "x \<in> B" for x :: string and X B using that by auto
      from this [OF in_bs, of "set (map ti_scenario ins)"] show ?thesis unfolding covers_def keys by auto
    qed
    note IH = Cons.IH [of ?bs records1 "reports @ [r]"]
    have IH': "case run_scenarios E contexts ts ins ?bs (reports @ [r]) records1 of
        Inl e \<Rightarrow> \<not> covers ins (fst ` set ?bs)
      | Inr (reports', records') \<Rightarrow> covers ins (fst ` set ?bs)
          \<and> (\<exists>new. reports' = (reports @ [r]) @ new
             \<and> list_all2 (\<lambda>i r. \<exists>ls. btree_get ?bs (ti_scenario i) = Some ls \<and> scenario_accounted ts ls r) ins new
             \<and> aggregate_ok records'
             \<and> fst ` set records' = fst ` set records1 \<union> (if ins = [] then {} else set predictor_names)
             \<and> (\<forall>k \<in> set predictor_names. records_count records' k = records_count records1 k + sum_list (map sr_test_windows new)))"
      by (rule IH) (use Cons.prems(1) r(3) in \<open>auto simp: btree_get_filter split: if_splits\<close>)
    show ?thesis
    proof (cases "run_scenarios E contexts ts ins ?bs (reports @ [r]) records1")
      case (Inl e)
      with IH' cov Some r(1) show ?thesis by simp
    next
      case (Inr x)
      obtain reports' records' where x: "x = (reports', records')" by (cases x)
      from IH' obtain new where n: "covers ins (fst ` set ?bs)" "reports' = reports @ r # new"
         "list_all2 (\<lambda>i r. \<exists>ls. btree_get ?bs (ti_scenario i) = Some ls \<and> scenario_accounted ts ls r) ins new"
         "aggregate_ok records'" "fst ` set records' = fst ` set records1 \<union> (if ins = [] then {} else set predictor_names)"
         "\<forall>k \<in> set predictor_names. records_count records' k = records_count records1 k + sum_list (map sr_test_windows new)"
        unfolding Inr x by auto
      have "list_all2 (\<lambda>i r. \<exists>ls. btree_get bs (ti_scenario i) = Some ls \<and> scenario_accounted ts ls r) ins new"
        by (rule list_all2_mono [OF n(3)]) (auto simp: btree_get_filter split: if_splits)
      then have l: "list_all2 (\<lambda>i r. \<exists>ls. btree_get bs (ti_scenario i) = Some ls \<and> scenario_accounted ts ls r) (i # ins) (r # new)"
        using Some r(2) by simp
      have "run_scenarios E contexts ts (i # ins) bs reports records = Inr (reports', records')"
        using Some r(1) Inr x by simp
      then show ?thesis
        using l n(1,2,4-6) r(4,5) cov by (auto intro!: exI [of _ "r # new"])
    qed
  qed
qed

lemma labels_by_scenario_get:
  "btree_get (labels_by_scenario ls) s = (if s \<in> nl_scenario ` set ls then Some (filter (\<lambda>l. nl_scenario l = s) ls) else None)"
  unfolding labels_by_scenario_def by (rule group_by_get)

lemma labels_by_scenario_keys: "fst ` set (labels_by_scenario ls) = nl_scenario ` set ls"
  by (rule set_eqI) (simp only: btree_get_known, simp add: labels_by_scenario_get)

lemma aggregate_consistent:
  assumes "aggregate_ok records" "\<forall>k \<in> fst ` set records. records_count records k = n"
  shows "\<forall>(name, m) \<in> set (aggregate_metrics reports records). metrics_consistent n m"
proof -
  have "metrics_consistent n (compute_backend_metrics rs (length rs)\<lparr>bm_macro_top1_accuracy_pct := a, bm_macro_top3_accuracy_pct := b\<rparr>)"
    if kr: "(k, rs) \<in> set records" for k rs a b
  proof -
    have "btree_get records k = Some rs"
      using kr assms(1) by (simp add: aggregate_ok_def btree_get_def btree_invar_distinct)
    moreover have "k \<in> fst ` set records" using kr by force
    ultimately have "length rs = n" using assms(2) by (metis records_count_def option.simps(5))
    moreover have "records_sane rs" using kr assms(1) by (auto simp: aggregate_ok_def)
    ultimately show ?thesis using metrics_consistent_compute [of rs] by (simp add: metrics_consistent_def)
  qed
  then show ?thesis by (auto simp: aggregate_metrics_def)
qed

lemma sum_over_inputs:
  assumes "distinct (map f xs)"
  shows "sum_list (map (\<lambda>x. g (f x)) xs) = (\<Sum>k \<in> set (map f xs). g k)"
  using sum.distinct_set_conv_list [OF assms, of g] by (simp add: comp_def)

lemma accounted_sums:
  assumes "list_all2 (\<lambda>i r. \<exists>ls. btree_get (labels_by_scenario labels) (ti_scenario i) = Some ls \<and> scenario_accounted ts ls r) is new"
    "covers is (nl_scenario ` set labels)"
  shows "sum_list (map sr_windows new) = length labels"
    "sum_list (map sr_train_windows new) + sum_list (map sr_test_windows new) = length (filter nl_eligible labels)"
proof -
  let ?of = "\<lambda>i. filter (\<lambda>l. nl_scenario l = ti_scenario i) labels"
  have a: "list_all2 (\<lambda>i r. scenario_accounted ts (?of i) r) is new"
    by (rule list_all2_mono [OF assms(1)]) (auto simp: labels_by_scenario_get split: if_splits)
  then have w: "map sr_windows new = map (\<lambda>i. length (filter (\<lambda>_. True) (?of i))) is"
    and e: "sum_list (map sr_train_windows new) + sum_list (map sr_test_windows new)
      = sum_list (map (\<lambda>i. length (filter nl_eligible (?of i))) is)"
    by (induction rule: list_all2_induct) (simp_all add: scenario_accounted_def Let_def)
  have d: "distinct (map ti_scenario is)" "set (map ti_scenario is) = nl_scenario ` set labels" using assms(2) by (auto simp: covers_def)
  have s: "sum_list (map (\<lambda>i. length (filter P (?of i))) is) = length (filter P labels)" for P
    using sum_over_inputs [OF d(1), of "\<lambda>k. length (filter P (filter (\<lambda>l. nl_scenario l = k) labels))"]
      sum_groups [of "nl_scenario ` set labels" nl_scenario labels P] unfolding d(2) by simp
  show "sum_list (map sr_windows new) = length labels" using s [of "\<lambda>_. True"] w by simp
  show "sum_list (map sr_train_windows new) + sum_list (map sr_test_windows new) = length (filter nl_eligible labels)"
    using s [of nl_eligible] e by simp
qed

text \<open>C20: the benchmark accounts for every label. Once labels, inputs and contexts are read, a run succeeds exactly
  when the input traces are the labels' scenarios, each once. Then every label is counted once, every eligible
  one is either a training or a test window of its scenario, and each of the twelve predictors is measured on
  every test window, per scenario and in the aggregate, its top-1 hits among its top-3 hits, those among its
  ranked windows, and these disjoint from the unanswered ones. Two eligible windows are enough for both parts.\<close>

theorem benchmark_accounts_for_labels:
  assumes "fp_le (FFin 0) (bo_train_split opts)" "fp_lt (bo_train_split opts) (FFin 1)"
    "load_labels E (bo_labels opts) = Inr labels" "input_pairs (bo_inputs opts) = Inr inputs"
    "load_contexts_by_label E labels (bo_window_secs opts) inputs [] = Inr contexts"
  shows "case run_benchmark E opts of
      Inl e \<Rightarrow> \<not> covers inputs (nl_scenario ` set labels)
    | Inr report \<Rightarrow> covers inputs (nl_scenario ` set labels)
        \<and> br_total_windows report = length labels
        \<and> sum_list (map sr_windows (br_scenarios report)) = length labels
        \<and> br_eligible_windows report = length (filter nl_eligible labels)
        \<and> br_train_windows report + br_test_windows report = br_eligible_windows report
        \<and> list_all2 (\<lambda>i r. scenario_accounted (bo_train_split opts) (filter (\<lambda>l. nl_scenario l = ti_scenario i) labels) r)
            inputs (br_scenarios report)
        \<and> (\<forall>r \<in> set (br_scenarios report). 2 \<le> sr_eligible_windows r \<and> sr_eligible_windows r < 2 ^ 53
             \<longrightarrow> 0 < sr_train_windows r \<and> 0 < sr_test_windows r)
        \<and> fst ` set (br_aggregate report) = (if inputs = [] then {} else set predictor_names)
        \<and> (\<forall>(name, m) \<in> set (br_aggregate report). metrics_consistent (br_test_windows report) m)"
proof -
  let ?bs = "labels_by_scenario labels" and ?ts = "bo_train_split opts"
  have keys: "fst ` set contexts = label_key ` {l \<in> set labels. nl_scenario l \<in> ti_scenario ` set inputs}"
    using load_contexts_keys [OF assms(5)] by simp
  have ag: "aggregate_ok []" by (simp add: aggregate_ok_def btree_empty)
  have cov: "label_key ` set ls \<subseteq> fst ` set contexts" if "btree_get ?bs s = Some ls" "s \<in> ti_scenario ` set inputs" for s ls
  proof -
    have "set ls \<subseteq> {l \<in> set labels. nl_scenario l \<in> ti_scenario ` set inputs}"
    proof -
      from that(1) have "x \<in> set labels \<and> nl_scenario x = s" if "x \<in> set ls" for x
        using that by (auto simp: labels_by_scenario_get split: if_splits)
      with that(2) show ?thesis by blast
    qed
    then show ?thesis unfolding keys by (rule image_mono)
  qed
  note R = run_scenarios_outcome [where bs = ?bs and ins = inputs and records = "[]" and reports = "[]" and E = E and ts = ?ts,
      OF cov ag]
  have run: "run_benchmark E opts = (case run_scenarios E contexts ?ts inputs ?bs [] [] of Inl e \<Rightarrow> Inl e
      | Inr (reports, records) \<Rightarrow> Inr (benchmark_report_of opts labels reports records))"
    using assms by (simp add: run_benchmark_def)
  show ?thesis
  proof (cases "run_scenarios E contexts ?ts inputs ?bs [] []")
    case (Inl e)
    with R run show ?thesis by (simp add: labels_by_scenario_keys)
  next
    case (Inr x)
    obtain new records where x: "x = (new, records)" by (cases x)
    from R have n: "covers inputs (nl_scenario ` set labels)"
      "list_all2 (\<lambda>i r. \<exists>ls. btree_get ?bs (ti_scenario i) = Some ls \<and> scenario_accounted ?ts ls r) inputs new"
      "aggregate_ok records" "fst ` set records = (if inputs = [] then {} else set predictor_names)"
      "\<forall>k \<in> set predictor_names. records_count records k = sum_list (map sr_test_windows new)"
      unfolding Inr x by (auto simp: labels_by_scenario_keys records_count_def btree_empty)
    have l: "list_all2 (\<lambda>i r. scenario_accounted ?ts (filter (\<lambda>l. nl_scenario l = ti_scenario i) labels) r) inputs new"
      by (rule list_all2_mono [OF n(2)]) (auto simp: labels_by_scenario_get split: if_splits)
    have c: "\<forall>k \<in> fst ` set records. records_count records k = sum_list (map sr_test_windows new)"
      using n(4,5) by (auto split: if_splits)
    have sp: "\<forall>r \<in> set new. 2 \<le> sr_eligible_windows r \<and> sr_eligible_windows r < 2 ^ 53
         \<longrightarrow> 0 < sr_train_windows r \<and> 0 < sr_test_windows r"
    proof
      fix r assume "r \<in> set new"
      with l obtain ls where a: "scenario_accounted ?ts ls r" by (metis in_set_conv_nth list_all2_conv_all_nth)
      then show "2 \<le> sr_eligible_windows r \<and> sr_eligible_windows r < 2 ^ 53 \<longrightarrow> 0 < sr_train_windows r \<and> 0 < sr_test_windows r"
        using split_index_bounds [of "sr_eligible_windows r" ?ts] by (auto simp: scenario_accounted_def Let_def)
    qed
    have k: "fst ` set (aggregate_metrics new records) = fst ` set records" by (force simp: aggregate_metrics_def)
    have "run_benchmark E opts = Inr (benchmark_report_of opts labels new records)" by (simp add: run Inr x)
    then show ?thesis
      using n(1,4) l sp k aggregate_consistent [OF n(3) c] accounted_sums [OF n(2,1)]
      by (simp add: benchmark_report_of_def Let_def exclusions_eligible)
  qed
qed

section \<open>Unranked answers\<close>

lemma f64_exact:
  "fp_of_rat fmt64 0 = FFin 0" "fp_of_rat fmt64 1 = FFin 1" "fp_of_rat fmt64 100 = FFin 100" "fp_of_rat fmt64 100000 = FFin 100000"
  using f64_of_small [of 0] f64_of_small [of 1] f64_of_small [of 100] f64_of_small [of 100000] by simp_all

lemma half_floors: "\<lfloor>1 / 2 :: rat\<rfloor> = 0" "\<lfloor>200001 / 2 :: rat\<rfloor> = 100000"
  by (simp_all add: floor_eq_iff)

lemma pct_all:
  assumes "0 < n" "n < 2 ^ 53"
  shows "pct_f64 n n = FFin 100"
  using assms(1) by (simp add: pct_f64_def f64_of_small [OF assms(2)] f64_exact round3_f64_def half_floors)

lemma pct_none:
  assumes "n < 2 ^ 53"
  shows "pct_f64 0 n = FFin 0"
  by (simp add: pct_f64_def f64_of_small [OF assms] f64_exact round3_f64_def half_floors)

text \<open>The metrics take a wrong answer for no answer. When a predictor never ranks the app that came next, its
  windows all count as not predicted, whether it ranked other apps or none: coverage is 0 and the no-prediction
  rate 100 even if no window was left unanswered, and the wrong-prediction rate is 0.\<close>

theorem wrong_answers_count_as_no_prediction:
  assumes "rs \<noteq> []" "length rs < 2 ^ 53" "\<forall>r \<in> set rs. pc_rank r = None"
  shows "let m = compute_backend_metrics rs (length rs) in
    bm_predicted_windows m = 0 \<and> bm_prediction_coverage_pct m = FFin 0 \<and> bm_no_prediction_rate_pct m = FFin 100
    \<and> bm_wrong_prediction_rate_pct m = FFin 0 \<and> bm_noop_windows m = length (filter pc_noop rs)"
proof -
  have "filter (\<lambda>r. pc_rank r \<noteq> None) rs = []" "filter (\<lambda>r. pc_rank r = Some 1) rs = []"
    using assms(3) by (auto simp: filter_empty_conv)
  then show ?thesis
    using assms(1) pct_all [OF _ assms(2)] pct_none [OF assms(2)] pct_none [of 0]
    by (simp add: compute_backend_metrics_def Let_def)
qed

definition demo_label :: "string \<Rightarrow> string \<Rightarrow> i64 \<Rightarrow> next_app_label" where
  "demo_label current app t = \<lparr>nl_dataset_id = ''d'', nl_scenario = ''s'', nl_window_start_ms = t, nl_window_end_ms = t + 10,
     nl_prediction_horizon_ms = 30000, nl_current_app = current, nl_observable_candidates = [''b'', ''c''],
     nl_actual_next_app = Some app, nl_eligible = True, nl_excluded_reason = None\<rparr>"

definition demo_wrong :: "prediction_record" where
  "demo_wrong = record_of (demo_label ''a'' ''c'' 0) (plain_result (scored (\<lambda>_. FFin 1) [''b'']) 7)"

theorem wrong_answers_count_as_no_prediction_witness:
  "bm_no_prediction_rate_pct (compute_backend_metrics [demo_wrong] 1) = FFin 100 \<and> \<not> pc_noop demo_wrong"
proof -
  have r: "pc_rank demo_wrong = None" "\<not> pc_noop demo_wrong"
    by (simp_all add: demo_wrong_def record_of_def plain_result_def scored_def demo_label_def)
  then show ?thesis using wrong_answers_count_as_no_prediction [of "[demo_wrong]"] by (simp add: Let_def)
qed

section \<open>The trace is read as replay reads it\<close>

lemma trace_envelope_replay: "trace_envelope = replay_envelope"
proof (intro ext)
  show "trace_envelope v r = replay_envelope v r" for v r
    by (cases "Option.bind (json_get ''source'' v) json_as_str") (simp_all add: trace_envelope_def replay_envelope_def)
qed

section \<open>Hits\<close>

text \<open>C21: a hit is an app the predictor could see. For any of the twelve predictors in any trained state (the
  shuffle of the random one being a permutation), each test window gives one record, judged on that window's own
  context; where the next app is ranked, at place \<open>k\<close>, it is among the window's foreground or notified apps, is
  not the current one, and \<open>k\<close> is at most the number of candidates.\<close>

theorem benchmark_hits_are_observable:
  assumes "\<forall>r xs. mset (snd (be_shuffle E r xs)) = mset xs"
    "evaluate_predictor E contexts scenario n ls p = Inr rs"
  shows "list_all2 (\<lambda>l r. \<exists>ctx. btree_get contexts (label_key l) = Some ctx
     \<and> (\<forall>k. pc_rank r = Some k \<longrightarrow> \<not> pc_noop r \<and> 1 \<le> k
          \<and> k \<le> length (extract_observable_candidates ctx (nl_current_app l))
          \<and> (\<exists>app. nl_actual_next_app l = Some app \<and> app \<noteq> nl_current_app l
               \<and> app \<in> set (cs_foreground_apps (ctx_summary ctx)) \<union> set (cs_notified_apps (ctx_summary ctx))))) ls rs"
proof -
  have "shuffles E" using assms(1) by (simp add: shuffles_def)
  from evaluate_predictor_honest [OF this assms(2)] show ?thesis unfolding honest_record_def .
qed

section \<open>Concrete inputs\<close>

definition demo_bench_env :: "unit bench_env" where
  "demo_bench_env = \<lparr>be_lowercase = id, be_from_str = (\<lambda>s. Inr (JObject [(''rawEvent'', JBool True)])),
     be_from_value = (\<lambda>v. Inr (RawScreenState \<lparr>sse_timestamp_ms = 5, sse_state = Interactive\<rparr>)),
     be_label_of = (\<lambda>s. Inr (demo_label s ''b'' 0)), be_event_id = (\<lambda>p n. ''e''), be_window_id = (\<lambda>s a b. ''w''),
     be_file_order = id, be_candidate_order = id, be_seeded = (\<lambda>n. ()), be_shuffle = (\<lambda>r xs. (r, xs)),
     be_latency_us = (\<lambda>s p n. 7)\<rparr>"

definition demo_bench_options :: bench_options where
  "demo_bench_options = \<lparr>bo_inputs = [(''s.jsonl'', Some [Some ''{}''])], bo_labels = Some [Some ''a'', Some ''c''],
     bo_train_split = FFin (1 / 2), bo_window_secs = 10\<rparr>"

definition demo_labels :: "next_app_label list" where
  "demo_labels = [demo_label ''a'' ''b'' 0, demo_label ''c'' ''b'' 0]"

definition demo_traces :: "trace_input list" where
  "demo_traces = [\<lparr>ti_scenario = ''s'', ti_path = ''s.jsonl'', ti_lines = Some [Some ''{}'']\<rparr>]"

lemma demo_bench_loads:
  "load_labels demo_bench_env (bo_labels demo_bench_options) = Inr demo_labels"
  "input_pairs (bo_inputs demo_bench_options) = Inr demo_traces"
  "\<exists>contexts. load_contexts_by_label demo_bench_env demo_labels 10 demo_traces [] = Inr contexts"
proof -
  have t: "trim ''a'' = ''a''" "trim ''c'' = ''c''" "trim ''{}'' = ''{}''" by (simp_all add: trim_eval)
  show "load_labels demo_bench_env (bo_labels demo_bench_options) = Inr demo_labels"
    by (simp add: load_labels_def demo_bench_options_def demo_labels_def t demo_bench_env_def)
  have "file_stem ''s.jsonl'' = Some ''s''" by code_simp
  then show "input_pairs (bo_inputs demo_bench_options) = Inr demo_traces"
    by (simp add: demo_bench_options_def demo_traces_def)
  have "\<exists>ev. load_and_sanitize_trace demo_bench_env ''s.jsonl'' (Some [Some ''{}'']) = Inr [ev] \<and> se_timestamp_ms ev = 5"
    by (simp add: load_and_sanitize_trace_def t sanitize_line_def demo_bench_env_def btree_get_def
        ingress_accept_def trace_envelope_def sanitize_with_tier_def SUPPORTED_COLLECTOR_SCHEMA_def)
  then obtain ev where ev: "load_and_sanitize_trace demo_bench_env ''s.jsonl'' (Some [Some ''{}'']) = Inr [ev]" "se_timestamp_ms ev = 5"
    by blast
  have c: "\<exists>ctx. build_context_for_label demo_bench_env [ev] 10 (demo_label x ''b'' 0) = Some ctx" for x
    by (simp add: build_context_for_label_def demo_label_def ev(2) Let_def new_window_aggregator_def wa_push_def wa_close_def)
  obtain c1 c2 where "build_context_for_label demo_bench_env [ev] 10 (demo_label ''a'' ''b'' 0) = Some c1"
    "build_context_for_label demo_bench_env [ev] 10 (demo_label ''c'' ''b'' 0) = Some c2" using c by blast
  then show "\<exists>contexts. load_contexts_by_label demo_bench_env demo_labels 10 demo_traces [] = Inr contexts"
    using ev(1) by (simp add: demo_traces_def demo_labels_def demo_label_def)
qed

theorem benchmark_accounts_for_labels_witness:
  "\<exists>report. run_benchmark demo_bench_env demo_bench_options = Inr report
     \<and> br_train_windows report + br_test_windows report = 2 \<and> fst ` set (br_aggregate report) = set predictor_names"
proof -
  obtain contexts where c: "load_contexts_by_label demo_bench_env demo_labels (bo_window_secs demo_bench_options) demo_traces [] = Inr contexts"
    using demo_bench_loads(3) by (auto simp: demo_bench_options_def)
  have s: "fp_le (FFin 0) (bo_train_split demo_bench_options)" "fp_lt (bo_train_split demo_bench_options) (FFin 1)"
    by (simp_all add: demo_bench_options_def)
  note acc = benchmark_accounts_for_labels [OF s demo_bench_loads(1,2) c]
  have cov: "covers demo_traces (nl_scenario ` set demo_labels)" "demo_traces \<noteq> []"
    by (simp_all add: covers_def demo_traces_def demo_labels_def demo_label_def)
  have el: "length (filter nl_eligible demo_labels) = 2" by (simp add: demo_labels_def demo_label_def)
  from acc cov obtain report where r: "run_benchmark demo_bench_env demo_bench_options = Inr report"
    by (cases "run_benchmark demo_bench_env demo_bench_options") auto
  with acc cov el show ?thesis by (intro exI [of _ report]) simp
qed

definition demo_bench_context :: structured_context where
  "demo_bench_context = \<lparr>ctx_window_id = ''w'', ctx_window_start_ms = 0, ctx_window_end_ms = 10, ctx_duration_secs = 0,
     ctx_events = [], ctx_summary = \<lparr>cs_foreground_apps = [''a''], cs_notified_apps = [''b''], cs_all_semantic_hints = [],
       cs_file_activity = [], cs_latest_system_status = None, cs_source_tier = PublicApi\<rparr>\<rparr>"

theorem benchmark_hits_are_observable_witness:
  "\<exists>r. evaluate_predictor demo_bench_env [((''s'', 0, 10), demo_bench_context)] ''s'' 0 [demo_label ''a'' ''b'' 0]
       (GlobalMajority []) = Inr [r]
     \<and> pc_rank r = Some 1 \<and> \<not> pc_noop r"
proof -
  let ?c = "[((''s'', 0, 10), demo_bench_context)]" and ?l = "demo_label ''a'' ''b'' 0"
  have key: "label_key ?l = (''s'', 0, 10)" "nl_current_app ?l = ''a''" "nl_actual_next_app ?l = Some ''b''"
    by (simp_all add: label_key_def demo_label_def)
  have cs: "extract_observable_candidates demo_bench_context ''a'' = [''b'']"
    by (simp add: extract_observable_candidates_def demo_bench_context_def push_candidate_def)
  obtain r where r: "evaluate_predictor demo_bench_env ?c ''s'' 0 [?l] (GlobalMajority []) = Inr [r]" "pc_rank r = Some 1"
    by (simp add: key cs btree_get_def plain_result_def rank_by_counts_def scored_def sort_by_def record_of_def)
  have "\<forall>r xs. mset (snd (be_shuffle demo_bench_env r xs)) = mset xs" by (simp add: demo_bench_env_def)
  from benchmark_hits_are_observable [OF this r(1)] r show ?thesis by auto
qed

end
