(* ===== verification/Cli_Commands.thy ===== *)
theory Cli_Commands
  imports Next_App_Eval Action_Exec
begin

text \<open>
  The command line tool's own logic (\<open>aios-cli\<close>): the ping and the manual action sent to the Android bridge
  (\<open>android_bridge.rs\<close>), with the signature built over SHA-256, and from \<open>main.rs\<close> the check of the action type
  and the fixture generator. SHA-256, the clock, the socket, the UTF-8 check and \<open>serde_json\<close> are parameters;
  argument parsing (\<open>clap\<close>), logging and the files the commands write are not modelled.

  The lemmas: the signed text determines the action, the hex rendering can be read back, a ping succeeds only on
  a status \<open>ok\<close>, a manual action succeeds whatever the bridge replies, and a generated fixture is always usable.
\<close>

section \<open>The bridge client (android_bridge.rs)\<close>

record 'w bridge_env =
  cb_open :: "'w \<Rightarrow> string \<Rightarrow> u16 \<Rightarrow> string \<Rightarrow> 'w \<times> (string + read_result list)"
  cb_from_str :: "string \<Rightarrow> string + json"
  cb_utf8 :: "string \<Rightarrow> bool"
  cb_to_string :: "json \<Rightarrow> string"
  cb_clock :: "'w \<Rightarrow> string + i64"
  cb_sha256 :: "u8 list \<Rightarrow> u8 list"

datatype bridge_error =
    SocketFailed string
  | ReplyTooLong
  | ReplyTimeout string
  | ReplyFailed string
  | ReplyNotUtf8
  | ReplyNotJson
  | ReplyStatus string
  | ReplyWithoutStatus
  | ClockBeforeEpoch string

text \<open>The read loop; a connection with nothing left to read is at its end. It ends early at a complete JSON value,
  and at a timeout once there is something.\<close>

fun read_reply :: "(string \<Rightarrow> bool) \<Rightarrow> read_result list \<Rightarrow> string \<Rightarrow> bridge_error + string" where
  "read_reply is_json [] buf = Inr buf"
| "read_reply is_json (ReadOk bs # rs) buf =
     (if bs = [] then Inr buf
      else if MAX_RESPONSE_BYTES < length buf + length bs then Inl ReplyTooLong
      else if is_json (buf @ bs) then Inr (buf @ bs)
      else read_reply is_json rs (buf @ bs))"
| "read_reply is_json (ReadTimeout e # rs) buf = (if buf = [] then Inl (ReplyTimeout e) else Inr buf)"
| "read_reply is_json (ReadErr e # rs) buf = Inl (ReplyFailed e)"

definition complete_json :: "'w bridge_env \<Rightarrow> string \<Rightarrow> bool" where
  "complete_json E buf \<longleftrightarrow> cb_utf8 E buf \<and> (case cb_from_str E buf of Inr v \<Rightarrow> True | Inl e \<Rightarrow> False)"

definition exchange :: "'w bridge_env \<Rightarrow> string \<Rightarrow> u16 \<Rightarrow> string \<Rightarrow> 'w \<Rightarrow> 'w \<times> (bridge_error + string)" where
  "exchange E host port payload w = (case cb_open E w host port payload of
     (w', Inl e) \<Rightarrow> (w', Inl (SocketFailed e))
   | (w', Inr reads) \<Rightarrow> (w', case read_reply (complete_json E) reads [] of
       Inl e \<Rightarrow> Inl e
     | Inr buf \<Rightarrow> if cb_utf8 E buf then Inr buf else Inl ReplyNotUtf8))"

definition ping_payload :: "string \<Rightarrow> json" where
  "ping_payload token = JObject [(''auth_token'', JString token), (''message_type'', JString ''ping'')]"

definition ping_verdict :: "'w bridge_env \<Rightarrow> string \<Rightarrow> bridge_error + unit" where
  "ping_verdict E text = (case cb_from_str E text of
     Inl e \<Rightarrow> Inl ReplyNotJson
   | Inr v \<Rightarrow> (case Option.bind (json_get ''status'' v) json_as_str of
       Some s \<Rightarrow> if s = ''ok'' then Inr () else Inl (ReplyStatus s)
     | None \<Rightarrow> Inl ReplyWithoutStatus))"

definition send_ping :: "'w bridge_env \<Rightarrow> string \<Rightarrow> u16 \<Rightarrow> string \<Rightarrow> 'w \<Rightarrow> 'w \<times> (bridge_error + unit)" where
  "send_ping E host port token w =
     (case exchange E host port (cb_to_string E (ping_payload token)) w of
        (w', Inl e) \<Rightarrow> (w', Inl e)
      | (w', Inr text) \<Rightarrow> (w', ping_verdict E text))"

section \<open>The signature\<close>

definition BLOCK_SIZE :: nat where "BLOCK_SIZE = 64"

definition pad_block :: "u8 list \<Rightarrow> u8 list" where
  "pad_block bs = bs @ replicate (BLOCK_SIZE - length bs) 0"

definition key_block :: "(u8 list \<Rightarrow> u8 list) \<Rightarrow> u8 list \<Rightarrow> u8 list" where
  "key_block sha256 key = pad_block (if BLOCK_SIZE < length key then sha256 key else key)"

definition nibble :: "nat \<Rightarrow> char" where
  "nibble n = (if n < 10 then char_of (48 + n) else char_of (87 + n))"

definition hex_encode :: "u8 list \<Rightarrow> string" where
  "hex_encode bs = concat (map (\<lambda>b. [nibble (unat b div 16), nibble (unat b mod 16)]) bs)"

definition hmac_sha256_hex :: "(u8 list \<Rightarrow> u8 list) \<Rightarrow> u8 list \<Rightarrow> u8 list \<Rightarrow> string" where
  "hmac_sha256_hex sha256 key message =
     (let k = key_block sha256 key;
          inner = sha256 (map (\<lambda>b. 0x36 XOR b) k @ message)
      in hex_encode (sha256 (map (\<lambda>b. 0x5c XOR b) k @ inner)))"

definition action_canonical :: "i64 \<Rightarrow> i64 \<Rightarrow> string \<Rightarrow> string \<Rightarrow> string \<Rightarrow> string" where
  "action_canonical issued expires action_type target urgency =
     ''dipecs.android.action.v1'' @ newline # ''issued_at_ms:'' @ show_int issued
       @ newline # ''expires_at_ms:'' @ show_int expires
       @ newline # ''action_type:'' @ show_nat (length action_type) @ '':'' @ action_type
       @ newline # ''target:'' @ show_nat (length target) @ '':'' @ target
       @ newline # ''urgency:'' @ show_nat (length urgency) @ '':'' @ urgency"

definition action_signature :: "(u8 list \<Rightarrow> u8 list) \<Rightarrow> string \<Rightarrow> i64 \<Rightarrow> i64 \<Rightarrow> string \<Rightarrow> string \<Rightarrow> string \<Rightarrow> string" where
  "action_signature sha256 token issued expires action_type target urgency =
     hmac_sha256_hex sha256 (map of_char token)
       (map of_char (action_canonical issued expires action_type target urgency))"

text \<open>The text the collector app rebuilds to check the signature (\<open>AuthorizedActionSocketServer.kt\<close>): Kotlin's
  \<open>length\<close> counts the UTF-16 units of the decoded text, one for a character below \<open>U+10000\<close>, two for the others.\<close>

definition utf16_length :: "string \<Rightarrow> nat" where
  "utf16_length s = sum_list (map (\<lambda>ch. if utf8_decode ch < 0x10000 then 1 else 2) (utf8_split s))"

definition collector_canonical :: "i64 \<Rightarrow> i64 \<Rightarrow> string \<Rightarrow> string \<Rightarrow> string \<Rightarrow> string" where
  "collector_canonical issued expires action_type target urgency =
     ''dipecs.android.action.v1'' @ newline # ''issued_at_ms:'' @ show_int issued
       @ newline # ''expires_at_ms:'' @ show_int expires
       @ newline # ''action_type:'' @ show_nat (utf16_length action_type) @ '':'' @ action_type
       @ newline # ''target:'' @ show_nat (utf16_length target) @ '':'' @ target
       @ newline # ''urgency:'' @ show_nat (utf16_length urgency) @ '':'' @ urgency"

section \<open>The manual action\<close>

definition json_i64 :: "i64 \<Rightarrow> json" where
  "json_i64 n = JNumber (if 0 \<le> n then PosInt (of_int n) else NegInt n)"

definition action_payload :: "(u8 list \<Rightarrow> u8 list) \<Rightarrow> string \<Rightarrow> i64 \<Rightarrow> i64 \<Rightarrow> string \<Rightarrow> string \<Rightarrow> string \<Rightarrow> json" where
  "action_payload sha256 token issued expires action_type target urgency = JObject
     [(''action'', JObject [(''action_type'', JString action_type),
         (''target'', if target = [] then JNull else JString target), (''urgency'', JString urgency)]),
      (''action_signature'', JString (action_signature sha256 token issued expires action_type target urgency)),
      (''auth_token'', JString token),
      (''authorized_at_ms'', json_i64 issued),
      (''coord'', JObject [(''action_ordinal'', json_i64 0), (''intent_ordinal'', json_i64 0), (''window_ordinal'', json_i64 0)]),
      (''effect'', JString ''PureRead''),
      (''expires_at_ms'', json_i64 expires),
      (''intent_id'', JString ''cli-manual-action''),
      (''issued_at_ms'', json_i64 issued)]"

definition ACTION_PAYLOAD_TTL_MS :: i64 where "ACTION_PAYLOAD_TTL_MS = 60000"

definition send_action :: "'w bridge_env \<Rightarrow> string \<Rightarrow> u16 \<Rightarrow> string \<Rightarrow> string \<Rightarrow> string \<Rightarrow> string \<Rightarrow> 'w
    \<Rightarrow> 'w \<times> (bridge_error + unit)" where
  "send_action E host port token action_type target urgency w = (case cb_clock E w of
     Inl e \<Rightarrow> (w, Inl (ClockBeforeEpoch e))
   | Inr issued \<Rightarrow>
       (let expires = i64_wrap (issued + ACTION_PAYLOAD_TTL_MS) in
        case exchange E host port (cb_to_string E (action_payload (cb_sha256 E) token issued expires action_type target urgency)) w of
          (w', Inl e) \<Rightarrow> (w', Inl e)
        | (w', Inr text) \<Rightarrow> (w', Inr ())))"

datatype cli_error =
    UnknownActionType string
  | BridgeFailed bridge_error
  | FileUnreadable string
  | FieldMissing string
  | FixtureInvalid string

definition valid_action_types :: "string list" where
  "valid_action_types = [''NoOp'', ''PrefetchFile'', ''KeepAlive'', ''ReleaseMemory'', ''PreWarmProcess'']"

definition send_action_command :: "'w bridge_env \<Rightarrow> string \<Rightarrow> u16 \<Rightarrow> string \<Rightarrow> string \<Rightarrow> string \<Rightarrow> string \<Rightarrow> 'w
    \<Rightarrow> 'w \<times> (cli_error + unit)" where
  "send_action_command E host port token action_type target urgency w =
     (if action_type \<notin> set valid_action_types then (w, Inl (UnknownActionType action_type))
      else map_prod id (map_sum BridgeFailed id) (send_action E host port token action_type target urgency w))"

definition send_ping_command :: "'w bridge_env \<Rightarrow> string \<Rightarrow> u16 \<Rightarrow> string option \<Rightarrow> 'w \<Rightarrow> 'w \<times> (cli_error + unit)" where
  "send_ping_command E host port token w =
     map_prod id (map_sum BridgeFailed id) (send_ping E host port (text_or '''' token) w)"

section \<open>The fixture generator (main.rs)\<close>

fun json_as_array :: "json \<Rightarrow> json list option" where
  "json_as_array (JArray vs) = Some vs"
| "json_as_array _ = None"

fun json_as_u64 :: "json \<Rightarrow> u64 option" where
  "json_as_u64 (JNumber (PosInt n)) = Some n"
| "json_as_u64 _ = None"

fun json_as_f64 :: "json \<Rightarrow> f64 option" where
  "json_as_f64 (JNumber (PosInt n)) = Some (f64_of_nat (unat n))"
| "json_as_f64 (JNumber (NegInt n)) = Some (f64_lit (of_int n))"
| "json_as_f64 (JNumber (NumFloat x)) = Some x"
| "json_as_f64 _ = None"

fun json_path :: "string list \<Rightarrow> json \<Rightarrow> json option" where
  "json_path [] v = Some v"
| "json_path (k # ks) v = Option.bind (json_get k v) (json_path ks)"

definition run_of :: "string \<Rightarrow> json list \<Rightarrow> json option" where
  "run_of mode runs = find (\<lambda>run. Option.bind (json_get ''mode'' run) json_as_str = Some mode) runs"

definition samples_of :: "string \<Rightarrow> json list \<Rightarrow> usize option" where
  "samples_of mode runs = map_option length (Option.bind (Option.bind (run_of mode runs) (json_get ''samples'')) json_as_array)"

definition startup_samples :: "json \<Rightarrow> usize option" where
  "startup_samples ux = Option.bind (Option.bind (json_get ''runs'' ux) json_as_array) (\<lambda>runs.
     Option.bind (samples_of ''cold_startup'' runs) (\<lambda>n.
       map_option (\<lambda>k. n + k) (samples_of ''prewarm_startup'' runs)))"

definition p95_of :: "string \<Rightarrow> json list \<Rightarrow> f64 option" where
  "p95_of mode runs = Option.bind (Option.bind (run_of mode runs) (json_path [''summary'', ''p95_startup_total_time_ms''])) json_as_f64"

definition startup_p95_delta :: "json \<Rightarrow> f64 option" where
  "startup_p95_delta ux = Option.bind (Option.bind (json_get ''runs'' ux) json_as_array) (\<lambda>runs.
     Option.bind (p95_of ''cold_startup'' runs) (\<lambda>a.
       map_option (\<lambda>b. fp_max (fp_sub fmt64 a b) (FFin 0)) (p95_of ''prewarm_startup'' runs)))"

record fixture_options =
  fo_report_path :: string
  fo_ux_path :: string
  fo_dataset_id :: string
  fo_wasted_ms :: f64
  fo_wasted_samples :: usize
  fo_wasted_p95_ms :: "f64 option"
  fo_dipecs_ms :: f64
  fo_dipecs_samples :: usize
  fo_strong_ms :: f64
  fo_strong_samples :: usize

definition given_value :: "f64 \<Rightarrow> f64 option \<Rightarrow> usize \<Rightarrow> string \<Rightarrow> string \<Rightarrow> string \<Rightarrow> string \<Rightarrow> measured_value" where
  "given_value mean p95 samples kind path field note =
     \<lparr>mv_mean_ms = mean, mv_p95_ms = p95, mv_samples = samples,
      mv_source = \<lparr>ms_kind = kind, ms_path = path, ms_field = Some field, ms_note = Some note\<rparr>\<rparr>"

definition fixture_inputs :: "fixture_options \<Rightarrow> string \<Rightarrow> usize \<Rightarrow> f64 \<Rightarrow> json \<Rightarrow> fixture_build_inputs" where
  "fixture_inputs o' split examples saved ux =
     (let explicit = ''Provided explicitly to offline fixture generator'' in
      \<lparr>fb_dataset_id = fo_dataset_id o', fb_status = ''generated_from_offline_measurements'',
       fb_trace = \<lparr>nt_source = fo_report_path o', nt_split = split, nt_examples = examples\<rparr>,
       fb_prewarm_saved = given_value saved (startup_p95_delta ux)
         (case startup_samples ux of Some n \<Rightarrow> n | None \<Rightarrow> 1) ''measured_android_emulator_total_time'' (fo_ux_path o')
         ''ux_deltas.prewarm_vs_cold.startup_total_time_ms_reduction'' ''Loaded from committed UX metrics fixture'',
       fb_wasted_prewarm = given_value (fo_wasted_ms o') (fo_wasted_p95_ms o') (fo_wasted_samples o')
         ''offline_measured_wasted_prewarm_cost'' (fo_report_path o') ''cli.--wasted-prewarm-ms'' explicit,
       fb_dipecs_control_plane = given_value (fo_dipecs_ms o') None (fo_dipecs_samples o')
         ''offline_measured_control_plane_cost'' (fo_report_path o') ''cli.--dipecs-control-plane-ms'' explicit,
       fb_strong_control_plane = given_value (fo_strong_ms o') None (fo_strong_samples o')
         ''offline_measured_or_favorable_baseline_control_plane_cost'' (fo_report_path o')
         ''cli.--strong-control-plane-ms'' explicit\<rparr>)"

text \<open>The two files as parsed: an error is a file that cannot be opened or is no JSON.\<close>

definition generate_fixture :: "fixture_options \<Rightarrow> string + json \<Rightarrow> string + json \<Rightarrow> cli_error + prewarm_fixture" where
  "generate_fixture o' report_file ux_file = (case report_file of
     Inl e \<Rightarrow> Inl (FileUnreadable e)
   | Inr report \<Rightarrow> (case ux_file of
       Inl e \<Rightarrow> Inl (FileUnreadable e)
     | Inr ux \<Rightarrow> (case Option.bind (json_get ''split'' report) json_as_str of
         None \<Rightarrow> Inl (FieldMissing ''report.split missing'')
       | Some split \<Rightarrow> (case Option.bind (json_get ''test_examples'' report) json_as_u64 of
           None \<Rightarrow> Inl (FieldMissing ''report.test_examples missing'')
         | Some examples \<Rightarrow>
             (case Option.bind (json_path [''ux_deltas'', ''prewarm_vs_cold'', ''startup_total_time_ms_reduction''] ux) json_as_f64 of
                None \<Rightarrow> Inl (FieldMissing ''ux_deltas.prewarm_vs_cold.startup_total_time_ms_reduction missing'')
              | Some saved \<Rightarrow> map_sum FixtureInvalid id
                  (build_fixture (fixture_inputs o' split (unat examples) saved ux)))))))"

section \<open>The signed text\<close>

text \<open>A length-prefixed field with whatever follows it.\<close>

lemma same_field:
  "show_nat a @ CHR '':'' # x @ r = show_nat b @ CHR '':'' # y @ r' \<longleftrightarrow> a = b \<and> x @ r = y @ r'"
  using split_at_delim [OF show_nat_no_colon show_nat_no_colon, of a "x @ r" b "y @ r'"] by auto

lemma prefixed_field:
  "show_nat (length x) @ CHR '':'' # x @ r = show_nat (length y) @ CHR '':'' # y @ r' \<longleftrightarrow> x = y \<and> r = r'"
  by (auto simp: same_field)

lemma stamped_line:
  "show_int i @ newline # r = show_int j @ newline # r' \<longleftrightarrow> i = j \<and> r = r'"
  using split_at_delim [OF show_int_no_newline show_int_no_newline, of i r j r'] by auto

lemma action_canonical_inj:
  "action_canonical i e t g u = action_canonical i' e' t' g' u' \<longleftrightarrow> i = i' \<and> e = e' \<and> t = t' \<and> g = g' \<and> u = u'"
  using prefixed_field [of u "[]" u' "[]"]
  by (auto simp: action_canonical_def stamped_line prefixed_field)

lemma utf16_length_Cons:
  "utf16_length (b # bs) = (if utf8_decode (b # take (utf8_width b - 1) bs) < 0x10000 then 1 else 2)
     + utf16_length (drop (utf8_width b - 1) bs)"
  by (simp add: utf16_length_def Let_def)

text \<open>A character of one byte is one unit, a longer one has fewer units than bytes.\<close>

lemma valid_char_units:
  assumes "valid_utf8_char ch"
  shows "(if utf8_decode ch < 0x10000 then 1 else 2 :: nat) \<le> length ch"
    and "(if utf8_decode ch < 0x10000 then 1 else 2) = length ch \<longleftrightarrow> is_ascii ch"
  using assms
  by (auto simp: valid_utf8_char_def utf8_decode_def is_ascii_def is_cont_def Let_def split: list.splits if_splits)

lemma utf16_length_valid:
  "valid_utf8 s \<Longrightarrow> utf16_length s \<le> length s \<and> (utf16_length s = length s \<longleftrightarrow> is_ascii s)"
proof (induction s rule: utf8_split.induct)
  case (2 b bs)
  let ?k = "utf8_width b - 1"
  have v: "valid_utf8_char (b # take ?k bs)" "valid_utf8 (drop ?k bs)"
    using "2.prems" by (simp_all add: valid_utf8_def Let_def)
  have l: "length (b # bs) = length (b # take ?k bs) + length (drop ?k bs)" by simp
  have a: "is_ascii (b # bs) \<longleftrightarrow> is_ascii (b # take ?k bs) \<and> is_ascii (drop ?k bs)"
    using append_take_drop_id [of ?k bs] unfolding is_ascii_def by (metis list_all_append append_Cons)
  show ?case
    unfolding utf16_length_Cons l a using "2.IH" [OF refl v(2)] valid_char_units [OF v(1)] by linarith
qed (simp_all add: utf16_length_def is_ascii_def)

lemma texts_agree:
  "action_canonical i e t g u = collector_canonical i e t g u
     \<longleftrightarrow> utf16_length t = length t \<and> utf16_length g = length g \<and> utf16_length u = length u"
  using same_field [of "length u" u "[]" "utf16_length u" u "[]"]
  by (auto simp: action_canonical_def collector_canonical_def same_field)

text \<open>C34: the tool and the device sign the same text exactly for ASCII fields. The tool counts the bytes of
  action type, target and urgency, the collector app the UTF-16 units of the decoded texts. For fields that are
  UTF-8, as every Rust string is, the two signed texts are equal when all three fields are ASCII, and different
  as soon as one holds another character: its signature is then made over a text the device does not build.\<close>

theorem signature_text_agrees:
  assumes "valid_utf8 t" "valid_utf8 g" "valid_utf8 u"
  shows "action_canonical i e t g u = collector_canonical i e t g u \<longleftrightarrow> is_ascii t \<and> is_ascii g \<and> is_ascii u"
  using assms utf16_length_valid by (simp add: texts_agree)

text \<open>The target \<open>e\<close> with an acute accent.\<close>

theorem signature_text_agrees_witness:
  "action_canonical 1 2 ''KeepAlive'' ''pkg:com.mail'' ''Immediate'' = collector_canonical 1 2 ''KeepAlive'' ''pkg:com.mail'' ''Immediate''
   \<and> action_canonical 1 2 ''KeepAlive'' [CHR 0xC3, CHR 0xA9] ''Immediate''
       \<noteq> collector_canonical 1 2 ''KeepAlive'' [CHR 0xC3, CHR 0xA9] ''Immediate''"
proof -
  have "valid_utf8 ''KeepAlive''" "valid_utf8 ''pkg:com.mail''" "valid_utf8 ''Immediate''" "valid_utf8 [CHR 0xC3, CHR 0xA9]"
    "is_ascii ''KeepAlive''" "is_ascii ''pkg:com.mail''" "is_ascii ''Immediate''" "\<not> is_ascii [CHR 0xC3, CHR 0xA9]"
    by code_simp+
  then show ?thesis by (simp only: signature_text_agrees simp_thms)
qed

text \<open>The manual action is not signed as the adapter signs its actions.\<close>

lemma not_the_adapters_text: "action_canonical i e t g u \<noteq> canonical_execute_envelope_input i' e' a"
  by (simp add: action_canonical_def canonical_execute_envelope_input_def)

section \<open>Hex\<close>

definition hex_value :: "char \<Rightarrow> nat" where
  "hex_value c = (let n = of_char c :: nat in if n < 58 then n - 48 else n - 87)"

fun hex_decode :: "string \<Rightarrow> u8 list" where
  "hex_decode (a # b # s) = of_nat (16 * hex_value a + hex_value b) # hex_decode s"
| "hex_decode _ = []"

lemma hex_value_nibble: "n < 16 \<Longrightarrow> hex_value (nibble n) = n"
  by (simp add: hex_value_def nibble_def Let_def of_char_of)

lemma hex_decode_encode [simp]: "hex_decode (hex_encode bs) = bs"
proof (induction bs)
  case (Cons b bs)
  have "unat b < 256" using unsigned_less [of b, where 'a = nat] by simp
  then have "unat b div 16 < 16" by simp
  then have "hex_decode (hex_encode (b # bs)) = of_nat (16 * (unat b div 16) + unat b mod 16) # hex_decode (hex_encode bs)"
    by (simp add: hex_encode_def hex_value_nibble)
  also have "16 * (unat b div 16) + unat b mod 16 = unat b" by simp
  finally show ?case using Cons.IH by simp
qed (simp add: hex_encode_def)

lemma hmac_key_padding:
  assumes "length key + n \<le> BLOCK_SIZE"
  shows "hmac_sha256_hex sha256 (key @ replicate n 0) m = hmac_sha256_hex sha256 key m"
proof -
  have "pad_block (key @ replicate n 0) = pad_block key"
    using assms by (simp add: pad_block_def replicate_add [symmetric])
  moreover have "\<not> BLOCK_SIZE < length (key @ replicate n 0)" "\<not> BLOCK_SIZE < length key" using assms by simp_all
  ultimately show ?thesis by (simp add: hmac_sha256_hex_def key_block_def)
qed

section \<open>Replies\<close>

lemma read_reply_bound: "read_reply f rs buf = Inr out \<Longrightarrow> length buf \<le> MAX_RESPONSE_BYTES \<Longrightarrow> length out \<le> MAX_RESPONSE_BYTES"
  by (induction f rs buf rule: read_reply.induct) (auto split: if_splits)

text \<open>A ping succeeds only when the device answered it. Success means that the socket delivered a reply of at
  most 4096 bytes which is UTF-8 and a JSON value whose \<open>status\<close> is the string \<open>ok\<close>; anything else, an empty
  answer included, is an error.\<close>

theorem ping_needs_ok:
  assumes "send_ping E host port token w = (w', Inr ())"
  shows "\<exists>reads text v. cb_open E w host port (cb_to_string E (ping_payload token)) = (w', Inr reads)
     \<and> read_reply (complete_json E) reads [] = Inr text \<and> length text \<le> MAX_RESPONSE_BYTES \<and> cb_utf8 E text
     \<and> cb_from_str E text = Inr v \<and> json_get ''status'' v = Some (JString ''ok'')"
proof -
  from assms obtain answer where x: "exchange E host port (cb_to_string E (ping_payload token)) w = (w', Inr answer)"
    "ping_verdict E answer = Inr ()"
    by (auto simp: send_ping_def split: prod.splits sum.splits)
  from x(1) obtain reads where r: "cb_open E w host port (cb_to_string E (ping_payload token)) = (w', Inr reads)"
    "read_reply (complete_json E) reads [] = Inr answer" "cb_utf8 E answer"
    by (auto simp: exchange_def split: prod.splits sum.splits if_splits)
  from x(2) obtain v where "cb_from_str E answer = Inr v" "Option.bind (json_get ''status'' v) json_as_str = Some ''ok''"
    by (auto simp: ping_verdict_def split: sum.splits option.splits if_splits)
  moreover from this have "json_get ''status'' v = Some (JString ''ok'')"
    by (auto simp: bind_eq_Some_conv elim: json_as_str.elims)
  ultimately show ?thesis using r read_reply_bound [OF r(2)] by auto
qed

text \<open>A manual action reports success whatever the device replies. With a clock and a connection, sending an
  action of a known type succeeds for every UTF-8 reply of at most 4096 bytes, be it a rejection, an error
  status, not JSON at all, or empty.\<close>

theorem manual_action_ignores_reply:
  assumes "action_type \<in> set valid_action_types" "cb_clock E w = Inr issued"
    "\<And>payload. cb_open E w host port payload = (w', Inr (if reply = [] then [] else [ReadOk reply]))"
    "length reply \<le> MAX_RESPONSE_BYTES" "cb_utf8 E reply"
  shows "send_action_command E host port token action_type target urgency w = (w', Inr ())"
proof -
  have "read_reply (complete_json E) (if reply = [] then [] else [ReadOk reply]) [] = Inr reply"
    using assms(4) by simp
  then have "exchange E host port payload w = (w', Inr reply)" for payload
    using assms(3,5) by (simp add: exchange_def)
  then show ?thesis using assms(1,2) by (simp add: send_action_command_def send_action_def Let_def)
qed

section \<open>Generated fixtures\<close>

lemma map_sum_id_Inr: "map_sum g id x = Inr y \<longleftrightarrow> x = Inr y"
  by (cases x) auto

lemma validate_measured_name: "validate_measured name v = None \<longleftrightarrow> validate_measured name' v = None"
  by (simp add: validate_measured_def validate_source_def first_error_None)

text \<open>A generated fixture can always be used. What the generator returns passes the fixture's own validation, and
  the measured net benefit computed from it, for DiPECS and for the baseline, at any hit rate and any number of
  examples, is a value, never a validation error. Its trace size is the report's number of test examples.\<close>

theorem generated_fixture_usable:
  assumes "generate_fixture opts (Inr report) (Inr ux) = Inr f"
  shows "validate_fixture f = None
     \<and> json_get ''test_examples'' report = Some (JNumber (PosInt (of_nat (nt_examples (fx_trace f)))))
     \<and> 0 < nt_examples (fx_trace f)
     \<and> compute_measured_net_benefit (dipecs_inputs f hit) n = Inr (compute_net_benefit (inputs_of_measured (dipecs_inputs f hit)) n)
     \<and> compute_measured_net_benefit (strong_baseline_inputs f hit) n
         = Inr (compute_net_benefit (inputs_of_measured (strong_baseline_inputs f hit)) n)"
proof -
  from assms obtain split examples saved where x: "Option.bind (json_get ''test_examples'' report) json_as_u64 = Some examples"
    "build_fixture (fixture_inputs opts split (unat examples) saved ux) = Inr f"
    by (auto simp: generate_fixture_def map_sum_id_Inr split: option.splits)
  from x(2) have v: "validate_fixture f = None" "nt_examples (fx_trace f) = unat examples"
    by (auto simp: build_fixture_def fixture_inputs_def Let_def split: option.splits)
  from x(1) have "json_get ''test_examples'' report = Some (JNumber (PosInt examples))"
    by (auto simp: bind_eq_Some_conv elim: json_as_u64.elims)
  moreover have "0 < nt_examples (fx_trace f)"
    using v(1) by (auto simp: validate_fixture_def first_error_None Let_def)
  moreover have "validate_measured name (pm_prewarm_saved (fx_measurements f)) = None"
    "validate_measured name (pm_wasted_prewarm (fx_measurements f)) = None"
    "validate_measured name (cm_dipecs (pm_control_plane (fx_measurements f))) = None"
    "validate_measured name (cm_strong_baseline (pm_control_plane (fx_measurements f))) = None" for name
    using v(1) validate_measured_name [of name]
    by (auto simp: validate_fixture_def first_error_None Let_def)
  ultimately show ?thesis
    using v by (simp add: compute_measured_net_benefit_def dipecs_inputs_def strong_baseline_inputs_def Let_def first_error_None)
qed

section \<open>Concrete inputs\<close>

definition demo_fixture_options :: fixture_options where
  "demo_fixture_options = \<lparr>fo_report_path = ''r'', fo_ux_path = ''u'', fo_dataset_id = ''d'', fo_wasted_ms = FFin 12,
     fo_wasted_samples = 3, fo_wasted_p95_ms = None, fo_dipecs_ms = FFin 2, fo_dipecs_samples = 5, fo_strong_ms = FFin 0,
     fo_strong_samples = 1\<rparr>"

definition demo_report_json :: json where
  "demo_report_json = JObject [(''split'', JString ''Standard''), (''test_examples'', JNumber (PosInt 10))]"

definition demo_ux_json :: json where
  "demo_ux_json = JObject [(''ux_deltas'', JObject [(''prewarm_vs_cold'',
     JObject [(''startup_total_time_ms_reduction'', JNumber (NumFloat (FFin 40)))])])]"

lemma demo_kinds:
  "\<not> str_contains (to_ascii_lowercase k) ''placeholder'' \<and> \<not> str_contains (to_ascii_lowercase k) ''synthetic_constant''"
  if "k \<in> {''measured_android_emulator_total_time'', ''offline_measured_wasted_prewarm_cost'',
    ''offline_measured_control_plane_cost'', ''offline_measured_or_favorable_baseline_control_plane_cost'',
    ''generated_from_offline_measurements''}"
  using that by (elim insertE emptyE; (simp only:); code_simp)

lemma demo_trims: "trim k \<noteq> []"
  if "k \<in> {''measured_android_emulator_total_time'', ''offline_measured_wasted_prewarm_cost'',
    ''offline_measured_control_plane_cost'', ''offline_measured_or_favorable_baseline_control_plane_cost'',
    ''r'', ''u'', ''d'', ''Standard''}"
  using that by (auto simp: trim_eval)

lemma demo_generated: "\<exists>f. generate_fixture demo_fixture_options (Inr demo_report_json) (Inr demo_ux_json) = Inr f"
proof -
  let ?i = "fixture_inputs demo_fixture_options ''Standard'' (unat (10 :: u64)) (FFin 40) demo_ux_json"
  have v: "validate_measured name (given_value m None n kind path field nt) = None"
    if "n \<noteq> 0" "trim kind \<noteq> []" "trim path \<noteq> []" "\<not> bad_ms m"
      "\<not> str_contains (to_ascii_lowercase kind) ''placeholder'' \<and> \<not> str_contains (to_ascii_lowercase kind) ''synthetic_constant''"
    for name m n kind path field nt
    using that by (simp add: validate_measured_def validate_source_def first_error_None given_value_def)
  have p: "startup_p95_delta demo_ux_json = None" "startup_samples demo_ux_json = None"
    by (simp_all add: startup_p95_delta_def startup_samples_def demo_ux_json_def btree_get_def)
  have b: "\<not> bad_ms (FFin 40)" "\<not> bad_ms (FFin 12)" "\<not> bad_ms (FFin 2)" "\<not> bad_ms (FFin 0)" by (simp_all add: bad_ms_def)
  have "\<exists>f. build_fixture ?i = Inr f"
    unfolding build_fixture_def fixture_inputs_def demo_fixture_options_def Let_def p
    by (simp add: validate_fixture_def check_def Let_def demo_trims demo_kinds b v)
  then show ?thesis
    by (auto simp: generate_fixture_def demo_report_json_def demo_ux_json_def [abs_def] btree_get_def)
qed

theorem generated_fixture_usable_witness:
  "\<exists>f. generate_fixture demo_fixture_options (Inr demo_report_json) (Inr demo_ux_json) = Inr f \<and> 0 < nt_examples (fx_trace f)
     \<and> (\<exists>r. compute_measured_net_benefit (dipecs_inputs f (FFin 50)) 10 = Inr r)"
proof -
  obtain f where f: "generate_fixture demo_fixture_options (Inr demo_report_json) (Inr demo_ux_json) = Inr f"
    using demo_generated by blast
  from generated_fixture_usable [OF f, of "FFin 50" 10] f show ?thesis by blast
qed

end
