(* ===== verification/Daemon_Startup.thy ===== *)
theory Daemon_Startup
  imports Daemon_Pipeline Cloud_Client Predictive_Backend Action_Exec
begin

text \<open>
  How \<open>dipecsd\<close> is put together (\<open>aios-daemon/src/lib.rs\<close>): what the environment variables and the arguments
  select, and the run of the processing loop over it, with \<open>AndroidBridgeConfig::from_env\<close>
  (\<open>aios-action/src/android_adapter.rs\<close>) and \<open>ModelMemoryConfig::from_env\<close> (\<open>aios-core/src/context_memory.rs\<close>).
  The fork, the signal handlers, the spawned task and logging are not modelled; what the files, the network and
  the device answer are the fields of \<open>startup_env\<close>.

  The lemmas: a daemon that was not given the bridge and the cloud is the same whatever both would answer, its
  memory stays well-formed whatever the environment says, and a bridge without a token is never contacted.
\<close>

section \<open>The adapter's configuration (android_adapter.rs)\<close>

definition DEFAULT_ANDROID_ACTION_BRIDGE_PORT :: u16 where "DEFAULT_ANDROID_ACTION_BRIDGE_PORT = 46321"

definition env_flag :: "environment \<Rightarrow> string \<Rightarrow> bool" where
  "env_flag env name = (case env name of
     Some v \<Rightarrow> v \<in> {''1'', ''true'', ''TRUE'', ''yes'', ''YES'', ''on'', ''ON''}
   | None \<Rightarrow> False)"

definition parse_u16 :: "string \<Rightarrow> u16 option" where
  "parse_u16 s = map_option of_nat (parse_uint (2 ^ 16) s)"

definition parse_usize :: "string \<Rightarrow> usize option" where
  "parse_usize s = parse_uint (2 ^ 64) s"

definition bridge_from_env :: "environment \<Rightarrow> android_bridge_config option" where
  "bridge_from_env env =
     (if \<not> env_flag env ''DIPECS_ANDROID_ACTION_BRIDGE_ENABLED'' then None
      else Some
        \<lparr>abc_host = (case nonblank (env ''DIPECS_ANDROID_ACTION_BRIDGE_HOST'') of Some h \<Rightarrow> h | None \<Rightarrow> ''127.0.0.1''),
         abc_port = (case Option.bind (env ''DIPECS_ANDROID_ACTION_BRIDGE_PORT'') parse_u16 of
            Some p \<Rightarrow> p | None \<Rightarrow> DEFAULT_ANDROID_ACTION_BRIDGE_PORT),
         abc_auth_key = nonblank (env ''DIPECS_ANDROID_ACTION_BRIDGE_TOKEN'')\<rparr>)"

section \<open>The memory's configuration (context_memory.rs)\<close>

text \<open>A variable that is unset or does not parse leaves the default.\<close>

definition env_or :: "'a \<Rightarrow> (string \<Rightarrow> 'a option) \<Rightarrow> environment \<Rightarrow> string \<Rightarrow> 'a" where
  "env_or d parse env name = (case Option.bind (env name) parse of Some v \<Rightarrow> v | None \<Rightarrow> d)"

definition memory_config_from_env :: "environment \<Rightarrow> memory_config" where
  "memory_config_from_env env =
     \<lparr>mc_recent_limit = clamp 1 50 (env_or 5 parse_usize env ''DIPECS_MODEL_MEMORY_RECENT_WINDOWS''),
      mc_top_limit = clamp 1 32 (env_or 8 parse_usize env ''DIPECS_MODEL_MEMORY_TOP_K''),
      mc_momentum_decay_milli = clamp 0 999 (env_or 900 parse_u16 env ''DIPECS_MODEL_MEMORY_MOMENTUM_DECAY_MILLI''),
      mc_prewarm_effect_windows = clamp 1 20 (env_or 3 parse_u8 env ''DIPECS_PREWARM_EFFECT_WINDOWS''),
      mc_persist_path = nonblank (env ''DIPECS_MODEL_MEMORY_PATH'')\<rparr>"

section \<open>Arguments and variables of the daemon (lib.rs)\<close>

definition WINDOW_DURATION_SECS :: u64 where "WINDOW_DURATION_SECS = 10"

definition profile_summary_interval_windows :: "environment \<Rightarrow> u32" where
  "profile_summary_interval_windows env =
     (case Option.bind (env ''DIPECS_PROFILE_SUMMARY_INTERVAL_WINDOWS'') parse_u32 of
        Some n \<Rightarrow> if 0 < n then n else 10
      | None \<Rightarrow> 10)"

text \<open>\<open>args.windows(2).find(|pair| pair[0] == flag)\<close>: what follows the flag, another flag included.\<close>

fun arg_value :: "string \<Rightarrow> string list \<Rightarrow> string option" where
  "arg_value flag (a # b # rest) = (if a = flag then Some b else arg_value flag (b # rest))"
| "arg_value flag _ = None"

definition android_trace_jsonl_path :: "environment \<Rightarrow> string list \<Rightarrow> string option" where
  "android_trace_jsonl_path env args = (case arg_value ''--android-trace-jsonl'' args of
     Some p \<Rightarrow> Some p
   | None \<Rightarrow> nonblank (env ''DIPECS_ANDROID_TRACE_JSONL''))"

definition runtime_trace_output_path :: "environment \<Rightarrow> string list \<Rightarrow> string option" where
  "runtime_trace_output_path env args = (case arg_value ''--trace-output'' args of
     Some p \<Rightarrow> Some p
   | None \<Rightarrow> nonblank (env ''DIPECS_RUNTIME_TRACE_OUTPUT''))"

section \<open>Assembly (lib.rs, run)\<close>

record 's startup_env =
  su_cloud :: cloud_env
  su_bridge :: "'s android_env"
  su_libm :: libm
  su_load_artifact :: "string \<Rightarrow> string + next_app_artifact"
  su_load_memory :: "string \<Rightarrow> string + model_memory"
  su_create_trace :: "string \<Rightarrow> string option"
  su_candidate_order :: candidate_order
  su_now_ms :: i64

definition daemon_config_of :: "'s startup_env \<Rightarrow> environment \<Rightarrow> (backend_world, 's) daemon_config" where
  "daemon_config_of S env =
     \<lparr>dc_router = router_new (su_cloud S) (su_candidate_order S)
        (predictive_from_path (su_libm S) (su_load_artifact S)) env default_router_config,
      dc_adapter = (case bridge_from_env env of
         Some cfg \<Rightarrow> android_execute (su_bridge S) cfg
       | None \<Rightarrow> default_execute),
      dc_policy = default_policy_config,
      dc_memory_config = memory_config_from_env env\<rparr>"

text \<open>The initial state; the summarizer's configuration and the trace file are what can fail. \<open>disk\<close> is what
  the memory file holds.\<close>

definition daemon_start :: "'s startup_env \<Rightarrow> environment \<Rightarrow> string list \<Rightarrow> backend_world \<Rightarrow> 's \<Rightarrow> disk
    \<Rightarrow> string + (backend_world, 's) daemon_state" where
  "daemon_start S env args w s disk = (case summarizer_from_env (su_cloud S) env of
     Inl e \<Rightarrow> Inl (''profile summarizer configuration failed: '' @ e)
   | Inr summarizer \<Rightarrow>
       (let state = \<lambda>trace.
          \<lparr>ds_backends = (w, []), ds_adapter_state = s,
           ds_memory = load_or_default (su_load_memory S) (memory_config_from_env env),
           ds_worker = Some (new_summary_worker (summarizer \<noteq> None) (profile_summary_interval_windows env)),
           ds_disk = disk, ds_trace = trace, ds_decisions = []\<rparr>
        in case runtime_trace_output_path env args of
             None \<Rightarrow> Inr (state None)
           | Some path \<Rightarrow> (case su_create_trace S path of
               Some e \<Rightarrow> Inl (''opening daemon runtime trace output '' @ path @ '' failed: '' @ e)
             | None \<Rightarrow> Inr (state (Some [])))))"

text \<open>The daemon from its start: \<open>deadline\<close> is the first window's.\<close>

definition daemon_run :: "(string \<Rightarrow> string) \<Rightarrow> file_order \<Rightarrow> instant \<Rightarrow> instant \<Rightarrow> 's startup_env \<Rightarrow> environment \<Rightarrow> string list
    \<Rightarrow> backend_world \<Rightarrow> 's \<Rightarrow> disk \<Rightarrow> iteration list \<Rightarrow> string + (backend_world, 's) loop_state \<times> loop_summary option" where
  "daemon_run u order duration deadline S env args w s disk its = (case daemon_start S env args w s disk of
     Inl e \<Rightarrow> Inl e
   | Inr d \<Rightarrow> Inr (run_processing_loop u order duration (daemon_config_of S env) its
       (initial_loop (new_window_aggregator WINDOW_DURATION_SECS (su_now_ms S)) deadline d)))"

section \<open>Off by default\<close>

lemma config_offline:
  assumes "\<not> cloud_llm_enabled env" "\<not> env_flag env ''DIPECS_ANDROID_ACTION_BRIDGE_ENABLED''"
  shows "daemon_config_of (S\<lparr>su_cloud := E, su_bridge := B\<rparr>) env = daemon_config_of S env"
    "dc_adapter (daemon_config_of S env) = default_execute"
  using assms cloud_disabled_router(1) [OF assms(1), of E "su_candidate_order S" _ default_router_config "su_cloud S"]
  by (simp_all add: daemon_config_of_def bridge_from_env_def)

lemma start_offline:
  assumes "\<not> cloud_llm_enabled env"
  shows "daemon_start (S\<lparr>su_cloud := E, su_bridge := B\<rparr>) env args w s disk = daemon_start S env args w s disk"
  using assms by (simp add: daemon_start_def summarizer_from_env_def Let_def split: option.split)

lemma default_execute_state [simp]: "fst (default_execute s a) = s"
  by (simp add: default_execute_def split: sum.split)

section \<open>What a run keeps\<close>


lemma poll_worker_ok: "memory_ok (ds_memory d) \<Longrightarrow> memory_ok (ds_memory (poll_worker st d))"
  by (auto simp: poll_worker_def worker_poll_def set_llm_summary_ok split: option.splits job_status.splits sum.splits)

text \<open>One window, its two results named.\<close>

lemma process_window_cases:
  obtains b dec a audit where
    "router_evaluate (dc_router c) (we_times env)
      (memory_model_input ctx (ds_memory (poll_worker (we_poll_before env) d))) (ds_backends d) = (b, dec)"
    "run_lifecycle (dc_adapter c) (dc_policy c) k (dr_intent_batch dec)
      (dr_route dec) (dr_error dec) (for_route (dr_route dec)) ctx (ds_adapter_state d) = (a, audit)"
  by (metis surj_pair)

lemma memory_step:
  assumes "memory_ok (ds_memory d)"
  shows "memory_ok (ds_memory (process_window c env k ctx st d))"
proof -
  obtain b dec a audit where x: "router_evaluate (dc_router c) (we_times env)
      (memory_model_input ctx (ds_memory (poll_worker (we_poll_before env) d))) (ds_backends d) = (b, dec)"
    "run_lifecycle (dc_adapter c) (dc_policy c) k (dr_intent_batch dec)
      (dr_route dec) (dr_error dec) (for_route (dr_route dec)) ctx (ds_adapter_state d) = (a, audit)"
    by (rule process_window_cases)
  show ?thesis
    using poll_worker_ok [OF assms, of "we_poll_before env"]
    by (auto simp: process_window_def Let_def x observe_window_ok poll_worker_ok split: option.splits)
qed

interpretation memory_kept: window_invariant c "\<lambda>_. True" "\<lambda>ps d. memory_ok (ds_memory d)" for c
  by unfold_locales (rule memory_step)

text \<open>A daemon whose router never takes the cloud's route, with the local executor and no summarizer.\<close>

definition offline_config :: "('w, 's) daemon_config \<Rightarrow> bool" where
  "offline_config c \<longleftrightarrow> dc_adapter c = default_execute
     \<and> (\<forall>ts mi st. dr_route (snd (router_evaluate (dc_router c) ts mi st)) \<noteq> CloudLlm)"

definition offline_state :: "'s \<Rightarrow> ('w, 's) daemon_state \<Rightarrow> bool" where
  "offline_state s0 d \<longleftrightarrow> ds_adapter_state d = s0
     \<and> (case ds_worker d of None \<Rightarrow> True | Some w \<Rightarrow> \<not> sw_has_summarizer w \<and> sw_pending w = None)
     \<and> list_all (\<lambda>dec. dr_route dec \<noteq> CloudLlm) (ds_decisions d)
     \<and> (case ds_trace d of None \<Rightarrow> True
        | Some lines \<Rightarrow> list_all (\<lambda>r. dl_route (wr_decision r) \<noteq> debug_route CloudLlm) lines)"

lemma foldl_fixed: "foldl (\<lambda>s x. s) s xs = s"
  by (induction xs) simp_all

lemma run_lifecycle_no_state: "fst (run_lifecycle default_execute cfg k batch route be cap ctx s) = s"
proof -
  have p: "fst (process_action default_execute ds route be tier risk t s p) = s" for ds tier risk t s p
    using default_execute_state [of s "seal p t"]
    by (auto simp: process_action_def Let_def split: option.splits prod.splits sum.splits policy_verdict.splits simp del: default_execute_state)
  show ?thesis unfolding run_lifecycle_flat map_state_fst p by (rule foldl_fixed)
qed

lemma idle_worker:
  "\<not> sw_has_summarizer w \<Longrightarrow> sw_pending w = None \<Longrightarrow> worker_poll st w m = (w, m) \<and> worker_maybe_start w m = w"
  by (simp add: worker_poll_def worker_maybe_start_def)

lemma offline_step:
  assumes "offline_config c" "offline_state s0 d"
  shows "offline_state s0 (process_window c env k ctx st d)"
proof -
  let ?d = "process_window c env k ctx st d"
  obtain b dec a audit where x: "router_evaluate (dc_router c) (we_times env)
      (memory_model_input ctx (ds_memory (poll_worker (we_poll_before env) d))) (ds_backends d) = (b, dec)"
    "run_lifecycle (dc_adapter c) (dc_policy c) k (dr_intent_batch dec)
      (dr_route dec) (dr_error dec) (for_route (dr_route dec)) ctx (ds_adapter_state d) = (a, audit)"
    by (rule process_window_cases)
  have r: "dr_route dec \<noteq> CloudLlm" using assms(1) x(1) unfolding offline_config_def by (metis snd_conv)
  have a: "a = ds_adapter_state d"
    using x(2) assms(1) run_lifecycle_no_state unfolding offline_config_def by (metis fst_conv)
  have w: "poll_worker st' e = e" "start_worker e = e" if "ds_worker e = ds_worker d" for st' e
    using that assms(2) by (auto simp: offline_state_def poll_worker_def start_worker_def idle_worker split: option.splits)
  note x = x [unfolded w(1) [OF refl]]
  have "ds_adapter_state ?d = ds_adapter_state d" "ds_worker ?d = ds_worker d"
    by (simp_all add: process_window_def Let_def x a w split: option.split)
  moreover have "ds_decisions ?d = ds_decisions d @ [dec]"
    by (simp add: process_window_def Let_def x a w split: option.split)
  moreover have "debug_route (dr_route dec) \<noteq> debug_route CloudLlm" using r by (cases "dr_route dec") simp_all
  then have "ds_trace ?d = ds_trace d
      \<or> (\<exists>q. dl_route (wr_decision q) \<noteq> debug_route CloudLlm \<and> ds_trace ?d = map_option (\<lambda>ls. ls @ [q]) (ds_trace d))"
    by (cases "we_trace_written env") (auto simp: process_window_def daemon_window_record_def Let_def x a w split: option.split)
  ultimately show ?thesis using assms(2) r unfolding offline_state_def by (auto split: option.splits)
qed

interpretation offline_kept: window_invariant c "\<lambda>_. True" "\<lambda>ps d. offline_config c \<longrightarrow> offline_state s0 d" for c s0
  by unfold_locales (blast intro: offline_step)

text \<open>C11: nothing leaves a device by default. A daemon started without the cloud and without the Android bridge in
  its environment runs the same whatever network and bridge would answer, errors at the start included; it never
  starts a summary job and never changes the device's state through the adapter, no decision of the router took
  the cloud's route and no line of the runtime trace names it.\<close>

theorem daemon_offline_by_default:
  assumes "\<not> cloud_llm_enabled env" "\<not> env_flag env ''DIPECS_ANDROID_ACTION_BRIDGE_ENABLED''"
  shows "daemon_run u order dur dl (S\<lparr>su_cloud := E, su_bridge := B\<rparr>) env args w a disk its = daemon_run u order dur dl S env args w a disk its
    \<and> (\<forall>s x. daemon_run u order dur dl S env args w a disk its = Inr (s, x) \<longrightarrow>
         ds_adapter_state (ls_daemon s) = a
         \<and> (\<forall>worker. ds_worker (ls_daemon s) = Some worker \<longrightarrow> sw_pending worker = None)
         \<and> (\<forall>dec \<in> set (ds_decisions (ls_daemon s)). dr_route dec \<noteq> CloudLlm)
         \<and> (\<forall>lines. ds_trace (ls_daemon s) = Some lines \<longrightarrow>
              (\<forall>r \<in> set lines. dl_route (wr_decision r) \<noteq> ''CloudLlm'')))"
proof -
  let ?run = "\<lambda>S. daemon_run u order dur dl S env args w a disk its"
  have eq: "?run (S\<lparr>su_cloud := E, su_bridge := B\<rparr>) = ?run S"
    by (simp add: daemon_run_def config_offline(1) [OF assms] start_offline [OF assms(1)] split: sum.split)
  have "offline_state a (ls_daemon s)" if "?run S = Inr (s, x)" for s x
  proof -
    obtain d where d: "daemon_start S env args w a disk = Inr d"
      and run: "run_processing_loop u order dur (daemon_config_of S env) its
         (initial_loop (new_window_aggregator WINDOW_DURATION_SECS (su_now_ms S)) dl d) = (s, x)"
      using \<open>?run S = Inr (s, x)\<close> by (auto simp: daemon_run_def split: sum.splits)
    have "offline_config (daemon_config_of S env)" using config_offline(2) [OF assms] router_offline [OF assms(1)]
      by (auto simp: offline_config_def daemon_config_of_def)
    moreover have "offline_state a d" using d assms(1)
      by (auto simp: daemon_start_def summarizer_from_env_def Let_def offline_state_def new_summary_worker_def split: option.splits)
    ultimately show ?thesis using offline_kept.initial_rel [OF _ _ run, of a] by blast
  qed
  with eq show ?thesis by (auto simp: offline_state_def list_all_iff)
qed

text \<open>C36: the daemon's memory stays sound. Whatever the environment variables say, whatever the network, the device
  and the summary thread answer, and provided only that a stored memory holds momenta that are numbers and not
  negative, the memory is within its documented bounds after any number of windows: at most the
  configured windows remembered, every counter map sorted without duplicates, every momentum a number and not negative.\<close>

theorem daemon_memory_stays_sound:
  assumes "\<And>p m. su_load_memory S p = Inr m \<Longrightarrow> counts_ok m \<and> all_momenta_ok m"
    and "daemon_run u order dur dl S env args w a disk its = Inr (s, x)"
  shows "memory_ok (ds_memory (ls_daemon s))"
proof -
  obtain d where d: "daemon_start S env args w a disk = Inr d"
    and run: "run_processing_loop u order dur (daemon_config_of S env) its
       (initial_loop (new_window_aggregator WINDOW_DURATION_SECS (su_now_ms S)) dl d) = (s, x)"
    using assms(2) by (auto simp: daemon_run_def split: sum.splits)
  from d have "ds_memory d = load_or_default (su_load_memory S) (memory_config_from_env env)"
    by (auto simp: daemon_start_def Let_def split: option.splits sum.splits)
  then have "memory_ok (ds_memory d)"
    using assms(1) by (auto simp: load_or_default_def memory_start_ok apply_config_ok split: option.split sum.split)
  from memory_kept.initial_rel [OF _ this run] show ?thesis by simp
qed

section \<open>The bridge without a token\<close>

lemma bridge_port_given:
  "bridge_from_env env = Some cfg \<Longrightarrow> n < 2 ^ 16 \<Longrightarrow> env ''DIPECS_ANDROID_ACTION_BRIDGE_PORT'' = Some (show_nat n)
     \<Longrightarrow> abc_port cfg = of_nat n"
  by (auto simp: bridge_from_env_def parse_u16_def parse_uint_show split: if_splits)

text \<open>Without a token every action meant for the device fails before a connection is made: the device's state
  is what it was.\<close>

theorem bridge_without_token_sends_nothing:
  assumes "bridge_from_env env = Some cfg" "nonblank (env ''DIPECS_ANDROID_ACTION_BRIDGE_TOKEN'') = None"
    "classify (aa_action action) = Forward t"
  shows "\<exists>e. android_execute B cfg s action = (s, Inl (AndroidBridgeError e))"
  using assms by (auto simp: bridge_from_env_def android_execute_def android_forward_def build_payload_def split: if_splits)

section \<open>Concrete inputs\<close>

definition demo_startup :: "unit startup_env" where
  "demo_startup = \<lparr>su_cloud = demo_cloud_env, su_bridge =
      \<lparr>ae_serialize = (\<lambda>a. Inr ''{}''), ae_clock = (\<lambda>w. Inr 0), ae_hmac = (\<lambda>k m. Inr ''00''), ae_serialize_request = (\<lambda>q. Inr ''{}''),
        ae_open = (\<lambda>w h p s. (w, Inl ''refused'')), ae_is_json = (\<lambda>s. True), ae_parse_response = (\<lambda>s. Inl ''none'')\<rparr>,
      su_libm = \<lparr>m_exp = id, m_ln = id\<rparr>, su_load_artifact = (\<lambda>p. Inl ''none''),
      su_load_memory = (\<lambda>p. if p = ''m'' then Inr (memory_with_config default_memory_config) else Inl ''none''),
      su_create_trace = (\<lambda>p. None), su_candidate_order = id, su_now_ms = 0\<rparr>"

definition demo_args :: "string list" where
  "demo_args = [''dipecsd'', ''--no-daemon'', ''--trace-output'', ''t.jsonl'']"

definition demo_environment :: environment where
  "demo_environment = [''DIPECS_MODEL_MEMORY_PATH'' \<mapsto> ''m'', ''DIPECS_MODEL_MEMORY_TOP_K'' \<mapsto> ''900'', ENV_API_KEY \<mapsto> ''sk'']"

abbreviation demo_run_of :: "unit startup_env \<Rightarrow> string + (backend_world, unit) loop_state \<times> loop_summary option" where
  "demo_run_of S \<equiv> daemon_run (\<lambda>s. s) rev 100 100 S demo_environment demo_args demo_world () Map.empty
     [demo_iteration (PeRaw (demo_raw ''k'')), demo_iteration PeRawChannelClosed]"

lemma demo_off:
  "\<not> cloud_llm_enabled demo_environment" "\<not> env_flag demo_environment ''DIPECS_ANDROID_ACTION_BRIDGE_ENABLED''"
  by (simp_all add: demo_environment_def cloud_llm_enabled_def read_bool_var_def read_var_def env_flag_def ENV_ENABLED_def ENV_API_KEY_def)

lemma demo_starts: "\<exists>s x. demo_run_of demo_startup = Inr (s, x) \<and> ds_trace (ls_daemon s) \<noteq> None"
proof -
  obtain d where d: "daemon_start demo_startup demo_environment demo_args demo_world () Map.empty = Inr d" "ds_trace d = Some []"
    using demo_off(1) by (simp add: daemon_start_def summarizer_from_env_def runtime_trace_output_path_def demo_args_def demo_startup_def Let_def)
  have decisions: "ds_decisions d = []" using d(1) by (auto simp: daemon_start_def Let_def split: option.splits sum.splits)
  obtain s x where run: "run_processing_loop (\<lambda>s. s) rev 100 (daemon_config_of demo_startup demo_environment)
      [demo_iteration (PeRaw (demo_raw ''k'')), demo_iteration PeRawChannelClosed]
      (initial_loop (new_window_aggregator WINDOW_DURATION_SECS (su_now_ms demo_startup)) 100 d) = (s, x)"
    by (meson surj_pair)
  have "trace_rel (daemon_config_of demo_startup demo_environment) () (ls_processed s) (ls_daemon s)"
    by (rule trace.initial_rel [OF _ _ run]) (auto simp: trace_rel_def d decisions windows_authorized_def)
  with d run show ?thesis by (auto simp: daemon_run_def trace_rel_def split: option.splits)
qed

theorem daemon_offline_by_default_witness:
  "\<exists>s x lines. demo_run_of (demo_startup\<lparr>su_cloud := demo_cloud_env, su_bridge := su_bridge demo_startup\<rparr>) = Inr (s, x)
     \<and> ds_trace (ls_daemon s) = Some lines \<and> (\<forall>r \<in> set lines. dl_route (wr_decision r) \<noteq> ''CloudLlm'')"
proof -
  obtain s x lines where r: "demo_run_of demo_startup = Inr (s, x)" "ds_trace (ls_daemon s) = Some lines"
    using demo_starts by blast
  with daemon_offline_by_default [OF demo_off, of "\<lambda>s. s" rev 100 100 "su_bridge demo_startup" demo_cloud_env demo_startup demo_args
      demo_world "()" Map.empty "[demo_iteration (PeRaw (demo_raw ''k'')), demo_iteration PeRawChannelClosed]"]
  show ?thesis by (intro exI [of _ s] exI [of _ x] exI [of _ lines]) simp
qed

theorem daemon_memory_stays_sound_witness:
  "\<exists>s x. demo_run_of demo_startup = Inr (s, x) \<and> memory_ok (ds_memory (ls_daemon s))"
proof -
  obtain s x where r: "demo_run_of demo_startup = Inr (s, x)" using demo_starts by blast
  have "memory_ok (ds_memory (ls_daemon s))"
    using memory_start_ok by (intro daemon_memory_stays_sound [OF _ r]) (auto simp: demo_startup_def memory_ok_def split: if_splits)
  with r show ?thesis by blast
qed

end
