(* ===== verification/Lab4_Tools.thy ===== *)
theory Lab4_Tools
  imports Cli_Commands Collectors
begin

text \<open>
  The experiment tools of Lab 4 (\<open>src/lab4/crates/lab4-tools\<close>): prompts and JSON lines (\<open>prompt.rs\<close>,
  \<open>jsonl.rs\<close>), the host description (\<open>env.rs\<close>), running \<open>llama.cpp\<close> and reading its throughput
  (\<open>command.rs\<close>, \<open>lab4-bench\<close>), the Rust stand-in model with its benchmark and its RPC worker
  (\<open>llama.rs\<close>, \<open>lab4-llama\<close>), storage timings (\<open>storage.rs\<close>) and the summaries (\<open>stats.rs\<close>).

  A file is its lines or bytes as one read finds them. The float parser, the Unicode tables, \<open>serde\<close>, processes,
  sockets and measured times are parameters; \<open>clap\<close> and printing are not modelled.

  The lemmas: which prompt files load, how the two summaries differ, that the way a model is loaded does not
  matter, the bounds of an answer, the worker's end, and that case ids are unique.
\<close>

type_synonym u128 = "128 word"

section \<open>JSON lines and prompts (error.rs, jsonl.rs, prompt.rs)\<close>

datatype lab4_error =
    InvalidJsonLine string nat
  | JsonWriteFailed string
  | FileIo string
  | InvalidPrompt string string
  | DuplicatePromptId string
  | CommandIo string
  | ClockBeforeUnixEpoch

fun read_jsonl_lines :: "(string \<Rightarrow> string + 'a) \<Rightarrow> string \<Rightarrow> nat \<Rightarrow> string option list \<Rightarrow> lab4_error + 'a list" where
  "read_jsonl_lines parse path n [] = Inr []"
| "read_jsonl_lines parse path n (None # lines) = Inl (FileIo path)"
| "read_jsonl_lines parse path n (Some line # lines) =
     (if trim line = [] then read_jsonl_lines parse path (Suc n) lines
      else case parse line of
        Inl e \<Rightarrow> Inl (InvalidJsonLine path n)
      | Inr r \<Rightarrow> map_sum id (Cons r) (read_jsonl_lines parse path (Suc n) lines))"

definition read_jsonl :: "(string \<Rightarrow> string + 'a) \<Rightarrow> string \<Rightarrow> string option list option \<Rightarrow> lab4_error + 'a list" where
  "read_jsonl parse path file =
     (case file of None \<Rightarrow> Inl (FileIo path) | Some lines \<Rightarrow> read_jsonl_lines parse path 1 lines)"

record prompt_case =
  pq_id :: string
  pq_category :: string
  pq_prompt :: string
  pq_max_tokens :: "u32 option"

record prompt_summary =
  qs_total :: usize
  qs_categories :: "(string, usize) btree_map"

definition validate_prompt :: "prompt_case \<Rightarrow> lab4_error option" where
  "validate_prompt p =
     (if trim (pq_id p) = [] then Some (InvalidPrompt ''<empty>'' ''id must not be empty'')
      else if trim (pq_category p) = [] then Some (InvalidPrompt (pq_id p) ''category must not be empty'')
      else if trim (pq_prompt p) = [] then Some (InvalidPrompt (pq_id p) ''prompt text must not be empty'')
      else if pq_max_tokens p = Some 0 then Some (InvalidPrompt (pq_id p) ''max_tokens must be greater than zero'')
      else None)"

fun validate_prompts_from :: "string list \<Rightarrow> prompt_case list \<Rightarrow> lab4_error option" where
  "validate_prompts_from ids [] = None"
| "validate_prompts_from ids (p # ps) = (case validate_prompt p of
     Some e \<Rightarrow> Some e
   | None \<Rightarrow> if pq_id p \<in> set ids then Some (DuplicatePromptId (pq_id p))
             else validate_prompts_from (pq_id p # ids) ps)"

definition validate_prompts :: "prompt_case list \<Rightarrow> lab4_error option" where
  "validate_prompts ps = validate_prompts_from [] ps"

definition load_prompts :: "(string \<Rightarrow> string + prompt_case) \<Rightarrow> string \<Rightarrow> string option list option
    \<Rightarrow> lab4_error + prompt_case list" where
  "load_prompts parse path file = (case read_jsonl parse path file of
     Inl e \<Rightarrow> Inl e
   | Inr ps \<Rightarrow> (case validate_prompts ps of Some e \<Rightarrow> Inl e | None \<Rightarrow> Inr ps))"

definition summarize_prompts :: "prompt_case list \<Rightarrow> prompt_summary" where
  "summarize_prompts ps =
     \<lparr>qs_total = length ps, qs_categories = foldl (\<lambda>m p. btree_upsert (pq_category p) 0 Suc m) [] ps\<rparr>"

section \<open>The host (env.rs)\<close>

record system_environment =
  sy_hostname :: "string option"
  sy_os_pretty_name :: "string option"
  sy_kernel_release :: "string option"
  sy_architecture :: string
  sy_cpu_model :: "string option"
  sy_cpu_logical_cores :: "usize option"
  sy_mem_total_kib :: "u64 option"

definition first_found :: "('a \<Rightarrow> 'b option) \<Rightarrow> 'a list \<Rightarrow> 'b option" where
  "first_found f xs = (case List.map_filter f xs of [] \<Rightarrow> None | y # _ \<Rightarrow> Some y)"

definition strip_quotes :: "string \<Rightarrow> string" where
  "strip_quotes v = trim_end_char (CHR 0x22) (dropWhile (\<lambda>c. c = CHR 0x22) (trim v))"

definition parse_os_pretty_name :: "string \<Rightarrow> string option" where
  "parse_os_pretty_name s = map_option strip_quotes (first_found (\<lambda>l. strip_prefix l ''PRETTY_NAME='') (str_lines s))"

definition value_of_key :: "string \<Rightarrow> string \<Rightarrow> string option" where
  "value_of_key key line = (case split_once (CHR '':'') line of
     Some (k, v) \<Rightarrow> if trim k = key then Some (trim v) else None
   | None \<Rightarrow> None)"

definition parse_cpu_model :: "string \<Rightarrow> string option" where
  "parse_cpu_model s = first_found (value_of_key ''model name'') (str_lines s)"

definition parse_logical_cores :: "string \<Rightarrow> usize option" where
  "parse_logical_cores s =
     (let count = length (filter (\<lambda>l. value_of_key ''processor'' l \<noteq> None) (str_lines s))
      in if 0 < count then Some count else None)"

definition parse_mem_total_kib :: "string \<Rightarrow> u64 option" where
  "parse_mem_total_kib s = Option.bind (first_found (\<lambda>l. strip_prefix l ''MemTotal:'') (str_lines s))
     (\<lambda>rest. Option.bind (nth_opt 0 (split_whitespace rest)) parse_u64)"

definition capture_environment :: "file_system \<Rightarrow> string \<Rightarrow> system_environment" where
  "capture_environment fs arch =
     \<lparr>sy_hostname = map_option trim (fs ''/proc/sys/kernel/hostname''),
      sy_os_pretty_name = Option.bind (fs ''/etc/os-release'') parse_os_pretty_name,
      sy_kernel_release = map_option trim (fs ''/proc/sys/kernel/osrelease''),
      sy_architecture = arch,
      sy_cpu_model = Option.bind (fs ''/proc/cpuinfo'') parse_cpu_model,
      sy_cpu_logical_cores = Option.bind (fs ''/proc/cpuinfo'') parse_logical_cores,
      sy_mem_total_kib = Option.bind (fs ''/proc/meminfo'') parse_mem_total_kib\<rparr>"

section \<open>Running llama.cpp (command.rs, lab4-bench.rs)\<close>

record llama_run_config =
  lr_executable :: string
  lr_model :: string
  lr_working_dir :: "string option"
  lr_mode :: string
  lr_rpc_endpoints :: "string option"
  lr_default_max_tokens :: "u32 option"
  lr_extra_args :: "string list"

record bench_record =
  bn_case_id :: string
  bn_prompt_id :: string
  bn_category :: string
  bn_mode :: string
  bn_started_at_unix_ms :: u128
  bn_duration_ms :: u128
  bn_exit_code :: "i32 option"
  bn_tokens_per_second :: "f64 option"
  bn_stdout_bytes :: usize
  bn_stderr_bytes :: usize
  bn_stdout :: string
  bn_stderr :: string
  bn_command :: "string list"

definition build_llama_args :: "llama_run_config \<Rightarrow> prompt_case \<Rightarrow> string list" where
  "build_llama_args c p =
     [lr_executable c, ''-m'', lr_model c, ''-p'', pq_prompt p]
       @ (case (case pq_max_tokens p of Some n \<Rightarrow> Some n | None \<Rightarrow> lr_default_max_tokens c) of
            Some n \<Rightarrow> [''-n'', show_nat (unat n)] | None \<Rightarrow> [])
       @ (case lr_rpc_endpoints c of Some e \<Rightarrow> [''--rpc'', e] | None \<Rightarrow> [])
       @ lr_extra_args c"

text \<open>The text around the first occurrence of a pattern.\<close>

fun find_split :: "string \<Rightarrow> string \<Rightarrow> (string \<times> string) option" where
  "find_split pat [] = (if pat = [] then Some ([], []) else None)"
| "find_split pat (c # s) = (case strip_prefix (c # s) pat of
     Some rest \<Rightarrow> Some ([], rest)
   | None \<Rightarrow> map_option (\<lambda>(a, b). (c # a, b)) (find_split pat s))"

fun split_at_chars :: "(string \<Rightarrow> bool) \<Rightarrow> string \<Rightarrow> string list \<Rightarrow> string list" where
  "split_at_chars sep cur [] = [cur]"
| "split_at_chars sep cur (ch # chs) =
     (if sep ch then cur # split_at_chars sep [] chs else split_at_chars sep (cur @ ch) chs)"

definition rate_separator :: "string \<Rightarrow> bool" where
  "rate_separator ch \<longleftrightarrow> is_ws_char ch \<or> ch \<in> {''('', '')'', '','', ''=''}"

definition generation_rate :: "(string \<Rightarrow> f64 option) \<Rightarrow> string \<Rightarrow> f64 option" where
  "generation_rate parse_f64 line = (case find_split ''Generation:'' line of
     None \<Rightarrow> None
   | Some (_, generation) \<Rightarrow> (case find_split ''t/s'' generation of
       None \<Rightarrow> None
     | Some (before, _) \<Rightarrow> first_found parse_f64 (split_whitespace before)))"

definition marker_rate :: "(string \<Rightarrow> f64 option) \<Rightarrow> string \<Rightarrow> string \<Rightarrow> f64 option" where
  "marker_rate parse_f64 line marker = (case find_split marker line of
     None \<Rightarrow> None
   | Some (before, _) \<Rightarrow> first_found parse_f64 (rev (split_at_chars rate_separator [] (utf8_split before))))"

definition parse_line_tokens_per_second :: "(string \<Rightarrow> f64 option) \<Rightarrow> string \<Rightarrow> f64 option" where
  "parse_line_tokens_per_second parse_f64 line = (case generation_rate parse_f64 line of
     Some v \<Rightarrow> Some v
   | None \<Rightarrow> first_found (marker_rate parse_f64 line) [''tokens per second'', ''tokens/s''])"

definition parse_tokens_per_second :: "(string \<Rightarrow> f64 option) \<Rightarrow> string \<Rightarrow> f64 option" where
  "parse_tokens_per_second parse_f64 s = first_found (parse_line_tokens_per_second parse_f64) (rev (str_lines s))"

text \<open>What a finished process leaves: its exit code (none after a signal), its two outputs, the time it took.\<close>

record process_output =
  po_exit_code :: "i32 option"
  po_stdout :: string
  po_stderr :: string
  po_elapsed_ms :: u128

record 'w lab_env =
  le_clock :: "'w \<Rightarrow> u128 option"
  le_spawn :: "'w \<Rightarrow> string \<Rightarrow> string list \<Rightarrow> string option \<Rightarrow> 'w \<times> (string + process_output)"
  le_lossy :: "string \<Rightarrow> string"
  le_parse_f64 :: "string \<Rightarrow> f64 option"

definition run_llama_case :: "'w lab_env \<Rightarrow> llama_run_config \<Rightarrow> prompt_case \<Rightarrow> string \<Rightarrow> 'w
    \<Rightarrow> 'w \<times> (lab4_error + bench_record)" where
  "run_llama_case E c p case_id w =
     (let args = build_llama_args c p in
      case le_clock E w of
        None \<Rightarrow> (w, Inl ClockBeforeUnixEpoch)
      | Some started \<Rightarrow> (case le_spawn E w (lr_executable c) (drop 1 args) (lr_working_dir c) of
          (w', Inl e) \<Rightarrow> (w', Inl (CommandIo (lr_executable c)))
        | (w', Inr out) \<Rightarrow>
            (let stdout = le_lossy E (po_stdout out); stderr = le_lossy E (po_stderr out);
                 rate = (case parse_tokens_per_second (le_parse_f64 E) stdout of
                   Some v \<Rightarrow> Some v | None \<Rightarrow> parse_tokens_per_second (le_parse_f64 E) stderr)
             in (w', Inr \<lparr>bn_case_id = case_id, bn_prompt_id = pq_id p, bn_category = pq_category p, bn_mode = lr_mode c,
                   bn_started_at_unix_ms = started, bn_duration_ms = po_elapsed_ms out, bn_exit_code = po_exit_code out,
                   bn_tokens_per_second = rate, bn_stdout_bytes = length (po_stdout out),
                   bn_stderr_bytes = length (po_stderr out), bn_stdout = stdout, bn_stderr = stderr, bn_command = args\<rparr>))))"

text \<open>\<open>{:03}\<close> and the like.\<close>

definition pad_nat :: "nat \<Rightarrow> nat \<Rightarrow> string" where
  "pad_nat width n = replicate (width - length (show_nat n)) (CHR ''0'') @ show_nat n"

definition bench_case_id :: "string \<Rightarrow> nat \<Rightarrow> nat \<Rightarrow> string" where
  "bench_case_id stem index repetition = stem @ ''-p'' @ pad_nat 3 (index + 1) @ ''-r'' @ pad_nat 2 repetition"

definition bench_cases :: "string \<Rightarrow> prompt_case list \<Rightarrow> nat \<Rightarrow> (string \<times> prompt_case) list" where
  "bench_cases stem prompts repetitions =
     concat (map (\<lambda>r. map (\<lambda>(i, p). (bench_case_id stem i r, p)) (enumerate 0 prompts)) [1..<Suc repetitions])"

text \<open>The records written to the output file, and the error that ended the run, if one did.\<close>

fun run_cases :: "'w lab_env \<Rightarrow> llama_run_config \<Rightarrow> (string \<times> prompt_case) list \<Rightarrow> 'w
    \<Rightarrow> 'w \<times> bench_record list \<times> lab4_error option" where
  "run_cases E c [] w = (w, [], None)"
| "run_cases E c ((case_id, p) # cs) w = (case run_llama_case E c p case_id w of
     (w', Inl e) \<Rightarrow> (w', [], Some e)
   | (w', Inr r) \<Rightarrow> (case run_cases E c cs w' of (w'', rs, e) \<Rightarrow> (w'', r # rs, e)))"

datatype bench_outcome =
    NoRepetitions
  | PromptsRejected lab4_error
  | Ran "bench_record list" "lab4_error option"

definition lab4_bench :: "'w lab_env \<Rightarrow> llama_run_config \<Rightarrow> string \<Rightarrow> nat \<Rightarrow> lab4_error + prompt_case list \<Rightarrow> 'w
    \<Rightarrow> 'w \<times> bench_outcome" where
  "lab4_bench E c stem repetitions loaded w =
     (if repetitions = 0 then (w, NoRepetitions)
      else case loaded of
        Inl e \<Rightarrow> (w, PromptsRejected e)
      | Inr prompts \<Rightarrow> (case run_cases E c (bench_cases stem prompts repetitions) w of (w', rs, e) \<Rightarrow> (w', Ran rs e)))"

section \<open>The stand-in model (llama.rs)\<close>

datatype load_mode = LoadMmap | LoadRead

record generation_config =
  gc_max_tokens :: usize
  gc_threads :: usize
  gc_batch_size :: usize
  gc_ctx_size :: usize
  gc_load_mode :: load_mode

record llama_response =
  lp_text :: string
  lp_input_tokens :: usize
  lp_generated_tokens :: usize
  lp_inference_duration_ms :: u128
  lp_tokens_per_second :: "f64 option"

record llama_bench_record =
  lb_case_id :: string
  lb_prompt_id :: string
  lb_category :: string
  lb_mode :: string
  lb_started_at_unix_ms :: u128
  lb_load_duration_ms :: u128
  lb_inference_duration_ms :: u128
  lb_total_duration_ms :: u128
  lb_load_mode :: load_mode
  lb_model_bytes :: u64
  lb_model_fingerprint :: u64
  lb_input_tokens :: usize
  lb_generated_tokens :: usize
  lb_tokens_per_second :: "f64 option"
  lb_output :: string

record llama_bench_meta =
  me_case_id :: string
  me_prompt_id :: string
  me_category :: string
  me_mode :: string
  me_load_duration_ms :: u128
  me_started_at_unix_ms :: u128

text \<open>The mapped region and the owned buffer are both the bytes they show.\<close>

datatype model_storage = StorageRead "u8 list" | StorageMmap "u8 list"

fun storage_as_slice :: "model_storage \<Rightarrow> u8 list" where
  "storage_as_slice (StorageRead bs) = bs"
| "storage_as_slice (StorageMmap bs) = bs"

record loaded_model =
  lm_path :: string
  lm_bytes_len :: u64
  lm_fingerprint :: u64
  lm_storage :: model_storage

text \<open>A model file: what \<open>metadata\<close>, a read of the whole file and \<open>mmap\<close> of so many bytes answer.\<close>

record model_file =
  mf_open :: bool
  mf_len :: "u64 option"
  mf_read :: "u8 list option"
  mf_mmap :: "nat \<Rightarrow> u8 list option"

definition FINGERPRINT_LIMIT :: nat where "FINGERPRINT_LIMIT = 64 * 1024"

definition fingerprint :: "u8 list \<Rightarrow> u64" where
  "fingerprint bs = foldl fnv_step FNV_OFFSET (take FINGERPRINT_LIMIT bs)"

definition map_file :: "model_file \<Rightarrow> u64 \<Rightarrow> u8 list option" where
  "map_file f len = (if len = 0 then Some [] else mf_mmap f (unat len))"

definition load_model :: "string \<Rightarrow> model_file \<Rightarrow> load_mode \<Rightarrow> lab4_error + loaded_model" where
  "load_model path f mode =
     (if \<not> mf_open f then Inl (FileIo path)
      else case mf_len f of
        None \<Rightarrow> Inl (FileIo path)
      | Some len \<Rightarrow>
          (case (case mode of
             LoadRead \<Rightarrow> map_option StorageRead (mf_read f)
           | LoadMmap \<Rightarrow> map_option StorageMmap (map_file f len)) of
             None \<Rightarrow> Inl (FileIo path)
           | Some storage \<Rightarrow> Inr \<lparr>lm_path = path, lm_bytes_len = len,
               lm_fingerprint = fingerprint (storage_as_slice storage), lm_storage = storage\<rparr>))"

definition estimate_tokens :: "string \<Rightarrow> usize" where
  "estimate_tokens s = (let words = length (split_whitespace s) in
     if 1 < words then words else max (length (utf8_split s) div 2) 1)"

definition tokens_per_second :: "usize \<Rightarrow> u128 \<Rightarrow> f64 option" where
  "tokens_per_second generated duration =
     (if duration = 0 then None
      else Some (fp_div fmt64 (f64_of_nat generated) (fp_div fmt64 (f64_of_nat (unat duration)) (FFin 1000))))"

text \<open>The canned answers, as scalar values.\<close>

definition utf8_text :: "nat list \<Rightarrow> string" where
  "utf8_text cps = concat (map utf8_encode cps)"

definition mmap_answer :: string where
  "mmap_answer = utf8_text
     [20174, 25805, 20316, 31995, 32479, 35282, 24230, 30475, 65292, 27169, 22411, 21152, 36733, 20027, 35201,
      21463, 25991, 20214, 32, 73, 47, 79, 12289, 34394, 25311, 20869, 23384, 26144, 23556, 12289, 39029, 32531,
      23384, 21644, 32570, 39029, 24322, 24120, 24433, 21709, 12290, 109, 109, 97, 112, 32, 20250, 25226, 25991,
      20214, 26144, 23556, 21040, 36827, 31243, 22320, 22336, 31354, 38388, 65292, 39318, 27425, 35775, 38382,
      26102, 25353, 39029, 35302, 21457, 21152, 36733, 65307, 37325, 22797, 36816, 34892, 26102, 39029, 32531,
      23384, 21487, 33021, 35753, 21152, 36733, 26126, 26174, 21464, 24555, 12290]"

definition rpc_answer :: string where
  "rpc_answer = utf8_text
     [82, 80, 67, 32, 25512, 29702, 20250, 25226, 35831, 27714, 12289, 21442, 25968, 25110, 20219, 21153, 32467,
      26524, 25918, 21040, 32593, 32476, 36335, 24452, 19978, 65292, 22240, 27492, 24310, 36831, 12289, 24102,
      23485, 12289, 24207, 21015, 21270, 12289, 36828, 31471, 25490, 38431, 21644, 21516, 27493, 31561, 24453,
      37117, 20250, 24433, 21709, 21534, 21520, 12290, 20219, 21153, 22826, 23567, 26102, 65292, 36890, 20449,
      24320, 38144, 21487, 33021, 36229, 36807, 24182, 34892, 25910, 30410, 12290]"

definition rust_answer :: string where
  "rust_answer = utf8_text
     [36825, 27573, 32, 82, 117, 115, 116, 32, 20195, 30721, 25226, 21487, 33021, 22833, 36133, 30340, 25991,
      20214, 35835, 21462, 21253, 35013, 20026, 32, 82, 101, 115, 117, 108, 116, 65292, 35753, 35843, 29992, 26041,
      26174, 24335, 22788, 29702, 32, 73, 47, 79, 32, 38169, 35823, 12290, 20351, 29992, 32, 63, 32, 21487, 20197,
      20445, 30041, 38169, 35823, 20256, 25773, 36335, 24452, 65292, 36991, 20813, 22312, 24211, 20195, 30721,
      20013, 32, 112, 97, 110, 105, 99, 12290]"

definition storage_answer :: string where
  "storage_answer = utf8_text
     [67, 101, 112, 104, 32, 22312, 25512, 29702, 24037, 20316, 27969, 20013, 25552, 20379, 20849, 20139, 27169,
      22411, 12289, 112, 114, 111, 109, 112, 116, 32, 21644, 26085, 24535, 36335, 24452, 12290, 21103, 26412,
      26426, 21046, 25552, 21319, 21487, 38752, 24615, 65292, 20294, 20250, 22686, 21152, 20889, 20837, 36335,
      24452, 19978, 30340, 32593, 32476, 21644, 30913, 30424, 32, 73, 47, 79, 65292, 35835, 20889, 32467, 26524,
      36824, 20250, 21463, 21040, 32531, 23384, 21644, 23545, 35937, 22823, 23567, 24433, 21709, 12290]"

definition default_answer :: string where
  "default_answer = utf8_text
     [26412, 22320, 25512, 29702, 24378, 35843, 25968, 25454, 30041, 22312, 26412, 26426, 12289, 24310, 36831,
      21487, 25511, 21644, 38544, 31169, 36793, 30028, 28165, 26224, 65307, 20113, 31471, 25512, 29702, 36890,
      24120, 27169, 22411, 26356, 24378, 12289, 25193, 23637, 26356, 23481, 26131, 65292, 20294, 38656, 35201,
      32593, 32476, 12289, 25104, 26412, 21644, 25968, 25454, 20256, 36755, 26041, 38754, 30340, 39069, 22806,
      26435, 34913, 12290]"

definition page_cache_word :: string where "page_cache_word = utf8_text [39029, 32531, 23384]"
definition network_word :: string where "network_word = utf8_text [32593, 32476]"
definition storage_word :: string where "storage_word = utf8_text [23384, 20648]"

definition canned_answer :: "string \<Rightarrow> string" where
  "canned_answer normalized =
     (if str_contains normalized ''mmap'' \<or> str_contains normalized page_cache_word then mmap_answer
      else if str_contains normalized ''rpc'' \<or> str_contains normalized network_word then rpc_answer
      else if str_contains normalized ''rust'' \<or> str_contains normalized ''result'' then rust_answer
      else if str_contains normalized ''ceph'' \<or> str_contains normalized storage_word then storage_answer
      else default_answer)"

definition hex16 :: "u64 \<Rightarrow> string" where
  "hex16 h = map (\<lambda>i. nibble (unat h div 16 ^ (15 - i) mod 16)) [0..<16]"

definition answer_suffix :: "u64 \<Rightarrow> generation_config \<Rightarrow> string" where
  "answer_suffix h c =
     utf8_text [32, 23454, 39564, 37197, 32622, 20026, 32] @ ''threads='' @ show_nat (gc_threads c)
       @ utf8_text [12289] @ ''batch_size='' @ show_nat (gc_batch_size c)
       @ utf8_text [12289] @ ''ctx_size='' @ show_nat (gc_ctx_size c)
       @ utf8_text [12289] @ ''model_fingerprint='' @ hex16 h @ utf8_text [12290]"

definition limit_output_tokens :: "string \<Rightarrow> usize \<Rightarrow> string" where
  "limit_output_tokens s max_tokens =
     (if max_tokens = 0 then [] else concat (take (min (max_tokens * 4) (2 ^ 64 - 1)) (utf8_split s)))"

definition generate_text :: "(string \<Rightarrow> string) \<Rightarrow> string \<Rightarrow> u64 \<Rightarrow> generation_config \<Rightarrow> string" where
  "generate_text u prompt h c =
     limit_output_tokens (canned_answer (to_lowercase u prompt) @ answer_suffix h c) (gc_max_tokens c)"

definition infer :: "(string \<Rightarrow> string) \<Rightarrow> u128 \<Rightarrow> loaded_model \<Rightarrow> string \<Rightarrow> generation_config \<Rightarrow> llama_response" where
  "infer u elapsed m prompt c =
     (let text' = generate_text u prompt (lm_fingerprint m) c;
          generated = min (estimate_tokens text') (max (gc_max_tokens c) 1)
      in \<lparr>lp_text = text', lp_input_tokens = estimate_tokens prompt, lp_generated_tokens = generated,
          lp_inference_duration_ms = elapsed, lp_tokens_per_second = tokens_per_second generated elapsed\<rparr>)"

definition build_bench_record :: "llama_bench_meta \<Rightarrow> loaded_model \<Rightarrow> generation_config \<Rightarrow> llama_response \<Rightarrow> llama_bench_record" where
  "build_bench_record me m c r =
     \<lparr>lb_case_id = me_case_id me, lb_prompt_id = me_prompt_id me, lb_category = me_category me, lb_mode = me_mode me,
      lb_started_at_unix_ms = me_started_at_unix_ms me, lb_load_duration_ms = me_load_duration_ms me,
      lb_inference_duration_ms = lp_inference_duration_ms r,
      lb_total_duration_ms = me_load_duration_ms me + lp_inference_duration_ms r, lb_load_mode = gc_load_mode c,
      lb_model_bytes = lm_bytes_len m, lb_model_fingerprint = lm_fingerprint m, lb_input_tokens = lp_input_tokens r,
      lb_generated_tokens = lp_generated_tokens r, lb_tokens_per_second = lp_tokens_per_second r, lb_output = lp_text r\<rparr>"

section \<open>The model's benchmark and RPC (lab4-llama.rs)\<close>

record llama_bench_args =
  la_model :: string
  la_mode :: string
  la_case_prefix :: string
  la_load_mode :: load_mode
  la_max_tokens :: usize
  la_threads :: usize
  la_batch_size :: usize
  la_ctx_size :: usize

text \<open>What the \<open>k\<close>-th round meets: the clock, the model file and the three measured times.\<close>

record bench_round =
  bd_started :: "u128 option"
  bd_file :: model_file
  bd_load_ms :: u128
  bd_infer_ms :: u128
  bd_total_ms :: u128

definition prompt_config :: "llama_bench_args \<Rightarrow> prompt_case \<Rightarrow> generation_config" where
  "prompt_config a p =
     \<lparr>gc_max_tokens = (case pq_max_tokens p of Some n \<Rightarrow> unat n | None \<Rightarrow> la_max_tokens a), gc_threads = la_threads a,
      gc_batch_size = la_batch_size a, gc_ctx_size = la_ctx_size a, gc_load_mode = la_load_mode a\<rparr>"

definition llama_case_id :: "string \<Rightarrow> nat \<Rightarrow> string" where
  "llama_case_id stem index = stem @ ''-'' @ pad_nat 3 (index + 1)"

definition bench_prompt :: "(string \<Rightarrow> string) \<Rightarrow> llama_bench_args \<Rightarrow> bench_round \<Rightarrow> nat \<Rightarrow> prompt_case
    \<Rightarrow> lab4_error + llama_bench_record" where
  "bench_prompt u a rd k p = (case bd_started rd of
     None \<Rightarrow> Inl ClockBeforeUnixEpoch
   | Some started \<Rightarrow> (case load_model (la_model a) (bd_file rd) (la_load_mode a) of
       Inl e \<Rightarrow> Inl e
     | Inr m \<Rightarrow> (let c = prompt_config a p; r = infer u (bd_infer_ms rd) m (pq_prompt p) c in
         Inr ((build_bench_record \<lparr>me_case_id = llama_case_id (la_case_prefix a) k, me_prompt_id = pq_id p,
             me_category = pq_category p, me_mode = la_mode a, me_load_duration_ms = bd_load_ms rd,
             me_started_at_unix_ms = started\<rparr> m c r)\<lparr>lb_total_duration_ms := bd_total_ms rd\<rparr>))))"

fun llama_run_bench :: "(string \<Rightarrow> string) \<Rightarrow> llama_bench_args \<Rightarrow> (nat \<Rightarrow> bench_round) \<Rightarrow> nat \<Rightarrow> prompt_case list
    \<Rightarrow> llama_bench_record list \<times> lab4_error option" where
  "llama_run_bench u a rounds k [] = ([], None)"
| "llama_run_bench u a rounds k (p # ps) = (case bench_prompt u a (rounds k) k p of
     Inl e \<Rightarrow> ([], Some e)
   | Inr r \<Rightarrow> (case llama_run_bench u a rounds (Suc k) ps of (rs, e) \<Rightarrow> (r # rs, e)))"

record rpc_request =
  rq_prompt :: string
  rq_config :: generation_config

text \<open>A connection the worker accepted: the line it reads, the time its inference takes and whether the reply
  could be written.\<close>

record worker_connection =
  wn_line :: "string + string"
  wn_elapsed_ms :: u128
  wn_written :: bool

datatype worker_error = AcceptFailed string | RequestUnread string | RequestInvalid string | ReplyUnwritten

definition handle_worker_stream :: "(string \<Rightarrow> string) \<Rightarrow> (string \<Rightarrow> string + rpc_request) \<Rightarrow> loaded_model \<Rightarrow> worker_connection
    \<Rightarrow> worker_error + llama_response" where
  "handle_worker_stream u parse m conn = (case wn_line conn of
     Inl e \<Rightarrow> Inl (RequestUnread e)
   | Inr line \<Rightarrow> (case parse line of
       Inl e \<Rightarrow> Inl (RequestInvalid e)
     | Inr q \<Rightarrow> if wn_written conn then Inr (infer u (wn_elapsed_ms conn) m (rq_prompt q) (rq_config q))
               else Inl ReplyUnwritten))"

text \<open>The worker's loop over what \<open>incoming\<close> yields: the replies sent and the error that ends it.\<close>

fun worker_loop :: "(string \<Rightarrow> string) \<Rightarrow> (string \<Rightarrow> string + rpc_request) \<Rightarrow> loaded_model \<Rightarrow> (string + worker_connection) list
    \<Rightarrow> llama_response list \<times> worker_error option" where
  "worker_loop u parse m [] = ([], None)"
| "worker_loop u parse m (Inl e # cs) = ([], Some (AcceptFailed e))"
| "worker_loop u parse m (Inr conn # cs) = (case handle_worker_stream u parse m conn of
     Inl e \<Rightarrow> ([], Some e)
   | Inr r \<Rightarrow> (case worker_loop u parse m cs of (rs, e) \<Rightarrow> (r # rs, e)))"

section \<open>Storage timings (storage.rs)\<close>

datatype storage_operation = OpRead | OpCopy

record storage_record =
  so_case_id :: string
  so_operation :: storage_operation
  so_source :: string
  so_target :: "string option"
  so_started_at_unix_ms :: u128
  so_duration_ms :: u128
  so_bytes :: u64
  so_bytes_per_second :: "f64 option"

definition throughput :: "u64 \<Rightarrow> u128 \<Rightarrow> f64 option" where
  "throughput bytes duration =
     (if duration = 0 then None
      else Some (fp_div fmt64 (f64_of_nat (unat bytes)) (fp_div fmt64 (f64_of_nat (unat duration)) (FFin 1000))))"

text \<open>What the successive \<open>read\<close> calls return: an error or a number of bytes, \<open>0\<close> at the end.\<close>

fun count_bytes :: "string \<Rightarrow> (string + nat) list \<Rightarrow> u64 \<Rightarrow> lab4_error + u64" where
  "count_bytes path [] bytes = Inr bytes"
| "count_bytes path (Inl e # rs) bytes = Inl (FileIo path)"
| "count_bytes path (Inr n # rs) bytes = (if n = 0 then Inr bytes else count_bytes path rs (bytes + of_nat n))"

definition storage_result :: "string \<Rightarrow> storage_operation \<Rightarrow> string \<Rightarrow> string option \<Rightarrow> u128 \<Rightarrow> u128 \<Rightarrow> u64 \<Rightarrow> storage_record" where
  "storage_result case_id op source target started duration bytes =
     \<lparr>so_case_id = case_id, so_operation = op, so_source = source, so_target = target, so_started_at_unix_ms = started,
      so_duration_ms = duration, so_bytes = bytes, so_bytes_per_second = throughput bytes duration\<rparr>"

definition measure_read :: "u128 option \<Rightarrow> u128 \<Rightarrow> string \<Rightarrow> string \<Rightarrow> (string + nat) list option \<Rightarrow> lab4_error + storage_record" where
  "measure_read clock elapsed case_id path file = (case clock of
     None \<Rightarrow> Inl ClockBeforeUnixEpoch
   | Some started \<Rightarrow> (case file of
       None \<Rightarrow> Inl (FileIo path)
     | Some reads \<Rightarrow> map_sum id (storage_result case_id OpRead path None started elapsed) (count_bytes path reads 0)))"

definition measure_copy :: "u128 option \<Rightarrow> u128 \<Rightarrow> string \<Rightarrow> string \<Rightarrow> string \<Rightarrow> u64 option \<Rightarrow> lab4_error + storage_record" where
  "measure_copy clock elapsed case_id source target copied = (case clock of
     None \<Rightarrow> Inl ClockBeforeUnixEpoch
   | Some started \<Rightarrow> (case copied of
       None \<Rightarrow> Inl (FileIo source)
     | Some bytes \<Rightarrow> Inr (storage_result case_id OpCopy source (Some target) started elapsed bytes)))"

section \<open>Summaries (stats.rs)\<close>

record mode_summary =
  ms_mode :: string
  ms_records :: usize
  ms_successes :: usize
  ms_average_duration_ms :: f64
  ms_average_tokens_per_second :: "f64 option"

definition average :: "f64 list \<Rightarrow> f64 option" where
  "average xs = (if xs = [] then None else Some (fp_div fmt64 (foldl (fp_add fmt64) (FFin 0) xs) (f64_of_nat (length xs))))"

text \<open>One mode's records, by their duration, success and rate.\<close>

definition mode_summary_of :: "string \<Rightarrow> ('r \<Rightarrow> u128) \<Rightarrow> ('r \<Rightarrow> bool) \<Rightarrow> ('r \<Rightarrow> f64 option) \<Rightarrow> 'r list \<Rightarrow> mode_summary" where
  "mode_summary_of mode duration success rate rs =
     \<lparr>ms_mode = mode, ms_records = length rs, ms_successes = length (filter success rs),
      ms_average_duration_ms = fp_div fmt64 (f64_of_nat (unat (sum_list (map duration rs)))) (f64_of_nat (length rs)),
      ms_average_tokens_per_second = average (List.map_filter rate rs)\<rparr>"

definition summarize_bench_records :: "bench_record list \<Rightarrow> mode_summary list" where
  "summarize_bench_records rs =
     map (\<lambda>(mode, rs). mode_summary_of mode bn_duration_ms (\<lambda>r. bn_exit_code r = Some 0) bn_tokens_per_second rs)
       (group_by bn_mode rs)"

record json_metric =
  jm_mode :: string
  jm_duration_ms :: u128
  jm_success :: bool
  jm_tokens_per_second :: "f64 option"

definition metric_from_value :: "json \<Rightarrow> json_metric option" where
  "metric_from_value v = map_option
     (\<lambda>duration. \<lparr>jm_mode = text_or ''unknown'' (Option.bind (json_get ''mode'' v) json_as_str),
        jm_duration_ms = ucast duration,
        jm_success = (case Option.bind (json_get ''exit_code'' v) json_as_i64 of None \<Rightarrow> True | Some code \<Rightarrow> code = 0),
        jm_tokens_per_second = Option.bind (json_get ''tokens_per_second'' v) json_as_f64\<rparr>)
     (Option.bind (case json_get ''duration_ms'' v of Some d \<Rightarrow> Some d | None \<Rightarrow> json_get ''total_duration_ms'' v) json_as_u64)"

definition summarize_json_records :: "json list \<Rightarrow> mode_summary list" where
  "summarize_json_records vs =
     map (\<lambda>(mode, ms). mode_summary_of mode jm_duration_ms jm_success jm_tokens_per_second ms)
       (group_by jm_mode (List.map_filter metric_from_value vs))"

definition summarize_bench_file :: "(string \<Rightarrow> string + json) \<Rightarrow> string \<Rightarrow> string option list option \<Rightarrow> lab4_error + mode_summary list" where
  "summarize_bench_file parse path file = map_sum id summarize_json_records (read_jsonl parse path file)"

text \<open>A \<open>BenchRecord\<close> written by \<open>serde\<close> and read back as a \<open>Value\<close>: one member per field, an absent value as
  \<open>null\<close>. \<open>rb q\<close> is the float the JSON library reads from the text it wrote for the number \<open>q\<close> (not always \<open>q\<close>
  itself: without \<open>float_roundtrip\<close> the last digit may differ). A number of milliseconds beyond 64 bits
  has no integer of the JSON type and is read back as a float.\<close>

definition json_u128 :: "(rat \<Rightarrow> f64) \<Rightarrow> u128 \<Rightarrow> json" where
  "json_u128 rb n = JNumber (if unat n < 2 ^ 64 then PosInt (ucast n) else NumFloat (rb (of_nat (unat n))))"

definition json_rate :: "(rat \<Rightarrow> f64) \<Rightarrow> f64 option \<Rightarrow> json" where
  "json_rate rb r = (case r of Some (FFin q) \<Rightarrow> JNumber (NumFloat (rb q)) | _ \<Rightarrow> JNull)"

definition bench_record_value :: "(rat \<Rightarrow> f64) \<Rightarrow> bench_record \<Rightarrow> json" where
  "bench_record_value rb r = JObject
     [(''case_id'', JString (bn_case_id r)), (''category'', JString (bn_category r)),
      (''command'', JArray (map JString (bn_command r))), (''duration_ms'', json_u128 rb (bn_duration_ms r)),
      (''exit_code'', case bn_exit_code r of Some code \<Rightarrow> json_i64 code | None \<Rightarrow> JNull),
      (''mode'', JString (bn_mode r)), (''prompt_id'', JString (bn_prompt_id r)),
      (''started_at_unix_ms'', json_u128 rb (bn_started_at_unix_ms r)), (''stderr'', JString (bn_stderr r)),
      (''stderr_bytes'', JNumber (PosInt (of_nat (bn_stderr_bytes r)))), (''stdout'', JString (bn_stdout r)),
      (''stdout_bytes'', JNumber (PosInt (of_nat (bn_stdout_bytes r)))),
      (''tokens_per_second'', json_rate rb (bn_tokens_per_second r))]"

section \<open>Prompts\<close>

lemma validate_prompts_from_None:
  "validate_prompts_from ids ps = None \<longleftrightarrow>
     list_all (\<lambda>p. validate_prompt p = None) ps \<and> distinct (map pq_id ps) \<and> set (map pq_id ps) \<inter> set ids = {}"
  by (induction ps arbitrary: ids) (auto split: option.splits)

lemma validate_prompts_iff:
  "validate_prompts ps = None \<longleftrightarrow> list_all (\<lambda>p. validate_prompt p = None) ps \<and> distinct (map pq_id ps)"
  by (simp add: validate_prompts_def validate_prompts_from_None)

text \<open>Prompts that load are complete and told apart by their ids.\<close>

theorem loaded_prompts_usable:
  assumes "load_prompts parse path file = Inr ps"
  shows "distinct (map pq_id ps)
    \<and> (\<forall>p \<in> set ps. trim (pq_id p) \<noteq> [] \<and> trim (pq_category p) \<noteq> [] \<and> trim (pq_prompt p) \<noteq> [] \<and> pq_max_tokens p \<noteq> Some 0)"
proof -
  from assms have "validate_prompts ps = None" by (auto simp: load_prompts_def split: sum.splits option.splits)
  then show ?thesis
    by (auto simp: validate_prompts_iff list_all_iff validate_prompt_def split: if_splits)
qed

section \<open>Case ids\<close>

lemma pad_nat_no_minus: "CHR ''-'' \<notin> set (pad_nat w n)"
  using show_nat_no_minus [of n] by (auto simp: pad_nat_def)

lemma digits_value_zeros: "digits_value (replicate k (CHR ''0'') @ s) = digits_value s"
  by (induction k) (simp_all add: digits_value_def)

lemma pad_nat_inj [simp]: "pad_nat w m = pad_nat w n \<longleftrightarrow> m = n"
  by (metis digits_value_zeros digits_value_show_nat pad_nat_def)

lemma bench_case_id_inj: "bench_case_id stem i r = bench_case_id stem j q \<longleftrightarrow> i = j \<and> r = q"
  using split_at_delim [OF pad_nat_no_minus pad_nat_no_minus, of 3 "i + 1" "''r'' @ pad_nat 2 r" 3 "j + 1" "''r'' @ pad_nat 2 q"]
  by (auto simp: bench_case_id_def)

text \<open>Every run of a prompt has a case id of its own.\<close>

theorem bench_case_ids_distinct: "distinct (map fst (bench_cases stem prompts repetitions))"
proof -
  have row: "map (\<lambda>x. bench_case_id stem (fst x) r) (enumerate 0 prompts) = map (\<lambda>i. bench_case_id stem i r) [0..<length prompts]" for r
    by (simp add: enum_simps comp_def flip: map_map [of "\<lambda>i. bench_case_id stem i r" fst, unfolded comp_def])
  have m: "map fst (bench_cases stem prompts repetitions) =
      map (\<lambda>(r, i). bench_case_id stem i r) (List.product [1..<Suc repetitions] [0..<length prompts])"
    by (simp add: bench_cases_def map_concat comp_def split_beta product_concat_map row del: upt_Suc)
  show ?thesis unfolding m by (auto simp: distinct_map distinct_product inj_on_def bench_case_id_inj)
qed

section \<open>The two summaries\<close>

lemma btree_upsert_map:
  "btree_upsert k [] (\<lambda>ys. ys @ [f x]) (map (\<lambda>(k, xs). (k, map f xs)) m) =
     map (\<lambda>(k, xs). (k, map f xs)) (btree_upsert k [] (\<lambda>ys. ys @ [x]) m)"
  by (induction m) auto

lemma group_by_map: "group_by key (map f xs) = map (\<lambda>(k, ys). (k, map f ys)) (group_by (\<lambda>x. key (f x)) xs)"
  by (induction xs rule: rev_induct) (simp_all add: group_by_snoc btree_upsert_map, simp add: group_by_def)

text \<open>A record whose numbers the JSON type can hold: a duration of 64 bits, an \<open>i32\<close> exit code and a finite rate.\<close>

definition plain_record :: "bench_record \<Rightarrow> bool" where
  "plain_record r \<longleftrightarrow> unat (bn_duration_ms r) < 2 ^ 64
     \<and> (\<forall>code. bn_exit_code r = Some code \<longrightarrow> - (2 ^ 31) \<le> code \<and> code < 2 ^ 31)
     \<and> (\<forall>v. bn_tokens_per_second r = Some v \<longrightarrow> (\<exists>q. v = FFin q))"

definition metric_of :: "bench_record \<Rightarrow> json_metric" where
  "metric_of r = \<lparr>jm_mode = bn_mode r, jm_duration_ms = bn_duration_ms r,
     jm_success = (bn_exit_code r = None \<or> bn_exit_code r = Some 0), jm_tokens_per_second = bn_tokens_per_second r\<rparr>"

lemma json_i64_back: "- (2 ^ 31) \<le> n \<Longrightarrow> n < 2 ^ 31 \<Longrightarrow> json_as_i64 (json_i64 n) = Some n"
  by (auto simp: json_i64_def i64_max_def take_bit_int_eq_self uint_word_of_int)

lemma ucast_back: "unat (n :: u128) < 2 ^ 64 \<Longrightarrow> ucast (ucast n :: u64) = n"
  by (intro word_unat_eq_iff [THEN iffD2]) (simp add: unsigned_ucast_eq unsigned_take_bit_eq take_bit_nat_eq_self)

text \<open>The record with its rate as the JSON library reads it back.\<close>

fun reread :: "(rat \<Rightarrow> f64) \<Rightarrow> f64 \<Rightarrow> f64" where
  "reread rb (FFin q) = rb q"
| "reread rb v = v"

definition reread_rate :: "(rat \<Rightarrow> f64) \<Rightarrow> bench_record \<Rightarrow> bench_record" where
  "reread_rate rb r = r\<lparr>bn_tokens_per_second := map_option (reread rb) (bn_tokens_per_second r)\<rparr>"

lemma metric_of_value:
  "plain_record r \<Longrightarrow> metric_from_value (bench_record_value rb r) = Some (metric_of (reread_rate rb r))"
  by (cases "bn_exit_code r"; cases "bn_tokens_per_second r")
    (auto simp: plain_record_def metric_from_value_def bench_record_value_def metric_of_def btree_get_def json_u128_def
      json_rate_def json_i64_back ucast_back reread_rate_def)

definition killed :: "string \<Rightarrow> bench_record list \<Rightarrow> nat" where
  "killed mode rs = length (filter (\<lambda>r. bn_mode r = mode \<and> bn_exit_code r = None) rs)"

lemma map_filter_all: "(\<And>x. x \<in> set xs \<Longrightarrow> f x = Some (g x)) \<Longrightarrow> List.map_filter f xs = map g xs"
  by (induction xs) (simp_all add: List.map_filter_simps)

lemma mode_summary_map:
  "mode_summary_of mode d s v (map f rs) = mode_summary_of mode (\<lambda>r. d (f r)) (\<lambda>r. s (f r)) (\<lambda>r. v (f r)) rs"
proof -
  have "List.map_filter v (map f rs) = List.map_filter (\<lambda>r. v (f r)) rs"
    by (simp add: List.map_filter_def filter_map comp_def)
  then show ?thesis by (simp add: mode_summary_of_def filter_map comp_def)
qed

lemma filter_exits:
  "length (filter (\<lambda>r. f r = None \<or> f r = Some z) xs) = length (filter (\<lambda>r. f r = None) xs) + length (filter (\<lambda>r. f r = Some z) xs)"
  by (induction xs) auto

lemma summary_of_metrics:
  assumes "List.map_filter metric_from_value vs = map metric_of rs"
  shows "summarize_json_records vs =
    map (\<lambda>s. s\<lparr>ms_successes := ms_successes s + killed (ms_mode s) rs\<rparr>) (summarize_bench_records rs)"
proof -
  let ?plain = "\<lambda>(mode, xs). mode_summary_of mode bn_duration_ms (\<lambda>r. bn_exit_code r = Some 0) bn_tokens_per_second xs"
  let ?json = "\<lambda>(mode, xs). mode_summary_of mode bn_duration_ms (\<lambda>r. bn_exit_code r = None \<or> bn_exit_code r = Some 0) bn_tokens_per_second xs"
  have "summarize_json_records vs = map ?json (group_by bn_mode rs)"
    by (simp add: assms summarize_json_records_def group_by_map metric_of_def mode_summary_map comp_def split_beta)
  also have "\<dots> = map (\<lambda>s. s\<lparr>ms_successes := ms_successes s + killed (ms_mode s) rs\<rparr>) (summarize_bench_records rs)"
    unfolding summarize_bench_records_def map_map comp_def
  proof (rule map_cong [OF refl])
    fix p assume p: "p \<in> set (group_by bn_mode rs)"
    obtain mode xs where x: "p = (mode, xs)" by fastforce
    with p have g: "xs = filter (\<lambda>r. bn_mode r = mode) rs" by (auto simp: group_by_mem)
    have "length (filter (\<lambda>r. bn_exit_code r = None \<or> bn_exit_code r = Some 0) xs)
        = killed mode rs + length (filter (\<lambda>r. bn_exit_code r = Some 0) xs)"
    proof -
      have "killed mode rs = length (filter (\<lambda>r. bn_exit_code r = None) xs)" by (simp add: g killed_def conj_commute)
      then show ?thesis by (simp only: filter_exits)
    qed
    then have "mode_summary_of mode bn_duration_ms (\<lambda>r. bn_exit_code r = None \<or> bn_exit_code r = Some 0) bn_tokens_per_second xs
        = ?plain (mode, xs)\<lparr>ms_successes := ms_successes (?plain (mode, xs)) + killed (ms_mode (?plain (mode, xs))) rs\<rparr>"
      by (simp add: mode_summary_of_def)
    then show "?json p = ?plain p\<lparr>ms_successes := ms_successes (?plain p) + killed (ms_mode (?plain p)) rs\<rparr>" by (simp add: x)
  qed
  finally show ?thesis .
qed

text \<open>C35: the summary tool counts a killed run as a success. \<open>lab4-summarize\<close> reads the records back from their JSON; on
  what \<open>lab4-bench\<close> writes (numbers the JSON type holds) its summary is the one the typed \<open>summarize_bench_records\<close>
  makes of the same records with their rates as the JSON library reads them back (exactly the same records when
  it reads every rate back unchanged), with the same modes, counts and averages, except that a mode's successes
  are higher by the number of its runs that ended without an exit code, that is by a signal.\<close>

theorem json_summary_counts_killed_runs:
  assumes "\<forall>r \<in> set rs. plain_record r"
  shows "summarize_json_records (map (bench_record_value rb) rs) =
    map (\<lambda>s. s\<lparr>ms_successes := ms_successes s + killed (ms_mode s) rs\<rparr>)
      (summarize_bench_records (map (reread_rate rb) rs))"
proof -
  have m: "List.map_filter metric_from_value (map (bench_record_value rb) rs) = map metric_of (map (reread_rate rb) rs)"
    using map_filter_all [of rs "\<lambda>r. metric_from_value (bench_record_value rb r)" "\<lambda>r. metric_of (reread_rate rb r)"]
      assms metric_of_value
    by (simp add: List.map_filter_def filter_map comp_def)
  have "killed mode (map (reread_rate rb) rs) = killed mode rs" for mode
    by (simp add: killed_def filter_map comp_def reread_rate_def)
  with summary_of_metrics [OF m] show ?thesis by simp
qed

section \<open>The stand-in model\<close>

text \<open>How the model file is brought in makes no difference to an answer.\<close>

theorem load_modes_agree:
  assumes "mf_open f" "mf_len f = Some (of_nat (length bs))" "length bs < 2 ^ 64" "mf_read f = Some bs" "mf_mmap f (length bs) = Some bs"
  shows "\<exists>m m'. load_model path f LoadRead = Inr m \<and> load_model path f LoadMmap = Inr m'
    \<and> storage_as_slice (lm_storage m) = bs \<and> storage_as_slice (lm_storage m') = bs
    \<and> lm_bytes_len m = lm_bytes_len m' \<and> infer u t m prompt c = infer u t m' prompt c"
proof -
  have "map_file f (of_nat (length bs)) = Some bs"
  proof -
    have n: "unat (of_nat (length bs) :: u64) = length bs" using assms(3) by (simp add: unsigned_of_nat take_bit_nat_eq_self)
    then have "(of_nat (length bs) :: u64) = 0 \<longleftrightarrow> bs = []" by (metis length_0_conv unat_eq_zero)
    then show ?thesis using assms(5) n by (simp add: map_file_def)
  qed
  then show ?thesis using assms by (simp add: load_model_def infer_def)
qed

lemma utf8_split_take: "utf8_split (concat (take n (utf8_split s))) = take n (utf8_split s)"
proof (induction s arbitrary: n rule: utf8_split.induct)
  case (2 b bs)
  let ?k = "utf8_width b - 1"
  show ?case
  proof (cases n)
    case (Suc m)
    have "drop ?k (take ?k bs @ concat (take m (utf8_split (drop ?k bs)))) = concat (take m (utf8_split (drop ?k bs)))"
      "take ?k (take ?k bs @ concat (take m (utf8_split (drop ?k bs)))) = take ?k bs"
      by (cases "?k \<le> length bs"; simp)+
    then show ?thesis using 2 [OF refl, of m] by (simp add: Suc Let_def)
  qed simp
qed simp

text \<open>An answer is cut to four characters per token asked for, and reports at most the tokens asked for; asked for
  none it is empty but still reports one.\<close>

theorem answer_within_limits:
  "length (utf8_split (lp_text (infer u t m prompt c))) \<le> 4 * gc_max_tokens c
    \<and> lp_generated_tokens (infer u t m prompt c) \<le> max 1 (gc_max_tokens c)
    \<and> (gc_max_tokens c = 0 \<longrightarrow> lp_text (infer u t m prompt c) = [] \<and> lp_generated_tokens (infer u t m prompt c) = 1)"
  by (auto simp: infer_def Let_def generate_text_def limit_output_tokens_def utf8_split_take estimate_tokens_def split_whitespace_def)

section \<open>The worker\<close>

text \<open>A request that fails ends the worker: the connections after it, whoever opens them, are never answered.\<close>

theorem failed_request_ends_worker:
  assumes "handle_worker_stream u parse m conn = Inl e"
  shows "worker_loop u parse m (cs @ Inr conn # later) = worker_loop u parse m (cs @ [Inr conn])"
proof (induction cs)
  case (Cons x cs)
  then show ?case by (cases x) (auto split: sum.split)
qed (simp add: assms)

section \<open>Concrete inputs\<close>

definition demo_killed :: bench_record where
  "demo_killed = \<lparr>bn_case_id = ''c'', bn_prompt_id = ''p'', bn_category = ''os'', bn_mode = ''single'', bn_started_at_unix_ms = 0,
     bn_duration_ms = 5, bn_exit_code = None, bn_tokens_per_second = Some (FFin 2), bn_stdout_bytes = 0, bn_stderr_bytes = 0,
     bn_stdout = [], bn_stderr = [], bn_command = []\<rparr>"

theorem json_summary_counts_killed_runs_witness:
  "map ms_successes (summarize_bench_records [demo_killed]) = [0]
     \<and> map ms_successes (summarize_json_records (map (bench_record_value FFin) [demo_killed])) = [1]"
proof -
  have "plain_record demo_killed" by (simp add: plain_record_def demo_killed_def)
  then have "summarize_json_records (map (bench_record_value FFin) [demo_killed]) =
      map (\<lambda>s. s\<lparr>ms_successes := ms_successes s + killed (ms_mode s) [demo_killed]\<rparr>)
        (summarize_bench_records (map (reread_rate FFin) [demo_killed]))"
    by (intro json_summary_counts_killed_runs) simp
  moreover have "reread_rate FFin demo_killed = demo_killed" by (simp add: reread_rate_def demo_killed_def)
  moreover have "group_by bn_mode [demo_killed] = [(''single'', [demo_killed])]" by (simp add: group_by_def demo_killed_def)
  ultimately show ?thesis by (simp add: summarize_bench_records_def mode_summary_of_def killed_def demo_killed_def)
qed

end
