(* ===== verification/Spec2Isabelle.thy ===== *)
theory Spec2Isabelle
  imports Action_Exec Context_Memory Trace_Engine Daemon_Pipeline Collectors Cloud_Client Replay
    Next_App_Eval Next_App_Benchmark Cli_Commands Daemon_Startup Lab4_Tools
begin

text \<open>
  \<^bold>\<open>DiPECS: the decision pipeline of an on-device agent.\<close>

  The program (Rust, \<open>crates/\<close>) watches an Android device, reduces what it sees to sanitized
  windows, lets a decision backend propose actions for the next moment (warm a process, prefetch a file, keep one
  alive, release memory, or nothing), checks every proposal against a policy, executes what is left through an adapter, and
  learns from the outcome. Its parts, in the order an event meets them, with the theory that models each:

  \<^item> Collectors put raw events (\<open>aios-spec\<close>: \<open>Event_Types\<close>) into a channel: the JSONL tailer
    (\<open>Jsonl_Tailer\<close>: \<open>android_jsonl.rs\<close>) and the daemon's own sources (\<open>Collectors\<close>: \<open>proc_reader.rs\<close>,
    \<open>system_collector.rs\<close>, the probes, \<open>collection.rs\<close>).
  \<^item> The air-gap (\<open>Privacy_Airgap\<close>: \<open>privacy_airgap.rs\<close>, \<open>collector_ingress.rs\<close>, over \<open>Text_Analysis\<close>) turns each into a
    sanitized event; \<open>Collection_Stats\<close> counts them; \<open>Context_Builder\<close> cuts them into windows.
  \<^item> The memory (\<open>Context_Memory\<close>: \<open>context_memory.rs\<close>, over \<open>BTree_Map\<close> and \<open>Float\<close>) adds the behaviour profile.
  \<^item> The router (\<open>Router\<close>: \<open>router/mod.rs\<close>) chooses a backend: rules (\<open>Rule_Based\<close>), the scored evaluator
    (\<open>Local_Evaluator\<close>), the predictive model (\<open>Next_App_Model\<close>, \<open>Next_App_Train\<close>, \<open>Predictive_Backend\<close>) or the cloud
    (\<open>Cloud_Translate\<close>, \<open>Cloud_Client\<close>). \<open>Decision_Backend\<close> is what they have in common; \<open>Protocol_Types\<close> holds
    the intents, contexts and records that pass between the parts.
  \<^item> The policy (\<open>Policy_Engine\<close>: \<open>policy_engine.rs\<close>) and the lifecycle (\<open>Action_Lifecycle\<close>: \<open>action_lifecycle.rs\<close>,
    \<open>governance/mod.rs\<close>) judge, seal, execute and record every action; the adapters are \<open>Action_Exec\<close> (\<open>aios-action\<close>).
  \<^item> The daemon (\<open>Daemon_Pipeline\<close>: \<open>pipeline.rs\<close>) runs all of this in a loop, as \<open>Daemon_Startup\<close> (\<open>aios-daemon/src/lib.rs\<close>)
    puts it together from arguments and environment.
  \<^item> Offline, \<open>Replay\<close> and \<open>Replay_Audit\<close> (\<open>aios-cli/src/replay.rs\<close>) run a recorded trace through the same parts,
    \<open>Trace_Engine\<close> compares with a golden trace, and the next-app tools train and measure models (\<open>Next_App_Data\<close>,
    \<open>Next_App_Baselines\<close>, \<open>Next_App_Eval\<close>, \<open>Next_App_Benchmark\<close>). \<open>Cli_Commands\<close> is the rest of the command line
    tool, \<open>Lab4_Tools\<close> the separate experiment tools in \<open>lab4/\<close>.

  \<open>Prelude\<close>, \<open>Parsing\<close>, \<open>Float\<close>, \<open>BTree_Map\<close> and \<open>Json_Value\<close> are the library: strings as UTF-8 bytes, integer and
  time parsing, IEEE binary floats on exact rationals, ordered maps, JSON documents.

  \<^bold>\<open>How state and operations correspond.\<close> A struct is a record with a prefix per struct, an enum a
  datatype with the source's variants; integers keep their width as words (\<open>u64\<close>) or as \<open>int\<close> with the wrap-around
  of a release build written out (\<open>i64\<close>). A method is a definition of the same name; one that changes
  \<open>self\<close> returns the new state. Errors are values of a sum, panics \<open>None\<close>. Mutable things behind a trait
  (an adapter, a backend) thread a state of any type \<open>'s\<close> or \<open>'w\<close>: what they know is arbitrary, and what is
  proved holds whatever they do. Loops over input recurse on it, so no fuel is needed: the
  daemon's loop consumes the list of what \<open>select!\<close> yields until the channel closes or shutdown is asked, and
  everything that searches recurses on a list or a bounded number of rounds, as the code does.

  \<^bold>\<open>Parameters.\<close> Code that is not in the repository is an argument: \<open>serde_json\<close> (parsing, and
  what it reads back for a float it wrote: \<open>rb\<close> in \<open>Lab4_Tools\<close>), SHA-256 and the HMAC, HTTP and sockets, the file
  system, clocks and fresh ids, \<open>exp\<close> and \<open>ln\<close> of the platform's libm, Unicode's lower-casing tables, \<open>rand\<close>'s
  shuffle, and which records the replay's two sinks take. The iteration order of a \<open>HashMap\<close> is a parameter that
  may be any permutation wherever it can be observed. Facts used of a parameter are named hypotheses of the
  property that uses them, each with a witness that satisfies them.

  \<^bold>\<open>What the lemmas show.\<close>
  \<^item> Authority: what the adapter executes is exactly what the policy approved, in order; an approval
    respects every documented limit; the optimised policy loop is the position-wise reference; every backend
    that is built in stays within its capability. A step relation gives the life cycle of an action, and every
    record is one of its runs.
  \<^item> Privacy: text that the air-gap hides influences nothing the daemon does; what it emits are declared identifiers;
    the cloud is consulted only behind its gates; a daemon without bridge and cloud in its environment depends on neither.
  \<^item> Nothing is lost: finished lines of a trace are delivered once, shutdown flushes every event, each window's line in the
    runtime trace accounts for its actions, the replay accounts for its lines, its errors are those of its
    input and its sinks, and the audit stream has a normal form.
  \<^item> Learning: the memory's invariant survives any run; each prewarm is judged once; trained tables are
    the empirical frequencies and pass the loader's checks; splits do not leak, examples do not look ahead while
    sessions do not overlap; rates lie in range; every ranked app is observable or known.

  Interfaces are locales: \<open>ordered_map\<close>, \<open>action_adapter\<close>, \<open>decision_backend\<close> with \<open>confined_backend\<close>,
  \<open>window_invariant\<close> (what each window extends holds when the daemon's loop stops) and \<open>emission\<close> (what the emitter keeps
  the replay keeps), each interpreted on the definitions that provide it.

  \<^bold>\<open>Left out.\<close> Logging; argument parsing; the spawning of tasks and threads (their interleaving is the
  order of the inputs); process setup; derived serialisers; the Kotlin collector, except for the text it signs.
  The panic \<open>slice::sort_by\<close> allows itself when a comparator is no total order is left out too: it needs a score that is
  a NaN (\<open>Next_App_Model.nan_score_breaks_order\<close>), which the checks of an artifact do not exclude; on scores that are numbers
  the comparator is a total preorder. Overflow checks of debug builds are not modelled: arithmetic wraps as in a
  release build.
\<close>

end
